(* ===== verification/Prelude.thy ===== *)
theory Prelude imports Main "HOL-Library.Word"
begin

text \<open>
  Shared vocabulary of the development: the machine integers of the i686 target, the values
  kernel code can end in, the status codes of \<open>src/src/status.h\<close>, little-endian access to
  physical memory, and the generic lemmas on them that every component uses.
\<close>

unbundle bit_operations_syntax

section \<open>Machine integers\<close>

type_synonym u8 = "8 word"
type_synonym u16 = "16 word"
type_synonym u32 = "32 word"

text \<open>
  A C \<open>int\<close> is an \<^typ>\<open>int\<close>; an operation that may leave the 32-bit range goes through
  \<open>i32\<close>, which wraps as the compiled code (gcc, \<open>-O0\<close>) does.
\<close>

definition i32 :: "int \<Rightarrow> int" where
  "i32 x = signed_take_bit 31 x"

named_theorems cint_simps \<open>arithmetic of C integers that stays in range\<close>
named_theorems mem_simps \<open>reads after writes\<close>
named_theorems outcome_simps \<open>running kernel code\<close>
named_theorems keeps_intros \<open>code that leaves a part of the state alone\<close>

lemma i32_id [cint_simps]: "- 2147483648 \<le> x \<Longrightarrow> x < 2147483648 \<Longrightarrow> i32 x = x"
  unfolding i32_def by (rule signed_take_bit_int_eq_self) simp_all

lemma i32_range: "- 2147483648 \<le> i32 x \<and> i32 x < 2147483648"
  using signed_take_bit_int_greater_eq_minus_exp [of 31 x] signed_take_bit_int_less_exp [of 31 x]
  by (simp add: i32_def)

lemma i32_0 [simp]: "i32 0 = 0"
  by (simp add: i32_def)

lemma sint_small:
  assumes "unat (x :: u32) < 2147483648"
  shows "sint x = int (unat x)"
proof -
  have "int (unat x) < 2147483648" using assms by linarith
  then show ?thesis
    by (simp add: sint_uint signed_take_bit_int_eq_self_iff order_trans [OF _ unsigned_greater_eq])
qed

text \<open>C division truncates towards zero.\<close>

definition cdiv :: "int \<Rightarrow> int \<Rightarrow> int" where
  "cdiv a b = sgn a * sgn b * (\<bar>a\<bar> div \<bar>b\<bar>)"

definition cmod :: "int \<Rightarrow> int \<Rightarrow> int" where
  "cmod a b = a - cdiv a b * b"

lemma cdiv_nonneg [cint_simps]: "0 \<le> a \<Longrightarrow> 0 < b \<Longrightarrow> cdiv a b = a div b"
  by (cases "a = 0") (simp_all add: cdiv_def)

lemma cmod_nonneg [cint_simps]: "0 \<le> a \<Longrightarrow> 0 < b \<Longrightarrow> cmod a b = a mod b"
  by (simp add: cmod_def cdiv_nonneg minus_div_mult_eq_mod)

lemma cdiv_nonpos [cint_simps]: "a \<le> 0 \<Longrightarrow> 0 < b \<Longrightarrow> cdiv a b = - ((- a) div b)"
  by (cases "a = 0") (simp_all add: cdiv_def)

lemma cmod_nonpos [cint_simps]: "a \<le> 0 \<Longrightarrow> 0 < b \<Longrightarrow> cmod a b = - ((- a) mod b)"
  by (simp add: cmod_def cdiv_nonpos minus_div_mult_eq_mod [symmetric])

lemma cmod_bound:
  assumes "0 < b"
  shows "\<bar>cmod a b\<bar> < b"
proof (cases "0 \<le> a")
  case True
  with assms show ?thesis by (simp add: cmod_nonneg)
next
  case False
  with assms show ?thesis by (simp add: cmod_nonpos)
qed

text \<open>Rounding up to a multiple of 4096.\<close>

lemma round_up_div:
  fixes n :: nat
  assumes "n mod 4096 \<noteq> 0"
  shows "(n + 4095) div 4096 = n div 4096 + 1" "(n - n mod 4096 + 4096) div 4096 = n div 4096 + 1"
proof -
  define q r where "q = n div 4096" and "r = n mod 4096"
  have n: "n = 4096 * q + r" and r: "r < 4096" "0 < r" using assms by (simp_all add: q_def r_def)
  have "(n + 4095) div 4096 = q + 1"
    by (rule div_nat_eqI) (use n r in simp_all)
  then show "(n + 4095) div 4096 = n div 4096 + 1" by (simp add: q_def)
  have "(n - r + 4096) div 4096 = q + 1" 
    by (rule div_nat_eqI) (use n r in simp_all)
  then show "(n - n mod 4096 + 4096) div 4096 = n div 4096 + 1" by (simp add: q_def r_def)
qed

lemma round_up_div_0: "n mod 4096 = 0 \<Longrightarrow> (n + 4095) div 4096 = n div (4096::nat)"
  by (simp add: div_add1_eq)

section \<open>How kernel code ends\<close>

text \<open>
  Code of the kernel returns, panics (\<open>panic\<close> of \<open>kernel.c\<close> prints and loops for ever),
  performs an access that C leaves undefined, or loops for ever elsewhere.
\<close>

datatype 'a outcome = Ret 'a | Panic string | Fault string | Hang

type_synonym ('s, 'a) prog = "'s \<Rightarrow> ('a \<times> 's) outcome"

definition kret :: "'a \<Rightarrow> ('s, 'a) prog" where
  "kret a s = Ret (a, s)"

definition kbind :: "('s, 'a) prog \<Rightarrow> ('a \<Rightarrow> ('s, 'b) prog) \<Rightarrow> ('s, 'b) prog" where
  "kbind f g s = (case f s of Ret r \<Rightarrow> g (fst r) (snd r) | Panic e \<Rightarrow> Panic e | Fault e \<Rightarrow> Fault e
     | Hang \<Rightarrow> Hang)"

definition kpanic :: "string \<Rightarrow> ('s, 'a) prog" where
  "kpanic e s = Panic e"

definition kfault :: "string \<Rightarrow> ('s, 'a) prog" where
  "kfault e s = Fault e"

definition kget :: "('s \<Rightarrow> 'a) \<Rightarrow> ('s, 'a) prog" where
  "kget f s = Ret (f s, s)"

definition kmod :: "('s \<Rightarrow> 's) \<Rightarrow> ('s, unit) prog" where
  "kmod f s = Ret ((), f s)"

text \<open>A read of a value that the code assumes to be there: reading through a dangling or null
  pointer is undefined.\<close>

definition kread :: "string \<Rightarrow> ('s \<Rightarrow> 'a option) \<Rightarrow> ('s, 'a) prog" where
  "kread e f s = (case f s of None \<Rightarrow> Fault e | Some a \<Rightarrow> Ret (a, s))"

lemma kret_apply [outcome_simps]: "kret a s = Ret (a, s)"
  by (simp add: kret_def)

lemma kpanic_apply [outcome_simps]: "kpanic e s = Panic e"
  by (simp add: kpanic_def)

lemma kfault_apply [outcome_simps]: "kfault e s = Fault e"
  by (simp add: kfault_def)

lemma kget_apply [outcome_simps]: "kget f s = Ret (f s, s)"
  by (simp add: kget_def)

lemma kmod_apply [outcome_simps]: "kmod f s = Ret ((), f s)"
  by (simp add: kmod_def)

lemma kread_Some [outcome_simps]: "f s = Some a \<Longrightarrow> kread e f s = Ret (a, s)"
  by (simp add: kread_def)

lemma kread_None [outcome_simps]: "f s = None \<Longrightarrow> kread e f s = Fault e"
  by (simp add: kread_def)

lemma kbind_Ret [outcome_simps]: "f s = Ret (a, t) \<Longrightarrow> kbind f g s = g a t"
  by (simp add: kbind_def)

lemma kbind_Panic [outcome_simps]: "f s = Panic e \<Longrightarrow> kbind f g s = Panic e"
  by (simp add: kbind_def)

lemma kbind_Fault [outcome_simps]: "f s = Fault e \<Longrightarrow> kbind f g s = Fault e"
  by (simp add: kbind_def)

lemma kbind_Hang [outcome_simps]: "f s = Hang \<Longrightarrow> kbind f g s = Hang"
  by (simp add: kbind_def)

lemma kbind_assoc: "kbind (kbind f g) h = kbind f (\<lambda>a. kbind (g a) h)"
  by (rule ext) (simp add: kbind_def split: outcome.split)

lemma kbind_RetE:
  assumes "kbind f g s = Ret (b, u)"
  obtains a t where "f s = Ret (a, t)" and "g a t = Ret (b, u)"
  using assms by (auto simp: kbind_def split: outcome.splits)

text \<open>Code that, when it returns, has left the part \<open>v\<close> of the state as it was.\<close>

definition keeps :: "('s \<Rightarrow> 'v) \<Rightarrow> ('s, 'a) prog \<Rightarrow> bool" where
  "keeps v f \<longleftrightarrow> (\<forall>s a t. f s = Ret (a, t) \<longrightarrow> v t = v s)"

lemma keepsI: "(\<And>s a t. f s = Ret (a, t) \<Longrightarrow> v t = v s) \<Longrightarrow> keeps v f"
  by (simp add: keeps_def)

lemma keepsD: "keeps v f \<Longrightarrow> f s = Ret (a, t) \<Longrightarrow> v t = v s"
  by (simp add: keeps_def)

lemma keeps_simple [keeps_intros]:
  "keeps v (kret a)" "keeps v (kpanic e)" "keeps v (kfault e)" "keeps v (kget f)" "keeps v (kread e g)"
  by (auto simp: keeps_def kret_def kpanic_def kfault_def kget_def kread_def split: option.splits)

lemma keeps_kmod [keeps_intros]: "(\<And>s. v (f s) = v s) \<Longrightarrow> keeps v (kmod f)"
  by (auto simp: keeps_def kmod_def)

lemma keeps_kbind [keeps_intros]: "keeps v f \<Longrightarrow> (\<And>a. keeps v (g a)) \<Longrightarrow> keeps v (kbind f g)"
  by (fastforce simp: keeps_def elim: kbind_RetE)

lemma keeps_if [keeps_intros]: "keeps v f \<Longrightarrow> keeps v g \<Longrightarrow> keeps v (if b then f else g)"
  by simp

lemma keeps_Let [keeps_intros]: "(\<And>x. keeps v (f x)) \<Longrightarrow> keeps v (Let a f)"
  by (simp add: Let_def)

lemma keeps_option [keeps_intros]:
  "keeps v f \<Longrightarrow> (\<And>x. keeps v (g x)) \<Longrightarrow> keeps v (case y of None \<Rightarrow> f | Some x \<Rightarrow> g x)"
  by (simp split: option.split)

lemma keeps_prod [keeps_intros]: "(\<And>x y. keeps v (g x y)) \<Longrightarrow> keeps v (case p of (x, y) \<Rightarrow> g x y)"
  by (simp split: prod.split)

text \<open>A loop that may run for ever is a partial function; not returning is \<^term>\<open>Hang\<close>.\<close>

definition run_loop :: "'a outcome option \<Rightarrow> 'a outcome" where
  "run_loop r = (case r of None \<Rightarrow> Hang | Some a \<Rightarrow> a)"

lemma run_loop_simps [simp]: "run_loop None = Hang" "run_loop (Some a) = a"
  by (simp_all add: run_loop_def)

section \<open>Status codes\<close>

datatype peachos_status =
  PEACHOS_ALL_OK | EIO | EINVARG | ENOMEM | EBADPATH | EFSNOTUS | ERDONLY | EUNIMP | EISTKN
  | EINFORMAT

fun status_code :: "peachos_status \<Rightarrow> int" where
  "status_code PEACHOS_ALL_OK = 0"
| "status_code EIO = 1"
| "status_code EINVARG = 2"
| "status_code ENOMEM = 3"
| "status_code EBADPATH = 4"
| "status_code EFSNOTUS = 5"
| "status_code ERDONLY = 6"
| "status_code EUNIMP = 7"
| "status_code EISTKN = 8"
| "status_code EINFORMAT = 9"

text \<open>What the code returns for a failure: the negated code.\<close>

definition err :: "peachos_status \<Rightarrow> int" where
  "err e = - status_code e"

lemma status_code_inj: "status_code a = status_code b \<Longrightarrow> a = b"
  by (cases a; cases b) simp_all

instantiation peachos_status :: linorder
begin

definition less_eq_peachos_status :: "peachos_status \<Rightarrow> peachos_status \<Rightarrow> bool" where
  "a \<le> b \<longleftrightarrow> status_code a \<le> status_code b"

definition less_peachos_status :: "peachos_status \<Rightarrow> peachos_status \<Rightarrow> bool" where
  "a < b \<longleftrightarrow> status_code a < status_code b"

instance
  by intro_classes
    (auto simp: less_eq_peachos_status_def less_peachos_status_def intro: status_code_inj)

end

lemma err_neg: "PEACHOS_ALL_OK < e \<Longrightarrow> err e < 0"
  by (simp add: err_def less_peachos_status_def)

lemma err_simps [simp]:
  "err PEACHOS_ALL_OK = 0" "err EIO = -1" "err EINVARG = -2" "err ENOMEM = -3"
  "err EBADPATH = -4" "err EFSNOTUS = -5" "err ERDONLY = -6" "err EUNIMP = -7"
  "err EISTKN = -8" "err EINFORMAT = -9"
  by (simp_all add: err_def)

section \<open>Physical memory\<close>

type_synonym mem = "u32 \<Rightarrow> u8"

definition load16 :: "mem \<Rightarrow> u32 \<Rightarrow> u16" where
  "load16 m a = ucast (m a) OR push_bit 8 (ucast (m (a + 1)))"

definition load32 :: "mem \<Rightarrow> u32 \<Rightarrow> u32" where
  "load32 m a = ucast (m a) OR push_bit 8 (ucast (m (a + 1)))
     OR push_bit 16 (ucast (m (a + 2))) OR push_bit 24 (ucast (m (a + 3)))"

definition store32 :: "mem \<Rightarrow> u32 \<Rightarrow> u32 \<Rightarrow> mem" where
  "store32 m a v = m(a := ucast v, a + 1 := ucast (drop_bit 8 v),
     a + 2 := ucast (drop_bit 16 v), a + 3 := ucast (drop_bit 24 v))"

text \<open>The \<open>n\<close> bytes from \<open>a\<close>, and memory with the bytes \<open>xs\<close> written from \<open>a\<close>.\<close>

definition bytes_at :: "mem \<Rightarrow> u32 \<Rightarrow> nat \<Rightarrow> u8 list" where
  "bytes_at m a n = map (\<lambda>i. m (a + of_nat i)) [0..<n]"

fun put_bytes :: "mem \<Rightarrow> u32 \<Rightarrow> u8 list \<Rightarrow> mem" where
  "put_bytes m a [] = m"
| "put_bytes m a (x # xs) = put_bytes (m(a := x)) (a + 1) xs"

lemma fun_upd_fold [mem_simps]: "(\<lambda>x. if x = a then v else m x) = m(a := v)"
  by (simp add: fun_upd_def)

lemma load32_store32_same [mem_simps]: "load32 (store32 m a v) a = v"
proof -
  have "ucast (ucast v :: u8) OR push_bit 8 (ucast (ucast (drop_bit 8 v) :: u8))
     OR push_bit 16 (ucast (ucast (drop_bit 16 v) :: u8))
     OR push_bit 24 (ucast (ucast (drop_bit 24 v) :: u8)) = v" (is "?w = v")
  proof (rule bit_word_eqI)
    fix n assume "n < LENGTH(32)"
    then have "n < 8 \<or> 8 \<le> n \<and> n < 16 \<or> 16 \<le> n \<and> n < 24 \<or> 24 \<le> n \<and> n < 32" by auto
    then show "bit ?w n \<longleftrightarrow> bit v n"
      by (elim disjE conjE) (auto simp: bit_simps)
  qed
  then show ?thesis
    by (simp add: load32_def store32_def)
qed

lemma unat_aligned_add:
  fixes a :: u32
  assumes "unat a mod 2 ^ k = 0" and "k \<le> 32" and "i < 2 ^ k"
  shows "unat (a + of_nat i) = unat a + i"
proof -
  obtain q where q: "unat a = q * 2 ^ k"
    using assms(1) by (metis mod_0_imp_dvd dvd_def mult.commute)
  have e: "(2::nat) ^ 32 = 2 ^ (32 - k) * 2 ^ k"
    using assms(2) by (simp flip: power_add)
  have "q * 2 ^ k < 2 ^ (32 - k) * 2 ^ k"
    using unsigned_less [of a, where 'a = nat] q e by simp
  then have "q < 2 ^ (32 - k)" by simp
  then have "(q + 1) * 2 ^ k \<le> 2 ^ (32 - k) * 2 ^ k"
    by (intro mult_le_mono1) simp
  then have lt: "unat a + i < 2 ^ 32"
    using assms(3) q e by (simp add: algebra_simps)
  then have "i < 2 ^ 32" by simp
  then have "unat (of_nat i :: u32) = i"
    by (simp add: unat_of_nat)
  with lt show ?thesis
    by (simp add: unat_word_ariths)
qed

lemma aligned_blocks_disjoint:
  fixes a b :: u32
  assumes "unat a mod 2 ^ k = 0" and "unat b mod 2 ^ k = 0" and "k \<le> 32"
    and "i < 2 ^ k" and "j < 2 ^ k" and "a \<noteq> b"
  shows "a + of_nat i \<noteq> b + of_nat j"
proof
  assume "a + of_nat i = b + of_nat j"
  then have e: "unat a + i = unat b + j"
    using unat_aligned_add [OF assms(1,3,4)] unat_aligned_add [OF assms(2,3,5)] by simp
  obtain q r where q: "unat a = q * 2 ^ k" and r: "unat b = r * 2 ^ k"
    using assms(1,2) by (metis mod_0_imp_dvd dvd_def mult.commute)
  have "q = (unat a + i) div 2 ^ k" "r = (unat b + j) div 2 ^ k"
    using assms(4,5) q r by simp_all
  with e have "q = r" by simp
  with q r have "a = b" by (simp add: word_unat_eq_iff)
  with assms(6) show False by simp
qed

lemma store32_apply_other:
  assumes "x \<noteq> a" "x \<noteq> a + 1" "x \<noteq> a + 2" "x \<noteq> a + 3"
  shows "store32 m a v x = m x"
  using assms by (simp add: store32_def)

lemma load32_cong:
  assumes "m a = m' a" "m (a + 1) = m' (a + 1)" "m (a + 2) = m' (a + 2)" "m (a + 3) = m' (a + 3)"
  shows "load32 m a = load32 m' a"
  using assms by (simp add: load32_def)

lemma load32_store32_other [mem_simps]:
  fixes a b :: u32
  assumes "unat a mod 4 = 0" and "unat b mod 4 = 0" and "a \<noteq> b"
  shows "load32 (store32 m a v) b = load32 m b"
proof -
  have ne: "b + of_nat j \<noteq> a + of_nat i" if "i < 4" "j < 4" for i j
    using aligned_blocks_disjoint [of b 2 a j i] assms that by simp
  have d: "store32 m a v (b + of_nat j) = m (b + of_nat j)" if "j < 4" for j
    using ne [of 0 j] ne [of 1 j] ne [of 2 j] ne [of 3 j] that
    by (intro store32_apply_other) simp_all
  show ?thesis
    using d [of 0] d [of 1] d [of 2] d [of 3] by (intro load32_cong) simp_all
qed

end
