(* ===== verification/CMemory.thy ===== *)
theory CMemory imports Prelude
begin

text \<open>
  \<open>src/src/memory/memory.c\<close>: \<open>memset\<close>, \<open>memcmp\<close> and \<open>memcpy\<close> on physical
  memory, with the closed forms the other components use.
\<close>

section \<open>Operations\<close>

text \<open>The loop \<open>for (i = 0; i < size; i++) c_ptr[i] = (char) c\<close> after \<open>n\<close> rounds.\<close>

primrec memset_loop :: "mem \<Rightarrow> u32 \<Rightarrow> u8 \<Rightarrow> nat \<Rightarrow> mem" where
  "memset_loop m p c 0 = m"
| "memset_loop m p c (Suc i) = (memset_loop m p c i)(p + of_nat i := c)"

definition memset :: "mem \<Rightarrow> u32 \<Rightarrow> int \<Rightarrow> u32 \<Rightarrow> mem" where
  "memset m p c sz = memset_loop m p (word_of_int c) (unat sz)"

text \<open>\<open>while (len-- > 0)\<close>: \<open>n\<close> rounds are left; the bytes are compared as signed characters.\<close>

fun memcmp_loop :: "mem \<Rightarrow> u32 \<Rightarrow> u32 \<Rightarrow> nat \<Rightarrow> int" where
  "memcmp_loop m s1 s2 0 = 0"
| "memcmp_loop m s1 s2 (Suc n) =
     (if m s1 \<noteq> m s2 then (if sint (m s1) < sint (m s2) then -1 else 1)
      else memcmp_loop m (s1 + 1) (s2 + 1) n)"

definition memcmp :: "mem \<Rightarrow> u32 \<Rightarrow> u32 \<Rightarrow> int \<Rightarrow> int" where
  "memcmp m s1 s2 len = memcmp_loop m s1 s2 (nat len)"

text \<open>
  \<open>while (len--)\<close> stops when \<open>len\<close> reaches 0, so a negative length runs through the
  whole 32-bit range.
\<close>

fun memcpy_loop :: "mem \<Rightarrow> u32 \<Rightarrow> u32 \<Rightarrow> nat \<Rightarrow> mem" where
  "memcpy_loop m d s 0 = m"
| "memcpy_loop m d s (Suc n) = memcpy_loop (m(d := m s)) (d + 1) (s + 1) n"

definition memcpy :: "mem \<Rightarrow> u32 \<Rightarrow> u32 \<Rightarrow> int \<Rightarrow> mem" where
  "memcpy m d s len = memcpy_loop m d s (unat (word_of_int len :: u32))"

section \<open>Byte ranges\<close>

text \<open>Address \<open>a\<close> is one of the \<open>n\<close> bytes from \<open>p\<close> (addresses wrap).\<close>

definition in_range :: "u32 \<Rightarrow> u32 \<Rightarrow> nat \<Rightarrow> bool" where
  "in_range a p n \<longleftrightarrow> unat (a - p) < n"

lemma in_range_0 [simp]: "\<not> in_range a p 0"
  by (simp add: in_range_def)

lemma unat_of_nat_u32: "n < 4294967296 \<Longrightarrow> unat (of_nat n :: u32) = n"
  by (simp add: unat_of_nat)

lemma in_range_add [simp]: "n \<le> 4294967296 \<Longrightarrow> i < n \<Longrightarrow> in_range (p + of_nat i) p n"
  by (simp add: in_range_def unat_of_nat_u32)

lemma in_rangeE:
  assumes "in_range a p n"
  obtains i where "i < n" and "a = p + of_nat i"
proof
  show "unat (a - p) < n" using assms by (simp add: in_range_def)
  show "a = p + of_nat (unat (a - p))" by simp
qed

lemma unat_eq_iff: "i < 4294967296 \<Longrightarrow> unat (x :: u32) = i \<longleftrightarrow> x = of_nat i"
  using unat_of_nat_u32 [of i] by auto

lemma in_range_Suc: "i < 4294967296 \<Longrightarrow> in_range a p (Suc i) \<longleftrightarrow> a = p + of_nat i \<or> in_range a p i"
proof -
  assume i: "i < 4294967296"
  have "unat (a - p) = i \<longleftrightarrow> a = p + of_nat i"
    using unat_eq_iff [OF i] by (simp add: diff_eq_eq add.commute)
  then show ?thesis
    by (auto simp: in_range_def less_Suc_eq)
qed

lemma in_range_mono: "in_range a p n \<Longrightarrow> n \<le> k \<Longrightarrow> in_range a p k"
  by (simp add: in_range_def)

lemma in_range_part: "k + n \<le> N \<Longrightarrow> N \<le> 4294967296 \<Longrightarrow> in_range x (p + of_nat k) n \<Longrightarrow> in_range x p N"
  using in_range_add [of N _ p] by (auto elim!: in_rangeE simp: add.assoc simp flip: of_nat_add)

lemma in_range_forward:
  "unat p + n \<le> 4294967296 \<Longrightarrow> in_range a p n \<longleftrightarrow> unat p \<le> unat a \<and> unat a < unat p + n"
  by (auto simp: in_range_def unat_sub_if')

lemma unat_forward: "unat (p :: u32) + n < 4294967296 \<Longrightarrow> unat (p + of_nat n) = unat p + n"
  by (simp add: unat_word_ariths unat_of_nat)

text \<open>Two ranges have no byte in common.\<close>

definition disjoint_ranges :: "u32 \<Rightarrow> nat \<Rightarrow> u32 \<Rightarrow> nat \<Rightarrow> bool" where
  "disjoint_ranges p n q k \<longleftrightarrow> (\<forall>a. \<not> (in_range a p n \<and> in_range a q k))"

lemma disjoint_ranges_sym: "disjoint_ranges p n q k \<Longrightarrow> disjoint_ranges q k p n"
  by (auto simp: disjoint_ranges_def)

lemma disjoint_rangesI:
  assumes "unat p + n \<le> unat q" and "unat q + k \<le> 4294967296"
  shows "disjoint_ranges p n q k"
  unfolding disjoint_ranges_def
proof (intro allI notI, elim conjE)
  fix a assume "in_range a p n" "in_range a q k"
  then show False
    using assms by (auto simp: in_range_def unat_sub_if' split: if_splits)
qed

lemma length_bytes_at [simp]: "length (bytes_at m a n) = n"
  by (simp add: bytes_at_def)

lemma nth_bytes_at [simp]: "i < n \<Longrightarrow> bytes_at m a n ! i = m (a + of_nat i)"
  by (simp add: bytes_at_def)

lemma bytes_at_cong:
  "(\<And>x. in_range x a n \<Longrightarrow> m x = m' x) \<Longrightarrow> n \<le> 4294967296 \<Longrightarrow> bytes_at m a n = bytes_at m' a n"
  by (simp add: bytes_at_def)

lemma bytes_at_upd:
  assumes "i < n" and "n \<le> 4294967296"
  shows "bytes_at (m(a + of_nat i := x)) a n = (bytes_at m a n)[i := x]"
proof (rule nth_equalityI)
  fix j assume "j < length (bytes_at (m(a + of_nat i := x)) a n)"
  then have j: "j < n" by simp
  then have "(of_nat j :: u32) = of_nat i \<longleftrightarrow> j = i"
    using assms unat_of_nat_u32 [of i] unat_of_nat_u32 [of j] by fastforce
  with j show "bytes_at (m(a + of_nat i := x)) a n ! j = (bytes_at m a n)[i := x] ! j"
    by (simp add: nth_list_update)
qed simp

text \<open>Writing a list of bytes.\<close>

lemma in_range_Cons:
  assumes "n < 4294967296"
  shows "in_range y a (Suc n) \<longleftrightarrow> y = a \<or> in_range y (a + 1) n"
    and "in_range y (a + 1) n \<Longrightarrow> unat (y - a) = Suc (unat (y - (a + 1)))"
proof -
  have step: "unat (y - a) = Suc (unat (y - (a + 1)))" if "in_range y (a + 1) n"
  proof -
    have "unat (y - (a + 1) + 1) = Suc (unat (y - (a + 1)))"
      using that assms by (intro unat_eq_iff [THEN iffD2]) (auto simp: in_range_def)
    then show ?thesis by simp
  qed
  then show "in_range y (a + 1) n \<Longrightarrow> unat (y - a) = Suc (unat (y - (a + 1)))" .
  show "in_range y a (Suc n) \<longleftrightarrow> y = a \<or> in_range y (a + 1) n"
  proof
    assume "in_range y a (Suc n)"
    then obtain i where i: "i < Suc n" "y = a + of_nat i" by (rule in_rangeE)
    show "y = a \<or> in_range y (a + 1) n"
    proof (cases i)
      case 0
      with i show ?thesis by simp
    next
      case (Suc j)
      then have "y = (a + 1) + of_nat j" using i by simp
      then show ?thesis using Suc i(1) assms in_range_add [of n j "a + 1"] by (metis Suc_less_SucD less_imp_le)
    qed
  next
    assume "y = a \<or> in_range y (a + 1) n"
    then show "in_range y a (Suc n)"
      using step by (auto simp: in_range_def)
  qed
qed

lemma put_bytes_apply:
  "length xs \<le> 4294967296 \<Longrightarrow>
    put_bytes m a xs y = (if in_range y a (length xs) then xs ! unat (y - a) else m y)"
proof (induction xs arbitrary: m a)
  case Nil
  then show ?case by simp
next
  case (Cons x xs)
  then have n: "length xs < 4294967296" by simp
  have a: "\<not> in_range a (a + 1) (length xs)"
    using in_range_Cons(2) [OF n, of a a] by auto
  from Cons n a show ?case
    by (auto simp: in_range_Cons [OF n])
qed

lemma put_bytes_outside:
  "length xs \<le> 4294967296 \<Longrightarrow> \<not> in_range y a (length xs) \<Longrightarrow> put_bytes m a xs y = m y"
  by (simp add: put_bytes_apply)

lemma put_bytes_overwrite:
  "length xs = length ys \<Longrightarrow> length ys \<le> 4294967296 \<Longrightarrow>
    put_bytes (put_bytes m a xs) a ys = put_bytes m a ys"
  by (rule ext) (simp add: put_bytes_apply)

lemma put_bytes_bytes_at: "n \<le> 4294967296 \<Longrightarrow> put_bytes m a (bytes_at m a n) = m"
  by (rule ext) (auto simp: put_bytes_apply in_range_def)

lemma bytes_at_put_bytes:
  assumes "s + length xs \<le> n" and "n \<le> 4294967296"
  shows "bytes_at (put_bytes m (a + of_nat s) xs) a n
    = take s (bytes_at m a n) @ xs @ drop (s + length xs) (bytes_at m a n)"
  using assms
proof (induction xs arbitrary: m s)
  case Nil
  then show ?case by simp
next
  case (Cons x xs)
  have "a + of_nat s + 1 = a + of_nat (Suc s)" by (simp add: algebra_simps)
  then have "bytes_at (put_bytes m (a + of_nat s) (x # xs)) a n
      = take (Suc s) ((bytes_at m a n)[s := x]) @ xs
        @ drop (Suc s + length xs) ((bytes_at m a n)[s := x])"
    using Cons.prems Cons.IH [of "Suc s" "m(a + of_nat s := x)"]
    by (simp del: fun_upd_apply add: bytes_at_upd add.assoc add.commute [of 1])
  then show ?case
    using Cons.prems by (simp add: take_Suc_conv_app_nth take_update_swap drop_update_swap
      list_update_append min_def)
qed

lemma put_bytes_append: "put_bytes m a (xs @ ys) = put_bytes (put_bytes m a xs) (a + of_nat (length xs)) ys"
  by (induction xs arbitrary: m a) (simp_all add: algebra_simps)

lemma bytes_at_slice: "k + n \<le> N \<Longrightarrow> bytes_at m (a + of_nat k) n = take n (drop k (bytes_at m a N))"
  by (intro nth_equalityI) (simp_all add: add.assoc)

lemma bytes_at_put_bytes_same:
  "length xs \<le> 4294967296 \<Longrightarrow> bytes_at (put_bytes m a xs) a (length xs) = xs"
  using bytes_at_put_bytes [of 0 xs "length xs" m a] by simp

section \<open>Closed forms\<close>

lemma memset_loop_apply:
  "n \<le> 4294967296 \<Longrightarrow> memset_loop m p c n a = (if in_range a p n then c else m a)"
  by (induction n) (auto simp: in_range_Suc)

text \<open>
  \<open>memset\<close> writes the byte \<open>c\<close> to the \<open>size\<close> bytes from \<open>p\<close> and nothing else.
\<close>

lemma memset_apply: "memset m p c sz a = (if in_range a p (unat sz) then word_of_int c else m a)"
  using unsigned_less [of sz, where 'a = nat] by (simp add: memset_def memset_loop_apply)

lemma bytes_at_memset: "bytes_at (memset m p c sz) p (unat sz) = replicate (unat sz) (word_of_int c)"
  using unsigned_less [of sz, where 'a = nat]
  by (intro nth_equalityI) (simp_all add: memset_apply)

text \<open>\<open>memcmp\<close> answers 0 exactly when the two ranges hold the same bytes.\<close>

lemma bytes_at_Suc: "bytes_at m a (Suc n) = m a # bytes_at m (a + 1) n"
  by (rule nth_equalityI) (simp_all add: bytes_at_def nth_Cons algebra_simps del: upt_Suc split: nat.split)

lemma memcmp_loop_0_iff: "memcmp_loop m p q n = 0 \<longleftrightarrow> bytes_at m p n = bytes_at m q n"
  by (induction m p q n rule: memcmp_loop.induct) (simp_all add: bytes_at_Suc bytes_at_def [of _ _ 0])

lemma memcmp_0_iff: "memcmp m p q len = 0 \<longleftrightarrow> bytes_at m p (nat len) = bytes_at m q (nat len)"
  by (simp add: memcmp_def memcmp_loop_0_iff)

lemma in_range_step:
  assumes "n < 4294967296" and "in_range a (p + 1) n"
  shows "in_range a p (Suc n)"
proof -
  from assms(2) obtain i where "i < n" "a = p + 1 + of_nat i" by (rule in_rangeE)
  then show ?thesis
    using in_range_add [of "Suc n" "Suc i" p] assms(1) by (simp add: algebra_simps)
qed

lemma memcpy_loop_outside:
  "n \<le> 4294967296 \<Longrightarrow> \<not> in_range a d n \<Longrightarrow> memcpy_loop m d s n a = m a"
proof (induction n arbitrary: m d s)
  case 0
  then show ?case by simp
next
  case (Suc n)
  have "a \<noteq> d" using in_range_add [of "Suc n" 0 d] Suc.prems by auto
  moreover have "\<not> in_range a (d + 1) n"
    using Suc.prems in_range_step [of n a d] by auto
  ultimately show ?case using Suc by simp
qed

text \<open>Copying between disjoint ranges: the destination then holds the source's bytes.\<close>

lemma memcpy_loop_bytes:
  assumes "n \<le> 4294967296" and "disjoint_ranges d n s n"
  shows "bytes_at (memcpy_loop m d s n) d n = bytes_at m s n"
  using assms
proof (induction n arbitrary: m d s)
  case 0
  then show ?case by (simp add: bytes_at_def)
next
  case (Suc n)
  note sub = in_range_step [of n]
  have dis: "disjoint_ranges (d + 1) n (s + 1) n"
    using Suc.prems sub by (auto simp: disjoint_ranges_def)
  have d0: "\<not> in_range d (d + 1) n"
    using Suc.prems(1) by (simp add: in_range_def unsigned_minus_1_eq_mask mask_eq_exp_minus_1)
  have ds: "\<not> in_range d (s + 1) n"
    using Suc.prems sub in_range_add [of "Suc n" 0 d] by (auto simp: disjoint_ranges_def)
  have "bytes_at (memcpy_loop m d s (Suc n)) d (Suc n)
      = memcpy_loop (m(d := m s)) (d + 1) (s + 1) n d # bytes_at (memcpy_loop (m(d := m s)) (d + 1) (s + 1) n) (d + 1) n"
    by (simp add: bytes_at_Suc)
  also have "\<dots> = m s # bytes_at (m(d := m s)) (s + 1) n"
    using Suc.prems(1) d0 dis by (simp add: memcpy_loop_outside Suc.IH del: fun_upd_apply) (simp add: fun_upd_def)
  also have "bytes_at (m(d := m s)) (s + 1) n = bytes_at m (s + 1) n"
    using ds Suc.prems(1) by (intro bytes_at_cong) auto
  finally show ?case by (simp add: bytes_at_Suc)
qed

text \<open>Words of memory, by the range of their bytes.\<close>

lemma store32_outside: "\<not> in_range x a 4 \<Longrightarrow> store32 m a v x = m x"
  using in_range_add [of 4 0 a] in_range_add [of 4 1 a] in_range_add [of 4 2 a] in_range_add [of 4 3 a]
  by (intro store32_apply_other) auto

lemma load32_range: "(\<And>x. in_range x a 4 \<Longrightarrow> m x = m' x) \<Longrightarrow> load32 m a = load32 m' a"
  using in_range_add [of 4 0 a] in_range_add [of 4 1 a] in_range_add [of 4 2 a] in_range_add [of 4 3 a]
  by (intro load32_cong) auto

end
