(* ===== verification/Heap.thy ===== *)
theory Heap imports CMemory
begin

text \<open>
  \<open>src/src/memory/heap/heap.c\<close>: the block allocator behind \<open>kmalloc\<close>. The table of one
  byte per 4096-byte block lives in physical memory, as in the code; every operation is a
  function of that memory. The abstract state is a list of segments (a free block, or an
  allocation of some blocks), which \<open>enc_seg\<close> writes out as table bytes.
\<close>

declare sum_list_replicate [simp]

section \<open>Data\<close>

abbreviation (input) PEACHOS_HEAP_BLOCK_SIZE :: u32 where "PEACHOS_HEAP_BLOCK_SIZE \<equiv> 4096"

abbreviation (input) HEAP_BLOCK_TABLE_ENTRY_TAKEN :: u8 where "HEAP_BLOCK_TABLE_ENTRY_TAKEN \<equiv> 0x01"
abbreviation (input) HEAP_BLOCK_TABLE_ENTRY_FREE :: u8 where "HEAP_BLOCK_TABLE_ENTRY_FREE \<equiv> 0x00"
abbreviation (input) HEAP_BLOCK_HAS_NEXT :: u8 where "HEAP_BLOCK_HAS_NEXT \<equiv> 0x80"
abbreviation (input) HEAP_BLOCK_IS_FIRST :: u8 where "HEAP_BLOCK_IS_FIRST \<equiv> 0x40"

text \<open>\<open>entries\<close> is the address of the first table byte, \<open>table_total\<close> their number.\<close>

record heap_table =
  entries :: u32
  table_total :: u32

record heap =
  htable :: heap_table
  saddr :: u32

section \<open>Operations\<close>

text \<open>The function is declared \<open>bool\<close>, so its error code comes back as 1.\<close>

definition heap_validate_table :: "u32 \<Rightarrow> u32 \<Rightarrow> heap_table \<Rightarrow> int" where
  "heap_validate_table ptr end_ptr t =
     (let table_size = end_ptr - ptr;
          total_blocks = table_size div PEACHOS_HEAP_BLOCK_SIZE;
          res = (if table_total t \<noteq> total_blocks then err EINVARG else 0)
      in if res \<noteq> 0 then 1 else 0)"

definition heap_validate_alignment :: "u32 \<Rightarrow> bool" where
  "heap_validate_alignment ptr \<longleftrightarrow> ptr mod PEACHOS_HEAP_BLOCK_SIZE = 0"

definition heap_create :: "mem \<Rightarrow> heap \<Rightarrow> u32 \<Rightarrow> u32 \<Rightarrow> heap_table \<Rightarrow> int \<times> heap \<times> mem" where
  "heap_create m h ptr end_ptr t =
     (if \<not> heap_validate_alignment ptr \<or> \<not> heap_validate_alignment end_ptr then (err EINVARG, h, m)
      else let h' = \<lparr>htable = t, saddr = ptr\<rparr>;
               res = heap_validate_table ptr end_ptr t
           in if res < 0 then (res, h', m)
              else (res, h', memset m (entries t) 0 (table_total t)))"

definition heap_align_value_to_upper :: "u32 \<Rightarrow> u32" where
  "heap_align_value_to_upper v =
     (if v mod PEACHOS_HEAP_BLOCK_SIZE = 0 then v
      else v - v mod PEACHOS_HEAP_BLOCK_SIZE + PEACHOS_HEAP_BLOCK_SIZE)"

text \<open>The entry of block \<open>i\<close>; an index outside the table reads the memory around it.\<close>

definition entry_addr :: "heap_table \<Rightarrow> int \<Rightarrow> u32" where
  "entry_addr t i = entries t + word_of_int i"

text \<open>The search loop, from block \<open>i\<close> with the locals \<open>start_block\<close> and
  \<open>free_blocks\<close>.\<close>

function heap_scan :: "mem \<Rightarrow> heap_table \<Rightarrow> u32 \<Rightarrow> int \<Rightarrow> int \<Rightarrow> int \<Rightarrow> int" where
  "heap_scan m t total_blocks i start_block free_blocks =
     (if i < uint (table_total t) then
        (if m (entry_addr t i) AND 0x0F \<noteq> HEAP_BLOCK_TABLE_ENTRY_FREE
         then heap_scan m t total_blocks (i + 1) (-1) free_blocks
         else let start' = (if start_block = -1 then i else start_block);
                  free' = free_blocks + 1
              in if word_of_int free' = total_blocks then start'
                 else heap_scan m t total_blocks (i + 1) start' free')
      else start_block)"
  by pat_completeness auto
termination
  by (relation "measure (\<lambda>(m, t, n, i, s, f). nat (uint (table_total t) - i))") auto

declare heap_scan.simps [simp del]

definition heap_get_start_block :: "mem \<Rightarrow> heap \<Rightarrow> u32 \<Rightarrow> int" where
  "heap_get_start_block m h total_blocks =
     (let start_block = heap_scan m (htable h) total_blocks 0 (-1) 0
      in if start_block = -1 then err ENOMEM else start_block)"

definition heap_block_to_address :: "heap \<Rightarrow> int \<Rightarrow> u32" where
  "heap_block_to_address h block = saddr h + word_of_int (i32 (block * 4096))"

definition heap_address_to_block :: "heap \<Rightarrow> u32 \<Rightarrow> int" where
  "heap_address_to_block h address = cdiv (sint (address - saddr h)) 4096"

function mark_free_loop :: "mem \<Rightarrow> heap_table \<Rightarrow> int \<Rightarrow> mem" where
  "mark_free_loop m t i =
     (if i < sint (table_total t) then
        (let entry = m (entry_addr t i);
             m' = m(entry_addr t i := HEAP_BLOCK_TABLE_ENTRY_FREE)
         in if entry AND HEAP_BLOCK_HAS_NEXT = 0 then m' else mark_free_loop m' t (i + 1))
      else m)"
  by pat_completeness auto
termination
  by (relation "measure (\<lambda>(m, t, i). nat (sint (table_total t) - i))") auto

declare mark_free_loop.simps [simp del]

definition heap_mark_blocks_free :: "mem \<Rightarrow> heap \<Rightarrow> int \<Rightarrow> mem" where
  "heap_mark_blocks_free m h starting_block = mark_free_loop m (htable h) starting_block"

function mark_taken_loop :: "mem \<Rightarrow> heap_table \<Rightarrow> int \<Rightarrow> int \<Rightarrow> u8 \<Rightarrow> mem" where
  "mark_taken_loop m t i end_block entry =
     (if i \<le> end_block then
        mark_taken_loop (m(entry_addr t i := entry)) t (i + 1) end_block
          (if i \<noteq> end_block - 1 then HEAP_BLOCK_TABLE_ENTRY_TAKEN OR HEAP_BLOCK_HAS_NEXT
           else HEAP_BLOCK_TABLE_ENTRY_TAKEN)
      else m)"
  by pat_completeness auto
termination
  by (relation "measure (\<lambda>(m, t, i, e, x). nat (e + 1 - i))") auto

declare mark_taken_loop.simps [simp del]

definition heap_mark_blocks_taken :: "mem \<Rightarrow> heap \<Rightarrow> u32 \<Rightarrow> u32 \<Rightarrow> mem" where
  "heap_mark_blocks_taken m h start_block total_blocks =
     (let end_block = sint (start_block + total_blocks - 1);
          entry = (if 1 < total_blocks
                   then HEAP_BLOCK_TABLE_ENTRY_TAKEN OR HEAP_BLOCK_IS_FIRST OR HEAP_BLOCK_HAS_NEXT
                   else HEAP_BLOCK_TABLE_ENTRY_TAKEN OR HEAP_BLOCK_IS_FIRST)
      in mark_taken_loop m (htable h) (sint start_block) end_block entry)"

definition heap_malloc_blocks :: "mem \<Rightarrow> heap \<Rightarrow> u32 \<Rightarrow> u32 \<times> mem" where
  "heap_malloc_blocks m h total_blocks =
     (let start_block = heap_get_start_block m h total_blocks
      in if start_block < 0 then (0, m)
         else (heap_block_to_address h start_block,
               heap_mark_blocks_taken m h (word_of_int start_block) total_blocks))"

definition heap_malloc :: "mem \<Rightarrow> heap \<Rightarrow> u32 \<Rightarrow> u32 \<times> mem" where
  "heap_malloc m h sz =
     heap_malloc_blocks m h (heap_align_value_to_upper sz div PEACHOS_HEAP_BLOCK_SIZE)"

definition heap_free :: "mem \<Rightarrow> heap \<Rightarrow> u32 \<Rightarrow> mem" where
  "heap_free m h ptr = heap_mark_blocks_free m h (heap_address_to_block h ptr)"

section \<open>The abstract table\<close>

text \<open>\<open>Alloc k\<close> is an allocation of \<open>k + 1\<close> blocks.\<close>

datatype seg = FreeBlk | Alloc nat

fun enc_seg :: "seg \<Rightarrow> u8 list" where
  "enc_seg FreeBlk = [0x00]"
| "enc_seg (Alloc 0) = [0x41]"
| "enc_seg (Alloc (Suc k)) = 0xC1 # replicate k 0x81 @ [0x01]"

definition enc_table :: "seg list \<Rightarrow> u8 list" where
  "enc_table segs = concat (map enc_seg segs)"

fun seg_len :: "seg \<Rightarrow> nat" where
  "seg_len FreeBlk = 1"
| "seg_len (Alloc k) = Suc k"

abbreviation seg_blocks :: "seg list \<Rightarrow> nat" where
  "seg_blocks segs \<equiv> sum_list (map seg_len segs)"

lemma length_enc_seg [simp]: "length (enc_seg s) = seg_len s"
  by (cases s rule: enc_seg.cases) simp_all

lemma length_enc_table [simp]: "length (enc_table segs) = seg_blocks segs"
  by (induction segs) (simp_all add: enc_table_def)

lemma enc_table_simps [simp]:
  "enc_table [] = []"
  "enc_table (s # segs) = enc_seg s @ enc_table segs"
  "enc_table (a @ b) = enc_table a @ enc_table b"
  by (simp_all add: enc_table_def)

lemma enc_table_free [simp]: "enc_table (replicate n FreeBlk) = replicate n 0"
  by (induction n) simp_all

lemma seg_blocks_free [simp]: "seg_blocks (replicate n FreeBlk) = n"
  by (simp add: sum_list_replicate)

definition heap_table_ok :: "heap_table \<Rightarrow> bool" where
  "heap_table_ok t \<longleftrightarrow> unat (table_total t) < 524288"

text \<open>Memory \<open>m\<close> holds the table of \<open>segs\<close>.\<close>

definition heap_repr :: "mem \<Rightarrow> heap_table \<Rightarrow> seg list \<Rightarrow> bool" where
  "heap_repr m t segs \<longleftrightarrow> heap_table_ok t \<and> bytes_at m (entries t) (unat (table_total t)) = enc_table segs"

lemma heap_repr_blocks: "heap_repr m t segs \<Longrightarrow> seg_blocks segs = unat (table_total t)"
  by (metis heap_repr_def length_bytes_at length_enc_table)

lemma entry_addr_of_nat: "entry_addr t (int i) = entries t + of_nat i"
  by (simp add: entry_addr_def)

lemma entry_addr_add: "entry_addr t (int (a + i)) = entry_addr t (int a) + of_nat i"
  by (simp add: entry_addr_def)

lemma heap_repr_entry:
  assumes "heap_repr m t segs" and "i < unat (table_total t)"
  shows "m (entry_addr t (int i)) = enc_table segs ! i"
  using assms nth_bytes_at [of i "unat (table_total t)" m "entries t"]
  by (simp add: heap_repr_def entry_addr_of_nat)

section \<open>The search\<close>

text \<open>The loop over the table as a list of bytes.\<close>

fun scan_list :: "u32 \<Rightarrow> u8 list \<Rightarrow> int \<Rightarrow> int \<Rightarrow> int \<Rightarrow> int" where
  "scan_list n [] i s f = s"
| "scan_list n (e # es) i s f =
     (if e AND 0x0F \<noteq> 0 then scan_list n es (i + 1) (-1) f
      else let s' = (if s = -1 then i else s); f' = f + 1
           in if word_of_int f' = n then s' else scan_list n es (i + 1) s' f')"

lemma heap_scan_list:
  "0 \<le> i \<Longrightarrow> heap_scan m t n i s f
     = scan_list n (drop (nat i) (bytes_at m (entries t) (unat (table_total t)))) i s f"
proof (induction m t n i s f rule: heap_scan.induct)
  case (1 m t n i s f)
  let ?L = "bytes_at m (entries t) (unat (table_total t))"
  show ?case
  proof (cases "i < uint (table_total t)")
    case True
    with "1.prems" have i: "nat i < unat (table_total t)" by (simp add: nat_less_iff)
    then have d: "drop (nat i) ?L = m (entry_addr t i) # drop (nat (i + 1)) ?L"
      using "1.prems" nth_bytes_at [OF i, of m "entries t"]
      by (simp add: Cons_nth_drop_Suc [symmetric] nat_add_distrib entry_addr_def)
    show ?thesis
      unfolding heap_scan.simps [of m t n i s f] d scan_list.simps
      using "1.IH" "1.prems" True by (simp add: Let_def)
  next
    case False
    then have "unat (table_total t) \<le> nat i"
      using nat_mono [of "uint (table_total t)" i] by (simp add: not_less)
    with False show ?thesis
      by (simp add: heap_scan.simps [of m t n i s f])
  qed
qed

lemma scan_list_taken:
  "\<forall>e\<in>set A. e AND 0x0F \<noteq> 0 \<Longrightarrow>
    scan_list n (A @ B) i (-1) f = scan_list n B (i + int (length A)) (-1) f"
  by (induction A arbitrary: i) (simp_all add: algebra_simps)

lemma scan_list_free:
  "s \<noteq> -1 \<Longrightarrow> 0 \<le> f \<Longrightarrow> 0 < k \<Longrightarrow> f + int k = uint n \<Longrightarrow>
    scan_list n (replicate k 0 @ B) i s f = s"
proof (induction k arbitrary: i f)
  case 0
  then show ?case by simp
next
  case (Suc k)
  show ?case
  proof (cases k)
    case 0
    with Suc.prems have "word_of_int (f + 1) = n" by simp
    with 0 Suc.prems show ?thesis by simp
  next
    case (Suc j)
    have "f + 1 < uint n" using Suc.prems Suc \<open>k = Suc j\<close> by simp
    then have "uint (word_of_int (f + 1) :: u32) = f + 1"
      using Suc.prems(2) unsigned_less [of n, where 'a = int] unfolding uint_word_of_int by simp
    with \<open>f + 1 < uint n\<close> have "word_of_int (f + 1) \<noteq> n" by fastforce
    then show ?thesis
      using Suc.IH [of "f + 1" "i + 1"] Suc.prems \<open>k = Suc j\<close> by simp
  qed
qed

lemma scan_list_run:
  assumes "0 \<le> i" and "0 < k" and "int k = uint n"
  shows "scan_list n (replicate k 0 @ B) i (-1) 0 = i"
proof (cases k)
  case 0
  with assms show ?thesis by simp
next
  case (Suc j)
  show ?thesis
  proof (cases j)
    case 0
    with Suc assms have "n = 1" by (metis int_one_le_iff_zero_less One_nat_def of_nat_1 uint_1_eq word_uint_eq_iff)
    with 0 Suc show ?thesis by simp
  next
    case (Suc l)
    then have "n \<noteq> 1" using assms(3) \<open>k = Suc j\<close> by auto
    then show ?thesis
      using scan_list_free [of i 1 j n B "i + 1"] assms \<open>k = Suc j\<close> Suc by simp
  qed
qed

lemma enc_seg_taken: "e \<in> set (enc_seg (Alloc k)) \<Longrightarrow> e AND 0x0F \<noteq> 0"
  by (cases k) auto

lemma enc_table_taken: "FreeBlk \<notin> set A \<Longrightarrow> \<forall>e\<in>set (enc_table A). e AND 0x0F \<noteq> 0"
proof (induction A)
  case Nil
  then show ?case by simp
next
  case (Cons s A)
  then show ?case by (cases s) (auto dest: enc_seg_taken)
qed

lemma scan_list_none:
  "\<forall>e\<in>set A. e AND 0x0F \<noteq> 0 \<Longrightarrow> scan_list n A i (-1) f = -1"
  using scan_list_taken [of A n "[]" i f] by simp

text \<open>
  With \<open>A\<close> holding no free block, the search returns the first free block when the run of
  free blocks that starts there is long enough, and fails when there is no free block at all.
\<close>

lemma heap_get_start_block_first:
  assumes "heap_repr m (htable h) (A @ replicate k FreeBlk @ B)"
    and "FreeBlk \<notin> set A" and "0 < k" and "int k = uint n"
  shows "heap_get_start_block m h n = int (seg_blocks A)"
proof -
  have "heap_scan m (htable h) n 0 (-1) 0 = int (seg_blocks A)"
    using assms(1) scan_list_taken [OF enc_table_taken [OF assms(2)], of n "enc_table (replicate k FreeBlk @ B)" 0 0]
      scan_list_run [of "int (seg_blocks A)" k n "enc_table B"] assms(3,4)
    by (simp add: heap_scan_list heap_repr_def)
  then show ?thesis
    by (simp add: heap_get_start_block_def)
qed

lemma heap_get_start_block_full:
  assumes "heap_repr m (htable h) A" and "FreeBlk \<notin> set A"
  shows "heap_get_start_block m h n = err ENOMEM"
  using assms scan_list_none [OF enc_table_taken [OF assms(2)], of n 0 0]
  by (simp add: heap_get_start_block_def heap_scan_list heap_repr_def)

section \<open>Marking\<close>

text \<open>The bytes the marking loop writes when \<open>k\<close> blocks are left and the next gets \<open>e\<close>.\<close>

fun taken_bytes :: "nat \<Rightarrow> u8 \<Rightarrow> u8 list" where
  "taken_bytes 0 e = []"
| "taken_bytes (Suc k) e = e # taken_bytes k (if k \<noteq> 1 then 0x81 else 0x01)"

lemma length_taken_bytes [simp]: "length (taken_bytes k e) = k"
  by (induction k arbitrary: e) simp_all

lemma taken_bytes_tail: "taken_bytes (Suc k) (if Suc k \<noteq> 1 then 0x81 else 0x01) = replicate k 0x81 @ [0x01]"
  by (induction k) simp_all

lemma taken_bytes_seg: "taken_bytes (Suc k) (if 0 < k then 0xC1 else 0x41) = enc_seg (Alloc k)"
proof (cases k)
  case 0
  then show ?thesis by simp
next
  case (Suc j)
  then show ?thesis
    using taken_bytes_tail [of j] by (simp only: taken_bytes.simps(2) [of "Suc j"]) simp
qed

lemma mark_taken_loop_bytes:
  "mark_taken_loop m t i (i + int k - 1) e = put_bytes m (entry_addr t i) (taken_bytes k e)"
proof (induction k arbitrary: m i e)
  case 0
  then show ?case by (simp add: mark_taken_loop.simps [of m t i])
next
  case (Suc k)
  have a: "entry_addr t i + 1 = entry_addr t (i + 1)"
    by (simp add: entry_addr_def)
  have x: "(if i \<noteq> i + int (Suc k) - 1 - 1 then HEAP_BLOCK_TABLE_ENTRY_TAKEN OR HEAP_BLOCK_HAS_NEXT
      else HEAP_BLOCK_TABLE_ENTRY_TAKEN) = (if k \<noteq> 1 then 0x81 else 0x01)"
    by simp
  show ?case
    unfolding mark_taken_loop.simps [of m t i] x
    using Suc.IH [of "m(entry_addr t i := e)" "i + 1"] a
    by (simp add: algebra_simps del: fun_upd_apply)
qed

lemma sint_total: "heap_table_ok t \<Longrightarrow> sint (table_total t) = int (unat (table_total t))"
  by (simp add: heap_table_ok_def sint_small del: of_nat_unat)

lemma entry_addr_inj:
  assumes "i < 524288" and "j < 524288" and "i \<noteq> j"
  shows "entry_addr t (int i) \<noteq> entry_addr t (int j)"
  using assms unat_of_nat_u32 [of i] unat_of_nat_u32 [of j]
  by (auto simp: entry_addr_of_nat)

lemma entry_addr_Suc: "entry_addr t (int i) + 1 = entry_addr t (int (Suc i))"
  by (simp add: entry_addr_def algebra_simps)

lemma mark_free_loop_step:
  assumes "heap_table_ok t" and "i < unat (table_total t)"
  shows "mark_free_loop m t (int i) =
    (if m (entry_addr t (int i)) AND HEAP_BLOCK_HAS_NEXT = 0 then m(entry_addr t (int i) := 0)
     else mark_free_loop (m(entry_addr t (int i) := 0)) t (int (Suc i)))"
proof -
  have "int i < sint (table_total t)"
    using assms by (simp add: sint_total del: of_nat_unat)
  then show ?thesis
    by (simp add: mark_free_loop.simps [of m t "int i"] Let_def algebra_simps)
qed

lemma mark_free_loop_tail:
  assumes "heap_table_ok t" and "i + j < unat (table_total t)"
    and "\<forall>l<j. m (entry_addr t (int (i + l))) = 0x81" and "m (entry_addr t (int (i + j))) = 0x01"
  shows "mark_free_loop m t (int i) = put_bytes m (entry_addr t (int i)) (replicate (Suc j) 0)"
  using assms(2-4)
proof (induction j arbitrary: m i)
  case 0
  then show ?case
    using mark_free_loop_step [OF assms(1), of i m] by simp
next
  case (Suc j)
  let ?m = "m(entry_addr t (int i) := 0)"
  have m: "?m (entry_addr t (int (Suc i + l))) = m (entry_addr t (int (i + Suc l)))" if "l \<le> j" for l
    using entry_addr_inj [of i "i + Suc l" t] Suc.prems(1) assms(1) that
    by (simp add: heap_table_ok_def)
  have "m (entry_addr t (int i)) = 0x81" using Suc.prems(2) by force
  then have "mark_free_loop m t (int i) = mark_free_loop ?m t (int (Suc i))"
    using mark_free_loop_step [OF assms(1), of i m] Suc.prems(1) by simp
  also have "\<dots> = put_bytes ?m (entry_addr t (int (Suc i))) (replicate (Suc j) 0)"
  proof (rule Suc.IH)
    show "\<forall>l<j. ?m (entry_addr t (int (Suc i + l))) = 0x81"
      using m Suc.prems(2) by (metis Suc_less_eq less_imp_le)
  qed (use Suc.prems m [of j] in simp_all)
  finally show ?case
    using entry_addr_Suc [of t i] by (simp del: fun_upd_apply)
qed

lemma mark_free_loop_seg:
  assumes "heap_repr m t (A @ Alloc k # B)"
  shows "mark_free_loop m t (int (seg_blocks A)) = put_bytes m (entry_addr t (int (seg_blocks A))) (replicate (Suc k) 0)"
proof -
  let ?a = "seg_blocks A"
  have ok: "heap_table_ok t" using assms by (simp add: heap_repr_def)
  have tot: "unat (table_total t) = ?a + Suc k + seg_blocks B"
    using heap_repr_blocks [OF assms] by simp
  have e: "m (entry_addr t (int (?a + l))) = enc_seg (Alloc k) ! l" if "l \<le> k" for l
    using heap_repr_entry [OF assms, of "?a + l"] tot that by (simp add: nth_append)
  show ?thesis
  proof (cases k)
    case 0
    with e [of 0] show ?thesis
      using mark_free_loop_step [OF ok, of ?a m] tot by simp
  next
    case (Suc j)
    let ?m = "m(entry_addr t (int ?a) := 0)"
    have m: "?m (entry_addr t (int (Suc ?a + l))) = enc_seg (Alloc k) ! Suc l" if "l \<le> j" for l
      using e [of "Suc l"] entry_addr_inj [of ?a "?a + Suc l" t] that Suc tot ok
      by (simp add: heap_table_ok_def)
    have "mark_free_loop m t (int ?a) = mark_free_loop ?m t (int (Suc ?a))"
      using mark_free_loop_step [OF ok, of ?a m] e [of 0] tot Suc by simp
    also have "\<dots> = put_bytes ?m (entry_addr t (int (Suc ?a))) (replicate (Suc j) 0)"
    proof (rule mark_free_loop_tail [OF ok])
      show "Suc ?a + j < unat (table_total t)" using tot Suc by simp
      show "\<forall>l<j. ?m (entry_addr t (int (Suc ?a + l))) = 0x81"
        using m Suc by (simp add: nth_append del: fun_upd_apply)
      show "?m (entry_addr t (int (Suc ?a + j))) = 0x01"
        using m [of j] Suc by (simp add: nth_append del: fun_upd_apply)
    qed
    finally show ?thesis
      using entry_addr_Suc [of t ?a] Suc by (simp del: fun_upd_apply)
  qed
qed

text \<open>Rewriting the table bytes of some segments as those of others of the same length.\<close>

lemma heap_repr_put_bytes:
  assumes "heap_repr m t (A @ X @ B)" and "seg_blocks X = seg_blocks Y"
  shows "heap_repr (put_bytes m (entry_addr t (int (seg_blocks A))) (enc_table Y)) t (A @ Y @ B)"
proof -
  let ?n = "unat (table_total t)"
  have n: "?n = seg_blocks A + seg_blocks Y + seg_blocks B"
    using heap_repr_blocks [OF assms(1)] assms(2) by simp
  have L: "bytes_at m (entries t) ?n = enc_table A @ enc_table X @ enc_table B"
    using assms(1) by (simp add: heap_repr_def)
  have "bytes_at (put_bytes m (entries t + of_nat (seg_blocks A)) (enc_table Y)) (entries t) ?n
      = enc_table A @ enc_table Y @ enc_table B"
    using bytes_at_put_bytes [of "seg_blocks A" "enc_table Y" ?n m "entries t"] n L assms(2)
      unsigned_less [of "table_total t", where 'a = nat]
    by simp
  then show ?thesis
    using assms(1) by (simp add: heap_repr_def entry_addr_of_nat)
qed

lemma put_entries_outside:
  assumes "heap_repr m t (A @ X @ B)" and "length xs = seg_blocks X"
    and "\<not> in_range a (entries t) (unat (table_total t))"
  shows "put_bytes m (entry_addr t (int (seg_blocks A))) xs a = m a"
proof (rule put_bytes_outside)
  have n: "unat (table_total t) = seg_blocks A + length xs + seg_blocks B"
    using heap_repr_blocks [OF assms(1)] assms(2) by simp
  show "length xs \<le> 4294967296"
    using n unsigned_less [of "table_total t", where 'a = nat] by simp
  show "\<not> in_range a (entry_addr t (int (seg_blocks A))) (length xs)"
  proof
    assume "in_range a (entry_addr t (int (seg_blocks A))) (length xs)"
    then obtain i where "i < length xs" "a = entries t + of_nat (seg_blocks A + i)"
      by (auto simp: entry_addr_of_nat algebra_simps elim: in_rangeE)
    with assms(3) n show False
      using in_range_add [of "unat (table_total t)" "seg_blocks A + i" "entries t"]
        unsigned_less [of "table_total t", where 'a = nat] by simp
  qed
qed

section \<open>Addresses of blocks\<close>

lemma heap_block_to_address_nat:
  "b < 524288 \<Longrightarrow> heap_block_to_address h (int b) = saddr h + of_nat (4096 * b)"
  by (simp add: heap_block_to_address_def i32_id mult.commute)

lemma heap_address_to_block_nat:
  assumes "b < 524288"
  shows "heap_address_to_block h (saddr h + of_nat (4096 * b)) = int b"
proof -
  have "unat (of_nat (4096 * b) :: u32) = 4096 * b"
    using assms by (intro unat_of_nat_u32) simp
  then have "sint (of_nat (4096 * b) :: u32) = int (4096 * b)"
    using assms by (subst sint_small) simp_all
  then show ?thesis
    by (simp add: heap_address_to_block_def cint_simps)
qed

lemma heap_block_address_inverse [simp]:
  "b < 524288 \<Longrightarrow> heap_address_to_block h (heap_block_to_address h (int b)) = int b"
  by (simp only: heap_block_to_address_nat heap_address_to_block_nat)

section \<open>Allocation and release\<close>

text \<open>The number of blocks for \<open>sz\<close> bytes: rounded up, when rounding does not wrap.\<close>

lemma heap_align_blocks:
  assumes "unat sz \<le> 4294963200"
  shows "unat (heap_align_value_to_upper sz div PEACHOS_HEAP_BLOCK_SIZE) = (unat sz + 4095) div 4096"
proof (cases "unat sz mod 4096 = 0")
  case True
  then have "sz mod 4096 = 0" by (simp add: word_unat_eq_iff unat_mod)
  with True show ?thesis
    by (simp add: heap_align_value_to_upper_def unat_div round_up_div_0)
next
  case False
  then have m: "sz mod 4096 \<noteq> 0" by (auto simp: word_unat_eq_iff unat_mod)
  have "unat (sz - sz mod 4096) = unat sz - unat sz mod 4096"
    by (subst unat_sub) (simp_all add: unat_mod word_le_nat_alt)
  moreover have "unat sz - unat sz mod 4096 + 4096 < 4294967296"
    using assms False by simp
  ultimately have a: "unat (sz - sz mod 4096 + 4096) = unat sz - unat sz mod 4096 + 4096"
    by (simp add: unat_word_ariths)
  show ?thesis
    using m round_up_div [OF False] by (simp only: heap_align_value_to_upper_def if_False unat_div a) simp
qed

lemma heap_mark_blocks_taken_bytes:
  assumes "b + Suc k < 2147483648" and "unat n = Suc k"
  shows "heap_mark_blocks_taken m h (word_of_int (int b)) n
    = put_bytes m (entry_addr (htable h) (int b)) (enc_seg (Alloc k))"
proof -
  have b: "unat (of_nat b :: u32) = b" using assms(1) by (simp add: unat_of_nat_u32)
  have "n = of_nat (Suc k)"
    using assms unat_eq_iff [of "Suc k" n] by simp
  then have "of_nat b + n - 1 = (of_nat (b + k) :: u32)"
    by simp
  then have e: "sint (of_nat b + n - 1) = int b + int (Suc k) - 1"
    using assms(1) by (simp add: sint_small unat_of_nat_u32 del: of_nat_add)
  have s: "sint (of_nat b :: u32) = int b"
    using assms(1) b by (simp add: sint_small)
  have "(1 < n) = (0 < k)"
    using assms(2) by (simp add: word_less_nat_alt)
  then show ?thesis
    using mark_taken_loop_bytes [of m "htable h" "int b" "Suc k"]
    by (simp add: heap_mark_blocks_taken_def Let_def e s taken_bytes_seg [symmetric]
        del: taken_bytes.simps enc_seg.simps)
qed

text \<open>
  What \<open>malloc\<close> does when the first free run is long enough: it marks that run as one
  allocation, returns its address and touches nothing but the table.
\<close>

lemma heap_malloc_blocks_first:
  assumes r: "heap_repr m (htable h) (A @ replicate (Suc k) FreeBlk @ B)"
    and A: "FreeBlk \<notin> set A" and n: "unat n = Suc k"
  shows "heap_malloc_blocks m h n =
    (heap_block_to_address h (int (seg_blocks A)),
     put_bytes m (entry_addr (htable h) (int (seg_blocks A))) (enc_seg (Alloc k)))"
proof -
  have "int (Suc k) = uint n" using n by (metis of_nat_unat)
  then have s: "heap_get_start_block m h n = int (seg_blocks A)"
    by (intro heap_get_start_block_first [OF r A]) simp_all
  have "seg_blocks A + Suc k < 2147483648"
    using heap_repr_blocks [OF r] r by (simp add: heap_repr_def heap_table_ok_def sum_list_replicate)
  from heap_mark_blocks_taken_bytes [OF this n] show ?thesis
    by (simp add: heap_malloc_blocks_def s Let_def)
qed

lemma heap_malloc_first:
  assumes "heap_repr m (htable h) (A @ replicate (Suc k) FreeBlk @ B)"
    and "FreeBlk \<notin> set A" and "4096 * k < unat sz" and "unat sz \<le> 4096 * Suc k"
  shows "heap_malloc m h sz =
    (heap_block_to_address h (int (seg_blocks A)),
     put_bytes m (entry_addr (htable h) (int (seg_blocks A))) (enc_seg (Alloc k)))"
proof -
  have "Suc k < 524288"
    using heap_repr_blocks [OF assms(1)] assms(1)
    by (simp add: heap_repr_def heap_table_ok_def sum_list_replicate)
  then have "unat sz \<le> 4294963200" using assms(4) by simp
  then have "unat (heap_align_value_to_upper sz div PEACHOS_HEAP_BLOCK_SIZE) = (unat sz + 4095) div 4096"
    by (rule heap_align_blocks)
  also have "\<dots> = Suc k"
    by (rule div_nat_eqI) (use assms(3,4) in simp_all)
  finally show ?thesis
    unfolding heap_malloc_def by (rule heap_malloc_blocks_first [OF assms(1,2)])
qed

text \<open>
  C16: with no free block before it and long enough for the request, the first run of free
  blocks is what \<open>heap_malloc\<close> hands out: it returns the address of the run's first block,
  the table then shows exactly the blocks of the request as one allocation, and no byte outside
  the table changes.
\<close>

theorem heap_malloc_spec:
  assumes "heap_repr m (htable h) (A @ replicate (Suc k) FreeBlk @ B)"
    and "FreeBlk \<notin> set A" and "4096 * k < unat sz" and "unat sz \<le> 4096 * Suc k"
  shows "fst (heap_malloc m h sz) = heap_block_to_address h (int (seg_blocks A))
    \<and> heap_repr (snd (heap_malloc m h sz)) (htable h) (A @ Alloc k # B)
    \<and> (\<forall>a. in_range a (entries (htable h)) (unat (table_total (htable h)))
        \<or> snd (heap_malloc m h sz) a = m a)"
  using heap_malloc_first [OF assms] put_entries_outside [OF assms(1), of "enc_seg (Alloc k)"]
    heap_repr_put_bytes [OF assms(1), of "[Alloc k]"]
  by (auto simp del: enc_seg.simps replicate_Suc)

lemma heap_free_seg:
  assumes "heap_repr m (htable h) (A @ Alloc k # B)"
  shows "heap_free m h (heap_block_to_address h (int (seg_blocks A)))
    = put_bytes m (entry_addr (htable h) (int (seg_blocks A))) (replicate (Suc k) 0)"
proof -
  have "seg_blocks A < 524288"
    using heap_repr_blocks [OF assms] assms by (simp add: heap_repr_def heap_table_ok_def)
  then show ?thesis
    using mark_free_loop_seg [OF assms] by (simp add: heap_free_def heap_mark_blocks_free_def)
qed

lemma heap_free_repr:
  assumes "heap_repr m (htable h) (A @ Alloc k # B)"
  shows "heap_repr (heap_free m h (heap_block_to_address h (int (seg_blocks A)))) (htable h)
      (A @ replicate (Suc k) FreeBlk @ B)"
  unfolding heap_free_seg [OF assms]
  using heap_repr_put_bytes [of m "htable h" A "[Alloc k]" B "replicate (Suc k) FreeBlk"] assms
  by (auto simp: sum_list_replicate simp del: replicate_Suc)

text \<open>
  C17: \<open>heap_free\<close> of the address of an allocation frees the blocks of that allocation, no
  other block, and changes no byte outside the table.
\<close>

theorem heap_free_spec:
  assumes "heap_repr m (htable h) (A @ Alloc k # B)"
  shows "heap_repr (heap_free m h (heap_block_to_address h (int (seg_blocks A)))) (htable h)
      (A @ replicate (Suc k) FreeBlk @ B)
    \<and> (\<forall>a. in_range a (entries (htable h)) (unat (table_total (htable h)))
        \<or> heap_free m h (heap_block_to_address h (int (seg_blocks A))) a = m a)"
  using heap_free_repr [OF assms] put_entries_outside [of m "htable h" A "[Alloc k]" B "replicate (Suc k) 0"] assms
  by (auto simp: heap_free_seg [OF assms] sum_list_replicate simp del: replicate_Suc)

text \<open>
  Freeing what \<open>heap_malloc\<close> returned restores memory, the table included, byte for byte.
\<close>

lemma heap_malloc_free_roundtrip:
  assumes "heap_repr m (htable h) (A @ replicate (Suc k) FreeBlk @ B)"
    and "FreeBlk \<notin> set A" and "4096 * k < unat sz" and "unat sz \<le> 4096 * Suc k"
  shows "heap_free (snd (heap_malloc m h sz)) h (fst (heap_malloc m h sz)) = m"
proof -
  let ?e = "entry_addr (htable h) (int (seg_blocks A))" and ?n = "unat (table_total (htable h))"
  have r: "heap_repr (put_bytes m ?e (enc_seg (Alloc k))) (htable h) (A @ Alloc k # B)"
    using heap_repr_put_bytes [OF assms(1), of "[Alloc k]"] by (simp add: sum_list_replicate)
  have n: "?n = seg_blocks A + Suc k + seg_blocks B" and t: "?n < 524288"
    using heap_repr_blocks [OF assms(1)] assms(1)
    by (simp_all add: heap_repr_def heap_table_ok_def sum_list_replicate)
  have "m (?e + of_nat i) = 0" if "i < Suc k" for i
    using heap_repr_entry [OF assms(1), of "seg_blocks A + i"] n that
    by (simp add: nth_append entry_addr_add [symmetric] del: of_nat_add replicate_Suc flip: replicate_Suc)
  then have "bytes_at m ?e (Suc k) = replicate (Suc k) 0"
    by (intro nth_equalityI) (simp_all del: replicate_Suc)
  then have "put_bytes m ?e (replicate (Suc k) 0) = m"
    using put_bytes_bytes_at [of "Suc k" m ?e] n t by simp
  then show ?thesis
    using heap_malloc_first [OF assms] heap_free_seg [OF r] n t
      put_bytes_overwrite [of "enc_seg (Alloc k)" "replicate (Suc k) 0" m ?e]
    by simp
qed

text \<open>
  with no free block left \<open>heap_malloc\<close> answers the null pointer and leaves memory alone.
\<close>

lemma heap_malloc_full:
  assumes "heap_repr m (htable h) A" and "FreeBlk \<notin> set A"
  shows "heap_malloc m h sz = (0, m)"
  using heap_get_start_block_full [OF assms] by (simp add: heap_malloc_def heap_malloc_blocks_def)

text \<open>
  C30: the search counts free blocks across taken ones, because it resets only the start of the
  run when it meets a taken block. So on a fragmented table (free, taken, free, taken) a
  two-block request is granted at block 2, and marking it overwrites the entry of block 3, which
  a live allocation owns.
\<close>

theorem heap_malloc_fragmented_overlap:
  assumes "heap_repr m (htable h) [FreeBlk, Alloc 0, FreeBlk, Alloc 0]"
  shows "fst (heap_malloc m h 8192) = heap_block_to_address h 2
    \<and> heap_repr (snd (heap_malloc m h 8192)) (htable h) [FreeBlk, Alloc 0, Alloc 1]"
proof -
  have s: "heap_get_start_block m h 2 = 2"
    using assms by (simp add: heap_get_start_block_def heap_scan_list heap_repr_def)
  have "heap_mark_blocks_taken m h (word_of_int (int 2)) 2
      = put_bytes m (entry_addr (htable h) (int 2)) (enc_seg (Alloc 1))"
    by (rule heap_mark_blocks_taken_bytes) simp_all
  then show ?thesis
    using s heap_repr_put_bytes [of m "htable h" "[FreeBlk, Alloc 0]" "[FreeBlk, Alloc 0]" "[]" "[Alloc 1]"] assms
    by (simp add: heap_malloc_def heap_align_value_to_upper_def heap_malloc_blocks_def)
qed

section \<open>Concrete instances\<close>

text \<open>A heap of four blocks, its table at the address the kernel uses.\<close>

definition small_heap :: heap where
  "small_heap = \<lparr>htable = \<lparr>entries = 0x7E00, table_total = 4\<rparr>, saddr = 0x1000000\<rparr>"

lemma small_heap_repr:
  assumes "length (enc_table segs) = 4"
  shows "heap_repr (put_bytes (\<lambda>_. 0) 0x7E00 (enc_table segs)) (htable small_heap) segs"
  using bytes_at_put_bytes [of 0 "enc_table segs" 4 "\<lambda>_. 0" "0x7E00"] assms
  by (simp add: heap_repr_def heap_table_ok_def small_heap_def)

lemma bytes_at_zero: "bytes_at (\<lambda>_. c) a n = replicate n c"
  by (simp add: bytes_at_def map_replicate_const)

lemma replicate_4: "replicate 4 x = [x, x, x, x]"
  by (simp add: numeral_eq_Suc)

lemma small_heap_empty: "heap_repr (\<lambda>_. 0) (htable small_heap) [FreeBlk, FreeBlk, FreeBlk, FreeBlk]"
  by (simp add: heap_repr_def heap_table_ok_def small_heap_def bytes_at_zero replicate_4)

theorem heap_malloc_spec_witness:
  "fst (heap_malloc (\<lambda>_. 0) small_heap 5000) = 0x1000000
    \<and> heap_repr (snd (heap_malloc (\<lambda>_. 0) small_heap 5000)) (htable small_heap) [Alloc 1, FreeBlk, FreeBlk]"
  using heap_malloc_spec [of "\<lambda>_. 0" small_heap "[]" "Suc 0" "[FreeBlk, FreeBlk]" 5000] small_heap_empty
  by (simp add: heap_block_to_address_def small_heap_def)

theorem heap_free_spec_witness:
  "heap_repr (heap_free (put_bytes (\<lambda>_. 0) 0x7E00 [0x41, 0xC1, 0x01, 0x00]) small_heap 0x1001000)
     (htable small_heap) [Alloc 0, FreeBlk, FreeBlk, FreeBlk]"
  using heap_free_spec [of "put_bytes (\<lambda>_. 0) 0x7E00 [0x41, 0xC1, 0x01, 0x00]" small_heap "[Alloc 0]" 1 "[FreeBlk]"]
    small_heap_repr [of "[Alloc 0, Alloc 1, FreeBlk]"]
  by (simp add: heap_block_to_address_def small_heap_def i32_id del: put_bytes.simps)

theorem heap_malloc_fragmented_overlap_witness:
  "fst (heap_malloc (put_bytes (\<lambda>_. 0) 0x7E00 [0x00, 0x41, 0x00, 0x41]) small_heap 8192) = 0x1002000"
  using heap_malloc_fragmented_overlap [of "put_bytes (\<lambda>_. 0) 0x7E00 [0x00, 0x41, 0x00, 0x41]" small_heap]
    small_heap_repr [of "[FreeBlk, Alloc 0, FreeBlk, Alloc 0]"]
  by (simp add: heap_block_to_address_def small_heap_def i32_id del: put_bytes.simps)

end
