(* ===== verification/HeapRuns.thy ===== *)
theory HeapRuns imports Heap
begin

text \<open>
  Runs of the allocator of \<open>src/src/memory/heap/heap.c\<close>: any sequence of allocations that fit
  the first free run, releases of live allocations, and writes elsewhere in memory, from a
  table that \<open>heap_create\<close> made. Live allocations never overlap.
\<close>

section \<open>The live allocations of a table\<close>

fun live_from :: "nat \<Rightarrow> seg list \<Rightarrow> (nat \<times> nat) set" where
  "live_from b [] = {}"
| "live_from b (FreeBlk # segs) = live_from (b + 1) segs"
| "live_from b (Alloc k # segs) = insert (b, Suc k) (live_from (b + Suc k) segs)"

lemma live_from_append: "live_from b (A @ B) = live_from b A \<union> live_from (b + seg_blocks A) B"
  by (induction b A rule: live_from.induct) (simp_all add: algebra_simps)

lemma live_from_free [simp]: "live_from b (replicate n FreeBlk) = {}"
  by (induction n arbitrary: b) simp_all

lemma live_from_bounds: "(c, n) \<in> live_from b segs \<Longrightarrow> b \<le> c \<and> 0 < n \<and> c + n \<le> b + seg_blocks segs"
  by (induction b segs rule: live_from.induct) auto

lemma live_from_split:
  assumes "(c, n) \<in> live_from b segs"
  obtains A k B where "segs = A @ Alloc k # B" and "c = b + seg_blocks A" and "n = Suc k"
  using assms
proof (induction b segs arbitrary: thesis rule: live_from.induct)
  case (1 b)
  then show ?case by simp
next
  case (2 b segs)
  from 2(3) have "(c, n) \<in> live_from (b + 1) segs" by simp
  from 2(1) [OF _ this] obtain A k B
    where "segs = A @ Alloc k # B" "c = b + 1 + seg_blocks A" "n = Suc k" by blast
  then show ?case by (intro 2(2) [of "FreeBlk # A" k B]) simp_all
next
  case (3 b j segs)
  show ?case
  proof (cases "(c, n) = (b, Suc j)")
    case True
    then show ?thesis by (intro 3(2) [of "[]" j segs]) simp_all
  next
    case False
    with 3(3) have "(c, n) \<in> live_from (b + Suc j) segs" by auto
    from 3(1) [OF _ this] obtain A k B
      where "segs = A @ Alloc k # B" "c = b + Suc j + seg_blocks A" "n = Suc k" by blast
    then show ?thesis by (intro 3(2) [of "Alloc j # A" k B]) simp_all
  qed
qed

lemma live_from_disjoint:
  "(c, n) \<in> live_from b segs \<Longrightarrow> (d, k) \<in> live_from b segs \<Longrightarrow> (c, n) \<noteq> (d, k) \<Longrightarrow> c + n \<le> d \<or> d + k \<le> c"
proof (induction b segs rule: live_from.induct)
  case (3 b j segs)
  then show ?case
    using live_from_bounds [of c n "b + Suc j" segs] live_from_bounds [of d k "b + Suc j" segs]
    by auto
qed auto

section \<open>Requests that fit\<close>

text \<open>The length of the first run of free table entries.\<close>

definition first_run :: "u8 list \<Rightarrow> nat" where
  "first_run es = length (takeWhile (\<lambda>e. e AND 0x0F = 0) (dropWhile (\<lambda>e. e AND 0x0F \<noteq> 0) es))"

definition fits :: "mem \<Rightarrow> heap \<Rightarrow> u32 \<Rightarrow> bool" where
  "fits m h sz \<longleftrightarrow> 0 < unat sz
     \<and> (unat sz + 4095) div 4096 \<le> first_run (bytes_at m (entries (htable h)) (unat (table_total (htable h))))"

lemma takeWhile_free_enc:
  "length (takeWhile (\<lambda>e. e AND 0x0F = 0) (enc_table segs)) = length (takeWhile ((=) FreeBlk) segs)"
proof (induction segs)
  case Nil
  then show ?case by simp
next
  case (Cons s segs)
  then show ?case by (cases s rule: enc_seg.cases) simp_all
qed

lemma first_run_enc:
  "first_run (enc_table segs) = length (takeWhile ((=) FreeBlk) (dropWhile ((\<noteq>) FreeBlk) segs))"
proof (induction segs)
  case Nil
  then show ?case by (simp add: first_run_def)
next
  case (Cons s segs)
  show ?case
  proof (cases s)
    case FreeBlk
    then show ?thesis by (simp add: first_run_def takeWhile_free_enc)
  next
    case (Alloc k)
    then have "\<forall>e\<in>set (enc_seg s). e AND 0x0F \<noteq> 0" using enc_seg_taken by blast
    then have "dropWhile (\<lambda>e. e AND 0x0F \<noteq> 0) (enc_seg s @ enc_table segs)
        = dropWhile (\<lambda>e. e AND 0x0F \<noteq> 0) (enc_table segs)"
      by (intro dropWhile_append2) auto
    with Alloc Cons show ?thesis by (simp add: first_run_def del: enc_seg.simps)
  qed
qed

lemma fitsE:
  assumes "fits m h sz" and "heap_repr m (htable h) segs"
  obtains A k B where "segs = A @ replicate (Suc k) FreeBlk @ B" and "FreeBlk \<notin> set A"
    and "4096 * k < unat sz" and "unat sz \<le> 4096 * Suc k"
proof -
  define R where "R = dropWhile ((\<noteq>) FreeBlk) segs"
  define A where "A = takeWhile ((\<noteq>) FreeBlk) segs"
  define n where "n = (unat sz + 4095) div 4096"
  have segs: "segs = A @ R" by (simp add: A_def R_def)
  have A: "FreeBlk \<notin> set A" by (auto simp: A_def dest: set_takeWhileD)
  have pos: "0 < unat sz" and n: "n \<le> length (takeWhile ((=) FreeBlk) R)"
    using assms by (simp_all add: fits_def heap_repr_def first_run_enc R_def n_def)
  have "0 < n" using pos by (simp add: n_def)
  then obtain k where k: "n = Suc k" by (cases n) auto
  define N where "N = length (takeWhile ((=) FreeBlk) R)"
  have "takeWhile ((=) FreeBlk) R = replicate N FreeBlk"
    unfolding N_def by (intro replicate_eqI) (auto dest: set_takeWhileD)
  then have "R = replicate N FreeBlk @ dropWhile ((=) FreeBlk) R"
    by (metis takeWhile_dropWhile_id)
  moreover have "replicate N FreeBlk = replicate n FreeBlk @ replicate (N - n) FreeBlk"
    using n by (simp add: N_def flip: replicate_add)
  ultimately obtain B where "R = replicate (Suc k) FreeBlk @ B"
    using k by (metis append_assoc)
  moreover have "4096 * k < unat sz" "unat sz \<le> 4096 * Suc k"
    using k pos by (simp_all add: n_def)
  ultimately show thesis
    using that [of A k B] segs A by simp
qed

section \<open>Runs\<close>

definition heap_area_ok :: "heap \<Rightarrow> bool" where
  "heap_area_ok h \<longleftrightarrow> heap_table_ok (htable h)
     \<and> unat (saddr h) + 4096 * unat (table_total (htable h)) \<le> 4294967296
     \<and> disjoint_ranges (entries (htable h)) (unat (table_total (htable h)))
         (saddr h) (4096 * unat (table_total (htable h)))"

inductive heap_run :: "heap \<Rightarrow> mem \<Rightarrow> (u32 \<times> nat) set \<Rightarrow> bool" for h :: heap where
  run_create: "heap_area_ok h \<Longrightarrow> heap_create m h0 ptr end_ptr t = (res, h, m') \<Longrightarrow> 0 \<le> res
    \<Longrightarrow> heap_run h m' {}"
| run_malloc: "heap_run h m L \<Longrightarrow> fits m h sz \<Longrightarrow> heap_malloc m h sz = (p, m')
    \<Longrightarrow> heap_run h m' (insert (p, (unat sz + 4095) div 4096) L)"
| run_free: "heap_run h m L \<Longrightarrow> (p, n) \<in> L \<Longrightarrow> heap_run h (heap_free m h p) (L - {(p, n)})"
| run_write: "heap_run h m L
    \<Longrightarrow> (\<And>a. in_range a (entries (htable h)) (unat (table_total (htable h))) \<Longrightarrow> m' a = m a)
    \<Longrightarrow> heap_run h m' L"

definition live_set :: "heap \<Rightarrow> seg list \<Rightarrow> (u32 \<times> nat) set" where
  "live_set h segs = (\<lambda>(b, n). (heap_block_to_address h (int b), n)) ` live_from 0 segs"

definition heap_inv :: "heap \<Rightarrow> mem \<Rightarrow> (u32 \<times> nat) set \<Rightarrow> bool" where
  "heap_inv h m L \<longleftrightarrow> heap_area_ok h \<and> (\<exists>segs. heap_repr m (htable h) segs \<and> L = live_set h segs)"

lemma heap_create_inv:
  assumes "heap_create m h0 ptr end_ptr t = (res, h, m')" and "0 \<le> res" and "heap_table_ok (htable h)"
  shows "heap_repr m' (htable h) (replicate (unat (table_total (htable h))) FreeBlk)"
  using assms bytes_at_memset [of m "entries t" 0 "table_total t"]
  by (auto simp: heap_create_def heap_repr_def Let_def heap_validate_table_def split: if_splits)

lemma live_set_malloc:
  "live_set h (A @ Alloc k # B)
    = insert (heap_block_to_address h (int (seg_blocks A)), Suc k) (live_set h (A @ replicate (Suc k) FreeBlk @ B))"
  by (simp add: live_set_def live_from_append image_Un del: replicate_Suc)

lemma block_address_inj:
  "b < 524288 \<Longrightarrow> c < 524288 \<Longrightarrow> heap_block_to_address h (int b) = heap_block_to_address h (int c) \<Longrightarrow> b = c"
  by (metis heap_block_address_inverse of_nat_eq_iff)

lemma live_set_free:
  assumes "seg_blocks (A @ Alloc k # B) < 524288"
  shows "live_set h (A @ replicate (Suc k) FreeBlk @ B)
    = live_set h (A @ Alloc k # B) - {(heap_block_to_address h (int (seg_blocks A)), Suc k)}"
proof -
  have "(heap_block_to_address h (int (seg_blocks A)), Suc k) \<notin> live_set h (A @ replicate (Suc k) FreeBlk @ B)"
  proof
    assume "(heap_block_to_address h (int (seg_blocks A)), Suc k) \<in> live_set h (A @ replicate (Suc k) FreeBlk @ B)"
    then obtain b where b: "(b, Suc k) \<in> live_from 0 (A @ replicate (Suc k) FreeBlk @ B)"
      and a: "heap_block_to_address h (int (seg_blocks A)) = heap_block_to_address h (int b)"
      by (auto simp: live_set_def)
    from live_from_bounds [OF b] assms have "b < 524288" by simp
    with a assms have "b = seg_blocks A"
      using block_address_inj [of "seg_blocks A" b h] by simp
    with b show False
      using live_from_bounds [of b "Suc k" 0 A] live_from_bounds [of b "Suc k" "seg_blocks A + Suc k" B]
      by (auto simp: live_from_append simp del: replicate_Suc)
  qed
  then show ?thesis by (simp add: live_set_malloc del: replicate_Suc)
qed

lemma heap_run_inv: "heap_run h m L \<Longrightarrow> heap_inv h m L"
proof (induction rule: heap_run.induct)
  case (run_create m h0 ptr end_ptr t res m')
  then have "heap_repr m' (htable h) (replicate (unat (table_total (htable h))) FreeBlk)"
    by (intro heap_create_inv) (simp_all add: heap_area_ok_def)
  then show ?case
    using run_create by (auto simp: heap_inv_def live_set_def intro!: exI)
next
  case (run_malloc m L sz p m')
  then obtain segs where r: "heap_repr m (htable h) segs" and L: "L = live_set h segs" and ok: "heap_area_ok h"
    by (auto simp: heap_inv_def)
  from run_malloc.hyps(2) r obtain A k B where segs: "segs = A @ replicate (Suc k) FreeBlk @ B"
    and A: "FreeBlk \<notin> set A" and sz: "4096 * k < unat sz" "unat sz \<le> 4096 * Suc k"
    by (rule fitsE)
  have n: "(unat sz + 4095) div 4096 = Suc k"
    by (rule div_nat_eqI) (use sz in simp_all)
  from heap_malloc_first [OF r [unfolded segs] A sz] run_malloc.hyps(3)
  have p: "p = heap_block_to_address h (int (seg_blocks A))"
    and m': "m' = put_bytes m (entry_addr (htable h) (int (seg_blocks A))) (enc_table [Alloc k])" by simp_all
  have "heap_repr m' (htable h) (A @ Alloc k # B)"
    unfolding m' using heap_repr_put_bytes [of m "htable h" A "replicate (Suc k) FreeBlk" B "[Alloc k]"] r segs by simp
  then show ?case
    using ok L segs n p live_set_malloc [of h A k B] by (auto simp: heap_inv_def)
next
  case (run_free m L p n)
  then obtain segs where r: "heap_repr m (htable h) segs" and L: "L = live_set h segs" and ok: "heap_area_ok h"
    by (auto simp: heap_inv_def)
  from run_free.hyps(2) L obtain b where b: "(b, n) \<in> live_from 0 segs" and p: "p = heap_block_to_address h (int b)"
    by (auto simp: live_set_def)
  from b obtain A k B where segs: "segs = A @ Alloc k # B" and "b = seg_blocks A" "n = Suc k"
    by (rule live_from_split) simp
  moreover have "seg_blocks segs < 524288"
    using heap_repr_blocks [OF r] r by (simp add: heap_repr_def heap_table_ok_def)
  moreover have "heap_repr (heap_free m h p) (htable h) (A @ replicate (Suc k) FreeBlk @ B)"
    using heap_free_repr [of m h A k B] r segs p \<open>b = seg_blocks A\<close> by simp
  ultimately show ?case
    using ok L p live_set_free [of A k B h] by (auto simp: heap_inv_def)
next
  case (run_write m L m')
  then obtain segs where r: "heap_repr m (htable h) segs" and L: "L = live_set h segs" and ok: "heap_area_ok h"
    by (auto simp: heap_inv_def)
  have "bytes_at m' (entries (htable h)) (unat (table_total (htable h)))
      = bytes_at m (entries (htable h)) (unat (table_total (htable h)))"
    using run_write.hyps(2) ok by (intro bytes_at_cong) (simp_all add: heap_area_ok_def heap_table_ok_def)
  with r L ok show ?case by (auto simp: heap_inv_def heap_repr_def)
qed

text \<open>Where the live allocations of a represented heap lie.\<close>

lemma live_setE:
  assumes r: "heap_repr m (htable h) segs" and ok: "heap_area_ok h" and l: "(p, n) \<in> live_set h segs"
  obtains b where "(b, n) \<in> live_from 0 segs" and "p = heap_block_to_address h (int b)"
    and "unat p = unat (saddr h) + 4096 * b" and "b + n \<le> unat (table_total (htable h))"
proof -
  from l obtain b where b: "(b, n) \<in> live_from 0 segs" and p: "p = heap_block_to_address h (int b)"
    by (auto simp: live_set_def)
  have tot: "seg_blocks segs = unat (table_total (htable h))" "unat (table_total (htable h)) < 524288"
    using heap_repr_blocks [OF r] r by (simp_all add: heap_repr_def heap_table_ok_def)
  with live_from_bounds [OF b] have bn: "b + n \<le> unat (table_total (htable h))" by simp
  moreover have "unat p = unat (saddr h) + 4096 * b"
    using live_from_bounds [OF b] tot ok p
    by (simp add: heap_block_to_address_nat unat_word_ariths unat_of_nat heap_area_ok_def)
  ultimately show ?thesis using that b p by blast
qed

lemma live_set_disjoint:
  assumes r: "heap_repr m (htable h) segs" and ok: "heap_area_ok h"
    and p: "(p, n) \<in> live_set h segs" and q: "(q, k) \<in> live_set h segs" and ne: "(q, k) \<noteq> (p, n)"
  shows "disjoint_ranges p (4096 * n) q (4096 * k)"
proof -
  from live_setE [OF r ok p] obtain b where b: "(b, n) \<in> live_from 0 segs" "p = heap_block_to_address h (int b)"
    "unat p = unat (saddr h) + 4096 * b" "b + n \<le> unat (table_total (htable h))" .
  from live_setE [OF r ok q] obtain c where c: "(c, k) \<in> live_from 0 segs" "q = heap_block_to_address h (int c)"
    "unat q = unat (saddr h) + 4096 * c" "c + k \<le> unat (table_total (htable h))" .
  have "(b, n) \<noteq> (c, k)" using ne b(2) c(2) by auto
  from live_from_disjoint [OF b(1) c(1) this] show ?thesis
    using b c ok disjoint_rangesI [of p "4096 * n" q "4096 * k"]
      disjoint_ranges_sym [OF disjoint_rangesI [of q "4096 * k" p "4096 * n"]]
    by (auto simp: heap_area_ok_def)
qed

text \<open>
  C11: in every run, a live allocation lies inside the heap area and outside the table, and two
  different live allocations have no byte in common.
\<close>

theorem heap_run_safe:
  assumes "heap_run h m L" and "(p, n) \<in> L"
  shows "disjoint_ranges (entries (htable h)) (unat (table_total (htable h))) p (4096 * n)
    \<and> unat (saddr h) \<le> unat p \<and> unat p + 4096 * n \<le> unat (saddr h) + 4096 * unat (table_total (htable h))
    \<and> (\<forall>q k. (q, k) \<in> L \<and> (q, k) \<noteq> (p, n) \<longrightarrow> disjoint_ranges p (4096 * n) q (4096 * k))"
proof -
  from heap_run_inv [OF assms(1)] obtain segs where r: "heap_repr m (htable h) segs"
    and L: "L = live_set h segs" and ok: "heap_area_ok h"
    by (auto simp: heap_inv_def)
  from live_setE [OF r ok] assms(2) L obtain b where p: "p = heap_block_to_address h (int b)"
    and up: "unat p = unat (saddr h) + 4096 * b" and bn: "b + n \<le> unat (table_total (htable h))" by blast
  have tot: "unat (table_total (htable h)) < 524288"
    using r by (simp add: heap_repr_def heap_table_ok_def)
  have sub: "in_range a (saddr h) (4096 * unat (table_total (htable h)))" if "in_range a p (4096 * n)" for a
    using that up bn ok tot by (simp add: in_range_def heap_area_ok_def unat_sub_if' split: if_splits)
  show ?thesis
    using up bn sub ok live_set_disjoint [OF r ok] assms(2) L
    by (auto simp: heap_area_ok_def disjoint_ranges_def)
qed

section \<open>A concrete run\<close>

lemma small_heap_area: "heap_area_ok small_heap"
  by (auto simp: heap_area_ok_def small_heap_def heap_table_ok_def intro!: disjoint_rangesI)

lemma small_heap_run:
  "heap_run small_heap (snd (heap_malloc (\<lambda>_. 0) small_heap 5000)) {(0x1000000, 2)}"
proof -
  have c: "memset (\<lambda>_. 0) 0x7E00 0 4 = (\<lambda>_. 0)"
    by (rule ext) (simp add: memset_apply)
  have "heap_run small_heap (\<lambda>_. 0) {}"
  proof (rule run_create [OF small_heap_area])
    show "heap_create (\<lambda>_. 0) small_heap 0x1000000 0x1004000 (htable small_heap) = (0, small_heap, \<lambda>_. 0)"
      by (simp add: heap_create_def heap_validate_alignment_def heap_validate_table_def small_heap_def c)
  qed simp
  moreover have "fits (\<lambda>_. 0) small_heap 5000"
    by (simp add: fits_def first_run_def small_heap_def bytes_at_zero replicate_4)
  moreover have "heap_malloc (\<lambda>_. 0) small_heap 5000
      = (0x1000000, snd (heap_malloc (\<lambda>_. 0) small_heap 5000))"
    using heap_malloc_first [of "\<lambda>_. 0" small_heap "[]" "Suc 0" "[FreeBlk, FreeBlk]" 5000] small_heap_empty
    by (simp add: heap_block_to_address_def small_heap_def)
  ultimately show ?thesis
    using run_malloc [of small_heap "\<lambda>_. 0" "{}" 5000] by force
qed

theorem heap_run_safe_witness:
  "disjoint_ranges 0x7E00 4 0x1000000 8192"
  using heap_run_safe [OF small_heap_run, of "0x1000000" 2] by (simp add: small_heap_def)

end
