(* ===== verification/CString.thy ===== *)
theory CString imports CMemory
begin

text \<open>
  \<open>src/src/string/string.c\<close>: the string routines of the kernel on physical memory. A loop
  that only a terminator stops is a partial function (\<open>None\<close> when no terminator comes); the
  predicate \<open>cstr\<close> says that memory holds a terminated string.
\<close>

section \<open>Operations\<close>

definition tolower :: "u8 \<Rightarrow> u8" where
  "tolower c = (if 65 \<le> sint c \<and> sint c \<le> 90 then c + 32 else c)"

partial_function (option) strlen_loop :: "mem \<Rightarrow> u32 \<Rightarrow> u32 \<Rightarrow> u32 option" where
  "strlen_loop m str len = (if m (str + len) \<noteq> 0 then strlen_loop m str (len + 1) else Some len)"

definition strlen :: "mem \<Rightarrow> u32 \<Rightarrow> u32 option" where
  "strlen m str = strlen_loop m str 0"

function strnlen_loop :: "mem \<Rightarrow> u32 \<Rightarrow> int \<Rightarrow> int \<Rightarrow> int" where
  "strnlen_loop m str mx i =
     (if i < mx then (if m (str + word_of_int i) = 0 then i else strnlen_loop m str mx (i + 1)) else i)"
  by pat_completeness auto
termination
  by (relation "measure (\<lambda>(m, str, mx, i). nat (mx - i))") auto

declare strnlen_loop.simps [simp del]

definition strnlen :: "mem \<Rightarrow> u32 \<Rightarrow> int \<Rightarrow> int" where
  "strnlen m str mx = strnlen_loop m str mx 0"

text \<open>Both tests of the loop advance the pointer, the second only when the first fails.\<close>

fun strnlen_terminator_loop :: "mem \<Rightarrow> u32 \<Rightarrow> u8 \<Rightarrow> nat \<Rightarrow> int" where
  "strnlen_terminator_loop m str t 0 = 0"
| "strnlen_terminator_loop m str t (Suc n) =
     (if m str = 0 then 1 else if m (str + 1) = t then 1
      else strnlen_terminator_loop m (str + 2) t n)"

definition strnlen_terminator :: "mem \<Rightarrow> u32 \<Rightarrow> int \<Rightarrow> u8 \<Rightarrow> int" where
  "strnlen_terminator m str mx t = strnlen_terminator_loop m str t (unat (word_of_int mx :: u32))"

fun strncmp_loop :: "mem \<Rightarrow> u32 \<Rightarrow> u32 \<Rightarrow> nat \<Rightarrow> int" where
  "strncmp_loop m s1 s2 0 = 0"
| "strncmp_loop m s1 s2 (Suc n) =
     (if m s1 \<noteq> m s2 then uint (m s1) - uint (m s2)
      else if m s1 = 0 then 0 else strncmp_loop m (s1 + 1) (s2 + 1) n)"

definition strncmp :: "mem \<Rightarrow> u32 \<Rightarrow> u32 \<Rightarrow> int \<Rightarrow> int" where
  "strncmp m s1 s2 mx = strncmp_loop m s1 s2 (nat mx)"

fun strncmp_insensitive_loop :: "mem \<Rightarrow> u32 \<Rightarrow> u32 \<Rightarrow> nat \<Rightarrow> int" where
  "strncmp_insensitive_loop m s1 s2 0 = 0"
| "strncmp_insensitive_loop m s1 s2 (Suc n) =
     (if m s1 \<noteq> m s2 \<and> tolower (m s1) \<noteq> tolower (m s2) then uint (m s1) - uint (m s2)
      else if m s1 = 0 then 0 else strncmp_insensitive_loop m (s1 + 1) (s2 + 1) n)"

definition strncmp_insensitive :: "mem \<Rightarrow> u32 \<Rightarrow> u32 \<Rightarrow> int \<Rightarrow> int" where
  "strncmp_insensitive m s1 s2 mx = strncmp_insensitive_loop m s1 s2 (unat (word_of_int mx :: u32))"

partial_function (option) strcpy_loop :: "mem \<Rightarrow> u32 \<Rightarrow> u32 \<Rightarrow> mem option" where
  "strcpy_loop m dest src =
     (if m src \<noteq> 0 then strcpy_loop (m(dest := m src)) (dest + 1) (src + 1)
      else Some (m(dest := 0)))"

definition strcpy :: "mem \<Rightarrow> u32 \<Rightarrow> u32 \<Rightarrow> mem option" where
  "strcpy m dest src = strcpy_loop m dest src"

text \<open>The copying loop with \<open>n\<close> rounds left, then the terminator.\<close>

fun strncpy_loop :: "mem \<Rightarrow> u32 \<Rightarrow> u32 \<Rightarrow> nat \<Rightarrow> mem" where
  "strncpy_loop m dest src 0 = m(dest := 0)"
| "strncpy_loop m dest src (Suc n) =
     (if m src = 0 then m(dest := 0) else strncpy_loop (m(dest := m src)) (dest + 1) (src + 1) n)"

definition strncpy :: "mem \<Rightarrow> u32 \<Rightarrow> u32 \<Rightarrow> int \<Rightarrow> mem" where
  "strncpy m dest src len = strncpy_loop m dest src (nat (i32 (len - 1)))"

definition is_digit :: "u8 \<Rightarrow> bool" where
  "is_digit c \<longleftrightarrow> 48 \<le> sint c \<and> sint c \<le> 57"

definition is_ascii_char :: "u8 \<Rightarrow> bool" where
  "is_ascii_char c \<longleftrightarrow> 65 \<le> sint c \<and> sint c \<le> 122"

definition to_numeric_digit :: "u8 \<Rightarrow> int" where
  "to_numeric_digit c = sint c - 48"

definition int_to_char :: "int \<Rightarrow> int" where
  "int_to_char i = i32 (i + 48)"

text \<open>
  \<open>itoa\<close> fills a static buffer of 12 bytes from its end; the result is the buffer and the
  index \<open>loc\<close> of the first character.
\<close>

function itoa_loop :: "u8 list \<Rightarrow> int \<Rightarrow> int \<Rightarrow> u8 list \<times> int" where
  "itoa_loop buf loc i =
     (if i = 0 then (buf, loc)
      else itoa_loop (buf[nat (loc - 1) := word_of_int (48 - cmod i 10)]) (loc - 1) (cdiv i 10))"
  by pat_completeness auto
termination
proof (relation "measure (\<lambda>(t, l, i). nat \<bar>i\<bar>)")
  fix buf loc and i :: int
  assume "i \<noteq> 0"
  then have "\<bar>i\<bar> div 10 < \<bar>i\<bar>" by (intro int_div_less_self) simp_all
  moreover have "\<bar>cdiv i 10\<bar> = \<bar>i\<bar> div 10" using \<open>i \<noteq> 0\<close> by (simp add: cdiv_def abs_mult abs_sgn_eq pos_imp_zdiv_nonneg_iff)
  ultimately show "((buf[nat (loc - 1) := word_of_int (48 - cmod i 10)], loc - 1, cdiv i 10), buf, loc, i)
      \<in> measure (\<lambda>(t, l, i). nat \<bar>i\<bar>)" by simp
qed simp

declare itoa_loop.simps [simp del]

definition itoa :: "u8 list \<Rightarrow> int \<Rightarrow> u8 list \<times> int" where
  "itoa buf i =
     (let buf1 = buf[11 := 0];
          neg = \<not> 0 \<le> i;
          i1 = (if 0 \<le> i then - i else i);
          (buf2, loc2) = itoa_loop buf1 11 i1;
          (buf3, loc3) = (if loc2 = 11 then (buf2[10 := 48], 10) else (buf2, loc2))
      in if neg then (buf3[nat (loc3 - 1) := 45], loc3 - 1) else (buf3, loc3))"

section \<open>Terminated strings\<close>

fun cstr :: "mem \<Rightarrow> u32 \<Rightarrow> u8 list \<Rightarrow> bool" where
  "cstr m p [] \<longleftrightarrow> m p = 0"
| "cstr m p (x # xs) \<longleftrightarrow> x \<noteq> 0 \<and> m p = x \<and> cstr m (p + 1) xs"

text \<open>A linked list of \<open>struct command_argument\<close>: 512 bytes of text and the address of the next one.\<close>

fun arg_list :: "mem \<Rightarrow> u32 \<Rightarrow> u8 list list \<Rightarrow> bool" where
  "arg_list m a [] \<longleftrightarrow> a = 0"
| "arg_list m a (t # ts) \<longleftrightarrow> a \<noteq> 0 \<and> cstr m a t \<and> arg_list m (load32 m (a + 512)) ts"

lemma cstr_cong:
  "(\<And>a. in_range a p (Suc (length xs)) \<Longrightarrow> m a = m' a) \<Longrightarrow> length xs < 4294967296
    \<Longrightarrow> cstr m p xs \<longleftrightarrow> cstr m' p xs"
proof (induction xs arbitrary: p)
  case Nil
  then show ?case using in_range_add [of 1 0 p] by simp
next
  case (Cons x xs)
  have "m p = m' p" using Cons.prems in_range_add [of "Suc (length (x # xs))" 0 p] by simp
  moreover have "cstr m (p + 1) xs \<longleftrightarrow> cstr m' (p + 1) xs"
    using Cons.prems in_range_step [of "Suc (length xs)" _ p] by (intro Cons.IH) simp_all
  ultimately show ?case by simp
qed

lemma strlen_loop_cstr:
  "cstr m (str + len) xs \<Longrightarrow> strlen_loop m str len = Some (len + of_nat (length xs))"
proof (induction xs arbitrary: len)
  case Nil
  then show ?case by (simp add: strlen_loop.simps [of m str len])
next
  case (Cons x xs)
  then show ?case
    using Cons.IH [of "len + 1"] by (simp add: strlen_loop.simps [of m str len] add.assoc)
qed

lemma strlen_cstr: "cstr m str xs \<Longrightarrow> strlen m str = Some (of_nat (length xs))"
  using strlen_loop_cstr [of m str 0 xs] by (simp add: strlen_def)

lemma strnlen_loop_cstr:
  "cstr m (str + word_of_int i) xs \<Longrightarrow> i \<le> mx
    \<Longrightarrow> strnlen_loop m str mx i = min mx (i + int (length xs))"
proof (induction xs arbitrary: i)
  case Nil
  then show ?case by (simp add: strnlen_loop.simps [of m str mx i])
next
  case (Cons x xs)
  show ?case
  proof (cases "i < mx")
    case True
    have "strnlen_loop m str mx (i + 1) = min mx (i + 1 + int (length xs))"
      using Cons.prems True by (intro Cons.IH) (simp_all add: add.assoc)
    with Cons.prems True show ?thesis by (simp add: strnlen_loop.simps [of m str mx i])
  next
    case False
    with Cons.prems(2) have "i = mx" by simp
    then show ?thesis by (simp add: strnlen_loop.simps [of m str mx mx])
  qed
qed

lemma strnlen_cstr: "cstr m str xs \<Longrightarrow> 0 \<le> mx \<Longrightarrow> strnlen m str mx = min mx (int (length xs))"
  using strnlen_loop_cstr [of m str 0 xs mx] by (simp add: strnlen_def)

section \<open>Comparison\<close>

text \<open>Comparing up to the terminators: the result is 0 exactly for equal strings.\<close>

lemma uint_diff_0: "uint (a :: u8) - uint b = 0 \<longleftrightarrow> a = b"
  by (simp add: word_uint_eq_iff)

lemma uint_u8_0: "uint (a :: u8) = 0 \<longleftrightarrow> a = 0"
  by (simp add: word_uint_eq_iff)

lemma tolower_zero [simp]: "tolower 0 = 0"
  by (simp add: tolower_def)

lemma tolower_0: "tolower c = 0 \<longleftrightarrow> c = 0"
proof
  assume t: "tolower c = 0"
  show "c = 0"
  proof (rule ccontr)
    assume "c \<noteq> 0"
    with t have "c + 32 = 0" and s: "65 \<le> sint c" by (auto simp: tolower_def split: if_splits)
    then have "c = 224" by (simp add: eq_neg_iff_add_eq_0 [symmetric])
    with s show False by simp
  qed
qed (simp add: tolower_def)

lemma strncmp_loop_cstr:
  "cstr m p xs \<Longrightarrow> cstr m q ys \<Longrightarrow> strncmp_loop m p q n = 0 \<longleftrightarrow> take n xs = take n ys"
proof (induction n arbitrary: p q xs ys)
  case 0
  then show ?case by simp
next
  case (Suc n)
  then show ?case
    using Suc.IH [of "p + 1" _ "q + 1"]
    by (cases xs; cases ys) (auto simp: uint_diff_0 uint_u8_0 simp del: right_minus_eq)
qed

lemma strncmp_insensitive_loop_cstr:
  "cstr m p xs \<Longrightarrow> cstr m q ys \<Longrightarrow>
    strncmp_insensitive_loop m p q n = 0 \<longleftrightarrow> map tolower (take n xs) = map tolower (take n ys)"
proof (induction n arbitrary: p q xs ys)
  case 0
  then show ?case by simp
next
  case (Suc n)
  from Suc show ?case
    using Suc.IH [of "p + 1" _ "q + 1"]
    by (cases xs; cases ys) (auto simp: tolower_0 uint_diff_0 uint_u8_0 simp del: right_minus_eq)
qed

section \<open>Copying\<close>

text \<open>Copying to a place that shares no byte with the source string.\<close>

lemma strcpy_loop_cstr:
  assumes "cstr m src xs" and "disjoint_ranges dest (Suc (length xs)) src (Suc (length xs))"
    and "length xs < 4294967295"
  shows "strcpy_loop m dest src = Some (put_bytes m dest (xs @ [0]))"
  using assms
proof (induction xs arbitrary: m dest src)
  case Nil
  then show ?case by (simp add: strcpy_loop.simps [of m dest src] mem_simps)
next
  case (Cons x xs)
  let ?n = "Suc (length xs)" and ?m = "m(dest := x)"
  have dis: "disjoint_ranges (dest + 1) ?n (src + 1) ?n"
    using Cons.prems(2,3) in_range_step [of ?n] unfolding disjoint_ranges_def by simp blast
  have "\<not> in_range dest src (Suc ?n)"
    using Cons.prems(2,3) in_range_add [of "Suc ?n" 0 dest] by (auto simp: disjoint_ranges_def)
  then have "\<not> in_range dest (src + 1) ?n"
    using in_range_step [of ?n dest src] Cons.prems(3) by auto
  then have "cstr ?m (src + 1) xs \<longleftrightarrow> cstr m (src + 1) xs"
    using Cons.prems(3) by (intro cstr_cong) auto
  then have "strcpy_loop ?m (dest + 1) (src + 1) = Some (put_bytes ?m (dest + 1) (xs @ [0]))"
    using Cons.prems dis by (intro Cons.IH) (simp_all add: mem_simps)
  with Cons.prems(1) show ?case
    by (simp add: strcpy_loop.simps [of m dest src])
qed

lemma strncpy_loop_cstr:
  assumes "cstr m src xs" and "disjoint_ranges dest (Suc n) src (Suc (length xs))"
    and "length xs < 4294967295" and "n < 4294967295"
  shows "strncpy_loop m dest src n = put_bytes m dest (take n xs @ [0])"
  using assms
proof (induction n arbitrary: m dest src xs)
  case 0
  then show ?case by simp
next
  case (Suc n)
  show ?case
  proof (cases xs)
    case Nil
    with Suc.prems show ?thesis by simp
  next
    case (Cons x ys)
    let ?k = "Suc (length ys)" and ?m = "m(dest := x)"
    have dis: "disjoint_ranges (dest + 1) (Suc n) (src + 1) ?k"
      using Suc.prems(2-4) in_range_step [of "Suc n"] in_range_step [of ?k] Cons
      unfolding disjoint_ranges_def by simp blast
    have "\<not> in_range dest src (Suc ?k)"
      using Suc.prems(2,3) in_range_add [of "Suc (Suc n)" 0 dest] Suc.prems(4) Cons
      by (auto simp: disjoint_ranges_def)
    then have "\<not> in_range dest (src + 1) ?k"
      using in_range_step [of ?k dest src] Suc.prems(3) Cons by auto
    then have "cstr ?m (src + 1) ys \<longleftrightarrow> cstr m (src + 1) ys"
      using Suc.prems(3) Cons by (intro cstr_cong) auto
    then have "strncpy_loop ?m (dest + 1) (src + 1) n = put_bytes ?m (dest + 1) (take n ys @ [0])"
      using Suc.prems dis Cons by (intro Suc.IH) (simp_all add: mem_simps)
    with Suc.prems(1) Cons show ?thesis by simp
  qed
qed

lemma cstr_put_bytes:
  assumes "0 \<notin> set xs" and "length xs < 4294967295"
  shows "cstr (put_bytes m p (xs @ [0])) p xs"
  using assms
proof (induction xs arbitrary: m p)
  case Nil
  then show ?case by simp
next
  case (Cons x xs)
  then have "\<not> in_range p (p + 1) (length (xs @ [0]))"
    using in_range_Cons(2) [of "length (xs @ [0])" p p] by auto
  then have "put_bytes (m(p := x)) (p + 1) (xs @ [0]) p = x"
    using Cons.prems by (subst put_bytes_outside) simp_all
  with Cons show ?case by simp
qed

lemma cstr_no_0: "cstr m p xs \<Longrightarrow> 0 \<notin> set xs"
  by (induction xs arbitrary: p) auto

section \<open>Decimal notation\<close>

text \<open>The decimal digits of a positive number, and the notation of an integer.\<close>

fun digits :: "nat \<Rightarrow> u8 list" where
  "digits n = (if n = 0 then [] else digits (n div 10) @ [of_nat (48 + n mod 10)])"

declare digits.simps [simp del]

definition decimal :: "int \<Rightarrow> u8 list" where
  "decimal i = (if i = 0 then [48] else if i < 0 then 45 # digits (nat (- i)) else digits (nat i))"

lemma digits_0 [simp]: "digits 0 = []"
  by (simp add: digits.simps)

lemma length_digits: "n < 10 ^ k \<Longrightarrow> length (digits n) \<le> k"
proof (induction k arbitrary: n)
  case 0
  then show ?case by simp
next
  case (Suc k)
  then have "length (digits (n div 10)) \<le> k" by (intro Suc.IH) simp
  then show ?case by (simp add: digits.simps [of n])
qed

lemma itoa_loop_digits:
  "length (digits n) \<le> loc \<Longrightarrow> loc \<le> length buf \<Longrightarrow>
    itoa_loop buf (int loc) (- int n)
      = (take (loc - length (digits n)) buf @ digits n @ drop loc buf, int (loc - length (digits n)))"
proof (induction n arbitrary: buf loc rule: digits.induct)
  case (1 n)
  show ?case
  proof (cases "n = 0")
    case True
    then show ?thesis by (simp add: itoa_loop.simps [of buf "int loc" 0])
  next
    case False
    let ?c = "of_nat (48 + n mod 10) :: u8" and ?k = "length (digits (n div 10))"
    have d: "digits n = digits (n div 10) @ [?c]"
      using False by (simp add: digits.simps [of n])
    with 1(2) obtain l where l: "loc = Suc l" and k: "?k \<le> l" by (cases loc) auto
    have q: "cdiv (- int n) 10 = - int (n div 10)" and r: "48 - cmod (- int n) 10 = int (48 + n mod 10)"
      by (simp_all add: cint_simps zdiv_int zmod_int)
    have "itoa_loop buf (int loc) (- int n) = itoa_loop (buf[l := ?c]) (int l) (- int (n div 10))"
      unfolding itoa_loop.simps [of buf "int loc" "- int n"] q r using False l by simp
    also have "\<dots> = (take (l - ?k) (buf[l := ?c]) @ digits (n div 10) @ drop l (buf[l := ?c]), int (l - ?k))"
      using False k l 1(3) by (intro 1(1)) simp_all
    also have "drop l (buf[l := ?c]) = ?c # drop loc buf"
      using l 1(3) by (simp add: drop_update_swap flip: Cons_nth_drop_Suc)
    finally show ?thesis using d k l by simp
  qed
qed

lemma digits_ne: "0 < n \<Longrightarrow> digits n \<noteq> []"
  by (simp add: digits.simps)

text \<open>Reading the notation back.\<close>

definition digits_value :: "u8 list \<Rightarrow> int" where
  "digits_value ds = foldl (\<lambda>v d. 10 * v + (uint d - 48)) 0 ds"

definition decimal_value :: "u8 list \<Rightarrow> int" where
  "decimal_value xs = (case xs of [] \<Rightarrow> 0 | c # ds \<Rightarrow> if c = 45 then - digits_value ds else digits_value xs)"

lemma digit_value: "uint (of_nat (48 + n mod 10) :: u8) - 48 = int (n mod 10)"
proof -
  have "n mod 10 < 10" by simp
  then have "unat (of_nat (48 + n mod 10) :: u8) = 48 + n mod 10"
    by (simp only: unat_of_nat) simp
  moreover have "uint (of_nat (48 + n mod 10) :: u8) = int (unat (of_nat (48 + n mod 10) :: u8))"
    by simp
  ultimately show ?thesis by linarith
qed

lemma digits_value_digits: "digits_value (digits n) = int n"
proof (induction n rule: digits.induct)
  case (1 n)
  show ?case
  proof (cases "n = 0")
    case True
    then show ?thesis by (simp add: digits_value_def)
  next
    case False
    have "digits_value (digits n) = 10 * digits_value (digits (n div 10)) + int (n mod 10)"
      using False digit_value [of n] by (subst digits.simps) (simp add: digits_value_def)
    also have "\<dots> = 10 * int (n div 10) + int (n mod 10)" using False 1 by simp
    also have "\<dots> = int n"
      using mult_div_mod_eq [of 10 n] by (metis of_nat_add of_nat_mult of_nat_numeral)
    finally show ?thesis .
  qed
qed

lemma digits_hd: "0 < n \<Longrightarrow> hd (digits n) \<noteq> 45"
proof (induction n rule: digits.induct)
  case (1 n)
  show ?case
  proof (cases "n div 10 = 0")
    case True
    have "(of_nat (48 + n mod 10) :: u8) \<noteq> 45" using digit_value [of n] by (auto simp del: of_nat_add)
    with 1 True show ?thesis by (subst digits.simps) simp
  next
    case False
    with 1 show ?thesis by (subst digits.simps) (simp add: digits_ne)
  qed
qed

lemma decimal_value_decimal: "decimal_value (decimal i) = i"
proof (cases "0 < i")
  case True
  then have n: "0 < nat i" by simp
  show ?thesis
    using True digits_hd [OF n] digits_ne [OF n] digits_value_digits [of "nat i"]
    by (auto simp: decimal_value_def decimal_def split: list.split)
next
  case False
  then show ?thesis
    by (auto simp: decimal_value_def decimal_def digits_value_digits) (simp add: digits_value_def)
qed

lemma itoa_decimal:
  assumes "length buf = 12" and "- 2147483648 \<le> i" and "i < 2147483648"
  shows "\<exists>loc b. itoa buf i = (b, int loc) \<and> loc < 12 \<and> length b = 12 \<and> drop loc b = decimal i @ [0]"
proof -
  let ?n = "nat \<bar>i\<bar>" and ?b = "buf[11 := 0]"
  let ?k = "11 - length (digits ?n)"
  have i1: "(if 0 \<le> i then - i else i) = - int ?n" by simp
  have "?n < 10 ^ 10" using assms by simp
  then have len: "length (digits ?n) \<le> 10" by (rule length_digits)
  have b0: "drop 11 ?b = [0]" using assms(1) by (simp add: drop_update_swap flip: Cons_nth_drop_Suc)
  have loop: "itoa_loop ?b 11 (- int ?n) = (take ?k ?b @ digits ?n @ [0], int ?k)"
    using itoa_loop_digits [of ?n 11 ?b] len b0 assms(1) by simp
  consider "i = 0" | "0 < i" | "i < 0" by linarith
  then show ?thesis
  proof cases
    case 1
    then show ?thesis
      using loop b0 assms(1) by (intro exI [of _ 10]) (simp add: itoa_def decimal_def drop_update_swap nth_append flip: Cons_nth_drop_Suc)
  next
    case 2
    then have "0 < length (digits ?n)" using digits_ne [of ?n] by simp
    then have "?k \<noteq> 11" "?k < 12" "digits ?n \<noteq> []" by (linarith, linarith, simp)
    with 2 show ?thesis
      unfolding itoa_def Let_def i1 loop using len assms(1)
      by (intro exI [of _ ?k]) (simp add: decimal_def)
  next
    case 3
    then have "0 < length (digits ?n)" using digits_ne [of ?n] by simp
    then have k: "?k \<noteq> 11" "0 < ?k" using len by linarith+
    then obtain l where l: "?k = Suc l" by (cases ?k) auto
    with k have "l < 11" by simp
    have "drop l ((take ?k ?b @ digits ?n @ [0])[l := 45]) = 45 # digits ?n @ [0]"
      using l assms(1) \<open>l < 11\<close> by (simp add: list_update_append take_Suc_conv_app_nth)
    moreover have "length (take ?k ?b @ digits ?n @ [0]) = 12" using assms(1) len by simp
    ultimately show ?thesis
      unfolding itoa_def Let_def i1 loop using 3 k l \<open>l < 11\<close>
      by (intro exI [of _ l]) (simp add: decimal_def)
  qed
qed

text \<open>
  C33: for every 32-bit integer, the least one included, \<open>itoa\<close> stays inside its 12-byte
  buffer and leaves there the terminated decimal notation, which reads back as the integer.
\<close>

theorem itoa_correct:
  assumes "length buf = 12" and "- 2147483648 \<le> i" and "i < 2147483648"
  shows "0 \<le> snd (itoa buf i) \<and> snd (itoa buf i) < 12 \<and> length (fst (itoa buf i)) = 12
    \<and> (\<exists>xs. drop (nat (snd (itoa buf i))) (fst (itoa buf i)) = xs @ [0] \<and> decimal_value xs = i)"
  using itoa_decimal [OF assms] decimal_value_decimal [of i] by auto

text \<open>The text a call of \<open>itoa\<close> leaves to its caller, up to the terminator.\<close>

definition itoa_text :: "int \<Rightarrow> u8 list" where
  "itoa_text i = (let (b, loc) = itoa (replicate 12 0) i in takeWhile ((\<noteq>) 0) (drop (nat loc) b))"

lemma digits_no_0: "0 \<notin> set (digits n)"
proof (induction n rule: digits.induct)
  case (1 n)
  have "(of_nat (48 + n mod 10) :: u8) \<noteq> 0"
    using digit_value [of n] by (metis uint_0_eq of_nat_0_le_iff diff_0 neg_numeral_le_numeral not_le
        linorder_not_less neg_less_0_iff_less zero_less_numeral order_less_le_trans)
  with 1 show ?case by (subst digits.simps) auto
qed

lemma decimal_no_0: "0 \<notin> set (decimal i)"
  using digits_no_0 by (simp add: decimal_def)

lemma itoa_text_decimal [simp]:
  assumes "- 2147483648 \<le> i" and "i < 2147483648"
  shows "itoa_text i = decimal i"
proof -
  obtain loc b where "itoa (replicate 12 0) i = (b, int loc)" and "drop loc b = decimal i @ [0]"
    using itoa_decimal [of "replicate 12 0" i] assms by auto
  then show ?thesis
    using decimal_no_0 [of i] by (auto simp: itoa_text_def takeWhile_append)
qed

section \<open>Properties of the string routines\<close>

text \<open>
  \<open>strcpy\<close> of a terminated string to a place that shares no byte with it returns; the
  destination then holds the string with its terminator, and no other byte changed.
\<close>

lemma strcpy_copies:
  assumes "cstr m src xs" and "disjoint_ranges dest (Suc (length xs)) src (Suc (length xs))"
    and "length xs < 4294967295"
  shows "\<exists>m'. strcpy m dest src = Some m' \<and> cstr m' dest xs
    \<and> (\<forall>a. in_range a dest (Suc (length xs)) \<or> m' a = m a)"
  using strcpy_loop_cstr [OF assms] cstr_put_bytes [OF cstr_no_0 [OF assms(1)] assms(3)]
    put_bytes_outside [of "xs @ [0]" _ dest m] assms(3)
  by (auto simp: strcpy_def)

lemma strncpy_prefix:
  assumes "cstr m src xs" and "0 < n" and "n < 2147483648" and "length xs < 2147483648"
    and "disjoint_ranges dest n src (Suc (length xs))"
  shows "cstr (strncpy m dest src (int n)) dest (take (n - 1) xs)
    \<and> (\<forall>a. in_range a dest n \<or> strncpy m dest src (int n) a = m a)"
proof -
  have e: "strncpy m dest src (int n) = put_bytes m dest (take (n - 1) xs @ [0])"
    using strncpy_loop_cstr [of m src xs dest "n - 1"] assms
    by (simp add: strncpy_def i32_id nat_diff_distrib)
  have "0 \<notin> set (take (n - 1) xs)"
    using cstr_no_0 [OF assms(1)] by (meson in_set_takeD)
  then have "cstr (strncpy m dest src (int n)) dest (take (n - 1) xs)"
    unfolding e using assms(4) by (intro cstr_put_bytes) simp_all
  moreover have "put_bytes m dest (take (n - 1) xs @ [0]) a = m a" if a: "\<not> in_range a dest n" for a
  proof (rule put_bytes_outside)
    have "length (take (n - 1) xs @ [0]) \<le> n" using assms(2) by (auto simp: min_def)
    then show "\<not> in_range a dest (length (take (n - 1) xs @ [0]))"
      using a in_range_mono by blast
  qed (use assms(4) in simp)
  ultimately show ?thesis unfolding e by blast
qed

lemma strncpy_loop_outside: "n < 4294967295 \<Longrightarrow> \<not> in_range x d (Suc n) \<Longrightarrow> strncpy_loop m d p n x = m x"
proof (induction n arbitrary: m d p)
  case 0
  then have "x \<noteq> d" using in_range_add [of 1 0 d] by auto
  then show ?case by simp
next
  case (Suc n)
  have "x \<noteq> d" using Suc.prems in_range_add [of "Suc (Suc n)" 0 d] by auto
  moreover have "\<not> in_range x (d + 1) (Suc n)" using Suc.prems in_range_step [of "Suc n" x d] by auto
  ultimately show ?case using Suc by simp
qed

lemma strncpy_outside: "0 < n \<Longrightarrow> n < 2147483648 \<Longrightarrow> \<not> in_range x d n \<Longrightarrow> strncpy m d p (int n) x = m x"
  using strncpy_loop_outside [of "n - 1" x d m p] by (simp add: strncpy_def i32_id nat_diff_distrib)

text \<open>
  \<open>strncmp_insensitive\<close> on two terminated strings shorter than the bound answers 0
  exactly when they agree up to the case of ASCII letters.
\<close>

lemma strncmp_insensitive_eq:
  assumes "cstr m p xs" and "cstr m q ys" and "length xs < n" and "length ys < n" and "n < 2147483648"
  shows "strncmp_insensitive m p q (int n) = 0 \<longleftrightarrow> map tolower xs = map tolower ys"
proof -
  have "unat (word_of_int (int n) :: u32) = n" using assms(5) by (simp add: unat_of_nat_u32)
  then show ?thesis
    using strncmp_insensitive_loop_cstr [OF assms(1,2), of n] assms(3,4)
    by (simp add: strncmp_insensitive_def)
qed

section \<open>Concrete instances\<close>

theorem itoa_correct_witness:
  "\<exists>xs. drop (nat (snd (itoa (replicate 12 0) (- 2147483648)))) (fst (itoa (replicate 12 0) (- 2147483648)))
      = xs @ [0] \<and> decimal_value xs = - 2147483648"
  using itoa_correct [of "replicate 12 0" "- 2147483648"] by simp

end
