(* ===== verification/Terminal.thy ===== *)
theory Terminal imports CString
begin

text \<open>
  \<open>src/src/terminal/terminal.c\<close>: the text screen. The VGA memory is an array of 16-bit cells
  indexed from \<open>0xB8000\<close>; row and column are the 16-bit globals of the source, which wrap.
\<close>

section \<open>State\<close>

abbreviation (input) VGA_WIDTH :: int where "VGA_WIDTH \<equiv> 80"
abbreviation (input) VGA_HEIGHT :: int where "VGA_HEIGHT \<equiv> 20"
abbreviation (input) TERMINAL_DEFAULT_COLOUR :: u8 where "TERMINAL_DEFAULT_COLOUR \<equiv> 7"

record terminal =
  video_mem :: "int \<Rightarrow> u16"
  terminal_row :: u16
  terminal_col :: u16

section \<open>Operations\<close>

text \<open>One pass of the inner copy loop, then the loop over rows and the clearing of the last line.\<close>

definition scroll_cell :: "int \<Rightarrow> int \<Rightarrow> (int \<Rightarrow> u16) \<Rightarrow> (int \<Rightarrow> u16)" where
  "scroll_cell y x v = v(y * VGA_WIDTH + x := v ((y + 1) * VGA_WIDTH + x))"

definition terminal_scroll_down :: "terminal \<Rightarrow> terminal" where
  "terminal_scroll_down t =
     (let v1 = fold (\<lambda>y. fold (scroll_cell y) [0..VGA_WIDTH - 3]) [0..VGA_HEIGHT - 1] (video_mem t);
          v2 = fold (\<lambda>x v. v(VGA_HEIGHT * VGA_WIDTH + x := 0)) [0..VGA_WIDTH - 3] v1
      in t\<lparr>video_mem := v2\<rparr>)"

definition terminal_get_current_char :: "terminal \<Rightarrow> u8" where
  "terminal_get_current_char t = ucast (video_mem t (uint (terminal_row t) * VGA_WIDTH + uint (terminal_col t)))"

text \<open>Both characters are promoted to \<open>int\<close> with their sign.\<close>

definition terminal_make_char :: "u8 \<Rightarrow> u8 \<Rightarrow> u16" where
  "terminal_make_char c colour = word_of_int (sint colour * 256) OR word_of_int (sint c)"

definition terminal_putchar :: "int \<Rightarrow> int \<Rightarrow> u8 \<Rightarrow> u8 \<Rightarrow> terminal \<Rightarrow> terminal" where
  "terminal_putchar x y c colour t =
     t\<lparr>video_mem := (video_mem t)(y * VGA_WIDTH + x := terminal_make_char c colour)\<rparr>"

text \<open>
  \<open>terminal_writechar\<close> and \<open>terminal_backspace\<close> call each other; a backspace writes a
  blank, which is no backspace, so the pair is unfolded once: \<open>write_plain\<close> is the part of
  \<open>terminal_writechar\<close> after the test for a backspace.
\<close>

definition scroll_if_needed :: "terminal \<Rightarrow> terminal" where
  "scroll_if_needed t =
     (if VGA_HEIGHT < uint (terminal_row t)
      then (terminal_scroll_down t)\<lparr>terminal_row := terminal_row t - 1\<rparr> else t)"

definition write_plain :: "u8 \<Rightarrow> u8 \<Rightarrow> terminal \<Rightarrow> terminal" where
  "write_plain c colour t =
     (let t1 = terminal_putchar (uint (terminal_col t)) (uint (terminal_row t)) c colour t
      in if uint (terminal_col t1) < VGA_WIDTH - 2
         then t1\<lparr>terminal_col := terminal_col t1 + 1\<rparr>
         else t1\<lparr>terminal_col := 0, terminal_row := terminal_row t1 + 1\<rparr>)"

definition terminal_backspace :: "terminal \<Rightarrow> terminal" where
  "terminal_backspace t =
     (if terminal_row t = 0 \<and> terminal_col t = 0 then t
      else let t1 = (if terminal_col t = 1
                     then t\<lparr>terminal_col := 79, terminal_row := terminal_row t - 1\<rparr> else t);
               t2 = t1\<lparr>terminal_col := terminal_col t1 - 1\<rparr>;
               t3 = write_plain 0x20 TERMINAL_DEFAULT_COLOUR (scroll_if_needed t2)
           in t3\<lparr>terminal_col := terminal_col t3 - 1\<rparr>)"

definition terminal_writechar :: "u8 \<Rightarrow> u8 \<Rightarrow> terminal \<Rightarrow> terminal" where
  "terminal_writechar c colour t =
     (let t1 = scroll_if_needed t
      in if c = 0x0A \<or> c = 0x0D
         then t1\<lparr>terminal_row := terminal_row t1 + 1, terminal_col := 0\<rparr>
         else if c = 0x08 then terminal_backspace t1
         else write_plain c colour t1)"

text \<open>A kernel string is the list of its bytes, without the terminator.\<close>

definition print_colour :: "u8 list \<Rightarrow> u8 \<Rightarrow> terminal \<Rightarrow> terminal" where
  "print_colour str colour = fold (\<lambda>c. terminal_writechar c colour) str"

definition print :: "u8 list \<Rightarrow> terminal \<Rightarrow> terminal" where
  "print str = print_colour str TERMINAL_DEFAULT_COLOUR"

definition println :: "u8 list \<Rightarrow> terminal \<Rightarrow> terminal" where
  "println str t = terminal_writechar 0x0A TERMINAL_DEFAULT_COLOUR (print str t)"

definition print_char :: "int \<Rightarrow> terminal \<Rightarrow> terminal" where
  "print_char c = terminal_writechar (word_of_int c) TERMINAL_DEFAULT_COLOUR"

text \<open>
  The variable arguments of \<open>printf\<close>, and its walk over the format. A format that asks for more
  arguments than were passed, or for one of the other type, reads what C leaves undefined; a
  trailing \<open>%\<close> prints the terminator and walks past it.
\<close>

datatype printf_arg = IntArg int | StrArg "u8 list"

fun printf :: "u8 list \<Rightarrow> printf_arg list \<Rightarrow> terminal \<Rightarrow> terminal outcome" where
  "printf [] args t = Ret t"
| "printf (c # fmt) args t =
     (if c \<noteq> 0x25 then printf fmt args (print_char (sint c) t)
      else case fmt of
        [] \<Rightarrow> Fault ''printf: format ends in %''
      | d # fmt' \<Rightarrow>
          if d = 0x69 then
            (case args of
               IntArg i # args' \<Rightarrow> printf fmt' args' (print (itoa_text i) t)
             | _ \<Rightarrow> Fault ''printf: no int argument'')
          else if d = 0x73 then
            (case args of
               StrArg s # args' \<Rightarrow> printf fmt' args' (print s t)
             | _ \<Rightarrow> Fault ''printf: no string argument'')
          else printf fmt' args (print_char (sint d) t))"

definition terminal_initialize :: "terminal \<Rightarrow> terminal" where
  "terminal_initialize t =
     (let t1 = t\<lparr>terminal_row := 0, terminal_col := 0\<rparr>;
          t2 = fold (\<lambda>y. fold (\<lambda>x. terminal_putchar x y 0x20 0) [0..VGA_WIDTH - 1]) [0..VGA_HEIGHT - 1] t1
      in println (map of_char ''Initialised terminal'') t2)"

section \<open>Frame lemmas\<close>

lemma fold_unchanged:
  "(\<And>x v. x \<in> set xs \<Longrightarrow> f x v i = v i) \<Longrightarrow> fold f xs v i = v i"
  by (induction xs arbitrary: v) simp_all

text \<open>One row: cell \<open>y * 80 + x\<close> gets the cell below, for the first \<open>k + 1\<close> columns.\<close>

lemma scroll_row:
  assumes "k < 80"
  shows "fold (scroll_cell y) [0..k] v i = (if y * 80 \<le> i \<and> i \<le> y * 80 + k then v (i + 80) else v i)"
proof (cases "0 \<le> k")
  case False
  then show ?thesis by auto
next
  case True
  then show ?thesis
    using assms
  proof (induction k arbitrary: i rule: int_ge_induct)
    case base
    then show ?case by (auto simp: scroll_cell_def algebra_simps)
  next
    case (step k)
    have s: "[0..k + 1] = [0..k] @ [k + 1]" using step.hyps by (simp add: upto_rec2)
    have IH: "fold (scroll_cell y) [0..k] v j = (if y * 80 \<le> j \<and> j \<le> y * 80 + k then v (j + 80) else v j)" for j
      using step by simp
    show ?case
      using step.prems step.hyps unfolding s fold_append by (simp add: scroll_cell_def IH algebra_simps)
  qed
qed

text \<open>A cell lies in the first 78 columns of row \<open>n\<close> only as its row and column say.\<close>

lemma cell_in_row:
  fixes y x n :: int
  assumes "0 \<le> x" "x < 80"
  shows "n * 80 \<le> y * 80 + x \<and> y * 80 + x \<le> n * 80 + 77 \<longleftrightarrow> y = n \<and> x < 78"
proof
  assume c: "n * 80 \<le> y * 80 + x \<and> y * 80 + x \<le> n * 80 + 77"
  then have "y = n" using assms by linarith
  with c show "y = n \<and> x < 78" by simp
qed (use assms in auto)

lemma scroll_rows:
  assumes "0 \<le> x" "x < 80" "0 \<le> n"
  shows "fold (\<lambda>y. fold (scroll_cell y) [0..77]) [0..n - 1] v (y * 80 + x)
    = (if 0 \<le> y \<and> y < n \<and> x < 78 then v ((y + 1) * 80 + x) else v (y * 80 + x))"
  using assms(3)
proof (induction n arbitrary: y rule: int_ge_induct)
  case base
  then show ?case by auto
next
  case (step n)
  let ?f = "\<lambda>y. fold (scroll_cell y) [0..77]"
  let ?v = "fold ?f [0..n - 1] v"
  have s: "[0..n + 1 - 1] = [0..n - 1] @ [n]" using step.hyps by (simp add: upto_rec2)
  have "fold ?f [0..n + 1 - 1] v (y * 80 + x)
      = (if n * 80 \<le> y * 80 + x \<and> y * 80 + x \<le> n * 80 + 77 then ?v (y * 80 + x + 80) else ?v (y * 80 + x))"
    unfolding s fold_append by (simp only: fold_simps id_apply o_apply scroll_row)
  also have "\<dots> = (if y = n \<and> x < 78 then ?v ((y + 1) * 80 + x) else ?v (y * 80 + x))"
    unfolding cell_in_row [OF assms(1,2)] by (simp add: algebra_simps)
  finally show ?case
    using step.IH [of y] step.IH [of "y + 1"] step.hyps by auto
qed

lemma clear_row:
  "fold (\<lambda>x v. v(r + x := 0)) xs v i = (if \<exists>x\<in>set xs. i = r + x then 0 else v i)"
  by (induction xs arbitrary: v) auto

lemma scroll_down_cell:
  assumes "0 \<le> x" "x < 80"
  shows "video_mem (terminal_scroll_down t) (y * 80 + x)
      = (if 0 \<le> y \<and> y < 20 \<and> x < 78 then video_mem t ((y + 1) * 80 + x)
         else if y = 20 \<and> x < 78 then 0 else video_mem t (y * 80 + x))"
proof -
  have "(\<exists>z\<in>set [0..77]. y * 80 + x = 1600 + z) \<longleftrightarrow> 20 * 80 \<le> y * 80 + x \<and> y * 80 + x \<le> 20 * 80 + 77"
    by (auto intro!: bexI [of _ "y * 80 + x - 1600"])
  then have "(\<exists>z\<in>set [0..77]. y * 80 + x = 1600 + z) \<longleftrightarrow> y = 20 \<and> x < 78"
    using cell_in_row [OF assms, of 20 y] by simp
  then show ?thesis
    using scroll_rows [OF assms, of 20 "video_mem t" y] assms
    by (simp add: terminal_scroll_down_def Let_def clear_row del: set_upto)
qed

text \<open>
  Scrolling moves the first 78 columns of every row up by one row, clears those of the
  last row, and changes neither the other cells nor the cursor.
\<close>

lemma scroll_down_moves_rows:
  assumes "0 \<le> x" "x < 80"
  shows "video_mem (terminal_scroll_down t) (y * 80 + x)
      = (if 0 \<le> y \<and> y < 20 \<and> x < 78 then video_mem t ((y + 1) * 80 + x)
         else if y = 20 \<and> x < 78 then 0 else video_mem t (y * 80 + x))
    \<and> terminal_row (terminal_scroll_down t) = terminal_row t
    \<and> terminal_col (terminal_scroll_down t) = terminal_col t"
  using scroll_down_cell [OF assms] by (simp add: terminal_scroll_down_def Let_def)

section \<open>The cursor\<close>

definition term_ok :: "terminal \<Rightarrow> bool" where
  "term_ok t \<longleftrightarrow> uint (terminal_row t) \<le> 21 \<and> uint (terminal_col t) \<le> 78"

text \<open>Cells outside the 21 rows of the screen are as before.\<close>

definition same_outside :: "terminal \<Rightarrow> terminal \<Rightarrow> bool" where
  "same_outside t t' \<longleftrightarrow> (\<forall>i. i < 0 \<or> 1680 \<le> i \<longrightarrow> video_mem t' i = video_mem t i)"

lemma same_outside_refl: "same_outside t t"
  by (simp add: same_outside_def)

lemma same_outside_trans: "same_outside a b \<Longrightarrow> same_outside b c \<Longrightarrow> same_outside a c"
  by (simp add: same_outside_def)

lemma scroll_down_outside: "same_outside t (terminal_scroll_down t)"
proof -
  have "video_mem (terminal_scroll_down t) i = video_mem t i" if "i < 0 \<or> 1680 \<le> i" for i
  proof -
    have "i = i div 80 * 80 + i mod 80" by simp
    moreover have "i div 80 < 0 \<or> 21 \<le> i div 80" using that by auto
    ultimately show ?thesis
      using scroll_down_cell [of "i mod 80" t "i div 80"] by auto
  qed
  then show ?thesis by (simp add: same_outside_def)
qed

lemma scroll_if_needed_ok:
  assumes "term_ok t"
  shows "uint (terminal_row (scroll_if_needed t)) \<le> 20" "terminal_col (scroll_if_needed t) = terminal_col t"
    "same_outside t (scroll_if_needed t)"
  using assms scroll_down_outside [of t]
  by (auto simp: scroll_if_needed_def term_ok_def uint_word_ariths same_outside_def
      terminal_scroll_down_def Let_def)

lemma write_plain_ok:
  assumes "uint (terminal_row t) \<le> 20" "uint (terminal_col t) \<le> 78"
  shows "term_ok (write_plain c colour t)" "same_outside t (write_plain c colour t)"
proof -
  have "\<not> uint (terminal_row t) * 80 + uint (terminal_col t) < 0" "\<not> uint (terminal_row t) * 80 + 78 < 0"
    by (simp_all add: not_less)
  then show "same_outside t (write_plain c colour t)"
    using assms by (auto simp: write_plain_def terminal_putchar_def same_outside_def Let_def)
  show "term_ok (write_plain c colour t)"
    using assms by (auto simp: write_plain_def terminal_putchar_def term_ok_def Let_def uint_word_ariths)
qed

text \<open>A character other than a backspace keeps the cursor on the screen and writes there.\<close>

lemma writechar_ok:
  assumes "term_ok t" and "c \<noteq> 0x08"
  shows "term_ok (terminal_writechar c colour t) \<and> same_outside t (terminal_writechar c colour t)"
proof -
  let ?s = "scroll_if_needed t"
  note s = scroll_if_needed_ok [OF assms(1)]
  have col: "uint (terminal_col ?s) \<le> 78" using s(2) assms(1) by (simp add: term_ok_def)
  show ?thesis
  proof (cases "c = 0x0A \<or> c = 0x0D")
    case True
    with s show ?thesis
      by (auto simp: terminal_writechar_def Let_def term_ok_def same_outside_def uint_word_ariths)
  next
    case False
    with s assms(2) write_plain_ok [OF s(1) col, of c colour] show ?thesis
      by (auto simp: terminal_writechar_def Let_def intro: same_outside_trans)
  qed
qed

text \<open>
  C35: printing text without backspaces keeps the cursor on the screen (row at most 21, column
  at most 78) and writes no cell outside the 21 rows of the screen.
\<close>

theorem print_stays_on_screen:
  assumes "term_ok t" and "0x08 \<notin> set str"
  shows "term_ok (print_colour str colour t) \<and> same_outside t (print_colour str colour t)"
  using assms
proof (induction str arbitrary: t)
  case Nil
  then show ?case by (simp add: print_colour_def same_outside_refl)
next
  case (Cons c str)
  then have c: "term_ok (terminal_writechar c colour t)" "same_outside t (terminal_writechar c colour t)"
    using writechar_ok [of t c colour] by auto
  with Cons show ?case
    by (auto simp: print_colour_def intro: same_outside_trans)
qed

text \<open>
  a backspace after a printed character puts the cursor back where it was and leaves a blank
  in the default colour in the cell, when the cursor was neither in the first column nor in the
  last one.
\<close>

lemma backspace_undoes_write:
  assumes "uint (terminal_row t) \<le> 20" and "0 < uint (terminal_col t)" and "uint (terminal_col t) < 78"
    and "c \<notin> {0x08, 0x0A, 0x0D}"
  shows "terminal_writechar 0x08 colour (terminal_writechar c colour t)
    = t\<lparr>video_mem := (video_mem t)(uint (terminal_row t) * 80 + uint (terminal_col t) := 0x0720)\<rparr>"
proof -
  have n: "terminal_col t + 1 \<noteq> 0" "terminal_col t + 1 \<noteq> 1"
    using assms(2,3) by (auto simp: word_uint_eq_iff uint_word_ariths)
  show ?thesis
    using assms n
    by (simp add: terminal_writechar_def scroll_if_needed_def write_plain_def terminal_putchar_def
        terminal_backspace_def terminal_make_char_def Let_def)
qed

text \<open>
  in the first column the two operations do not cancel: the test for the beginning of the
  row is made at column 1, the blank then goes to the last column of the row above, which
  advances the cursor to column 0, and the final decrement wraps it to 65535, off the screen.
\<close>

lemma backspace_at_first_column:
  assumes "uint (terminal_row t) \<le> 20" and "terminal_col t = 0" and "c \<notin> {0x08, 0x0A, 0x0D}"
  shows "terminal_col (terminal_writechar 0x08 colour (terminal_writechar c colour t)) = 65535"
  using assms
  by (simp add: terminal_writechar_def scroll_if_needed_def write_plain_def terminal_putchar_def
      terminal_backspace_def terminal_make_char_def terminal_scroll_down_def Let_def)

section \<open>Formatted output\<close>

text \<open>The text a format stands for, when every directive finds its argument.\<close>

fun render :: "u8 list \<Rightarrow> printf_arg list \<Rightarrow> u8 list option" where
  "render [] args = Some []"
| "render (c # fmt) args =
     (if c \<noteq> 0x25 then map_option ((#) c) (render fmt args)
      else case fmt of
        [] \<Rightarrow> None
      | d # fmt' \<Rightarrow>
          if d = 0x69 then
            (case args of
               IntArg i # args' \<Rightarrow> map_option ((@) (decimal i)) (render fmt' args')
             | _ \<Rightarrow> None)
          else if d = 0x73 then
            (case args of
               StrArg s # args' \<Rightarrow> map_option ((@) s) (render fmt' args')
             | _ \<Rightarrow> None)
          else map_option ((#) d) (render fmt' args))"

lemma print_append: "print (a @ b) t = print b (print a t)"
  by (simp add: print_def print_colour_def)

lemma print_nil: "print [] t = t"
  by (simp add: print_def print_colour_def)

lemma print_Cons: "print (c # b) t = print b (print_char (sint c) t)"
  by (simp add: print_def print_colour_def print_char_def)

text \<open>
  C34: when every directive of the format finds an argument of its type, \<open>printf\<close> returns and
  prints the rendered text: integers in decimal, strings as they are.
\<close>

theorem printf_renders:
  assumes "render fmt args = Some str" and "\<forall>i. IntArg i \<in> set args \<longrightarrow> - 2147483648 \<le> i \<and> i < 2147483648"
  shows "printf fmt args t = Ret (print str t)"
  using assms
  by (induction fmt args t arbitrary: str rule: printf.induct)
    (auto simp: print_append print_Cons print_nil split: if_splits list.splits printf_arg.splits)

section \<open>Concrete instances\<close>

definition home :: terminal where
  "home = \<lparr>video_mem = \<lambda>_. 0, terminal_row = 3, terminal_col = 0\<rparr>"

theorem print_stays_on_screen_witness: "term_ok (print_colour [0x48, 0x69, 0x0A] 7 home)"
  using print_stays_on_screen [of home "[0x48, 0x69, 0x0A]" 7] by (simp add: term_ok_def home_def)

theorem printf_renders_witness:
  "printf [0x25, 0x69, 0x0A] [IntArg (- 5)] home = Ret (print [0x2D, 0x35, 0x0A] home)"
  using printf_renders [of "[0x25, 0x69, 0x0A]" "[IntArg (- 5)]" "[0x2D, 0x35, 0x0A]" home]
  by (simp add: decimal_def digits.simps)

end
