(* ===== verification/KernelHeap.thy ===== *)
theory KernelHeap imports HeapRuns Terminal
begin

text \<open>
  \<open>src/src/memory/heap/kernelheap.c\<close>: the one heap of the kernel. Every later component
  extends the state \<open>machine\<close> with its own globals and calls \<open>kmalloc\<close>, \<open>kzalloc\<close> and
  \<open>kfree\<close>, which panic instead of returning a null pointer.
\<close>

section \<open>State and operations\<close>

abbreviation (input) PEACHOS_HEAP_SIZE_BYTES :: int where "PEACHOS_HEAP_SIZE_BYTES \<equiv> 104857600"
abbreviation (input) PEACHOS_HEAP_TABLE_ADDRESS :: u32 where "PEACHOS_HEAP_TABLE_ADDRESS \<equiv> 0x7E00"
abbreviation (input) PEACHOS_HEAP_ADDRESS :: u32 where "PEACHOS_HEAP_ADDRESS \<equiv> 0x1000000"

record machine =
  ram :: mem
  kernel_heap :: heap
  screen :: terminal

definition kheap_init :: "('z machine_scheme, unit) prog" where
  "kheap_init s =
     (let total_table_entries = word_of_int (PEACHOS_HEAP_SIZE_BYTES div 4096);
          table = \<lparr>entries = PEACHOS_HEAP_TABLE_ADDRESS, table_total = total_table_entries\<rparr>;
          end_ptr = PEACHOS_HEAP_ADDRESS + word_of_int PEACHOS_HEAP_SIZE_BYTES;
          (response, h, m) = heap_create (ram s) (kernel_heap s) PEACHOS_HEAP_ADDRESS end_ptr table
      in if response < 0 then Panic ''Failed to create heap''
         else Ret ((), s\<lparr>ram := m, kernel_heap := h,
                         screen := println (map of_char ''Initialised heap'') (screen s)\<rparr>))"

definition kmalloc :: "u32 \<Rightarrow> ('z machine_scheme, u32) prog" where
  "kmalloc sz s =
     (let (ptr, m) = heap_malloc (ram s) (kernel_heap s) sz
      in if ptr = 0 then Panic ''kmalloc: Ran out of memory'' else Ret (ptr, s\<lparr>ram := m\<rparr>))"

definition kzalloc :: "u32 \<Rightarrow> ('z machine_scheme, u32) prog" where
  "kzalloc sz = kbind (kmalloc sz) (\<lambda>ptr.
     if ptr = 0 then kret 0
     else kbind (kmod (\<lambda>s. s\<lparr>ram := memset (ram s) ptr 0 sz\<rparr>)) (\<lambda>_. kret ptr))"

definition kfree :: "u32 \<Rightarrow> ('z machine_scheme, unit) prog" where
  "kfree ptr = kmod (\<lambda>s. s\<lparr>ram := heap_free (ram s) (kernel_heap s) ptr\<rparr>)"

section \<open>The kernel heap as a table of segments\<close>

definition kheap :: "heap" where
  "kheap = \<lparr>htable = \<lparr>entries = PEACHOS_HEAP_TABLE_ADDRESS, table_total = 25600\<rparr>, saddr = PEACHOS_HEAP_ADDRESS\<rparr>"

definition kheap_repr :: "'z machine_scheme \<Rightarrow> seg list \<Rightarrow> bool" where
  "kheap_repr s segs \<longleftrightarrow> kernel_heap s = kheap \<and> heap_repr (ram s) (htable kheap) segs"

text \<open>The address of block \<open>b\<close> of the kernel heap.\<close>

definition block_addr :: "nat \<Rightarrow> u32" where
  "block_addr b = PEACHOS_HEAP_ADDRESS + of_nat (4096 * b)"

lemma kheap_simps [simp]:
  "saddr kheap = PEACHOS_HEAP_ADDRESS" "entries (htable kheap) = PEACHOS_HEAP_TABLE_ADDRESS"
  "table_total (htable kheap) = 25600"
  by (simp_all add: kheap_def)

lemma kheap_address: "b < 524288 \<Longrightarrow> heap_block_to_address kheap (int b) = block_addr b"
  by (simp add: heap_block_to_address_nat block_addr_def)

lemma kheap_repr_blocks: "kheap_repr s segs \<Longrightarrow> seg_blocks segs = 25600"
  using heap_repr_blocks [of "ram s" "htable kheap" segs] by (simp add: kheap_repr_def)

lemma unat_block_addr:
  assumes "b \<le> 25600"
  shows "unat (block_addr b) = 16777216 + 4096 * b"
proof -
  have "block_addr b = of_nat (16777216 + 4096 * b)"
    unfolding block_addr_def by (simp only: of_nat_add of_nat_numeral)
  moreover have "16777216 + 4096 * b < 4294967296" using assms by simp
  ultimately show ?thesis by (simp only: unat_of_nat_u32)
qed

lemma block_addr_ne_0: "b \<le> 25600 \<Longrightarrow> block_addr b \<noteq> 0"
  by (metis unat_block_addr unat_0 add_is_0 zero_neq_numeral)

lemma block_addr_inj: "a \<le> 25600 \<Longrightarrow> b \<le> 25600 \<Longrightarrow> block_addr a = block_addr b \<longleftrightarrow> a = b"
  by (metis unat_block_addr add_left_cancel mult_left_cancel zero_neq_numeral)

text \<open>The heap area lies outside the table.\<close>

lemma table_disjoint:
  assumes "b + n \<le> 25600"
  shows "disjoint_ranges PEACHOS_HEAP_TABLE_ADDRESS 25600 (block_addr b) (4096 * n)"
  using assms unat_block_addr [of b] by (intro disjoint_rangesI) simp_all

lemma kheap_repr_cong:
  assumes "kheap_repr s segs" and "kernel_heap s' = kernel_heap s"
    and "\<And>a. in_range a PEACHOS_HEAP_TABLE_ADDRESS 25600 \<Longrightarrow> ram s' a = ram s a"
  shows "kheap_repr s' segs"
proof -
  have "bytes_at (ram s') PEACHOS_HEAP_TABLE_ADDRESS 25600 = bytes_at (ram s) PEACHOS_HEAP_TABLE_ADDRESS 25600"
    using assms(3) by (intro bytes_at_cong) simp_all
  with assms(1,2) show ?thesis by (simp add: kheap_repr_def heap_repr_def)
qed

text \<open>A write inside the heap area leaves the table alone.\<close>

lemma heap_area_not_table:
  assumes "in_range a (block_addr b) (4096 * n)" and "b + n \<le> 25600"
  shows "\<not> in_range a PEACHOS_HEAP_TABLE_ADDRESS 25600"
  using assms table_disjoint [OF assms(2)] by (auto simp: disjoint_ranges_def)

section \<open>What the operations do\<close>

lemma kheap_init_repr:
  "\<exists>s'. kheap_init s = Ret ((), s') \<and> kheap_repr s' (replicate 25600 FreeBlk)"
proof -
  have "bytes_at (memset (ram s) PEACHOS_HEAP_TABLE_ADDRESS 0 25600) PEACHOS_HEAP_TABLE_ADDRESS 25600
      = replicate 25600 0"
    using bytes_at_memset [of "ram s" PEACHOS_HEAP_TABLE_ADDRESS 0 25600] by simp
  then show ?thesis
    by (simp add: kheap_init_def heap_create_def heap_validate_alignment_def heap_validate_table_def
        kheap_repr_def kheap_def heap_repr_def heap_table_ok_def)
qed

lemma kmalloc_run:
  assumes "kheap_repr s (A @ replicate (Suc k) FreeBlk @ B)" and "FreeBlk \<notin> set A"
    and "4096 * k < unat sz" and "unat sz \<le> 4096 * Suc k"
  shows "kmalloc sz s = Ret (block_addr (seg_blocks A),
    s\<lparr>ram := put_bytes (ram s) (entry_addr (htable kheap) (int (seg_blocks A))) (enc_seg (Alloc k))\<rparr>)"
proof -
  have n: "seg_blocks A < 25600"
    using kheap_repr_blocks [OF assms(1)] by simp
  then show ?thesis
    using heap_malloc_first [of "ram s" kheap A k B sz] assms block_addr_ne_0 [of "seg_blocks A"]
    by (simp add: kheap_repr_def kmalloc_def kheap_address)
qed

text \<open>The table after an allocation, and what else changed.\<close>

lemma kmalloc_repr:
  assumes "kheap_repr s (A @ replicate (Suc k) FreeBlk @ B)"
    and "s' = s\<lparr>ram := put_bytes (ram s) (entry_addr (htable kheap) (int (seg_blocks A))) (enc_seg (Alloc k))\<rparr>"
  shows "kheap_repr s' (A @ Alloc k # B)"
    and "\<And>a. \<not> in_range a PEACHOS_HEAP_TABLE_ADDRESS 25600 \<Longrightarrow> ram s' a = ram s a"
  using assms heap_repr_put_bytes [of "ram s" "htable kheap" A "replicate (Suc k) FreeBlk" B "[Alloc k]"]
    put_entries_outside [of "ram s" "htable kheap" A "replicate (Suc k) FreeBlk" B "enc_seg (Alloc k)"]
  by (auto simp: kheap_repr_def simp del: enc_seg.simps replicate_Suc)

lemma kfree_run:
  assumes "kheap_repr s (A @ Alloc k # B)"
  shows "\<exists>s'. kfree (block_addr (seg_blocks A)) s = Ret ((), s')
    \<and> kheap_repr s' (A @ replicate (Suc k) FreeBlk @ B)
    \<and> s' = s\<lparr>ram := ram s'\<rparr>
    \<and> (\<forall>a. \<not> in_range a PEACHOS_HEAP_TABLE_ADDRESS 25600 \<longrightarrow> ram s' a = ram s a)"
proof -
  have "seg_blocks A < 524288"
    using kheap_repr_blocks [OF assms] by simp
  then have f: "heap_free (ram s) kheap (block_addr (seg_blocks A))
      = put_bytes (ram s) (entry_addr (htable kheap) (int (seg_blocks A))) (replicate (Suc k) 0)"
    using heap_free_seg [of "ram s" kheap A k B] assms by (simp add: kheap_repr_def kheap_address)
  show ?thesis
    using assms put_entries_outside [of "ram s" "htable kheap" A "[Alloc k]" B "replicate (Suc k) 0"]
      heap_repr_put_bytes [of "ram s" "htable kheap" A "[Alloc k]" B "replicate (Suc k) FreeBlk"]
    by (auto simp: kfree_def kheap_repr_def kmod_apply f simp del: replicate_Suc)
qed

lemma kzalloc_run:
  assumes "kheap_repr s (A @ replicate (Suc k) FreeBlk @ B)" and "FreeBlk \<notin> set A"
    and "4096 * k < unat sz" and "unat sz \<le> 4096 * Suc k"
  shows "\<exists>s'. kzalloc sz s = Ret (block_addr (seg_blocks A), s')
    \<and> kheap_repr s' (A @ Alloc k # B) \<and> s' = s\<lparr>ram := ram s'\<rparr>
    \<and> (\<forall>a. in_range a (block_addr (seg_blocks A)) (unat sz) \<longrightarrow> ram s' a = 0)
    \<and> (\<forall>a. \<not> in_range a (block_addr (seg_blocks A)) (unat sz)
        \<and> \<not> in_range a PEACHOS_HEAP_TABLE_ADDRESS 25600 \<longrightarrow> ram s' a = ram s a)"
proof -
  let ?p = "block_addr (seg_blocks A)"
  define t where "t = s\<lparr>ram := put_bytes (ram s) (entry_addr (htable kheap) (int (seg_blocks A))) (enc_seg (Alloc k))\<rparr>"
  have b: "seg_blocks A + Suc k \<le> 25600" using kheap_repr_blocks [OF assms(1)] by simp
  define s' where "s' = t\<lparr>ram := memset (ram t) ?p 0 sz\<rparr>"
  have "kmalloc sz s = Ret (?p, t)" using kmalloc_run [OF assms] by (simp add: t_def)
  then have run: "kzalloc sz s = Ret (?p, s')"
    using b block_addr_ne_0 [of "seg_blocks A"] by (simp add: kzalloc_def outcome_simps s'_def)
  have sub: "in_range a ?p (unat sz) \<Longrightarrow> in_range a ?p (4096 * Suc k)" for a
    using in_range_mono assms(4) by blast
  have "kheap_repr s' (A @ Alloc k # B)"
  proof (rule kheap_repr_cong [OF kmalloc_repr(1) [OF assms(1) t_def]])
    fix a assume a: "in_range a PEACHOS_HEAP_TABLE_ADDRESS 25600"
    then have "\<not> in_range a ?p (unat sz)"
      using heap_area_not_table [OF _ b] sub by blast
    then show "ram s' a = ram t a" by (simp add: s'_def memset_apply)
  qed (simp add: s'_def)
  moreover have "ram s' a = (if in_range a ?p (unat sz) then 0 else ram t a)" for a
    by (simp add: s'_def memset_apply)
  moreover have "ram t a = ram s a" if "\<not> in_range a PEACHOS_HEAP_TABLE_ADDRESS 25600" for a
    using kmalloc_repr(2) [OF assms(1) t_def that] .
  moreover have "s' = s\<lparr>ram := ram s'\<rparr>" by (simp add: s'_def t_def)
  ultimately show ?thesis using run by auto
qed

text \<open>Two states with the same table, a request of at most one block, and the bytes of \<open>n\<close> blocks from block \<open>b\<close>.\<close>

lemma table_of_repr:
  assumes "kheap_repr s segs" and "kheap_repr s' segs" and a: "in_range a 0x7E00 25600"
  shows "ram s' a = ram s a"
proof -
  have "bytes_at (ram s') 0x7E00 25600 = bytes_at (ram s) 0x7E00 25600"
    using assms(1,2) by (simp add: kheap_repr_def heap_repr_def)
  moreover obtain i where "i < 25600" "a = 0x7E00 + of_nat i" using a by (rule in_rangeE)
  ultimately show ?thesis using nth_bytes_at [of i 25600 "ram s'" "0x7E00"] nth_bytes_at [of i 25600 "ram s" "0x7E00"] by simp
qed

lemma zeroed_block:
  assumes heap: "kheap_repr s (A @ FreeBlk # B)" "FreeBlk \<notin> set A" and n: "0 < n" "n < 4096"
  defines "tmp \<equiv> block_addr (seg_blocks A)"
  shows "unat tmp mod 4096 = 0" and "tmp \<noteq> 0" and "in_range a tmp 4096 \<Longrightarrow> \<not> in_range a 0x7E00 25600"
    and "\<exists>s1. kzalloc (word_of_int (int n)) s = Ret (tmp, s1) \<and> kheap_repr s1 (A @ Alloc 0 # B) \<and> s1 = s\<lparr>ram := ram s1\<rparr>
      \<and> (\<forall>a. \<not> in_range a tmp 4096 \<and> \<not> in_range a 0x7E00 25600 \<longrightarrow> ram s1 a = ram s a)"
proof -
  have b: "seg_blocks A + 1 \<le> 25600" using kheap_repr_blocks [OF heap(1)] by simp
  then show "unat tmp mod 4096 = 0" "tmp \<noteq> 0"
    using block_addr_ne_0 [of "seg_blocks A"] by (simp_all add: tmp_def unat_block_addr)
  show "in_range a tmp 4096 \<Longrightarrow> \<not> in_range a 0x7E00 25600"
    using heap_area_not_table [of a "seg_blocks A" 1] b by (simp add: tmp_def)
  have "unat (word_of_int (int n) :: u32) = n" using n(2) by (simp add: unat_of_nat_u32)
  moreover have "kheap_repr s (A @ replicate (Suc 0) FreeBlk @ B)" using heap(1) by simp
  moreover have "\<not> in_range a tmp n" if "\<not> in_range a tmp 4096" for a using that in_range_mono [of a tmp n 4096] n(2) by auto
  ultimately show "\<exists>s1. kzalloc (word_of_int (int n)) s = Ret (tmp, s1) \<and> kheap_repr s1 (A @ Alloc 0 # B) \<and> s1 = s\<lparr>ram := ram s1\<rparr>
      \<and> (\<forall>a. \<not> in_range a tmp 4096 \<and> \<not> in_range a 0x7E00 25600 \<longrightarrow> ram s1 a = ram s a)"
    using kzalloc_run [of s A 0 B "word_of_int (int n)"] heap(2) n unfolding tmp_def by auto
qed

definition in_blocks :: "nat \<Rightarrow> nat \<Rightarrow> u32 \<Rightarrow> bool" where
  "in_blocks b n a \<longleftrightarrow> 16777216 + 4096 * b \<le> unat a \<and> unat a < 16777216 + 4096 * (b + n)"

lemma in_block: "b < 25600 \<Longrightarrow> in_range a (block_addr b) 4096 \<longleftrightarrow> in_blocks b 1 a"
  by (simp add: in_range_forward in_blocks_def unat_block_addr)

text \<open>
  after \<open>kheap_init\<close>, \<open>kzalloc\<close> of any positive size up to the 100 MB of the heap
  returns the first block of the heap area, with the requested bytes zeroed, and no byte outside
  that area and the table has changed since \<open>kheap_init\<close>.
\<close>

lemma kzalloc_after_init:
  assumes "0 < unat sz" and "unat sz \<le> 104857600"
  shows "\<exists>s1 s2. kheap_init s = Ret ((), s1) \<and> kzalloc sz s1 = Ret (0x1000000, s2)
    \<and> (\<forall>i<unat sz. ram s2 (0x1000000 + of_nat i) = 0)
    \<and> (\<forall>a. in_range a 0x1000000 (unat sz) \<or> in_range a 0x7E00 25600 \<or> ram s2 a = ram s1 a)"
proof -
  define k where "k = (unat sz - 1) div 4096"
  have k: "4096 * k < unat sz" "unat sz \<le> 4096 * Suc k" "Suc k \<le> 25600"
    using assms by (simp_all add: k_def) 
  obtain s1 where s1: "kheap_init s = Ret ((), s1)" "kheap_repr s1 (replicate 25600 FreeBlk)"
    using kheap_init_repr by blast
  have "replicate 25600 FreeBlk = [] @ replicate (Suc k) FreeBlk @ replicate (25600 - Suc k) FreeBlk"
    using k(3) by (simp flip: replicate_add replicate_Suc)
  then have "kheap_repr s1 ([] @ replicate (Suc k) FreeBlk @ replicate (25600 - Suc k) FreeBlk)"
    using s1(2) by simp
  from kzalloc_run [OF this _ k(1,2)] obtain s2 where
    "kzalloc sz s1 = Ret (block_addr 0, s2)"
    "\<forall>a. in_range a (block_addr 0) (unat sz) \<longrightarrow> ram s2 a = 0"
    "\<forall>a. \<not> in_range a (block_addr 0) (unat sz) \<and> \<not> in_range a PEACHOS_HEAP_TABLE_ADDRESS 25600
      \<longrightarrow> ram s2 a = ram s1 a" by auto
  moreover have "block_addr 0 = 0x1000000" by (simp add: block_addr_def)
  ultimately show ?thesis
    using s1(1) assms(2) by (intro exI [of _ s1] exI [of _ s2]) auto
qed

section \<open>A concrete machine\<close>

text \<open>Memory all zero, which is also the table of the empty kernel heap.\<close>

definition zero_machine :: machine where
  "zero_machine = \<lparr>ram = \<lambda>_. 0, kernel_heap = kheap, screen = home\<rparr>"

lemma zero_machine_repr: "kheap_repr zero_machine (replicate 25600 FreeBlk)"
  by (simp add: kheap_repr_def heap_repr_def heap_table_ok_def zero_machine_def bytes_at_zero)

end
