(* ===== verification/Paging.thy ===== *)
theory Paging imports KernelHeap
begin

text \<open>
  \<open>src/src/memory/paging/paging.c\<close>: page directories and page tables, kept in physical memory
  as the processor reads them. The interface \<open>page_map\<close> states what the rest of the kernel
  expects of a directory: a map from page-aligned virtual addresses to entries.
\<close>

section \<open>Operations\<close>

text \<open>
  The global \<open>current_directory\<close> and the two pieces of processor state that the assembly
  routines of \<open>paging.asm\<close> set: the directory base register and the paging bit.
\<close>

record paging_machine = machine +
  current_directory :: u32
  cr3 :: u32
  paging_on :: bool

definition paging_is_aligned :: "u32 \<Rightarrow> bool" where
  "paging_is_aligned addr \<longleftrightarrow> addr mod 4096 = 0"

definition paging_align_address :: "u32 \<Rightarrow> u32" where
  "paging_align_address ptr = (if ptr mod 4096 \<noteq> 0 then ptr + 4096 - ptr mod 4096 else ptr)"

definition paging_align_to_lower_page :: "u32 \<Rightarrow> u32" where
  "paging_align_to_lower_page ptr = ptr - ptr mod 4096"

text \<open>The two out parameters keep their values when the address is not aligned.\<close>

definition paging_get_indexes :: "u32 \<Rightarrow> u32 \<Rightarrow> u32 \<Rightarrow> int \<times> u32 \<times> u32" where
  "paging_get_indexes virtual_address directory_index table_index =
     (if \<not> paging_is_aligned virtual_address then (err EINVARG, directory_index, table_index)
      else (0, virtual_address div (1024 * 4096), virtual_address mod (1024 * 4096) div 4096))"

definition paging_set :: "mem \<Rightarrow> u32 \<Rightarrow> u32 \<Rightarrow> u32 \<Rightarrow> int \<times> mem" where
  "paging_set m directory virtual_address val =
     (if \<not> paging_is_aligned virtual_address then (err EINVARG, m)
      else let (res, page_directory_index, page_table_index) = paging_get_indexes virtual_address 0 0
           in if res < 0 then (res, m)
              else let entry = load32 m (directory + 4 * page_directory_index);
                       table = entry AND 0xFFFFF000
                   in (res, store32 m (table + 4 * page_table_index) val))"

definition paging_get :: "mem \<Rightarrow> u32 \<Rightarrow> u32 \<Rightarrow> u32" where
  "paging_get m directory virt =
     (let (res, directory_index, table_index) = paging_get_indexes virt 0 0;
          entry = load32 m (directory + 4 * directory_index);
          table = entry AND 0xFFFFF000
      in load32 m (table + 4 * table_index))"

definition paging_get_physical_address :: "mem \<Rightarrow> u32 \<Rightarrow> u32 \<Rightarrow> u32" where
  "paging_get_physical_address m directory virt =
     (let aligned_virt_addr = paging_align_to_lower_page virt;
          difference = virt - aligned_virt_addr
      in (paging_get m directory aligned_virt_addr AND 0xFFFFF000) + difference)"

text \<open>A \<open>struct paging_4gb_chunk\<close> is the address of one word, the directory.\<close>

definition paging_4gb_chunk_get_directory :: "mem \<Rightarrow> u32 \<Rightarrow> u32" where
  "paging_4gb_chunk_get_directory m chunk = load32 m chunk"

definition paging_map :: "mem \<Rightarrow> u32 \<Rightarrow> u32 \<Rightarrow> u32 \<Rightarrow> int \<Rightarrow> int \<times> mem" where
  "paging_map m directory virt phys flags =
     (if virt mod 4096 \<noteq> 0 \<or> phys mod 4096 \<noteq> 0 then (err EINVARG, m)
      else paging_set m (load32 m directory) virt (phys OR word_of_int flags))"

text \<open>The loop of \<open>paging_map_range\<close> with \<open>n\<close> rounds left and the last result.\<close>

fun paging_map_range_loop :: "mem \<Rightarrow> u32 \<Rightarrow> u32 \<Rightarrow> u32 \<Rightarrow> nat \<Rightarrow> int \<Rightarrow> int \<Rightarrow> int \<times> mem" where
  "paging_map_range_loop m directory virt phys 0 flags res = (res, m)"
| "paging_map_range_loop m directory virt phys (Suc n) flags res =
     (let (res', m') = paging_map m directory virt phys flags
      in if res' < 0 then (res', m')
         else paging_map_range_loop m' directory (virt + 4096) (phys + 4096) n flags res')"

definition paging_map_range :: "mem \<Rightarrow> u32 \<Rightarrow> u32 \<Rightarrow> u32 \<Rightarrow> int \<Rightarrow> int \<Rightarrow> int \<times> mem" where
  "paging_map_range m directory virt phys page_count flags =
     paging_map_range_loop m directory virt phys (nat page_count) flags 0"

definition paging_map_to :: "mem \<Rightarrow> u32 \<Rightarrow> u32 \<Rightarrow> u32 \<Rightarrow> u32 \<Rightarrow> int \<Rightarrow> int \<times> mem" where
  "paging_map_to m directory virt phys phys_end flags =
     (if virt mod 4096 \<noteq> 0 then (err EINVARG, m)
      else if phys mod 4096 \<noteq> 0 then (err EINVARG, m)
      else if phys_end mod 4096 \<noteq> 0 then (err EINVARG, m)
      else if phys_end < phys then (err EINVARG, m)
      else let total_bytes = phys_end - phys;
               total_pages = sint (total_bytes div 4096)
           in paging_map_range m directory virt phys total_pages flags)"

text \<open>The inner loop of \<open>paging_new_4gb\<close> after \<open>n\<close> rounds, and the outer loop with
  \<open>n\<close> rounds left.\<close>

primrec fill_table :: "mem \<Rightarrow> u32 \<Rightarrow> u32 \<Rightarrow> u32 \<Rightarrow> nat \<Rightarrow> mem" where
  "fill_table m entry offset flags 0 = m"
| "fill_table m entry offset flags (Suc b) =
     store32 (fill_table m entry offset flags b) (entry + 4 * of_nat b) ((offset + of_nat b * 4096) OR flags)"

primrec new_tables :: "u32 \<Rightarrow> u32 \<Rightarrow> u32 \<Rightarrow> nat \<Rightarrow> nat \<Rightarrow> ('z machine_scheme, unit) prog" where
  "new_tables directory flags offset i 0 = kret ()"
| "new_tables directory flags offset i (Suc n) =
     kbind (kzalloc (4 * 1024)) (\<lambda>entry.
     kbind (kmod (\<lambda>s. s\<lparr>ram := store32 (fill_table (ram s) entry offset flags 1024)
       (directory + 4 * of_nat i) (entry OR flags OR 2)\<rparr>)) (\<lambda>_.
     new_tables directory flags (offset + 1024 * 4096) (i + 1) n))"

definition paging_new_4gb :: "u8 \<Rightarrow> ('z machine_scheme, u32) prog" where
  "paging_new_4gb flags =
     kbind (kzalloc (4 * 1024)) (\<lambda>directory.
     kbind (new_tables directory (ucast flags) 0 0 1024) (\<lambda>_.
     kbind (kzalloc 4) (\<lambda>chunk_4gb.
     kbind (kmod (\<lambda>s. s\<lparr>ram := store32 (ram s) chunk_4gb directory\<rparr>)) (\<lambda>_.
     kret chunk_4gb))))"

primrec free_tables :: "u32 \<Rightarrow> nat \<Rightarrow> nat \<Rightarrow> ('z machine_scheme, unit) prog" where
  "free_tables chunk i 0 = kret ()"
| "free_tables chunk i (Suc n) =
     kbind (kget (\<lambda>s. load32 (ram s) (load32 (ram s) chunk + 4 * of_nat i))) (\<lambda>entry.
     kbind (kfree (entry AND 0xFFFFF000)) (\<lambda>_. free_tables chunk (i + 1) n))"

definition paging_free_4gb :: "u32 \<Rightarrow> ('z machine_scheme, unit) prog" where
  "paging_free_4gb chunk =
     kbind (free_tables chunk 0 1024) (\<lambda>_.
     kbind (kget (\<lambda>s. load32 (ram s) chunk)) (\<lambda>directory.
     kbind (kfree directory) (\<lambda>_. kfree chunk)))"

definition paging_switch :: "u32 \<Rightarrow> ('z paging_machine_scheme, unit) prog" where
  "paging_switch directory = kmod (\<lambda>s.
     let d = load32 (ram s) directory in s\<lparr>cr3 := d, current_directory := d\<rparr>)"

definition enable_paging :: "('z paging_machine_scheme, unit) prog" where
  "enable_paging = kmod (\<lambda>s.
     s\<lparr>paging_on := True, screen := println (map of_char ''Enabled paging'') (screen s)\<rparr>)"

section \<open>Pages and entries\<close>

lemma page_mask: "(x :: u32) AND 0xFFFFF000 = push_bit 12 (drop_bit 12 x)"
proof -
  have m: "(0xFFFFF000 :: u32) = NOT (mask 12)" by (simp add: mask_eq_exp_minus_1)
  show ?thesis
    unfolding m by (rule bit_word_eqI) (auto simp: bit_simps)
qed

lemma unat_page_mask: "unat ((x :: u32) AND 0xFFFFF000) = unat x div 4096 * 4096"
proof -
  have "unat x div 4096 * 4096 < 4294967296"
    using unsigned_less [of x, where 'a = nat] by simp
  then show ?thesis
    unfolding page_mask by (simp add: push_bit_eq_mult drop_bit_eq_div unat_word_ariths unat_div)
qed

lemma page_mask_aligned: "unat ((x :: u32) AND 0xFFFFF000) mod 4096 = 0"
  by (simp add: unat_page_mask)

lemma page_mask_id: "unat (p :: u32) mod 4096 = 0 \<Longrightarrow> p AND 0xFFFFF000 = p"
  using unat_page_mask [of p] div_mult_mod_eq [of "unat p" 4096] by (simp add: word_unat_eq_iff)

lemma page_mask_flags:
  assumes "unat (p :: u32) mod 4096 = 0" and "unat f < 4096"
  shows "(p OR f) AND 0xFFFFF000 = p"
proof -
  have "drop_bit 12 f = 0" using assms(2) by (simp add: word_unat_eq_iff drop_bit_eq_div unat_div)
  then have "(p OR f) AND 0xFFFFF000 = p AND 0xFFFFF000" by (simp add: page_mask drop_bit_or)
  with page_mask_id [OF assms(1)] show ?thesis by simp
qed

text \<open>Word \<open>i\<close> of the page \<open>p\<close>.\<close>

definition page_word :: "u32 \<Rightarrow> nat \<Rightarrow> u32" where
  "page_word p i = p + 4 * of_nat i"

abbreviation page_aligned :: "u32 \<Rightarrow> bool" where
  "page_aligned p \<equiv> unat p mod 4096 = 0"

lemma paging_is_aligned_iff [simp]: "paging_is_aligned p \<longleftrightarrow> page_aligned p"
  by (simp add: paging_is_aligned_def word_unat_eq_iff unat_mod)

lemma mod_4096_iff: "(p :: u32) mod 4096 = 0 \<longleftrightarrow> page_aligned p"
  by (simp add: word_unat_eq_iff unat_mod)

lemma unat_page_word: "page_aligned p \<Longrightarrow> i < 1024 \<Longrightarrow> unat (page_word p i) = unat p + 4 * i"
  using unat_aligned_add [of p 12 "4 * i"] by (simp add: page_word_def)

lemma page_word_aligned: "page_aligned p \<Longrightarrow> i < 1024 \<Longrightarrow> unat (page_word p i) mod 4 = 0"
  by (auto simp: unat_page_word mod_add_eq elim!: dvdE simp flip: mod_0_imp_dvd) 

lemma page_word_inj:
  assumes "page_aligned p" "page_aligned q" "i < 1024" "j < 1024"
  shows "page_word p i = page_word q j \<longleftrightarrow> p = q \<and> i = j"
proof
  assume e: "page_word p i = page_word q j"
  have "p = q"
    using aligned_blocks_disjoint [of p 12 q "4 * i" "4 * j"] assms e by (auto simp: page_word_def)
  moreover have "unat p + 4 * i = unat q + 4 * j"
    using e assms unat_page_word by metis
  ultimately show "p = q \<and> i = j" by simp
qed simp

text \<open>Reading a page word after a write to another, or the same, page word.\<close>

lemma load_page_word:
  assumes "page_aligned p" "page_aligned q" "i < 1024" "j < 1024"
  shows "load32 (store32 m (page_word p i) v) (page_word q j)
    = (if p = q \<and> i = j then v else load32 m (page_word q j))"
  using page_word_inj [OF assms] assms load32_store32_other [of "page_word p i" "page_word q j" m v]
  by (auto simp: load32_store32_same page_word_aligned)

text \<open>The two indexes of a virtual address.\<close>

definition dir_index :: "u32 \<Rightarrow> nat" where
  "dir_index v = unat v div 4194304"

definition tbl_index :: "u32 \<Rightarrow> nat" where
  "tbl_index v = unat v mod 4194304 div 4096"

lemma dir_index_less [simp]: "dir_index v < 1024"
  using unsigned_less [of v, where 'a = nat] by (simp add: dir_index_def less_mult_imp_div_less)

lemma tbl_index_less [simp]: "tbl_index v < 1024"
  by (simp add: tbl_index_def less_mult_imp_div_less)

lemma index_inj:
  assumes "page_aligned v" "page_aligned w"
  shows "dir_index v = dir_index w \<and> tbl_index v = tbl_index w \<longleftrightarrow> v = w"
proof -
  have "unat v = 4194304 * dir_index v + 4096 * tbl_index v" if "page_aligned v" for v :: u32
  proof -
    have "unat v mod 4194304 mod 4096 = 0" using that by (simp add: mod_mod_cancel)
    then have "4096 * tbl_index v = unat v mod 4194304"
      unfolding tbl_index_def by (metis add.right_neutral mult_div_mod_eq)
    then show ?thesis by (simp add: dir_index_def)
  qed
  then show ?thesis using assms by (metis word_unat_eq_iff)
qed

lemma paging_get_indexes_aligned:
  assumes "page_aligned v"
  shows "paging_get_indexes v a b = (0, of_nat (dir_index v), of_nat (tbl_index v))"
proof -
  have "unat v mod 4194304 div 4096 < 4294967296" "unat v div 4194304 < 4294967296"
    using dir_index_less [of v] tbl_index_less [of v] by (simp_all add: dir_index_def tbl_index_def)
  then show ?thesis
    using assms by (simp add: paging_get_indexes_def dir_index_def tbl_index_def word_unat_eq_iff
      unat_div unat_mod unat_of_nat_u32)
qed

definition page_table :: "mem \<Rightarrow> u32 \<Rightarrow> nat \<Rightarrow> u32" where
  "page_table m directory d = load32 m (page_word directory d) AND 0xFFFFF000"

lemma page_table_aligned [simp]: "page_aligned (page_table m directory d)"
  by (simp add: page_table_def page_mask_aligned)

lemma paging_get_word:
  "page_aligned v \<Longrightarrow> paging_get m directory v
    = load32 m (page_word (page_table m directory (dir_index v)) (tbl_index v))"
  by (simp add: paging_get_def paging_get_indexes_aligned page_table_def page_word_def)

lemma paging_set_word:
  "page_aligned v \<Longrightarrow> paging_set m directory v x
    = (0, store32 m (page_word (page_table m directory (dir_index v)) (tbl_index v)) x)"
  by (simp add: paging_set_def paging_get_indexes_aligned page_table_def page_word_def)

lemma paging_set_unaligned: "\<not> page_aligned v \<Longrightarrow> paging_set m directory v x = (err EINVARG, m)"
  by (simp add: paging_set_def)

text \<open>A directory in good order: its tables are pages apart from each other and from it.\<close>

definition wf_dir :: "u32 \<Rightarrow> mem \<Rightarrow> bool" where
  "wf_dir directory m \<longleftrightarrow> page_aligned directory
     \<and> (\<forall>d<1024. page_table m directory d \<noteq> directory)
     \<and> (\<forall>d<1024. \<forall>e<1024. page_table m directory d = page_table m directory e \<longrightarrow> d = e)"

lemma page_table_store:
  assumes "wf_dir directory m" "d < 1024" "e < 1024" "i < 1024"
  shows "page_table (store32 m (page_word (page_table m directory d) i) x) directory e
    = page_table m directory e"
  using assms load_page_word [of "page_table m directory d" directory i e m x]
  by (simp add: page_table_def [of _ directory e] wf_dir_def)

section \<open>The interface of a directory\<close>

text \<open>
  What the kernel relies on: setting the entry of an aligned address succeeds and changes that
  entry and no other; an unaligned address is refused.
\<close>

locale page_map =
  fixes ok :: "'m \<Rightarrow> bool"
    and get :: "'m \<Rightarrow> u32 \<Rightarrow> u32"
    and set_entry :: "'m \<Rightarrow> u32 \<Rightarrow> u32 \<Rightarrow> int \<times> 'm"
  assumes set_aligned: "ok m \<Longrightarrow> page_aligned v \<Longrightarrow> fst (set_entry m v x) = 0"
    and set_ok: "ok m \<Longrightarrow> page_aligned v \<Longrightarrow> ok (snd (set_entry m v x))"
    and get_set: "ok m \<Longrightarrow> page_aligned v \<Longrightarrow> page_aligned w
      \<Longrightarrow> get (snd (set_entry m v x)) w = (if w = v then x else get m w)"
    and set_refused: "\<not> page_aligned v \<Longrightarrow> set_entry m v x = (err EINVARG, m)"
begin

text \<open>Setting a list of entries one after the other: the last entry for an address counts.\<close>

lemma set_many_ok:
  "ok m \<Longrightarrow> \<forall>(v, x)\<in>set vxs. page_aligned v \<Longrightarrow> ok (foldl (\<lambda>m (v, x). snd (set_entry m v x)) m vxs)"
  by (induction vxs arbitrary: m) (auto simp: set_ok)

lemma get_set_many:
  "ok m \<Longrightarrow> \<forall>(v, x)\<in>set vxs. page_aligned v \<Longrightarrow> page_aligned w \<Longrightarrow>
    get (foldl (\<lambda>m (v, x). snd (set_entry m v x)) m vxs) w
      = (case map_of (rev vxs) w of Some x \<Rightarrow> x | None \<Rightarrow> get m w)"
proof (induction vxs rule: rev_induct)
  case Nil
  then show ?case by simp
next
  case (snoc vx vxs)
  obtain v x where "vx = (v, x)" by fastforce
  with snoc set_many_ok [of m vxs] show ?case by (simp add: get_set)
qed

lemma set_twice:
  "ok m \<Longrightarrow> page_aligned v \<Longrightarrow> page_aligned w
    \<Longrightarrow> get (snd (set_entry (snd (set_entry m v x)) v y)) w = get (snd (set_entry m v y)) w"
  by (simp add: get_set set_ok)

lemma set_commute:
  "ok m \<Longrightarrow> page_aligned u \<Longrightarrow> page_aligned v \<Longrightarrow> page_aligned w \<Longrightarrow> u \<noteq> v
    \<Longrightarrow> get (snd (set_entry (snd (set_entry m u x)) v y)) w
      = get (snd (set_entry (snd (set_entry m v y)) u x)) w"
  by (simp add: get_set set_ok)

end

lemma wf_dir_set:
  assumes "wf_dir directory m" "page_aligned v"
  shows "wf_dir directory (snd (paging_set m directory v x))"
  using assms(1) page_table_store [OF assms(1) dir_index_less [of v] _ tbl_index_less [of v], of _ x]
  by (simp add: wf_dir_def paging_set_word [OF assms(2)])

lemma paging_get_set:
  assumes "wf_dir directory m" "page_aligned v" "page_aligned w"
  shows "paging_get (snd (paging_set m directory v x)) directory w
    = (if w = v then x else paging_get m directory w)"
proof -
  let ?t = "page_table m directory"
  have "?t (dir_index v) = ?t (dir_index w) \<longleftrightarrow> dir_index v = dir_index w"
    using assms(1) by (auto simp: wf_dir_def)
  then have "?t (dir_index v) = ?t (dir_index w) \<and> tbl_index v = tbl_index w \<longleftrightarrow> v = w"
    using index_inj [OF assms(2,3)] by simp
  then show ?thesis
    using assms(1) load_page_word [of "?t (dir_index v)" "?t (dir_index w)" "tbl_index v" "tbl_index w" m x]
    by (auto simp: paging_get_word [OF assms(3)] paging_set_word [OF assms(2)] page_table_store)
qed

interpretation pg: page_map "wf_dir directory" "\<lambda>m. paging_get m directory" "\<lambda>m. paging_set m directory"
  for directory :: u32
  by unfold_locales (auto simp: wf_dir_set paging_get_set paging_set_unaligned, simp add: paging_set_word)

section \<open>Mapping ranges\<close>

lemma aligned_page_word:
  assumes "unat a mod 4 = 0"
  shows "a = page_word (a AND 0xFFFFF000) (unat a mod 4096 div 4)" "unat a mod 4096 div 4 < 1024"
proof -
  show i: "unat a mod 4096 div 4 < 1024" by (simp add: less_mult_imp_div_less)
  have "unat a mod 4096 mod 4 = 0" using assms by (simp add: mod_mod_cancel)
  then have "4 * (unat a mod 4096 div 4) = unat a mod 4096"
    by (metis add.right_neutral mult_div_mod_eq)
  then have "unat (page_word (a AND 0xFFFFF000) (unat a mod 4096 div 4)) = unat a"
    using unat_page_word [OF page_mask_aligned i] by (simp add: unat_page_mask)
  then show "a = page_word (a AND 0xFFFFF000) (unat a mod 4096 div 4)"
    by (simp add: word_unat_eq_iff)
qed

text \<open>A chunk whose directory is in good order and whose own word no table overlaps.\<close>

definition wf_chunk :: "u32 \<Rightarrow> mem \<Rightarrow> bool" where
  "wf_chunk chunk m \<longleftrightarrow> unat chunk mod 4 = 0 \<and> wf_dir (load32 m chunk) m
     \<and> (\<forall>d<1024. page_table m (load32 m chunk) d \<noteq> chunk AND 0xFFFFF000)"

lemma load_chunk_set:
  assumes "wf_chunk chunk m" "page_aligned v"
  shows "load32 (snd (paging_set m (load32 m chunk) v x)) chunk = load32 m chunk"
proof -
  have a: "unat chunk mod 4 = 0" using assms by (simp add: wf_chunk_def)
  have "load32 (store32 m (page_word (page_table m (load32 m chunk) (dir_index v)) (tbl_index v)) x)
      (page_word (chunk AND 0xFFFFF000) (unat chunk mod 4096 div 4))
    = load32 m (page_word (chunk AND 0xFFFFF000) (unat chunk mod 4096 div 4))"
    using assms(1) aligned_page_word(2) [OF a]
    by (simp add: load_page_word page_mask_aligned wf_chunk_def)
  then show ?thesis
    using aligned_page_word(1) [OF a] by (simp add: paging_set_word [OF assms(2)])
qed

lemma wf_chunk_set:
  assumes "wf_chunk chunk m" "page_aligned v"
  shows "wf_chunk chunk (snd (paging_set m (load32 m chunk) v x))"
  using assms load_chunk_set [OF assms] wf_dir_set [of "load32 m chunk" m v x]
  by (simp add: wf_chunk_def paging_set_word page_table_store)

lemma page_aligned_add [simp]: "page_aligned p \<Longrightarrow> page_aligned (p + 4096)"
  by (simp add: unat_word_ariths mod_mod_cancel mod_add_eq)

lemma page_aligned_add_mult: "page_aligned p \<Longrightarrow> page_aligned (p + 4096 * of_nat i)"
proof (induction i)
  case (Suc i)
  then show ?case using page_aligned_add [of "p + 4096 * of_nat i"] by (simp add: algebra_simps)
qed simp

text \<open>The entries a mapping of \<open>n\<close> pages sets.\<close>

definition range_entries :: "u32 \<Rightarrow> u32 \<Rightarrow> int \<Rightarrow> nat \<Rightarrow> (u32 \<times> u32) list" where
  "range_entries virt phys flags n
     = map (\<lambda>i. (virt + 4096 * of_nat i, (phys + 4096 * of_nat i) OR word_of_int flags)) [0..<n]"

lemma range_entries_Suc:
  "range_entries virt phys flags (Suc n)
    = (virt, phys OR word_of_int flags) # range_entries (virt + 4096) (phys + 4096) flags n"
  by (simp add: range_entries_def upt_conv_Cons algebra_simps del: upt_Suc flip: map_Suc_upt)

lemma map_range_loop_sets:
  "wf_chunk chunk m \<Longrightarrow> page_aligned virt \<Longrightarrow> page_aligned phys \<Longrightarrow>
    paging_map_range_loop m chunk virt phys n flags 0
      = (0, foldl (\<lambda>m (v, x). snd (paging_set m (load32 m chunk) v x)) m (range_entries virt phys flags n))"
proof (induction n arbitrary: m virt phys)
  case 0
  then show ?case by (simp add: range_entries_def)
next
  case (Suc n)
  then show ?case
    using wf_chunk_set [OF Suc.prems(1,2)]
    by (simp add: range_entries_Suc paging_map_def mod_4096_iff pg.set_aligned wf_chunk_def split_beta)
qed

lemma foldl_set_chunk:
  "wf_chunk chunk m \<Longrightarrow> \<forall>(v, x)\<in>set vxs. page_aligned v \<Longrightarrow>
    foldl (\<lambda>m (v, x). snd (paging_set m (load32 m chunk) v x)) m vxs
      = foldl (\<lambda>m' (v, x). snd (paging_set m' (load32 m chunk) v x)) m vxs
    \<and> wf_chunk chunk (foldl (\<lambda>m' (v, x). snd (paging_set m' (load32 m chunk) v x)) m vxs)
    \<and> load32 (foldl (\<lambda>m' (v, x). snd (paging_set m' (load32 m chunk) v x)) m vxs) chunk = load32 m chunk"
proof (induction vxs arbitrary: m)
  case Nil
  then show ?case by simp
next
  case (Cons vx vxs)
  obtain v x where vx: "vx = (v, x)" by fastforce
  with Cons.prems have v: "page_aligned v" by simp
  from Cons.IH [OF wf_chunk_set [OF Cons.prems(1) v, of x]] Cons.prems show ?case
    by (simp add: vx load_chunk_set [OF Cons.prems(1) v])
qed

lemma distinct_range_entries:
  assumes "n \<le> 1048576"
  shows "distinct (map fst (range_entries virt phys flags n))"
proof -
  have "inj_on (\<lambda>i. virt + 4096 * of_nat i) {0..<n}"
  proof (rule inj_onI)
    fix i j assume ij: "i \<in> {0..<n}" "j \<in> {0..<n}" and "virt + 4096 * of_nat i = virt + 4096 * of_nat j"
    then have "(of_nat (4096 * i) :: u32) = of_nat (4096 * j)" by simp
    moreover have "4096 * i < 4294967296" "4096 * j < 4294967296" using ij assms by simp_all
    ultimately have "4096 * i = 4096 * j" by (metis unat_of_nat_u32)
    then show "i = j" by simp
  qed
  then show ?thesis by (simp add: range_entries_def distinct_map comp_def)
qed

lemma map_of_rev_distinct: "distinct (map fst xs) \<Longrightarrow> map_of (rev xs) = map_of xs"
  by (subst map_of_inject_set) (simp_all flip: rev_map)

lemma paging_map_range_gets:
  assumes "wf_chunk chunk m" "page_aligned virt" "page_aligned phys" "n \<le> 1048576"
  shows "fst (paging_map_range m chunk virt phys (int n) flags) = 0"
    and "wf_chunk chunk (snd (paging_map_range m chunk virt phys (int n) flags))"
    and "load32 (snd (paging_map_range m chunk virt phys (int n) flags)) chunk = load32 m chunk"
    and "page_aligned w \<Longrightarrow>
      paging_get (snd (paging_map_range m chunk virt phys (int n) flags)) (load32 m chunk) w
        = (case map_of (range_entries virt phys flags n) w of Some x \<Rightarrow> x
           | None \<Rightarrow> paging_get m (load32 m chunk) w)"
proof -
  have al: "\<forall>(v, x)\<in>set (range_entries virt phys flags n). page_aligned v"
    using assms(2) page_aligned_add_mult by (auto simp: range_entries_def)
  note run = map_range_loop_sets [OF assms(1-3), of n flags] foldl_set_chunk [OF assms(1) al]
  show "fst (paging_map_range m chunk virt phys (int n) flags) = 0"
    "wf_chunk chunk (snd (paging_map_range m chunk virt phys (int n) flags))"
    "load32 (snd (paging_map_range m chunk virt phys (int n) flags)) chunk = load32 m chunk"
    using run by (simp_all add: paging_map_range_def)
  assume "page_aligned w"
  then show "paging_get (snd (paging_map_range m chunk virt phys (int n) flags)) (load32 m chunk) w
        = (case map_of (range_entries virt phys flags n) w of Some x \<Rightarrow> x
           | None \<Rightarrow> paging_get m (load32 m chunk) w)"
    using run pg.get_set_many [OF _ al, of "load32 m chunk" m w] assms(1)
      map_of_rev_distinct [OF distinct_range_entries [OF assms(4)]]
    by (simp add: paging_map_range_def wf_chunk_def)
qed

section \<open>Address translation\<close>

lemma unat_page_split: "unat (x :: u32) = unat (x AND 0xFFFFF000) + unat (x mod 4096)"
  using div_mult_mod_eq [of "unat x" 4096] by (simp add: unat_page_mask unat_mod)

lemma lower_page: "paging_align_to_lower_page x = x AND 0xFFFFF000"
proof -
  have "x = (x AND 0xFFFFF000) + x mod 4096"
    using unat_page_split [of x] unsigned_less [of x, where 'a = nat]
    by (simp add: word_unat_eq_iff unat_word_ariths)
  then show ?thesis
    unfolding paging_align_to_lower_page_def by (metis add_diff_cancel_right')
qed

lemma range_entries_lookup:
  assumes "i < n" "n \<le> 1048576"
  shows "map_of (range_entries virt phys flags n) (virt + 4096 * of_nat i)
    = Some ((phys + 4096 * of_nat i) OR word_of_int flags)"
proof (rule map_of_is_SomeI [OF distinct_range_entries [OF assms(2)]])
  show "(virt + 4096 * of_nat i, (phys + 4096 * of_nat i) OR word_of_int flags)
      \<in> set (range_entries virt phys flags n)"
    using assms(1) by (auto simp: range_entries_def)
qed

lemma range_entries_outside:
  assumes "\<not> in_range w virt (4096 * n)" "n \<le> 1048576"
  shows "map_of (range_entries virt phys flags n) w = None"
proof -
  have "w \<noteq> virt + 4096 * of_nat i" if "i < n" for i
    using assms in_range_add [of "4096 * n" "4096 * i" virt] that by auto
  moreover have "\<exists>i<n. v = virt + 4096 * of_nat i" if "v \<in> fst ` set (range_entries virt phys flags n)" for v
    using that by (auto simp: range_entries_def)
  ultimately show ?thesis unfolding map_of_eq_None_iff by blast
qed

lemma page_mask_add:
  assumes "page_aligned p" "unat f < 4096"
  shows "(p + f) AND 0xFFFFF000 = p"
proof -
  have "unat (p + f) = unat p + unat f"
    using unat_aligned_add [of p 12 "unat f"] assms by simp
  moreover have "unat (p + f) div 4096 * 4096 = unat p"
    unfolding calculation using assms div_mult_mod_eq [of "unat p" 4096]
    by (simp add: div_add1_eq)
  ultimately show ?thesis
    using unat_page_mask [of "p + f"] by (simp add: word_unat_eq_iff)
qed

lemma paging_get_physical_address_entry:
  assumes "page_aligned v" "unat f < 4096" "paging_get m directory v = p OR fl"
    and "page_aligned p" "unat fl < 4096"
  shows "paging_get_physical_address m directory (v + f) = p + f"
  using assms by (simp add: paging_get_physical_address_def lower_page page_mask_add page_mask_flags)

lemma map_to_pages:
  assumes "page_aligned phys" "page_aligned phys_end" "phys \<le> phys_end"
  shows "sint ((phys_end - phys) div 4096) = int (unat (phys_end - phys) div 4096)"
    and "unat (phys_end - phys) = 4096 * (unat (phys_end - phys) div 4096)"
    and "unat (phys_end - phys) div 4096 \<le> 1048576"
proof -
  have u: "unat (phys_end - phys) = unat phys_end - unat phys"
    using assms(3) by (simp add: unat_sub word_le_nat_alt)
  have "(unat phys_end - unat phys) mod 4096 = 0"
    using assms(1,2) by (meson dvd_diff_nat dvd_imp_mod_0 mod_0_imp_dvd)
  then show "unat (phys_end - phys) = 4096 * (unat (phys_end - phys) div 4096)"
    unfolding u by (metis add.right_neutral mult_div_mod_eq)
  have l: "unat (phys_end - phys) < 4294967296"
    using unsigned_less [of "phys_end - phys", where 'a = nat] by simp
  then show "unat (phys_end - phys) div 4096 \<le> 1048576" by simp
  have "unat ((phys_end - phys) div 4096) = unat (phys_end - phys) div 4096"
    by (simp add: unat_div)
  then show "sint ((phys_end - phys) div 4096) = int (unat (phys_end - phys) div 4096)"
    using l by (subst sint_small) simp_all
qed

text \<open>
  C18: mapping a physical range with aligned bounds succeeds; afterwards the directory translates
  every address of the virtual range, byte for byte, to the physical one, the entries of all
  other pages are as before, and the directory is still in good order.
\<close>

theorem paging_map_to_translates:
  assumes "wf_chunk chunk m" "page_aligned virt" "page_aligned phys" "page_aligned phys_end"
    and "phys \<le> phys_end" "0 \<le> flags" "flags < 4096"
  shows "fst (paging_map_to m chunk virt phys phys_end flags) = 0
    \<and> wf_chunk chunk (snd (paging_map_to m chunk virt phys phys_end flags))
    \<and> (\<forall>i < unat (phys_end - phys).
        paging_get_physical_address (snd (paging_map_to m chunk virt phys phys_end flags)) (load32 m chunk)
          (virt + of_nat i) = phys + of_nat i)
    \<and> (\<forall>w. page_aligned w \<and> \<not> in_range w virt (unat (phys_end - phys)) \<longrightarrow>
        paging_get (snd (paging_map_to m chunk virt phys phys_end flags)) (load32 m chunk) w
          = paging_get m (load32 m chunk) w)"
proof -
  define n where "n = unat (phys_end - phys) div 4096"
  note pages = map_to_pages [OF assms(3-5), folded n_def]
  define m' where "m' = snd (paging_map_range m chunk virt phys (int n) flags)"
  note gets = paging_map_range_gets [where flags = flags, OF assms(1-3) pages(3), folded m'_def]
  have mt: "paging_map_to m chunk virt phys phys_end flags = (0, m')"
    using assms(2-5) gets(1) pages(1)
    by (simp add: paging_map_to_def mod_4096_iff m'_def not_less [symmetric] prod_eq_iff)
  have fl: "unat (word_of_int flags :: u32) < 4096"
    using assms(6,7) by (simp add: unat_word_ariths unsigned_of_int take_bit_int_eq_self nat_less_iff)
  have "paging_get_physical_address m' (load32 m chunk) (virt + of_nat i) = phys + of_nat i"
    if i: "i < 4096 * n" for i
  proof -
    let ?v = "virt + 4096 * of_nat (i div 4096)" and ?p = "phys + 4096 * of_nat (i div 4096)"
    have "i div 4096 < n" using i by (simp add: less_mult_imp_div_less)
    then have "paging_get m' (load32 m chunk) ?v = ?p OR word_of_int flags"
      using gets(4) [of ?v] range_entries_lookup pages(3) assms(2) by (simp add: page_aligned_add_mult)
    moreover have "unat (of_nat (i mod 4096) :: u32) < 4096"
      by (simp add: unat_of_nat_u32)
    ultimately have "paging_get_physical_address m' (load32 m chunk) (?v + of_nat (i mod 4096)) = ?p + of_nat (i mod 4096)"
      using assms(2,3) fl
      by (intro paging_get_physical_address_entry [where fl = "word_of_int flags"]) (simp_all add: page_aligned_add_mult)
    moreover have "x + 4096 * of_nat (i div 4096) + of_nat (i mod 4096) = x + of_nat i" for x :: u32
      by (metis (mono_tags, lifting) add.assoc of_nat_add of_nat_mult of_nat_numeral mult_div_mod_eq)
    ultimately show ?thesis by simp
  qed
  then show ?thesis
    using gets(2,4) range_entries_outside pages(2,3) by (simp add: mt)
qed

text \<open>a bound that is not page-aligned, or an end before the start, is refused and nothing is mapped.\<close>

lemma paging_map_to_refuses:
  assumes "\<not> (page_aligned virt \<and> page_aligned phys \<and> page_aligned phys_end \<and> phys \<le> phys_end)"
  shows "paging_map_to m chunk virt phys phys_end flags = (- 2, m)"
  using assms by (auto simp: paging_map_to_def mod_4096_iff)

end
