(* ===== verification/PagingSpace.thy ===== *)
theory PagingSpace imports Paging
begin

text \<open>
  The life of an address space (\<open>paging_new_4gb\<close>, \<open>paging_free_4gb\<close> of
  \<open>src/src/memory/paging/paging.c\<close>): 1026 blocks of the kernel heap, one for the directory,
  1024 for the tables and one for the chunk. A new space maps every page to itself, and freeing
  it gives every block back.
\<close>

lemma ram_only: "t = s\<lparr>ram := r\<rparr> \<Longrightarrow> t\<lparr>ram := m\<rparr> = s\<lparr>ram := m\<rparr>"
  by simp

section \<open>Pages of the kernel heap\<close>

lemma block_addr_aligned [simp]: "b \<le> 25600 \<Longrightarrow> page_aligned (block_addr b)"
  using unat_block_addr [of b] by (simp add: mod_add_eq)

lemma in_block_disjoint:
  assumes "in_range x (block_addr b) 4096" "in_range x (block_addr c) 4096" "b < 25600" "c < 25600"
  shows "b = c"
proof -
  from assms(1) obtain i where i: "i < 4096" "x = block_addr b + of_nat i" by (rule in_rangeE)
  from assms(2) obtain j where j: "j < 4096" "x = block_addr c + of_nat j" by (rule in_rangeE)
  have "block_addr b = block_addr c"
    using aligned_blocks_disjoint [of "block_addr b" 12 "block_addr c" i j] i j assms(3,4) by auto
  then show ?thesis using assms(3,4) block_addr_inj by simp
qed

lemma in_block_not_table: "in_range x (block_addr b) 4096 \<Longrightarrow> b < 25600 \<Longrightarrow> \<not> in_range x PEACHOS_HEAP_TABLE_ADDRESS 25600"
  using heap_area_not_table [of x b 1] by simp

lemma page_word_in_page:
  assumes "i < 1024" "j < 4"
  shows "in_range (page_word p i + of_nat j) p 4096"
proof -
  have e: "page_word p i + of_nat j = p + of_nat (4 * i + j)" by (simp add: page_word_def)
  show ?thesis unfolding e by (rule in_range_add) (use assms in simp_all)
qed

lemma load_page_cong:
  assumes "\<And>x. in_range x p 4096 \<Longrightarrow> m' x = m x" "i < 1024"
  shows "load32 m' (page_word p i) = load32 m (page_word p i)"
  using assms(1) page_word_in_page [OF assms(2), of 0 p] page_word_in_page [OF assms(2), of 1 p]
    page_word_in_page [OF assms(2), of 2 p] page_word_in_page [OF assms(2), of 3 p]
  by (intro load32_cong) simp_all

lemma store_page_other:
  assumes "\<not> in_range x p 4096" "i < 1024"
  shows "store32 m (page_word p i) v x = m x"
  using assms(1) page_word_in_page [OF assms(2), of 0 p] page_word_in_page [OF assms(2), of 1 p]
    page_word_in_page [OF assms(2), of 2 p] page_word_in_page [OF assms(2), of 3 p]
  by (intro store32_apply_other) auto

section \<open>Filling a table\<close>

lemma fill_table_page_word:
  "fill_table m p offset flags (Suc b)
    = store32 (fill_table m p offset flags b) (page_word p b) ((offset + of_nat b * 4096) OR flags)"
  by (simp add: page_word_def)

lemma fill_table_load:
  assumes "page_aligned p" "page_aligned q" "i < 1024"
  shows "n \<le> 1024 \<Longrightarrow> load32 (fill_table m p offset flags n) (page_word q i)
    = (if q = p \<and> i < n then (offset + of_nat i * 4096) OR flags else load32 m (page_word q i))"
proof (induction n)
  case 0
  then show ?case by simp
next
  case (Suc n)
  then show ?case
    unfolding fill_table_page_word using assms by (auto simp: load_page_word less_Suc_eq)
qed

lemma fill_table_other: "n \<le> 1024 \<Longrightarrow> \<not> in_range x p 4096 \<Longrightarrow> fill_table m p offset flags n x = m x"
proof (induction n)
  case (Suc n)
  then show ?case unfolding fill_table_page_word by (simp add: store_page_other)
qed simp

section \<open>Building the tables\<close>

text \<open>The first \<open>i\<close> tables of the directory at block \<open>a\<close>.\<close>

definition tables_built :: "mem \<Rightarrow> nat \<Rightarrow> u32 \<Rightarrow> nat \<Rightarrow> bool" where
  "tables_built m a flags i \<longleftrightarrow>
     (\<forall>j<i. load32 m (page_word (block_addr a) j) = block_addr (a + 1 + j) OR flags OR 2
       \<and> (\<forall>k<1024. load32 m (page_word (block_addr (a + 1 + j)) k)
             = of_nat (4194304 * j + 4096 * k) OR flags))"

lemma tables_built_cong:
  assumes "tables_built m a flags i" "i \<le> 1024" "a + i < 25600"
    and "\<And>b x. a \<le> b \<Longrightarrow> b \<le> a + i \<Longrightarrow> in_range x (block_addr b) 4096 \<Longrightarrow> m' x = m x"
  shows "tables_built m' a flags i"
proof -
  have "load32 m' (page_word (block_addr b) k) = load32 m (page_word (block_addr b) k)"
    if "a \<le> b" "b \<le> a + i" "k < 1024" for b k
    using assms(4) [OF that(1,2)] that(3) by (rule load_page_cong)
  then show ?thesis using assms(1-3) by (simp add: tables_built_def)
qed

lemma new_table_step:
  fixes s :: "'z machine_scheme"
  assumes r: "kheap_repr s (A @ replicate (Suc i) (Alloc 0) @ replicate (Suc n) FreeBlk @ B)"
    and A: "FreeBlk \<notin> set A" "a = seg_blocks A" and i: "i < 1024"
    and built: "tables_built (ram s) a flags i"
  shows "\<exists>s'. (\<forall>g :: unit \<Rightarrow> ('z machine_scheme, unit) prog. kbind (kzalloc (4 * 1024)) (\<lambda>entry.
      kbind (kmod (\<lambda>s. s\<lparr>ram := store32 (fill_table (ram s) entry (of_nat (4194304 * i)) flags 1024)
        (block_addr a + 4 * of_nat i) (entry OR flags OR 2)\<rparr>)) g) s = g () s')
    \<and> kheap_repr s' (A @ replicate (Suc (Suc i)) (Alloc 0) @ replicate n FreeBlk @ B)
    \<and> tables_built (ram s') a flags (Suc i) \<and> s' = s\<lparr>ram := ram s'\<rparr>
    \<and> (\<forall>x. \<not> in_range x PEACHOS_HEAP_TABLE_ADDRESS 25600 \<and> (\<forall>b. a \<le> b \<and> b \<le> a + Suc i \<longrightarrow> \<not> in_range x (block_addr b) 4096)
        \<longrightarrow> ram s' x = ram s x)"
proof -
  let ?A = "A @ replicate (Suc i) (Alloc 0)" and ?p = "block_addr (a + Suc i)" and ?d = "block_addr a"
  have len: "a + Suc i < 25600" using kheap_repr_blocks [OF r] A(2) by simp
  have "kheap_repr s (?A @ replicate (Suc 0) FreeBlk @ (replicate n FreeBlk @ B))"
    using r by simp
  from kzalloc_run [OF this, of "4 * 1024"] obtain t where
    run: "kzalloc (4 * 1024) s = Ret (?p, t)"
    and repr: "kheap_repr t (?A @ Alloc 0 # replicate n FreeBlk @ B)" and t: "t = s\<lparr>ram := ram t\<rparr>"
    and frame: "\<And>x. \<not> in_range x ?p 4096 \<Longrightarrow> \<not> in_range x PEACHOS_HEAP_TABLE_ADDRESS 25600 \<Longrightarrow> ram t x = ram s x"
    using A by auto
  define m1 where "m1 = fill_table (ram t) ?p (of_nat (4194304 * i)) flags 1024"
  define m2 where "m2 = store32 m1 (page_word ?d i) (?p OR flags OR 2)"
  define s' where "s' = t\<lparr>ram := m2\<rparr>"
  have d: "page_aligned ?d" "page_aligned ?p" "?d \<noteq> ?p"
    using len block_addr_inj [of a "a + Suc i"] by simp_all
  have other: "m2 x = ram t x" if "\<not> in_range x ?p 4096" "\<not> in_range x ?d 4096" for x
    using that i by (simp add: m2_def m1_def store_page_other fill_table_other)
  have old: "tables_built (ram t) a flags i"
  proof (rule tables_built_cong [OF built])
    fix b x assume b: "a \<le> b" "b \<le> a + i" and x: "in_range x (block_addr b) 4096"
    have "\<not> in_range x ?p 4096" using in_block_disjoint [OF x] b len by fastforce
    moreover have "\<not> in_range x PEACHOS_HEAP_TABLE_ADDRESS 25600"
      using in_block_not_table [OF x] b len by simp
    ultimately show "ram t x = ram s x" by (rule frame)
  qed (use i len in simp_all)
  have load: "load32 m2 (page_word (block_addr b) k)
      = (if b = a \<and> k = i then ?p OR flags OR 2
         else if b = a + Suc i then of_nat (4194304 * i + 4096 * k) OR flags
         else load32 (ram t) (page_word (block_addr b) k))"
    if "b \<le> a + Suc i" "k < 1024" for b k
    using that len i d by (auto simp: m2_def m1_def load_page_word fill_table_load block_addr_inj algebra_simps)
  have new: "tables_built m2 a flags (Suc i)"
    using old i by (auto simp: tables_built_def load less_Suc_eq)
  have "kheap_repr s' (?A @ Alloc 0 # replicate n FreeBlk @ B)"
  proof (rule kheap_repr_cong [OF repr])
    fix x assume "in_range x PEACHOS_HEAP_TABLE_ADDRESS 25600"
    then show "ram s' x = ram t x"
      using in_block_not_table [of x a] in_block_not_table [of x "a + Suc i"] len other by (auto simp: s'_def)
  qed (simp add: s'_def)
  then have repr': "kheap_repr s' (A @ replicate (Suc (Suc i)) (Alloc 0) @ replicate n FreeBlk @ B)"
    by (simp add: replicate_app_Cons_same)
  have frame': "ram s' x = ram s x" if "\<not> in_range x PEACHOS_HEAP_TABLE_ADDRESS 25600"
    "\<forall>b. a \<le> b \<and> b \<le> a + Suc i \<longrightarrow> \<not> in_range x (block_addr b) 4096" for x
    using that frame [of x] other [of x] by (auto simp: s'_def)
  have "kbind (kzalloc (4 * 1024)) (\<lambda>entry.
      kbind (kmod (\<lambda>s. s\<lparr>ram := store32 (fill_table (ram s) entry (of_nat (4194304 * i)) flags 1024)
        (block_addr a + 4 * of_nat i) (entry OR flags OR 2)\<rparr>)) g) s = g () s'" for g :: "unit \<Rightarrow> ('z machine_scheme, unit) prog"
    using run by (simp add: kbind_def kmod_def s'_def m2_def m1_def page_word_def)
  then show ?thesis
    using repr' new frame' ram_only [OF t, of m2] by (intro exI [of _ s']) (auto simp: s'_def)
qed

lemma new_tables_run:
  fixes s :: "'z machine_scheme"
  assumes "FreeBlk \<notin> set A" "a = seg_blocks A" "i + n \<le> 1024"
    and "kheap_repr s (A @ replicate (Suc i) (Alloc 0) @ replicate n FreeBlk @ B)"
    and "tables_built (ram s) a flags i"
  shows "\<exists>s'. new_tables (block_addr a) flags (of_nat (4194304 * i)) i n s = Ret ((), s')
    \<and> kheap_repr s' (A @ replicate (Suc (i + n)) (Alloc 0) @ B)
    \<and> tables_built (ram s') a flags (i + n) \<and> s' = s\<lparr>ram := ram s'\<rparr>
    \<and> (\<forall>x. \<not> in_range x PEACHOS_HEAP_TABLE_ADDRESS 25600
        \<and> (\<forall>b. a \<le> b \<and> b \<le> a + i + n \<longrightarrow> \<not> in_range x (block_addr b) 4096) \<longrightarrow> ram s' x = ram s x)"
  using assms(3-5)
proof (induction n arbitrary: i s)
  case 0
  then show ?case by (auto simp: kret_def)
next
  case (Suc n)
  obtain t :: "'z machine_scheme" where run: "\<And>g :: unit \<Rightarrow> ('z machine_scheme, unit) prog. kbind (kzalloc (4 * 1024)) (\<lambda>entry.
      kbind (kmod (\<lambda>s. s\<lparr>ram := store32 (fill_table (ram s) entry (of_nat (4194304 * i)) flags 1024)
        (block_addr a + 4 * of_nat i) (entry OR flags OR 2)\<rparr>)) g) s = g () t"
    and t: "kheap_repr t (A @ replicate (Suc (Suc i)) (Alloc 0) @ replicate n FreeBlk @ B)"
      "tables_built (ram t) a flags (Suc i)" "t = s\<lparr>ram := ram t\<rparr>"
    and frame: "\<And>x. \<not> in_range x PEACHOS_HEAP_TABLE_ADDRESS 25600 \<Longrightarrow>
      \<forall>b. a \<le> b \<and> b \<le> a + Suc i \<longrightarrow> \<not> in_range x (block_addr b) 4096 \<Longrightarrow> ram t x = ram s x"
    using new_table_step [OF Suc.prems(2) assms(1,2) _ Suc.prems(3)] Suc.prems(1) by auto
  have o: "of_nat (4194304 * i) + 1024 * 4096 = (of_nat (4194304 * Suc i) :: u32)" by simp
  have step: "new_tables (block_addr a) flags (of_nat (4194304 * i)) i (Suc n) s
      = new_tables (block_addr a) flags (of_nat (4194304 * Suc i)) (Suc i) n t"
    unfolding new_tables.simps run o by simp
  from Suc.IH [of "Suc i" t] Suc.prems(1) t(1,2) obtain u where
    "new_tables (block_addr a) flags (of_nat (4194304 * Suc i)) (Suc i) n t = Ret ((), u)"
    "kheap_repr u (A @ replicate (Suc (Suc i + n)) (Alloc 0) @ B)"
    "tables_built (ram u) a flags (Suc i + n)" "u = t\<lparr>ram := ram u\<rparr>"
    "\<And>x. \<not> in_range x PEACHOS_HEAP_TABLE_ADDRESS 25600 \<Longrightarrow>
      \<forall>b. a \<le> b \<and> b \<le> a + Suc i + n \<longrightarrow> \<not> in_range x (block_addr b) 4096 \<Longrightarrow> ram u x = ram t x"
    by auto
  with step frame ram_only [OF t(3), of "ram u"] show ?case
    by (intro exI [of _ u]) auto
qed

lemma tables_built_entry:
  assumes "tables_built m a flags 1024" "a + 1024 < 25600" "unat flags < 256"
  shows "d < 1024 \<Longrightarrow> page_table m (block_addr a) d = block_addr (a + 1 + d)"
    and "page_aligned v \<Longrightarrow> paging_get m (block_addr a) v = v OR flags"
proof -
  have "int (unat flags) < 256" using assms(3) by linarith
  then have "uint flags < 256" unfolding of_nat_unat .
  then have "uint (flags OR 2) < 2 ^ 8" unfolding uint_or by (intro OR_upper) simp_all
  then have "int (unat (flags OR 2)) < 256" unfolding of_nat_unat by simp
  then have fl: "unat (flags OR 2) < 4096" by linarith
  show e: "page_table m (block_addr a) d = block_addr (a + 1 + d)" if "d < 1024" for d
    using assms(1,2) that page_mask_flags [OF _ fl, of "block_addr (a + 1 + d)"]
    by (simp add: page_table_def tables_built_def or.assoc)
  assume v: "page_aligned v"
  have "unat v mod 4194304 mod 4096 = 0" using v by (simp add: mod_mod_cancel)
  then have "4096 * tbl_index v = unat v mod 4194304"
    unfolding tbl_index_def by (metis add.right_neutral mult_div_mod_eq)
  then have "4194304 * dir_index v + 4096 * tbl_index v = unat v" by (simp add: dir_index_def)
  then have "of_nat (4194304 * dir_index v + 4096 * tbl_index v) = v" by simp
  then show "paging_get m (block_addr a) v = v OR flags"
    using assms(1) v e by (simp add: paging_get_word tables_built_def del: of_nat_add of_nat_mult)
qed

section \<open>A new address space\<close>

lemma paging_new_4gb_run:
  assumes r: "kheap_repr s (A @ replicate 1026 FreeBlk @ B)" and A: "FreeBlk \<notin> set A" and a: "a = seg_blocks A"
  shows "\<exists>s'. paging_new_4gb flags s = Ret (block_addr (a + 1025), s')
    \<and> kheap_repr s' (A @ replicate 1026 (Alloc 0) @ B)
    \<and> tables_built (ram s') a (ucast flags) 1024 \<and> load32 (ram s') (block_addr (a + 1025)) = block_addr a
    \<and> s' = s\<lparr>ram := ram s'\<rparr>
    \<and> (\<forall>x. \<not> in_range x PEACHOS_HEAP_TABLE_ADDRESS 25600
        \<and> (\<forall>b. a \<le> b \<and> b \<le> a + 1025 \<longrightarrow> \<not> in_range x (block_addr b) 4096) \<longrightarrow> ram s' x = ram s x)"
proof -
  let ?fl = "ucast flags :: u32"
  have len: "a + 1026 \<le> 25600" using kheap_repr_blocks [OF r] a by simp
  have reps: "replicate 1026 x = replicate (Suc 0) x @ replicate 1024 x @ replicate (Suc 0) x" for x :: seg
    by (simp only: replicate_add [symmetric]) simp
  have r0: "kheap_repr s (A @ replicate (Suc 0) FreeBlk @ (replicate 1024 FreeBlk @ replicate (Suc 0) FreeBlk @ B))"
    using r by (simp only: reps append_assoc)
  obtain t where run1: "kzalloc (4 * 1024) s = Ret (block_addr a, t)"
    and t: "kheap_repr t (A @ Alloc 0 # replicate 1024 FreeBlk @ replicate (Suc 0) FreeBlk @ B)" "t = s\<lparr>ram := ram t\<rparr>"
    and f1: "\<And>x. \<not> in_range x (block_addr a) 4096 \<Longrightarrow> \<not> in_range x PEACHOS_HEAP_TABLE_ADDRESS 25600 \<Longrightarrow> ram t x = ram s x"
    using kzalloc_run [OF r0 A, of "4 * 1024"] a by auto
  have t': "kheap_repr t (A @ replicate (Suc 0) (Alloc 0) @ replicate 1024 FreeBlk @ (replicate (Suc 0) FreeBlk @ B))"
    using t(1) by simp
  obtain u where run2: "new_tables (block_addr a) ?fl 0 0 1024 t = Ret ((), u)"
    and u: "kheap_repr u (A @ replicate (Suc 1024) (Alloc 0) @ replicate (Suc 0) FreeBlk @ B)"
      "tables_built (ram u) a ?fl 1024" "u = t\<lparr>ram := ram u\<rparr>"
    and f2: "\<And>x. \<not> in_range x PEACHOS_HEAP_TABLE_ADDRESS 25600 \<Longrightarrow>
      \<forall>b. a \<le> b \<and> b \<le> a + 1024 \<longrightarrow> \<not> in_range x (block_addr b) 4096 \<Longrightarrow> ram u x = ram t x"
    using new_tables_run [OF A a _ t', of ?fl] by (auto simp: tables_built_def [of _ _ _ 0])
  let ?c = "block_addr (a + 1025)" and ?A = "A @ replicate 1025 (Alloc 0)"
  have u': "kheap_repr u (?A @ replicate (Suc 0) FreeBlk @ B)" using u(1) by simp
  have nA: "FreeBlk \<notin> set ?A" and sA: "seg_blocks ?A = a + 1025" using A a by simp_all
  have c4: "4096 * 0 < unat (4 :: u32)" "unat (4 :: u32) \<le> 4096 * Suc 0" by simp_all
  obtain w where run3: "kzalloc 4 u = Ret (?c, w)"
    and w: "kheap_repr w (?A @ Alloc 0 # B)" "w = u\<lparr>ram := ram w\<rparr>"
    and f3: "\<And>x. \<not> in_range x ?c 4 \<Longrightarrow> \<not> in_range x PEACHOS_HEAP_TABLE_ADDRESS 25600 \<Longrightarrow> ram w x = ram u x"
    using kzalloc_run [OF u' nA c4] unfolding sA by auto
  define s' where "s' = w\<lparr>ram := store32 (ram w) ?c (block_addr a)\<rparr>"
  have ca: "page_aligned ?c" using len by simp
  have c0: "page_word ?c 0 = ?c" by (simp add: page_word_def)
  have cpage: "in_range x ?c 4 \<Longrightarrow> in_range x ?c 4096" for x by (erule in_range_mono) simp
  have f4: "ram s' x = ram w x" if "\<not> in_range x ?c 4096" for x
    using store_page_other [OF that, of 0 "ram w" "block_addr a"] by (simp add: s'_def c0)
  have run: "paging_new_4gb flags s = Ret (?c, s')"
    unfolding paging_new_4gb_def
    using run1 run2 run3 by (simp add: kbind_def kmod_def kret_def s'_def)
  have built: "tables_built (ram s') a ?fl 1024"
  proof (rule tables_built_cong [OF u(2)])
    fix b x assume b: "a \<le> b" "b \<le> a + 1024" and x: "in_range x (block_addr b) 4096"
    have "\<not> in_range x ?c 4096" using in_block_disjoint [OF x] b len by fastforce
    moreover have "\<not> in_range x PEACHOS_HEAP_TABLE_ADDRESS 25600" using in_block_not_table [OF x] b len by simp
    ultimately show "ram s' x = ram u x" using f3 f4 cpage by metis
  qed (use len in simp_all)
  have repr: "kheap_repr s' (?A @ Alloc 0 # B)"
  proof (rule kheap_repr_cong [OF w(1)])
    fix x assume "in_range x PEACHOS_HEAP_TABLE_ADDRESS 25600"
    then show "ram s' x = ram w x" using f4 in_block_not_table [of x "a + 1025"] len by auto
  qed (simp add: s'_def)
  have e: "?A @ Alloc 0 # B = A @ replicate 1026 (Alloc 0) @ B"
    using replicate_app_Cons_same [of 1025 "Alloc 0" B] by (simp flip: replicate_Suc)
  have "kheap_repr s' (A @ replicate 1026 (Alloc 0) @ B)" using repr unfolding e .
  moreover have "load32 (ram s') ?c = block_addr a"
    by (simp add: s'_def load32_store32_same)
  moreover have "s' = s\<lparr>ram := ram s'\<rparr>"
    using ram_only [OF t(2)] ram_only [OF u(3)] ram_only [OF w(2)] by (simp add: s'_def)
  moreover have "ram s' x = ram s x" if "\<not> in_range x PEACHOS_HEAP_TABLE_ADDRESS 25600"
    and n: "\<forall>b. a \<le> b \<and> b \<le> a + 1025 \<longrightarrow> \<not> in_range x (block_addr b) 4096" for x
  proof -
    have "\<not> in_range x (block_addr a) 4096" "\<not> in_range x ?c 4096" using n by simp_all
    moreover have "\<forall>b. a \<le> b \<and> b \<le> a + 1024 \<longrightarrow> \<not> in_range x (block_addr b) 4096" using n by simp
    ultimately show ?thesis using f1 f2 f3 f4 cpage that(1) by metis
  qed
  ultimately show ?thesis using run built by (intro exI [of _ s']) auto
qed

lemma tables_built_wf:
  assumes "tables_built m a flags 1024" "a + 1025 < 25600" "unat flags < 256"
    and "load32 m (block_addr (a + 1025)) = block_addr a"
  shows "wf_chunk (block_addr (a + 1025)) m"
proof -
  note e = tables_built_entry(1) [OF assms(1) _ assms(3)]
  have c: "page_aligned (block_addr (a + 1025))" using assms(2) by simp
  then have "unat (block_addr (a + 1025)) mod 4 = 0"
    using page_word_aligned [of "block_addr (a + 1025)" 0] by (simp add: page_word_def)
  then show ?thesis
    using assms(2,4) e page_mask_id [OF c] by (simp add: wf_chunk_def wf_dir_def block_addr_inj)
qed

text \<open>
  C19: with 1026 free blocks in a row, \<open>paging_new_4gb\<close> returns a chunk whose directory maps
  every page of the 4 GB to itself with the given flags; exactly those blocks are taken, and no
  byte outside them and the heap's table has changed.
\<close>

theorem paging_new_4gb_identity:
  assumes "kheap_repr s (A @ replicate 1026 FreeBlk @ B)" and "FreeBlk \<notin> set A"
  shows "\<exists>chunk s'. paging_new_4gb flags s = Ret (chunk, s') \<and> wf_chunk chunk (ram s')
    \<and> (\<forall>v. page_aligned v \<longrightarrow>
        paging_get (ram s') (paging_4gb_chunk_get_directory (ram s') chunk) v = v OR ucast flags)
    \<and> kheap_repr s' (A @ replicate 1026 (Alloc 0) @ B)
    \<and> (\<forall>x. in_range x 0x7E00 25600 \<or> in_range x (block_addr (seg_blocks A)) (4096 * 1026) \<or> ram s' x = ram s x)"
proof -
  let ?a = "seg_blocks A"
  have len: "?a + 1026 \<le> 25600" using kheap_repr_blocks [OF assms(1)] by simp
  have fl: "unat (ucast flags :: u32) < 256"
    unfolding unsigned_ucast_eq using unsigned_less [of flags, where 'a = nat]
    by (intro le_less_trans [OF take_bit_nat_less_eq_self]) simp
  from paging_new_4gb_run [OF assms refl, of flags] obtain s' where s':
    "paging_new_4gb flags s = Ret (block_addr (?a + 1025), s')"
    "kheap_repr s' (A @ replicate 1026 (Alloc 0) @ B)" "tables_built (ram s') ?a (ucast flags) 1024"
    "load32 (ram s') (block_addr (?a + 1025)) = block_addr ?a"
    and frame: "\<And>x. \<not> in_range x PEACHOS_HEAP_TABLE_ADDRESS 25600 \<Longrightarrow>
      \<forall>b. ?a \<le> b \<and> b \<le> ?a + 1025 \<longrightarrow> \<not> in_range x (block_addr b) 4096 \<Longrightarrow> ram s' x = ram s x" by blast
  have sub: "in_range x (block_addr ?a) (4096 * 1026)"
    if "in_range x (block_addr b) 4096" "?a \<le> b" "b \<le> ?a + 1025" for x b
  proof -
    from that(1) obtain i where i: "i < 4096" "x = block_addr b + of_nat i" by (rule in_rangeE)
    have "x = block_addr ?a + of_nat (4096 * (b - ?a) + i)"
      using i(2) that(2) by (simp add: block_addr_def of_nat_diff algebra_simps)
    then show ?thesis using i(1) that(2,3) by (simp only: in_range_add)
  qed
  show ?thesis
    using s' frame sub tables_built_wf [OF s'(3) _ fl s'(4)] tables_built_entry(2) [OF s'(3) _ fl] len
    by (intro exI [of _ "block_addr (?a + 1025)"] exI [of _ s']) (auto simp: paging_4gb_chunk_get_directory_def)
qed

section \<open>Freeing an address space\<close>

lemma free_tables_run:
  assumes "a = seg_blocks A" "load32 (ram s) (block_addr (a + 1025)) = block_addr a"
    and "tables_built (ram s) a flags 1024" "unat flags < 256" "i + n = 1024"
    and "kheap_repr s (A @ Alloc 0 # replicate i FreeBlk @ replicate n (Alloc 0) @ Alloc 0 # B)"
  shows "\<exists>s'. free_tables (block_addr (a + 1025)) i n s = Ret ((), s')
    \<and> kheap_repr s' (A @ Alloc 0 # replicate 1024 FreeBlk @ Alloc 0 # B) \<and> s' = s\<lparr>ram := ram s'\<rparr>
    \<and> (\<forall>x. \<not> in_range x PEACHOS_HEAP_TABLE_ADDRESS 25600 \<longrightarrow> ram s' x = ram s x)"
  using assms(2,3,5,6)
proof (induction n arbitrary: i s)
  case 0
  then show ?case by (auto simp: kret_def)
next
  case (Suc n)
  let ?X = "A @ Alloc 0 # replicate i FreeBlk"
  have len: "a + 1025 < 25600" using kheap_repr_blocks [OF Suc.prems(4)] Suc.prems(3) assms(1) by simp
  have "kheap_repr s (?X @ Alloc 0 # replicate n (Alloc 0) @ Alloc 0 # B)" using Suc.prems(4) by simp
  moreover have "seg_blocks ?X = a + 1 + i" using assms(1) by simp
  ultimately obtain t where run: "kfree (block_addr (a + 1 + i)) s = Ret ((), t)"
    and t: "kheap_repr t (?X @ replicate (Suc 0) FreeBlk @ replicate n (Alloc 0) @ Alloc 0 # B)" "t = s\<lparr>ram := ram t\<rparr>"
    and frame: "\<And>x. \<not> in_range x PEACHOS_HEAP_TABLE_ADDRESS 25600 \<Longrightarrow> ram t x = ram s x"
    using kfree_run [of s ?X 0 "replicate n (Alloc 0) @ Alloc 0 # B"] by auto
  have page: "page_table (ram s) (block_addr a) i = block_addr (a + 1 + i)"
    using Suc.prems(3) len by (intro tables_built_entry(1) [OF Suc.prems(2) _ assms(4)]) simp_all
  have step: "free_tables (block_addr (a + 1025)) i (Suc n) s = free_tables (block_addr (a + 1025)) (i + 1) n t"
    using run page Suc.prems(1) by (simp add: kbind_def kget_def page_table_def page_word_def)
  have t': "kheap_repr t (A @ Alloc 0 # replicate (Suc i) FreeBlk @ replicate n (Alloc 0) @ Alloc 0 # B)"
    using t(1) by (simp add: replicate_app_Cons_same)
  have eq: "ram t x = ram s x" if "in_range x (block_addr b) 4096" "b < 25600" for x b
    using frame in_block_not_table [OF that] .
  have built: "tables_built (ram t) a flags 1024"
  proof (rule tables_built_cong [OF Suc.prems(2)])
    fix b x assume "b \<le> a + 1024" "in_range x (block_addr b) 4096"
    with len show "ram t x = ram s x" by (intro eq [of _ b]) simp_all
  qed (use len in simp_all)
  have "load32 (ram t) (page_word (block_addr (a + 1025)) 0) = load32 (ram s) (page_word (block_addr (a + 1025)) 0)"
    using eq len by (intro load_page_cong) simp_all
  then have c: "load32 (ram t) (block_addr (a + 1025)) = block_addr a"
    using Suc.prems(1) by (simp add: page_word_def)
  from Suc.IH [OF c built _ t'] Suc.prems(3) obtain u where
    "free_tables (block_addr (a + 1025)) (Suc i) n t = Ret ((), u)"
    "kheap_repr u (A @ Alloc 0 # replicate 1024 FreeBlk @ Alloc 0 # B)" "u = t\<lparr>ram := ram u\<rparr>"
    "\<forall>x. \<not> in_range x PEACHOS_HEAP_TABLE_ADDRESS 25600 \<longrightarrow> ram u x = ram t x" by auto
  with step frame ram_only [OF t(2)] show ?case by (intro exI [of _ u]) simp
qed

text \<open>
  C37: freeing an address space right after making it gives back every block it took: the heap's
  table is the one from before.
\<close>

theorem paging_new_free_roundtrip:
  assumes "kheap_repr s (A @ replicate 1026 FreeBlk @ B)" and "FreeBlk \<notin> set A"
  shows "\<exists>chunk s1 s2. paging_new_4gb flags s = Ret (chunk, s1) \<and> paging_free_4gb chunk s1 = Ret ((), s2)
    \<and> kheap_repr s2 (A @ replicate 1026 FreeBlk @ B)"
proof -
  let ?a = "seg_blocks A" and ?c = "block_addr (seg_blocks A + 1025)"
  have fl: "unat (ucast flags :: u32) < 256"
    unfolding unsigned_ucast_eq using unsigned_less [of flags, where 'a = nat]
    by (intro le_less_trans [OF take_bit_nat_less_eq_self]) simp
  from paging_new_4gb_run [OF assms refl, of flags] obtain s1 where s1:
    "paging_new_4gb flags s = Ret (?c, s1)"
    "kheap_repr s1 (A @ replicate 1026 (Alloc 0) @ B)" "tables_built (ram s1) ?a (ucast flags) 1024"
    "load32 (ram s1) ?c = block_addr ?a" by blast
  have reps: "replicate 1026 x = x # replicate 1024 x @ [x]" for x :: seg
    using replicate_add [of 1 1025 x] replicate_add [of 1024 1 x] by simp
  have r1: "kheap_repr s1 (A @ Alloc 0 # replicate 0 FreeBlk @ replicate 1024 (Alloc 0) @ Alloc 0 # B)"
    using s1(2) by (simp add: reps)
  have len: "?a + 1025 < 25600" using kheap_repr_blocks [OF r1] by simp
  from free_tables_run [OF refl s1(4,3) fl _ r1] obtain t where
    run1: "free_tables ?c 0 1024 s1 = Ret ((), t)"
    and t: "kheap_repr t (A @ Alloc 0 # replicate 1024 FreeBlk @ Alloc 0 # B)"
    and frame: "\<And>x. \<not> in_range x PEACHOS_HEAP_TABLE_ADDRESS 25600 \<Longrightarrow> ram t x = ram s1 x" by auto
  have "load32 (ram t) (page_word ?c 0) = load32 (ram s1) (page_word ?c 0)"
    using frame in_block_not_table len by (intro load_page_cong) simp_all
  then have d: "load32 (ram t) ?c = block_addr ?a" using s1(4) by (simp add: page_word_def)
  from kfree_run [OF t] obtain u where run2: "kfree (block_addr ?a) t = Ret ((), u)"
    and u: "kheap_repr u (A @ replicate (Suc 0) FreeBlk @ replicate 1024 FreeBlk @ Alloc 0 # B)" by blast
  have "kheap_repr u ((A @ replicate (Suc 0) FreeBlk @ replicate 1024 FreeBlk) @ Alloc 0 # B)" using u by simp
  from kfree_run [OF this] obtain s2 where "kfree ?c u = Ret ((), s2)"
    and "kheap_repr s2 ((A @ replicate (Suc 0) FreeBlk @ replicate 1024 FreeBlk) @ replicate (Suc 0) FreeBlk @ B)"
    by (auto simp: add.commute)
  then have "paging_free_4gb ?c s1 = Ret ((), s2)" "kheap_repr s2 (A @ replicate 1026 FreeBlk @ B)"
    using run1 run2 d by (simp_all add: paging_free_4gb_def kbind_def kget_def reps)
  with s1(1) show ?thesis by blast
qed

section \<open>Concrete instances\<close>

lemma zero_machine_split: "kheap_repr zero_machine ([] @ replicate 1026 FreeBlk @ replicate 24574 FreeBlk)"
  using zero_machine_repr by (simp flip: replicate_add)

theorem paging_new_4gb_identity_witness:
  "\<exists>chunk s'. paging_new_4gb 7 zero_machine = Ret (chunk, s')
    \<and> paging_get (ram s') (paging_4gb_chunk_get_directory (ram s') chunk) 0x400000 = 0x400007"
  using paging_new_4gb_identity [OF zero_machine_split, of 7] by fastforce

theorem paging_new_free_roundtrip_witness:
  "\<exists>chunk s1 s2. paging_new_4gb 7 zero_machine = Ret (chunk, s1)
    \<and> paging_free_4gb chunk s1 = Ret ((), s2) \<and> kheap_repr s2 (replicate 1026 FreeBlk @ replicate 24574 FreeBlk)"
  using paging_new_free_roundtrip [OF zero_machine_split, of 7] by fastforce

theorem paging_map_to_translates_witness:
  "\<exists>chunk s'. paging_new_4gb 7 zero_machine = Ret (chunk, s')
    \<and> paging_get_physical_address (snd (paging_map_to (ram s') chunk 0x400000 0x1800000 0x1802000 7))
        (load32 (ram s') chunk) (0x400000 + of_nat 16)
      = 0x1800000 + of_nat 16"
proof -
  from paging_new_4gb_run [OF zero_machine_split _ refl, of 7] obtain s' where s':
    "paging_new_4gb 7 zero_machine = Ret (block_addr 1025, s')" "tables_built (ram s') 0 7 1024"
    "load32 (ram s') (block_addr 1025) = block_addr 0" by auto
  then have "wf_chunk (block_addr 1025) (ram s')"
    using tables_built_wf [of "ram s'" 0 7] by simp
  from paging_map_to_translates [OF this, of "0x400000" "0x1800000" "0x1802000" 7] s'(1) show ?thesis
    by (intro exI [of _ "block_addr 1025"] exI [of _ s']) (simp del: of_nat_numeral)
qed

end
