(* ===== verification/Disk.thy ===== *)
theory Disk imports PagingSpace
begin

text \<open>
  \<open>src/src/disk/disk.c\<close> and \<open>src/src/disk/streamer.c\<close>: sector reads through the ports of
  the ATA drive, and the byte stream over them. The drive is not code of the repository: its ports
  are an argument of the definitions, and \<open>ata_drive\<close> states the documented behaviour of a
  drive that holds an image.
\<close>

section \<open>State\<close>

text \<open>The port instructions of \<open>io.asm\<close> on a machine whose devices have the state \<open>'d\<close>.\<close>

record 'd ports =
  insb :: "u16 \<Rightarrow> 'd \<Rightarrow> u8 \<times> 'd"
  insw :: "u16 \<Rightarrow> 'd \<Rightarrow> u16 \<times> 'd"
  outb :: "u16 \<Rightarrow> u8 \<Rightarrow> 'd \<Rightarrow> 'd"

abbreviation (input) PEACHOS_SECTOR_SIZE :: int where "PEACHOS_SECTOR_SIZE \<equiv> 512"

text \<open>A pointer to a disk is null or points to the one disk.\<close>

datatype disk_ptr = NullDisk | MainDisk

record disk =
  dk_type :: int
  dk_sector_size :: int
  dk_id :: int
  dk_filesystem :: u32
  dk_fs_private :: u32

record disk_stream =
  stream_pos :: int
  stream_disk :: disk_ptr

text \<open>The structs that the kernel keeps on its heap are typed maps from their addresses.\<close>

record 'd disk_machine = paging_machine +
  dev :: 'd
  the_disk :: disk
  streams :: "u32 \<Rightarrow> disk_stream option"

section \<open>Sector reads\<close>

definition request_sectors :: "'d ports \<Rightarrow> int \<Rightarrow> int \<Rightarrow> 'd \<Rightarrow> 'd" where
  "request_sectors P lba tot d =
     (let d1 = outb P 0x1F6 (word_of_int (drop_bit 24 lba OR 0xE0)) d;
          d2 = outb P 0x1F2 (word_of_int tot) d1;
          d3 = outb P 0x1F3 (word_of_int (lba AND 0xFF)) d2;
          d4 = outb P 0x1F4 (word_of_int (drop_bit 8 lba)) d3;
          d5 = outb P 0x1F5 (word_of_int (drop_bit 16 lba)) d4
      in outb P 0x1F7 0x20 d5)"

text \<open>Polling the status port: the loop ends when the drive sets the bit.\<close>

partial_function (option) disk_wait :: "'d ports \<Rightarrow> 'd \<Rightarrow> 'd option" where
  "disk_wait P d =
     (if fst (insb P 0x1F7 d) AND 0x08 = 0 then disk_wait P (snd (insb P 0x1F7 d))
      else Some (snd (insb P 0x1F7 d)))"

text \<open>The inner loop: \<open>n\<close> words into the buffer, two bytes each.\<close>

primrec read_words :: "'d ports \<Rightarrow> nat \<Rightarrow> 'd \<Rightarrow> u8 list \<times> 'd" where
  "read_words P 0 d = ([], d)"
| "read_words P (Suc n) d =
     (let (w, d1) = insw P 0x1F0 d; (bs, d2) = read_words P n d1
      in (ucast w # ucast (drop_bit 8 w) # bs, d2))"

primrec read_sectors :: "'d ports \<Rightarrow> nat \<Rightarrow> 'd \<Rightarrow> (u8 list \<times> 'd) option" where
  "read_sectors P 0 d = Some ([], d)"
| "read_sectors P (Suc n) d =
     (case disk_wait P d of None \<Rightarrow> None
      | Some d1 \<Rightarrow> let (bs, d2) = read_words P 256 d1
                  in map_option (\<lambda>(bs', d3). (bs @ bs', d3)) (read_sectors P n d2))"

text \<open>The buffer of every caller is a local array: the value is what it then holds.\<close>

definition disk_read_sector :: "'d ports \<Rightarrow> int \<Rightarrow> int \<Rightarrow> (('d, 'z) disk_machine_scheme, int \<times> u8 list) prog" where
  "disk_read_sector P lba tot s =
     (case read_sectors P (nat tot) (request_sectors P lba tot (dev s)) of
        None \<Rightarrow> Hang
      | Some (buf, d) \<Rightarrow> Ret ((0, buf), s\<lparr>dev := d\<rparr>))"

definition disk_get :: "int \<Rightarrow> disk_ptr" where
  "disk_get index = (if index \<noteq> 0 then NullDisk else MainDisk)"

definition disk_read_block :: "'d ports \<Rightarrow> disk_ptr \<Rightarrow> u32 \<Rightarrow> int \<Rightarrow> (('d, 'z) disk_machine_scheme, int \<times> u8 list) prog" where
  "disk_read_block P idisk lba tot =
     (if idisk \<noteq> MainDisk then kret (err EIO, []) else disk_read_sector P (sint lba) tot)"

text \<open>\<open>fs_resolve\<close> belongs to the file layer and is an argument here.\<close>

definition disk_search_and_init ::
  "(('d, 'z) disk_machine_scheme, u32) prog \<Rightarrow> (('d, 'z) disk_machine_scheme, unit) prog" where
  "disk_search_and_init fs_resolve =
     kbind (kmod (\<lambda>s. s\<lparr>the_disk := \<lparr>dk_type = 0, dk_sector_size = 0, dk_id = 0, dk_filesystem = 0, dk_fs_private = 0\<rparr>\<rparr>)) (\<lambda>_.
     kbind (kmod (\<lambda>s. s\<lparr>the_disk := (the_disk s)\<lparr>dk_type := 0, dk_sector_size := PEACHOS_SECTOR_SIZE\<rparr>\<rparr>)) (\<lambda>_.
     kbind fs_resolve (\<lambda>fs.
     kmod (\<lambda>s. s\<lparr>the_disk := (the_disk s)\<lparr>dk_filesystem := fs, dk_id := 0\<rparr>\<rparr>))))"

section \<open>Streams\<close>

definition disk_streamer_new :: "int \<Rightarrow> (('d, 'z) disk_machine_scheme, u32) prog" where
  "disk_streamer_new disk_id =
     (let disk = disk_get disk_id
      in if disk = NullDisk then kret 0
         else kbind (kzalloc 4) (\<lambda>streamer.
              kbind (kmod (\<lambda>s. s\<lparr>streams := (streams s)(streamer \<mapsto> \<lparr>stream_pos = 0, stream_disk = disk\<rparr>)\<rparr>)) (\<lambda>_.
              kret streamer)))"

definition diskstreamer_seek :: "u32 \<Rightarrow> int \<Rightarrow> (('d, 'z) disk_machine_scheme, int) prog" where
  "diskstreamer_seek stream p =
     kbind (kread ''no stream'' (\<lambda>s. streams s stream)) (\<lambda>st.
     kbind (kmod (\<lambda>s. s\<lparr>streams := (streams s)(stream \<mapsto> st\<lparr>stream_pos := p\<rparr>)\<rparr>)) (\<lambda>_. kret 0))"

text \<open>
  The recursion of \<open>diskstreamer_read\<close>: one sector per call. A sum that leaves the range of
  \<open>int\<close> and an index before the buffer are undefined in C.
\<close>

function diskstreamer_read ::
  "'d ports \<Rightarrow> u32 \<Rightarrow> u32 \<Rightarrow> int \<Rightarrow> (('d, 'z) disk_machine_scheme, int) prog" where
  "diskstreamer_read P stream out tot s =
     (case streams s stream of None \<Rightarrow> Fault ''no stream''
      | Some st \<Rightarrow>
     (let sector = cdiv (stream_pos st) PEACHOS_SECTOR_SIZE;
          offset = cmod (stream_pos st) PEACHOS_SECTOR_SIZE;
          overflow = (offset + tot \<ge> PEACHOS_SECTOR_SIZE);
          total_to_read = (if overflow then tot - ((offset + tot) - PEACHOS_SECTOR_SIZE) else tot)
      in if offset + tot < - 2147483648 \<or> 2147483647 < offset + tot
         then Fault ''signed overflow''
         else case disk_read_block P (stream_disk st) (word_of_int sector) 1 s of
           Ret r \<Rightarrow>
             (let ((res, buf), s1) = r
              in if res < 0 then Ret (0, s1)
                 else if 0 < total_to_read \<and> offset < 0 then Fault ''index before the buffer''
                 else let s2 = s1\<lparr>ram := put_bytes (ram s1) out (take (nat total_to_read) (drop (nat offset) buf)),
                                  streams := (streams s1)(stream \<mapsto> st\<lparr>stream_pos := i32 (stream_pos st + total_to_read)\<rparr>)\<rparr>
                      in if overflow
                         then (case diskstreamer_read P stream (out + word_of_int total_to_read) (tot - total_to_read) s2 of
                                 Ret r' \<Rightarrow> Ret (0, snd r')
                               | Panic e \<Rightarrow> Panic e | Fault e \<Rightarrow> Fault e | Hang \<Rightarrow> Hang)
                         else Ret (0, s2))
         | Panic e \<Rightarrow> Panic e | Fault e \<Rightarrow> Fault e | Hang \<Rightarrow> Hang))"
  by pat_completeness auto
termination
proof (relation "measure (\<lambda>(P, stream, out, tot, s). nat tot)", goal_cases)
  case (2 P stream out tot s st sector offset overflow total_to_read r x s1 res buf s2)
  then show ?case
    using cmod_bound [of 512 "stream_pos st"] by (auto simp: abs_less_iff split: if_splits)
qed simp

declare diskstreamer_read.simps [simp del]

definition diskstreamer_close :: "u32 \<Rightarrow> (('d, 'z) disk_machine_scheme, unit) prog" where
  "diskstreamer_close stream = kfree stream"

section \<open>The drive\<close>

text \<open>
  The documented behaviour of an ATA drive on its primary port range, for a drive of \<open>n\<close>
  sectors of 512 bytes. \<open>idle\<close>: no transfer is under way. Writing the drive and head
  register, the sector count, the three bytes of the sector number and the read command leaves
  the drive preparing the sector; it then raises the data request bit of the status register after
  some bounded number of polls, and hands out the sector as 256 little-endian words.
\<close>

definition ata_drive ::
  "'d ports \<Rightarrow> nat \<Rightarrow> (nat \<Rightarrow> u8 list) \<Rightarrow> ('d \<Rightarrow> bool) \<Rightarrow> ('d \<Rightarrow> nat \<Rightarrow> u8 list \<Rightarrow> bool) \<Rightarrow> ('d \<Rightarrow> u8 list \<Rightarrow> bool) \<Rightarrow> bool"
  where
  "ata_drive P n img idle preparing ready \<longleftrightarrow>
     n \<le> 268435456 \<and> (\<forall>k. length (img k) = 512)
     \<and> (\<forall>d lba. idle d \<and> lba < n \<longrightarrow>
          (\<exists>polls. preparing
            (outb P 0x1F7 0x20 (outb P 0x1F5 (of_nat (lba div 65536)) (outb P 0x1F4 (of_nat (lba div 256))
              (outb P 0x1F3 (of_nat lba) (outb P 0x1F2 1 (outb P 0x1F6 (0xE0 OR of_nat (lba div 16777216)) d))))))
            polls (img lba)))
     \<and> (\<forall>d polls bs. preparing d polls bs \<longrightarrow>
          (if fst (insb P 0x1F7 d) AND 0x08 = 0
           then 0 < polls \<and> preparing (snd (insb P 0x1F7 d)) (polls - 1) bs
           else ready (snd (insb P 0x1F7 d)) bs))
     \<and> (\<forall>d lo hi bs. ready d (lo # hi # bs) \<longrightarrow>
          fst (insw P 0x1F0 d) = ucast lo OR push_bit 8 (ucast hi)
          \<and> (if bs = [] then idle (snd (insw P 0x1F0 d)) else ready (snd (insw P 0x1F0 d)) bs))"

definition drive_ok :: "'d ports \<Rightarrow> nat \<Rightarrow> (nat \<Rightarrow> u8 list) \<Rightarrow> 'd \<Rightarrow> bool" where
  "drive_ok P n img d \<longleftrightarrow> (\<exists>idle preparing ready. ata_drive P n img idle preparing ready \<and> idle d)"

lemma ata_poll:
  assumes "ata_drive P n img idle preparing ready" "preparing d polls bs"
  shows "if fst (insb P 0x1F7 d) AND 0x08 = 0
    then 0 < polls \<and> preparing (snd (insb P 0x1F7 d)) (polls - 1) bs
    else ready (snd (insb P 0x1F7 d)) bs"
  using assms unfolding ata_drive_def by blast

lemma ata_data:
  assumes "ata_drive P n img idle preparing ready" "ready d (lo # hi # bs)"
  shows "fst (insw P 0x1F0 d) = ucast lo OR push_bit 8 (ucast hi)"
    and "if bs = [] then idle (snd (insw P 0x1F0 d)) else ready (snd (insw P 0x1F0 d)) bs"
  using assms unfolding ata_drive_def by blast+

lemma disk_wait_ready:
  assumes "ata_drive P n img idle preparing ready"
  shows "preparing d polls bs \<Longrightarrow> \<exists>d'. disk_wait P d = Some d' \<and> ready d' bs"
proof (induction polls arbitrary: d)
  case 0
  from ata_poll [OF assms 0] show ?case by (subst disk_wait.simps) (simp split: if_splits)
next
  case (Suc polls)
  from ata_poll [OF assms Suc.prems] Suc.IH show ?case
    by (subst disk_wait.simps) (simp split: if_splits)
qed

lemma word_bytes:
  "(ucast (ucast lo OR push_bit 8 (ucast hi) :: u16) :: u8) = lo"
  "(ucast (drop_bit 8 (ucast lo OR push_bit 8 (ucast hi) :: u16)) :: u8) = hi"
  by (rule bit_word_eqI, auto simp: bit_simps dest: bit_imp_le_length)+

lemma read_words_ready:
  assumes "ata_drive P n img idle preparing ready"
  shows "length bs = 2 * Suc k \<Longrightarrow> ready d bs \<Longrightarrow> \<exists>d'. read_words P (Suc k) d = (bs, d') \<and> idle d'"
proof (induction k arbitrary: bs d)
  case 0
  then obtain lo hi where bs: "bs = [lo, hi]" by (auto simp: length_Suc_conv numeral_2_eq_2)
  with ata_data [OF assms 0(2) [unfolded bs]] show ?case
    by (simp add: word_bytes Let_def split_beta del: drop_bit_or)
next
  case (Suc k)
  then obtain lo hi bs' where bs: "bs = lo # hi # bs'" "length bs' = 2 * Suc k" by (auto simp: length_Suc_conv)
  then have ne: "bs' \<noteq> []" by auto
  note w = ata_data [OF assms Suc.prems(2) [unfolded bs(1)]]
  from w(2) ne Suc.IH [OF bs(2)] obtain d' where
    "read_words P (Suc k) (snd (insw P 0x1F0 d)) = (bs', d')" "idle d'" by auto
  with bs(1) w(1) show ?case
    by (subst read_words.simps) (simp add: word_bytes Let_def split_beta del: read_words.simps drop_bit_or)
qed

text \<open>The bytes that go to the registers, for a sector number below \<open>2 ^ 28\<close>.\<close>

lemma request_one:
  assumes "lba < 268435456"
  shows "request_sectors P (int lba) 1 d
    = outb P 0x1F7 0x20 (outb P 0x1F5 (of_nat (lba div 65536)) (outb P 0x1F4 (of_nat (lba div 256))
        (outb P 0x1F3 (of_nat lba) (outb P 0x1F2 1 (outb P 0x1F6 (0xE0 OR of_nat (lba div 16777216)) d)))))"
proof -
  have "(word_of_int (int lba AND 0xFF) :: u8) = of_nat lba"
  proof (rule bit_word_eqI)
    have m: "(0xFF :: int) = mask 8" by (simp add: mask_eq_exp_minus_1)
    show "bit (word_of_int (int lba AND 0xFF) :: u8) k = bit (of_nat lba :: u8) k" if "k < LENGTH(8)" for k
      unfolding m using that by (simp add: bit_simps)
  qed
  moreover have "drop_bit k (int lba) = int (lba div 2 ^ k)" for k
    by (simp add: drop_bit_eq_div zdiv_int)
  moreover have "(word_of_int (int (lba div 16777216) OR 0xE0) :: u8) = 0xE0 OR of_nat (lba div 16777216)"
    by (rule bit_word_eqI) (auto simp: bit_simps)
  ultimately show ?thesis by (simp add: request_sectors_def)
qed

lemma read_one_sector:
  assumes "disk_wait P d = Some d1" "read_words P 256 d1 = (bs, d2)"
  shows "read_sectors P (nat 1) d = Some (bs, d2)"
proof -
  have "nat 1 = Suc 0" by simp
  then show ?thesis using assms by (simp only: read_sectors.simps option.case Let_def case_prod_conv option.map append_Nil2)
qed

lemma read_block_image:
  assumes "drive_ok P n img (dev s)" "k < n"
  shows "\<exists>d. disk_read_block P MainDisk (of_nat k) 1 s = Ret ((0, img k), s\<lparr>dev := d\<rparr>) \<and> drive_ok P n img d"
proof -
  from assms(1) obtain idle preparing ready
    where drv: "ata_drive P n img idle preparing ready" and idle: "idle (dev s)"
    by (auto simp: drive_ok_def)
  have k: "k < 268435456" and len: "length (img k) = 512"
    using drv assms(2) by (auto simp: ata_drive_def)
  obtain polls where "preparing (request_sectors P (int k) 1 (dev s)) polls (img k)"
    using drv idle assms(2) unfolding request_one [OF k] ata_drive_def by blast
  then obtain d1 where d1: "disk_wait P (request_sectors P (int k) 1 (dev s)) = Some d1" "ready d1 (img k)"
    using disk_wait_ready [OF drv] by blast
  have l: "length (img k) = 2 * Suc 255" using len by simp
  from read_words_ready [OF drv l d1(2)] obtain d where
    "read_words P (Suc 255) d1 = (img k, d)" and idle': "idle d" by blast
  moreover have "Suc 255 = 256" by simp
  ultimately have d: "read_words P 256 d1 = (img k, d)" by (simp only:)
  have si: "sint (of_nat k :: u32) = int k"
    using k by (subst sint_small) (simp_all add: unat_of_nat_u32)
  have "disk_read_sector P (int k) 1 s = Ret ((0, img k), s\<lparr>dev := d\<rparr>)"
    unfolding disk_read_sector_def read_one_sector [OF d1(1) d] by (simp only: option.case case_prod_conv)
  then have "disk_read_block P MainDisk (of_nat k) 1 s = Ret ((0, img k), s\<lparr>dev := d\<rparr>)"
    unfolding disk_read_block_def si by simp
  moreover have "drive_ok P n img d" using drv idle' unfolding drive_ok_def by blast
  ultimately show ?thesis by blast
qed

section \<open>Disks as arrays of bytes\<close>

text \<open>The \<open>c\<close> bytes from byte \<open>q\<close> of an image of sectors.\<close>

definition stream_bytes :: "(nat \<Rightarrow> u8 list) \<Rightarrow> nat \<Rightarrow> nat \<Rightarrow> u8 list" where
  "stream_bytes img q c = map (\<lambda>i. img (i div 512) ! (i mod 512)) [q..<q + c]"

lemma length_stream_bytes [simp]: "length (stream_bytes img q c) = c"
  by (simp add: stream_bytes_def)

lemma stream_bytes_append: "stream_bytes img q (a + b) = stream_bytes img q a @ stream_bytes img (q + a) b"
  using upt_add_eq_append [of q "q + a" b] by (simp add: stream_bytes_def add.assoc)

text \<open>
  What the layers above a disk rely on: a sector of the device reads as its contents, and reading
  changes nothing that \<open>rest\<close> observes.
\<close>

locale block_device =
  fixes read_block :: "nat \<Rightarrow> ('s, int \<times> u8 list) prog"
    and ok :: "'s \<Rightarrow> bool"
    and blocks :: nat
    and content :: "nat \<Rightarrow> u8 list"
    and rest :: "'s \<Rightarrow> 'r"
  assumes content_length: "ok s \<Longrightarrow> length (content k) = 512"
    and read_content: "ok s \<Longrightarrow> k < blocks \<Longrightarrow>
      \<exists>s'. read_block k s = Ret ((0, content k), s') \<and> ok s' \<and> rest s' = rest s"
begin

text \<open>A part of one sector is a part of the byte array.\<close>

lemma sector_slice:
  assumes "ok s" "off + c \<le> 512"
  shows "take c (drop off (content k)) = stream_bytes content (512 * k + off) c"
  using assms content_length by (intro nth_equalityI) (auto simp: stream_bytes_def add.assoc)

lemma read_slice:
  assumes "ok s" "k < blocks" "off + c \<le> 512"
  shows "\<exists>s' buf. read_block k s = Ret ((0, buf), s') \<and> ok s' \<and> rest s' = rest s
    \<and> take c (drop off buf) = stream_bytes content (512 * k + off) c"
  using read_content [OF assms(1,2)] sector_slice [OF assms(1,3)] by blast

end

interpretation drive: block_device "\<lambda>k. disk_read_block P MainDisk (of_nat k) 1" "\<lambda>s. drive_ok P n img (dev s)"
  n img "\<lambda>s. \<lambda>d. s\<lparr>dev := d\<rparr>"
  for P :: "'d ports" and n :: nat and img :: "nat \<Rightarrow> u8 list"
proof
  fix s :: "('d, 'z) disk_machine_scheme" and k
  show "drive_ok P n img (dev s) \<Longrightarrow> length (img k) = 512"
    by (auto simp: drive_ok_def ata_drive_def)
  show "drive_ok P n img (dev s) \<Longrightarrow> k < n \<Longrightarrow>
    \<exists>s'. disk_read_block P MainDisk (of_nat k) 1 s = Ret ((0, img k), s') \<and> drive_ok P n img (dev s')
      \<and> (\<lambda>d. s'\<lparr>dev := d\<rparr>) = (\<lambda>d. s\<lparr>dev := d\<rparr>)"
    using read_block_image [of P n img s k] by auto
qed

lemma rest_dev: "(\<lambda>d. s'\<lparr>dev := d\<rparr>) = (\<lambda>d. s\<lparr>dev := d\<rparr>) \<Longrightarrow> s' = s\<lparr>dev := dev s'\<rparr>"
  by (drule fun_cong [where x = "dev s'"]) simp

section \<open>Reading a stream\<close>

text \<open>One call of \<open>diskstreamer_read\<close> from a position inside the disk.\<close>

lemma diskstreamer_read_step:
  assumes st: "streams s p = Some \<lparr>stream_pos = int q, stream_disk = MainDisk\<rparr>"
    and drv: "drive_ok P n img (dev s)" and q: "q < 512 * n" and t: "q + t < 2147483136"
  defines "c \<equiv> (if q mod 512 + t \<ge> 512 then 512 - q mod 512 else t)"
  shows "\<exists>s'. drive_ok P n img (dev s')
    \<and> s' = s\<lparr>ram := put_bytes (ram s) out (stream_bytes img q c), dev := dev s',
             streams := (streams s)(p \<mapsto> \<lparr>stream_pos = int (q + c), stream_disk = MainDisk\<rparr>)\<rparr>
    \<and> diskstreamer_read P p out (int t) s
      = (if q mod 512 + t \<ge> 512
         then case diskstreamer_read P p (out + of_nat c) (int (t - c)) s' of
                Ret r' \<Rightarrow> Ret (0, snd r') | Panic e \<Rightarrow> Panic e | Fault e \<Rightarrow> Fault e | Hang \<Rightarrow> Hang
         else Ret (0, s'))"
proof -
  let ?off = "q mod 512" and ?k = "q div 512"
  have k: "?k < n" and c: "?off + c \<le> 512" and ct: "c \<le> t" and q': "512 * ?k + ?off = q"
    using q by (auto simp: c_def less_mult_imp_div_less mult.commute)
  obtain s1 buf where rd: "disk_read_block P MainDisk (of_nat ?k) 1 s = Ret ((0, buf), s1)"
    and drv1: "drive_ok P n img (dev s1)" and buf: "take c (drop ?off buf) = stream_bytes img q c"
    and s1: "s1 = s\<lparr>dev := dev s1\<rparr>"
    using drive.read_slice [OF drv k c] rest_dev unfolding q' by blast
  define s' where "s' = s1\<lparr>ram := put_bytes (ram s1) out (stream_bytes img q c),
    streams := (streams s1)(p \<mapsto> \<lparr>stream_pos = int (q + c), stream_disk = MainDisk\<rparr>)\<rparr>"
  have ints: "cdiv (int q) 512 = int ?k" "cmod (int q) 512 = int ?off"
    by (simp_all add: cint_simps zdiv_int zmod_int)
  have off: "?off < 512" by simp
  have range: "\<not> (int ?off + int t < - 2147483648 \<or> 2147483647 < int ?off + int t)"
    using t off mod_less_eq_dividend [of q 512] by linarith
  have cc: "(if 512 \<le> int ?off + int t then int t - (int ?off + int t - 512) else int t) = int c"
    unfolding c_def using off by (simp add: of_nat_diff split: if_splits)
  have cond: "512 \<le> int ?off + int t \<longleftrightarrow> 512 \<le> ?off + t" by linarith
  have pos: "i32 (int q + int c) = int (q + c)"
    using ct t by (simp add: i32_id)
  have "diskstreamer_read P p out (int t) s
      = (if q mod 512 + t \<ge> 512
         then case diskstreamer_read P p (out + of_nat c) (int (t - c)) s' of
                Ret r' \<Rightarrow> Ret (0, snd r') | Panic e \<Rightarrow> Panic e | Fault e \<Rightarrow> Fault e | Hang \<Rightarrow> Hang
         else Ret (0, s'))"
    unfolding diskstreamer_read.simps [of P p out "int t" s] st option.case disk_stream.simps ints Let_def cc
    using rd buf range ct pos cond by (auto simp: of_nat_diff s'_def)
  moreover have "s' = s\<lparr>ram := put_bytes (ram s) out (stream_bytes img q c), dev := dev s',
             streams := (streams s)(p \<mapsto> \<lparr>stream_pos = int (q + c), stream_disk = MainDisk\<rparr>)\<rparr>"
    unfolding s'_def by (subst (1 2 3) s1) simp
  ultimately show ?thesis using drv1 by (intro exI [of _ s']) (simp add: s'_def)
qed

lemma diskstreamer_read_image:
  assumes "streams s p = Some \<lparr>stream_pos = int q, stream_disk = MainDisk\<rparr>"
    and "drive_ok P n img (dev s)" and "q + t < 512 * n" and "q + t < 2147483136"
  shows "\<exists>s'. diskstreamer_read P p out (int t) s = Ret (0, s') \<and> drive_ok P n img (dev s')
    \<and> s' = s\<lparr>ram := put_bytes (ram s) out (stream_bytes img q t), dev := dev s',
             streams := (streams s)(p \<mapsto> \<lparr>stream_pos = int (q + t), stream_disk = MainDisk\<rparr>)\<rparr>"
  using assms
proof (induction t arbitrary: q s out rule: less_induct)
  case (less t)
  let ?c = "if q mod 512 + t \<ge> 512 then 512 - q mod 512 else t"
  have q: "q < 512 * n" and c: "?c \<le> t" using less.prems(3) by auto
  from diskstreamer_read_step [OF less.prems(1,2) q less.prems(4), of out] obtain s1
    where drv1: "drive_ok P n img (dev s1)"
    and s1: "s1 = s\<lparr>ram := put_bytes (ram s) out (stream_bytes img q ?c), dev := dev s1,
             streams := (streams s)(p \<mapsto> \<lparr>stream_pos = int (q + ?c), stream_disk = MainDisk\<rparr>)\<rparr>"
    and step: "diskstreamer_read P p out (int t) s
      = (if q mod 512 + t \<ge> 512
         then case diskstreamer_read P p (out + of_nat ?c) (int (t - ?c)) s1 of
                Ret r' \<Rightarrow> Ret (0, snd r') | Panic e \<Rightarrow> Panic e | Fault e \<Rightarrow> Fault e | Hang \<Rightarrow> Hang
         else Ret (0, s1))"
    by blast
  show ?case
  proof (cases "q mod 512 + t \<ge> 512")
    case False
    with s1 drv1 step show ?thesis by (intro exI [of _ s1]) (simp del: fun_upd_apply)
  next
    case True
    define c where "c = 512 - q mod 512"
    have cpos: "0 < c" "c \<le> t" using True by (simp_all add: c_def)
    have cc: "?c = c" using True by (simp add: c_def)
    have st1: "streams s1 p = Some \<lparr>stream_pos = int (q + c), stream_disk = MainDisk\<rparr>"
      by (subst s1) (simp add: cc)
    have "\<exists>s'. diskstreamer_read P p (out + of_nat c) (int (t - c)) s1 = Ret (0, s') \<and> drive_ok P n img (dev s')
      \<and> s' = s1\<lparr>ram := put_bytes (ram s1) (out + of_nat c) (stream_bytes img (q + c) (t - c)), dev := dev s',
             streams := (streams s1)(p \<mapsto> \<lparr>stream_pos = int (q + c + (t - c)), stream_disk = MainDisk\<rparr>)\<rparr>"
      using cpos less.prems(3,4) by (intro less.IH [OF _ st1 drv1]) simp_all
    then obtain s' where s': "diskstreamer_read P p (out + of_nat c) (int (t - c)) s1 = Ret (0, s')"
      "drive_ok P n img (dev s')"
      "s' = s1\<lparr>ram := put_bytes (ram s1) (out + of_nat c) (stream_bytes img (q + c) (t - c)), dev := dev s',
             streams := (streams s1)(p \<mapsto> \<lparr>stream_pos = int (q + c + (t - c)), stream_disk = MainDisk\<rparr>)\<rparr>"
      by blast
    have r1: "ram s1 = put_bytes (ram s) out (stream_bytes img q c)"
      and str1: "streams s1 = (streams s)(p \<mapsto> \<lparr>stream_pos = int (q + c), stream_disk = MainDisk\<rparr>)"
      by (subst s1, simp add: cc)+
    have up: "s1\<lparr>ram := X, dev := D, streams := Y\<rparr> = s\<lparr>ram := X, dev := D, streams := Y\<rparr>" for X D Y
      by (subst s1) simp
    have "put_bytes (ram s1) (out + of_nat c) (stream_bytes img (q + c) (t - c))
        = put_bytes (ram s) out (stream_bytes img q t)"
      using stream_bytes_append [of img q c "t - c"] cpos(2) by (simp add: put_bytes_append r1)
    moreover have "q + c + (t - c) = q + t" using cpos(2) by simp
    ultimately have "s' = s\<lparr>ram := put_bytes (ram s) out (stream_bytes img q t), dev := dev s',
             streams := (streams s)(p \<mapsto> \<lparr>stream_pos = int (q + t), stream_disk = MainDisk\<rparr>)\<rparr>"
      using s'(3) up str1 by (simp del: fun_upd_apply)
    then show ?thesis
      using step s'(1,2) True unfolding cc by (intro exI [of _ s']) (simp del: fun_upd_apply)
  qed
qed

text \<open>
  C24: on a drive that behaves as documented, reading from a stream positioned inside the disk,
  however the range lies across sectors, returns; the output buffer then holds exactly those
  bytes of the disk, the stream has advanced past them, and nothing else but the drive changed.
\<close>

theorem diskstreamer_read_correct:
  assumes "streams s p = Some \<lparr>stream_pos = int q, stream_disk = MainDisk\<rparr>"
    and "drive_ok P n img (dev s)" and "q + t < 512 * n" and "q + t < 2147483136"
  shows "\<exists>d. diskstreamer_read P p out (int t) s
      = Ret (0, s\<lparr>ram := put_bytes (ram s) out (stream_bytes img q t), dev := d,
                 streams := (streams s)(p \<mapsto> \<lparr>stream_pos = int (q + t), stream_disk = MainDisk\<rparr>)\<rparr>)
    \<and> drive_ok P n img d"
  using diskstreamer_read_image [OF assms] by metis

text \<open>
  the result of a read does not tell a failure: a call that returns, returns 0, and a stream
  without a readable disk leaves the output buffer and the position as they were.
\<close>

lemma diskstreamer_read_hides_errors:
  "(diskstreamer_read P p out t s = Ret (r, s') \<longrightarrow> r = 0)
    \<and> (streams s p = Some \<lparr>stream_pos = 0, stream_disk = NullDisk\<rparr> \<and> 0 \<le> t \<and> t \<le> 2147483647
        \<longrightarrow> diskstreamer_read P p out t s = Ret (0, s))"
proof -
  have "r = 0" if "diskstreamer_read P p out t s = Ret (r, s')"
    using that by (subst (asm) diskstreamer_read.simps)
      (auto simp: Let_def split: option.splits outcome.splits if_splits prod.splits)
  moreover have "diskstreamer_read P p out t s = Ret (0, s)"
    if "streams s p = Some \<lparr>stream_pos = 0, stream_disk = NullDisk\<rparr>" "0 \<le> t" "t \<le> 2147483647"
    using that by (subst diskstreamer_read.simps) (simp add: disk_read_block_def kret_def cdiv_def cmod_def)
  ultimately show ?thesis by blast
qed

section \<open>A concrete drive\<close>

text \<open>
  The registers, the bytes still to deliver and the polls until they are ready; it holds the
  image \<open>img\<close> of 65536 sectors.
\<close>

type_synonym simple_drive = "(u16 \<Rightarrow> u8) \<times> u8 list \<times> nat"

definition simple_ports :: "(nat \<Rightarrow> u8 list) \<Rightarrow> simple_drive ports" where
  "simple_ports img =
     \<lparr>insb = (\<lambda>port (regs, bs, k). if port = 0x1F7 then (if k = 0 then (0x58, regs, bs, 0) else (0x80, regs, bs, k - 1)) else (0, regs, bs, k)),
      insw = (\<lambda>port (regs, bs, k). case bs of lo # hi # bs' \<Rightarrow> (ucast lo OR push_bit 8 (ucast hi), regs, bs', k) | _ \<Rightarrow> (0, regs, bs, k)),
      outb = (\<lambda>port v (regs, bs, k). if port = 0x1F7 \<and> v = 0x20
        then (regs, img (unat (regs 0x1F3) + 256 * unat (regs 0x1F4) + 65536 * unat (regs 0x1F5)), 3)
        else (regs(port := v), bs, k))\<rparr>"

lemma simple_drive_ata:
  assumes "\<And>k. length (img k) = 512"
  shows "ata_drive (simple_ports img) 65536 img (\<lambda>(regs, bs, k). bs = [])
    (\<lambda>(regs, bs, k) polls b. bs = b \<and> k = polls) (\<lambda>(regs, bs, k) b. bs = b)"
proof -
  have "unat (of_nat lba :: u8) + 256 * unat (of_nat (lba div 256) :: u8) + 65536 * unat (of_nat (lba div 65536) :: u8) = lba"
    if "lba < 65536" for lba
  proof -
    have "lba div 256 < 256" "lba div 65536 = 0" using that by simp_all
    then show ?thesis by (simp add: unat_of_nat)
  qed
  then show ?thesis
    using assms by (auto simp: ata_drive_def simple_ports_def)
qed

definition counting_image :: "nat \<Rightarrow> u8 list" where
  "counting_image k = replicate 512 (of_nat k)"

definition disk_machine_0 :: "simple_drive disk_machine" where
  "disk_machine_0 = \<lparr>ram = \<lambda>_. 0, kernel_heap = kheap, screen = home, current_directory = 0, cr3 = 0, paging_on = False,
     dev = (\<lambda>_. 0, [], 0), the_disk = \<lparr>dk_type = 0, dk_sector_size = 512, dk_id = 0, dk_filesystem = 0, dk_fs_private = 0\<rparr>,
     streams = [0x1000000 \<mapsto> \<lparr>stream_pos = 511, stream_disk = MainDisk\<rparr>]\<rparr>"

lemma disk_machine_0_ok: "drive_ok (simple_ports counting_image) 65536 counting_image (dev disk_machine_0)"
  unfolding drive_ok_def
  by (intro exI conjI, rule simple_drive_ata) (simp_all add: counting_image_def disk_machine_0_def)

theorem diskstreamer_read_correct_witness:
  "\<exists>s'. diskstreamer_read (simple_ports counting_image) 0x1000000 0x9000 2 disk_machine_0 = Ret (0, s')
    \<and> ram s' 0x9000 = 0 \<and> ram s' 0x9001 = 1"
proof -
  have "streams disk_machine_0 0x1000000 = Some \<lparr>stream_pos = int 511, stream_disk = MainDisk\<rparr>"
    by (simp add: disk_machine_0_def)
  from diskstreamer_read_correct [OF this disk_machine_0_ok, of 2 "0x9000"] obtain d where
    "diskstreamer_read (simple_ports counting_image) 0x1000000 0x9000 2 disk_machine_0
      = Ret (0, disk_machine_0\<lparr>ram := put_bytes (ram disk_machine_0) 0x9000 (stream_bytes counting_image 511 2), dev := d,
          streams := (streams disk_machine_0)(0x1000000 \<mapsto> \<lparr>stream_pos = int 513, stream_disk = MainDisk\<rparr>)\<rparr>)"
    by auto
  moreover have "stream_bytes counting_image 511 2 = [0, 1]"
    by (simp add: stream_bytes_def counting_image_def upt_rec)
  ultimately show ?thesis by simp
qed

end
