(* ===== verification/PathParser.thy ===== *)
theory PathParser imports Disk
begin

text \<open>
  \<open>src/src/fs/pparser.c\<close>: parsing of paths such as \<open>0:/dir/file.txt\<close> into a linked list on
  the kernel heap, and its release. The specification \<open>parts_of\<close> splits the text; the theorems
  say that the list on the heap is that split, and that releasing it gives back every block.
\<close>

section \<open>State and operations\<close>

abbreviation (input) PEACHOS_MAX_PATH :: int where "PEACHOS_MAX_PATH \<equiv> 108"

record path_root =
  drive_no :: int
  first_part :: u32

record path_part =
  part :: u32
  next_part :: u32

record 'd path_machine = "'d disk_machine" +
  path_roots :: "u32 \<Rightarrow> path_root option"
  path_parts :: "u32 \<Rightarrow> path_part option"

text \<open>\<open>memcmp\<close> with the literal \<open>":/"\<close> compares two bytes.\<close>

definition pathparser_path_valid_format :: "mem \<Rightarrow> u32 \<Rightarrow> bool" where
  "pathparser_path_valid_format m filename \<longleftrightarrow>
     strnlen m filename PEACHOS_MAX_PATH \<ge> 3 \<and> is_digit (m filename) \<and> bytes_at m (filename + 1) 2 = [0x3A, 0x2F]"

text \<open>The result and the new value of the caller's \<open>path\<close>.\<close>

definition pathparser_get_drive_by_path :: "mem \<Rightarrow> u32 \<Rightarrow> int \<times> u32" where
  "pathparser_get_drive_by_path m path =
     (if \<not> pathparser_path_valid_format m path then (err EBADPATH, path)
      else (to_numeric_digit (m path), path + 3))"

partial_function (option) copy_part :: "mem \<Rightarrow> u32 \<Rightarrow> u32 \<Rightarrow> int \<Rightarrow> (mem \<times> u32 \<times> int) option" where
  "copy_part m path dest i =
     (if m path \<noteq> 0x2F \<and> m path \<noteq> 0 then copy_part (m(dest + word_of_int i := m path)) (path + 1) dest (i + 1)
      else Some (m, path, i))"

definition pathparser_get_path_part :: "u32 \<Rightarrow> (('d, 'z) path_machine_scheme, u32 \<times> u32) prog" where
  "pathparser_get_path_part path =
     kbind (kzalloc 108) (\<lambda>result_path_part s.
       case copy_part (ram s) path result_path_part 0 of None \<Rightarrow> Hang
       | Some (m, path1, i) \<Rightarrow>
           let path2 = (if m path1 = 0x2F then path1 + 1 else path1)
           in if i = 0 then kbind (kfree result_path_part) (\<lambda>_. kret (0, path2)) (s\<lparr>ram := m\<rparr>)
              else Ret ((result_path_part, path2), s\<lparr>ram := m\<rparr>))"

definition pathparser_parse_path_part :: "u32 \<Rightarrow> u32 \<Rightarrow> (('d, 'z) path_machine_scheme, u32 \<times> u32) prog" where
  "pathparser_parse_path_part last_part path =
     kbind (pathparser_get_path_part path) (\<lambda>(path_part_str, path').
       if path_part_str = 0 then kret (0, path')
       else kbind (kzalloc 8) (\<lambda>new_part.
            kbind (kmod (\<lambda>s. s\<lparr>path_parts := (path_parts s)(new_part \<mapsto> \<lparr>part = path_part_str, next_part = 0\<rparr>)\<rparr>)) (\<lambda>_.
            kbind (if last_part \<noteq> 0
                   then kbind (kread ''no part'' (\<lambda>s. path_parts s last_part)) (\<lambda>l.
                        kmod (\<lambda>s. s\<lparr>path_parts := (path_parts s)(last_part \<mapsto> l\<lparr>next_part := new_part\<rparr>)\<rparr>))
                   else kret ()) (\<lambda>_.
            kret (new_part, path')))))"

definition pathparser_create_root :: "int \<Rightarrow> (('d, 'z) path_machine_scheme, u32) prog" where
  "pathparser_create_root drive_number =
     kbind (kzalloc 8) (\<lambda>path_r.
     kbind (kmod (\<lambda>s. s\<lparr>path_roots := (path_roots s)(path_r \<mapsto> \<lparr>drive_no = drive_number, first_part = 0\<rparr>)\<rparr>)) (\<lambda>_.
     kret path_r))"

partial_function (option) parse_parts ::
  "u32 \<Rightarrow> u32 \<Rightarrow> ('d, 'z) path_machine_scheme \<Rightarrow> (unit \<times> ('d, 'z) path_machine_scheme) outcome option" where
  "parse_parts next path s =
     (if next = 0 then Some (Ret ((), s))
      else case pathparser_parse_path_part next path s of
        Ret r \<Rightarrow> parse_parts (fst (fst r)) (snd (fst r)) (snd r)
      | Panic e \<Rightarrow> Some (Panic e) | Fault e \<Rightarrow> Some (Fault e) | Hang \<Rightarrow> Some Hang)"

definition pathparser_parse :: "u32 \<Rightarrow> u32 \<Rightarrow> (('d, 'z) path_machine_scheme, u32) prog" where
  "pathparser_parse path current_directory_path s =
     (case strlen (ram s) path of None \<Rightarrow> Hang
      | Some len \<Rightarrow>
          if len > 108 then Ret (0, s)
          else let (res, tmp_path) = pathparser_get_drive_by_path (ram s) path
               in if res < 0 then Ret (0, s)
                  else kbind (pathparser_create_root res) (\<lambda>path_root.
                       if path_root = 0 then kret path_root
                       else kbind (pathparser_parse_path_part 0 tmp_path) (\<lambda>(first, tmp_path1).
                         if first = 0 then kret path_root
                         else kbind (kread ''no root'' (\<lambda>s. path_roots s path_root)) (\<lambda>r.
                              kbind (kmod (\<lambda>s. s\<lparr>path_roots := (path_roots s)(path_root \<mapsto> r\<lparr>first_part := first\<rparr>)\<rparr>)) (\<lambda>_.
                              kbind (\<lambda>s. run_loop (parse_parts first tmp_path1 s)) (\<lambda>_.
                              kret path_root))))) s)"

partial_function (option) free_parts ::
  "u32 \<Rightarrow> ('d, 'z) path_machine_scheme \<Rightarrow> (unit \<times> ('d, 'z) path_machine_scheme) outcome option" where
  "free_parts current_part s =
     (if current_part = 0 then Some (Ret ((), s))
      else case path_parts s current_part of None \<Rightarrow> Some (Fault ''no part'')
        | Some c \<Rightarrow> (case kbind (kfree (part c)) (\<lambda>_. kfree current_part) s of
             Ret r \<Rightarrow> free_parts (next_part c) (snd r)
           | Panic e \<Rightarrow> Some (Panic e) | Fault e \<Rightarrow> Some (Fault e) | Hang \<Rightarrow> Some Hang))"

definition pathparser_free :: "u32 \<Rightarrow> (('d, 'z) path_machine_scheme, unit) prog" where
  "pathparser_free root =
     kbind (kread ''no root'' (\<lambda>s. path_roots s root)) (\<lambda>r.
     kbind (\<lambda>s. run_loop (free_parts (first_part r) s)) (\<lambda>_. kfree root))"

section \<open>Splitting a path\<close>

function parts_of :: "u8 list \<Rightarrow> u8 list list" where
  "parts_of xs = (let p = takeWhile ((\<noteq>) 0x2F) xs in
     if p = [] then [] else p # parts_of (drop (Suc (length p)) xs))"
  by pat_completeness auto
termination
proof (relation "measure length")
  fix xs p :: "u8 list"
  assume "p = takeWhile ((\<noteq>) 0x2F) xs" "p \<noteq> []"
  then show "(drop (Suc (length p)) xs, xs) \<in> measure length" by (cases xs) auto
qed simp

declare parts_of.simps [simp del]

lemma length_parts_of: "2 * length (parts_of xs) \<le> Suc (length xs)"
proof (induction xs rule: parts_of.induct)
  case (1 xs)
  let ?p = "takeWhile ((\<noteq>) 0x2F) xs"
  show ?case
  proof (cases "?p = []")
    case True
    then show ?thesis by (subst parts_of.simps) simp
  next
    case False
    have "length (parts_of xs) = Suc (length (parts_of (drop (Suc (length ?p)) xs)))"
      using False by (subst parts_of.simps) (simp add: Let_def)
    moreover have "0 < length ?p" using False by simp
    moreover have "length ?p \<le> length xs" by (rule length_takeWhile_le)
    moreover have "n = Suc l \<Longrightarrow> 0 < p \<Longrightarrow> p \<le> x \<Longrightarrow> 2 * l \<le> Suc (x - Suc p) \<Longrightarrow> 2 * n \<le> Suc x" for n l p x :: nat
      by presburger
    ultimately show ?thesis
      using 1 [OF refl False] unfolding length_drop by blast
  qed
qed

section \<open>Strings in memory\<close>

lemma cstr_drop: "cstr m p xs \<Longrightarrow> k \<le> length xs \<Longrightarrow> cstr m (p + of_nat k) (drop k xs)"
proof (induction k arbitrary: p xs)
  case (Suc k)
  then obtain x ys where "xs = x # ys" by (cases xs) auto
  with Suc show ?case using Suc.IH [of "p + 1" ys] by (simp add: add.assoc)
qed simp

lemma cstr_put_zero:
  assumes "0 \<notin> set xs" "m (q + of_nat (length xs)) = 0" "length xs < 4294967295"
  shows "cstr (put_bytes m q xs) q xs"
proof -
  have "\<not> in_range (q + of_nat (length xs)) q (length xs)"
    using assms(3) by (simp add: in_range_def unat_of_nat_u32)
  then have "put_bytes m q xs (q + of_nat (length xs)) = 0"
    using assms(2,3) by (simp add: put_bytes_outside)
  then have "put_bytes m q (xs @ [0]) = put_bytes m q xs"
    by (simp add: put_bytes_append fun_upd_idem del: fun_upd_apply)
  then show ?thesis using cstr_put_bytes [OF assms(1,3), of m q] by simp
qed

lemma copy_part_run:
  assumes "cstr m path xs" "length xs < 4294967295"
    and "disjoint_ranges (dest + word_of_int i) (length xs) path (Suc (length xs))"
  shows "copy_part m path dest i
    = Some (put_bytes m (dest + word_of_int i) (takeWhile ((\<noteq>) 0x2F) xs),
            path + of_nat (length (takeWhile ((\<noteq>) 0x2F) xs)), i + int (length (takeWhile ((\<noteq>) 0x2F) xs)))"
  using assms
proof (induction xs arbitrary: m path i)
  case Nil
  then show ?case by (simp add: copy_part.simps [of m path])
next
  case (Cons x xs)
  show ?case
  proof (cases "x = 0x2F")
    case True
    with Cons.prems(1) show ?thesis by (simp add: copy_part.simps [of m path])
  next
    case False
    let ?q = "dest + word_of_int i" and ?n = "length xs"
    let ?m = "m(?q := x)"
    have q: "dest + word_of_int (i + 1) = ?q + 1" by simp
    have dis: "disjoint_ranges (?q + 1) ?n (path + 1) (Suc ?n)"
      using Cons.prems(2,3) in_range_step [of ?n] in_range_step [of "Suc ?n"]
      unfolding disjoint_ranges_def by simp blast
    have "\<not> in_range ?q path (Suc (Suc ?n))"
      using Cons.prems(2,3) in_range_add [of "Suc ?n" 0 ?q] by (auto simp: disjoint_ranges_def)
    then have nq: "\<not> in_range ?q (path + 1) (Suc ?n)"
      using in_range_step [of "Suc ?n" ?q path] Cons.prems(2) by auto
    have "cstr ?m (path + 1) xs \<longleftrightarrow> cstr m (path + 1) xs"
      using Cons.prems(2) nq by (intro cstr_cong) auto
    then have "copy_part ?m (path + 1) dest (i + 1)
      = Some (put_bytes ?m (?q + 1) (takeWhile ((\<noteq>) 0x2F) xs),
              path + 1 + of_nat (length (takeWhile ((\<noteq>) 0x2F) xs)), i + 1 + int (length (takeWhile ((\<noteq>) 0x2F) xs)))"
      using Cons.prems dis unfolding q [symmetric] by (intro Cons.IH) (simp_all del: fun_upd_apply)
    with Cons.prems(1) False show ?thesis
      by (simp add: copy_part.simps [of m path] mem_simps add.assoc)
  qed
qed

text \<open>A string that meets neither the heap's table nor the \<open>n\<close> blocks from block \<open>a\<close>.\<close>

definition away :: "u32 \<Rightarrow> nat \<Rightarrow> nat \<Rightarrow> nat \<Rightarrow> bool" where
  "away p c a n \<longleftrightarrow> (\<forall>x. in_range x p c \<longrightarrow> \<not> in_range x PEACHOS_HEAP_TABLE_ADDRESS 25600
     \<and> (\<forall>b. a \<le> b \<and> b < a + n \<longrightarrow> \<not> in_range x (block_addr b) 4096))"

lemma away_sub:
  assumes "away p c a n" "k + c' \<le> c" "c \<le> 4294967296" "a \<le> a'" "a' + n' \<le> a + n"
  shows "away (p + of_nat k) c' a' n'"
proof -
  have "in_range x p c" if "in_range x (p + of_nat k) c'" for x
  proof -
    from that obtain i where "i < c'" "x = p + of_nat (k + i)" by (auto elim!: in_rangeE simp: add.assoc)
    then show ?thesis using assms(2,3) in_range_add [of c "k + i" p] by simp
  qed
  then show ?thesis using assms(1,4,5) unfolding away_def by (meson le_trans less_le_trans)
qed

lemma cstr_away:
  assumes "cstr m p xs" "away p (Suc (length xs)) a n" "length xs < 4294967295"
    and "\<And>x. \<not> in_range x PEACHOS_HEAP_TABLE_ADDRESS 25600 \<Longrightarrow>
      \<forall>b. a \<le> b \<and> b < a + n \<longrightarrow> \<not> in_range x (block_addr b) 4096 \<Longrightarrow> m' x = m x"
  shows "cstr m' p xs"
  using assms cstr_cong [of p xs m' m] unfolding away_def by auto

section \<open>One part\<close>

text \<open>What may differ after taking blocks \<open>a\<close> to \<open>a + n - 1\<close>.\<close>

definition blocks_frame :: "nat \<Rightarrow> nat \<Rightarrow> mem \<Rightarrow> mem \<Rightarrow> bool" where
  "blocks_frame a n m m' \<longleftrightarrow> (\<forall>x. \<not> in_range x PEACHOS_HEAP_TABLE_ADDRESS 25600
     \<and> (\<forall>b. a \<le> b \<and> b < a + n \<longrightarrow> \<not> in_range x (block_addr b) 4096) \<longrightarrow> m' x = m x)"

lemma blocks_frame_refl: "blocks_frame a n m m"
  by (simp add: blocks_frame_def)

lemma blocks_frame_mono:
  assumes "blocks_frame a n m m'" "c \<le> a" "a + n \<le> c + j"
  shows "blocks_frame c j m m'"
  unfolding blocks_frame_def
proof (intro allI impI)
  fix x assume x: "\<not> in_range x PEACHOS_HEAP_TABLE_ADDRESS 25600
    \<and> (\<forall>b. c \<le> b \<and> b < c + j \<longrightarrow> \<not> in_range x (block_addr b) 4096)"
  have "\<not> in_range x (block_addr b) 4096" if "a \<le> b" "b < a + n" for b
    using x that assms(2,3) by simp
  with x assms(1) show "m' x = m x" by (simp add: blocks_frame_def)
qed

lemma blocks_frame_trans: "blocks_frame a n m m' \<Longrightarrow> blocks_frame a n m' m'' \<Longrightarrow> blocks_frame a n m m''"
  by (simp add: blocks_frame_def)

lemma cstr_blocks_frame:
  "cstr m p xs \<Longrightarrow> away p (Suc (length xs)) a n \<Longrightarrow> length xs < 4294967295 \<Longrightarrow> blocks_frame a n m m' \<Longrightarrow> cstr m' p xs"
  using cstr_away [of m p xs a n m'] by (simp add: blocks_frame_def)

text \<open>A string inside one block is away from every other block.\<close>

lemma block_away:
  assumes "b < 25600" "c \<le> 4096" "a + n \<le> 25600" "b < a \<or> a + n \<le> b"
  shows "away (block_addr b) c a n"
  unfolding away_def
proof (intro allI impI)
  fix x assume "in_range x (block_addr b) c"
  then have x: "in_range x (block_addr b) 4096" using assms(2) by (rule in_range_mono)
  show "\<not> in_range x PEACHOS_HEAP_TABLE_ADDRESS 25600 \<and> (\<forall>b. a \<le> b \<and> b < a + n \<longrightarrow> \<not> in_range x (block_addr b) 4096)"
    using in_block_not_table [OF x assms(1)] in_block_disjoint [OF x] assms(1,3,4)
    by (metis less_le_trans not_le)
qed

lemma get_path_part_run:
  assumes r: "kheap_repr s (A @ replicate (Suc n) FreeBlk @ B)" and A: "FreeBlk \<notin> set A" "a = seg_blocks A"
    and str: "cstr (ram s) path xs" and len: "length xs < 108" and aw: "away path (Suc (length xs)) a (Suc n)"
  defines "p \<equiv> takeWhile ((\<noteq>) 0x2F) xs"
  shows "\<exists>s'. pathparser_get_path_part path s
      = Ret ((if p = [] then 0 else block_addr a, path + of_nat (min (Suc (length p)) (length xs))), s')
    \<and> kheap_repr s' (A @ (if p = [] then FreeBlk else Alloc 0) # replicate n FreeBlk @ B)
    \<and> (p \<noteq> [] \<longrightarrow> cstr (ram s') (block_addr a) p) \<and> s' = s\<lparr>ram := ram s'\<rparr> \<and> blocks_frame a 1 (ram s) (ram s')"
proof -
  have blk: "a < 25600" using kheap_repr_blocks [OF r] A(2) by simp
  have r1: "kheap_repr s (A @ replicate (Suc 0) FreeBlk @ (replicate n FreeBlk @ B))"
    using r by simp
  have sz: "4096 * 0 < unat (108 :: u32)" "unat (108 :: u32) \<le> 4096 * Suc 0" by simp_all
  obtain t where run1: "kzalloc 108 s = Ret (block_addr a, t)"
    and t: "kheap_repr t (A @ Alloc 0 # replicate n FreeBlk @ B)" "t = s\<lparr>ram := ram t\<rparr>"
    and zero: "\<And>x. in_range x (block_addr a) 108 \<Longrightarrow> ram t x = 0"
    and f1: "\<And>x. \<not> in_range x (block_addr a) 108 \<Longrightarrow> \<not> in_range x PEACHOS_HEAP_TABLE_ADDRESS 25600 \<Longrightarrow> ram t x = ram s x"
    using kzalloc_run [OF r1 A(1) sz] A(2) by auto
  have page: "in_range x (block_addr a) c \<Longrightarrow> c \<le> 4096 \<Longrightarrow> in_range x (block_addr a) 4096" for x c
    by (rule in_range_mono)
  have fr1: "blocks_frame a 1 (ram s) (ram t)"
    using f1 page [of _ 108] by (auto simp: blocks_frame_def)
  have str1: "cstr (ram t) path xs"
    using cstr_blocks_frame [OF str aw _ blocks_frame_mono [OF fr1]] len by simp
  have plen: "length p \<le> length xs" unfolding p_def by (rule length_takeWhile_le)
  define m1 where "m1 = put_bytes (ram t) (block_addr a) p"
  have "disjoint_ranges (block_addr a) (length xs) path (Suc (length xs))"
    using aw page [of _ "length xs"] len unfolding disjoint_ranges_def away_def by fastforce
  then have copy: "copy_part (ram t) path (block_addr a) 0 = Some (m1, path + of_nat (length p), int (length p))"
    using copy_part_run [OF str1, of "block_addr a" 0] len by (simp add: m1_def p_def)
  have out1: "m1 x = ram t x" if "\<not> in_range x (block_addr a) 4096" for x
    unfolding m1_def using that page [of x "length p"] plen len by (intro put_bytes_outside) auto
  have str2: "cstr m1 path xs"
  proof (rule cstr_away [OF str1 aw])
    fix x assume "\<forall>b. a \<le> b \<and> b < a + Suc n \<longrightarrow> \<not> in_range x (block_addr b) 4096"
    then show "m1 x = ram t x" by (intro out1) simp
  qed (use len in simp)
  have nxt: "(if m1 (path + of_nat (length p)) = 0x2F then path + of_nat (length p) + 1 else path + of_nat (length p))
      = path + of_nat (min (Suc (length p)) (length xs))"
  proof (cases "length p = length xs")
    case True
    then show ?thesis using cstr_drop [OF str2 plen] by simp
  next
    case False
    then have lt: "length p < length xs" using plen by simp
    then have "xs ! length p = 0x2F" unfolding p_def using nth_length_takeWhile by force
    then have "drop (length p) xs = 0x2F # drop (Suc (length p)) xs"
      using lt by (simp flip: Cons_nth_drop_Suc)
    then show ?thesis using cstr_drop [OF str2 plen] lt by simp
  qed
  define u where "u = t\<lparr>ram := m1\<rparr>"
  have ur: "kheap_repr u (A @ Alloc 0 # replicate n FreeBlk @ B)"
  proof (rule kheap_repr_cong [OF t(1)])
    fix x assume "in_range x PEACHOS_HEAP_TABLE_ADDRESS 25600"
    then have "\<not> in_range x (block_addr a) 4096" using in_block_not_table blk by blast
    then show "ram u x = ram t x" using out1 by (simp add: u_def)
  qed (simp add: u_def)
  have fru: "blocks_frame a 1 (ram s) (ram u)"
    using fr1 out1 by (auto simp: blocks_frame_def u_def)
  have us: "u = s\<lparr>ram := ram u\<rparr>" using ram_only [OF t(2), of m1] by (simp add: u_def)
  show ?thesis
  proof (cases "p = []")
    case False
    have "0 \<notin> set p" using cstr_no_0 [OF str] set_takeWhileD unfolding p_def by fast
    moreover have "ram t (block_addr a + of_nat (length p)) = 0"
      using zero in_range_add [of 108 "length p"] plen len by simp
    ultimately have "cstr (ram u) (block_addr a) p"
      using cstr_put_zero [of p "ram t" "block_addr a"] plen len by (simp add: u_def m1_def)
    moreover have "pathparser_get_path_part path s = Ret ((block_addr a, path + of_nat (min (Suc (length p)) (length xs))), u)"
      using False run1 copy nxt by (simp add: pathparser_get_path_part_def kbind_def u_def Let_def)
    ultimately show ?thesis using False ur us fru by (intro exI [of _ u]) simp
  next
    case True
    obtain v where v: "kfree (block_addr a) u = Ret ((), v)" "kheap_repr v (A @ replicate (Suc 0) FreeBlk @ replicate n FreeBlk @ B)"
      "v = u\<lparr>ram := ram v\<rparr>" "\<forall>x. \<not> in_range x PEACHOS_HEAP_TABLE_ADDRESS 25600 \<longrightarrow> ram v x = ram u x"
      using kfree_run [OF ur] A(2) by blast
    have "pathparser_get_path_part path s = Ret ((0, path + of_nat (min (Suc (length p)) (length xs))), v)"
      using True run1 copy nxt v(1)
      by (simp add: pathparser_get_path_part_def kbind_def kret_def u_def Let_def split: if_splits)
    moreover have "blocks_frame a 1 (ram s) (ram v)" using fru v(4) by (simp add: blocks_frame_def)
    moreover have "v = s\<lparr>ram := ram v\<rparr>" using ram_only [OF us, of "ram v"] v(3) by simp
    ultimately show ?thesis using True v(2) by (intro exI [of _ v]) simp
  qed
qed

text \<open>Linking a new node behind the last one.\<close>

definition link :: "u32 \<Rightarrow> u32 \<Rightarrow> (u32 \<Rightarrow> path_part option) \<Rightarrow> (u32 \<Rightarrow> path_part option)" where
  "link l v pp = (if l = 0 then pp else pp(l \<mapsto> (the (pp l))\<lparr>next_part := v\<rparr>))"

lemma parse_path_part_run:
  assumes r: "kheap_repr s (A @ replicate (Suc (Suc n)) FreeBlk @ B)" and A: "FreeBlk \<notin> set A" "a = seg_blocks A"
    and str: "cstr (ram s) path xs" and len: "length xs < 108" and aw: "away path (Suc (length xs)) a (Suc (Suc n))"
    and l: "l = 0 \<or> path_parts s l \<noteq> None" "l \<noteq> block_addr (a + 1)"
  defines "p \<equiv> takeWhile ((\<noteq>) 0x2F) xs"
  shows "\<exists>s'. pathparser_parse_path_part l path s
      = Ret ((if p = [] then 0 else block_addr (a + 1), path + of_nat (min (Suc (length p)) (length xs))), s')
    \<and> kheap_repr s' (A @ (if p = [] then [FreeBlk, FreeBlk] else [Alloc 0, Alloc 0]) @ replicate n FreeBlk @ B)
    \<and> (p \<noteq> [] \<longrightarrow> cstr (ram s') (block_addr a) p)
    \<and> s' = s\<lparr>ram := ram s', path_parts := (if p = [] then path_parts s
        else link l (block_addr (a + 1)) ((path_parts s)(block_addr (a + 1) \<mapsto> \<lparr>part = block_addr a, next_part = 0\<rparr>)))\<rparr>
    \<and> blocks_frame a 2 (ram s) (ram s')"
proof -
  have blk: "a + 1 < 25600" using kheap_repr_blocks [OF r] A(2) by simp
  obtain t where run1: "pathparser_get_path_part path s
      = Ret ((if p = [] then 0 else block_addr a, path + of_nat (min (Suc (length p)) (length xs))), t)"
    and t: "kheap_repr t (A @ (if p = [] then FreeBlk else Alloc 0) # replicate (Suc n) FreeBlk @ B)"
      "p \<noteq> [] \<longrightarrow> cstr (ram t) (block_addr a) p" "t = s\<lparr>ram := ram t\<rparr>" "blocks_frame a 1 (ram s) (ram t)"
    using get_path_part_run [OF r A str len aw] unfolding p_def by blast
  have fr: "blocks_frame a 2 (ram s) (ram t)" using blocks_frame_mono [OF t(4)] by simp
  show ?thesis
  proof (cases "p = []")
    case True
    with run1 have "pathparser_parse_path_part l path s = Ret ((0, path + of_nat (min (Suc (length p)) (length xs))), t)"
      by (simp add: pathparser_parse_path_part_def kbind_def kret_def)
    moreover have "path_parts s = path_parts t" by (subst t(3)) simp
    ultimately show ?thesis using True t(1,3) fr by (intro exI [of _ t]) simp
  next
    case False
    let ?v = "block_addr (a + 1)"
    have rt: "kheap_repr t ((A @ [Alloc 0]) @ replicate (Suc 0) FreeBlk @ (replicate n FreeBlk @ B))"
      using t(1) False by simp
    have nA: "FreeBlk \<notin> set (A @ [Alloc 0])" and sA: "seg_blocks (A @ [Alloc 0]) = a + 1" using A by simp_all
    have sz: "4096 * 0 < unat (8 :: u32)" "unat (8 :: u32) \<le> 4096 * Suc 0" by simp_all
    obtain u where run2: "kzalloc 8 t = Ret (?v, u)"
      and u: "kheap_repr u ((A @ [Alloc 0]) @ Alloc 0 # replicate n FreeBlk @ B)" "u = t\<lparr>ram := ram u\<rparr>"
      and f2: "\<And>x. \<not> in_range x ?v 8 \<Longrightarrow> \<not> in_range x PEACHOS_HEAP_TABLE_ADDRESS 25600 \<Longrightarrow> ram u x = ram t x"
      using kzalloc_run [OF rt nA sz] unfolding sA by auto
    have v0: "?v \<noteq> 0" "block_addr a \<noteq> 0" using blk block_addr_ne_0 [of "a + 1"] block_addr_ne_0 [of a] by linarith+
    have us: "u = s\<lparr>ram := ram u\<rparr>" using ram_only [OF t(3), of "ram u"] u(2) by simp
    have fru: "blocks_frame (a + 1) 1 (ram t) (ram u)"
      using f2 in_range_mono [of _ ?v 8 4096] by (auto simp: blocks_frame_def)
    have "away (block_addr a) (Suc (length p)) (a + 1) 1"
      using blk len length_takeWhile_le [of "(\<noteq>) 0x2F" xs] by (intro block_away) (simp_all add: p_def)
    then have str2: "cstr (ram u) (block_addr a) p"
      using cstr_blocks_frame [OF _ _ _ fru, of "block_addr a" p] t(2) False len length_takeWhile_le [of "(\<noteq>) 0x2F" xs]
      by (simp add: p_def)
    define s' where "s' = u\<lparr>path_parts := link l ?v ((path_parts u)(?v \<mapsto> \<lparr>part = block_addr a, next_part = 0\<rparr>))\<rparr>"
    have pu: "path_parts u = path_parts s" by (subst us) simp
    have "pathparser_parse_path_part l path s = Ret ((?v, path + of_nat (min (Suc (length p)) (length xs))), s')"
    proof (cases "l = 0")
      case True
      then show ?thesis using False run1 run2 v0
        by (simp add: pathparser_parse_path_part_def kbind_def kret_def kmod_def s'_def link_def del: fun_upd_apply)
    next
      case l0: False
      then obtain lp where lp: "path_parts s l = Some lp" using l(1) by blast
      show ?thesis using False run1 run2 v0 l0 l(2) lp
        by (simp add: pathparser_parse_path_part_def kbind_def kret_def kmod_def kread_def s'_def link_def pu mem_simps)
    qed
    moreover have "kheap_repr s' (A @ [Alloc 0, Alloc 0] @ replicate n FreeBlk @ B)"
      using u(1) by (simp add: kheap_repr_def s'_def)
    moreover have "blocks_frame a 2 (ram s) (ram s')"
      using blocks_frame_trans [OF fr blocks_frame_mono [OF fru]] by (simp add: s'_def)
    moreover have "s' = s\<lparr>ram := ram s', path_parts := link l ?v ((path_parts s)(?v \<mapsto> \<lparr>part = block_addr a, next_part = 0\<rparr>))\<rparr>"
      unfolding s'_def pu by (subst us) simp
    ultimately show ?thesis using False str2 by (intro exI [of _ s']) (simp add: s'_def)
  qed
qed

section \<open>The list of parts\<close>

text \<open>The parts \<open>ps\<close> as a linked list whose strings and nodes lie in the blocks from \<open>b\<close> on.\<close>

fun chain :: "('d, 'z) path_machine_scheme \<Rightarrow> nat \<Rightarrow> u8 list list \<Rightarrow> bool" where
  "chain s b [] \<longleftrightarrow> True"
| "chain s b (p # ps) \<longleftrightarrow> cstr (ram s) (block_addr b) p
     \<and> path_parts s (block_addr (b + 1)) = Some \<lparr>part = block_addr b, next_part = (if ps = [] then 0 else block_addr (b + 3))\<rparr>
     \<and> chain s (b + 2) ps"

lemma parts_of_Nil: "takeWhile ((\<noteq>) 0x2F) xs = [] \<Longrightarrow> parts_of xs = []"
  by (subst parts_of.simps) simp

lemma parts_of_Cons:
  "takeWhile ((\<noteq>) 0x2F) xs \<noteq> [] \<Longrightarrow> parts_of xs
    = takeWhile ((\<noteq>) 0x2F) xs # parts_of (drop (Suc (length (takeWhile ((\<noteq>) 0x2F) xs))) xs)"
  by (subst parts_of.simps) (simp add: Let_def)

lemma parse_parts_run:
  assumes "kheap_repr s (A @ replicate (2 * length (parts_of xs) + 2 + n) FreeBlk @ B)"
    and "FreeBlk \<notin> set A" "a = seg_blocks A" "cstr (ram s) path xs" "length xs < 108"
    and "away path (Suc (length xs)) a (2 * length (parts_of xs) + 2 + n)"
    and "path_parts s (block_addr c) = Some lp" "next_part lp = 0" "c < a"
  shows "\<exists>s'. parse_parts (block_addr c) path s = Some (Ret ((), s'))
    \<and> kheap_repr s' (A @ replicate (2 * length (parts_of xs)) (Alloc 0) @ replicate (2 + n) FreeBlk @ B)
    \<and> chain s' a (parts_of xs) \<and> s' = s\<lparr>ram := ram s', path_parts := path_parts s'\<rparr>
    \<and> path_parts s' (block_addr c) = Some (lp\<lparr>next_part := if parts_of xs = [] then 0 else block_addr (a + 1)\<rparr>)
    \<and> (\<forall>b. b < a \<and> b \<noteq> c \<longrightarrow> path_parts s' (block_addr b) = path_parts s (block_addr b))
    \<and> blocks_frame a (2 * length (parts_of xs) + 2) (ram s) (ram s')"
  using assms
proof (induction xs arbitrary: s A a path c lp rule: parts_of.induct)
  case (1 xs)
  let ?p = "takeWhile ((\<noteq>) 0x2F) xs" and ?path' = "path + of_nat (min (Suc (length (takeWhile ((\<noteq>) 0x2F) xs))) (length xs))"
  let ?N = "2 * length (parts_of xs) + n"
  have r: "kheap_repr s (A @ replicate (Suc (Suc ?N)) FreeBlk @ B)" using 1(2) by simp
  have len: "a + Suc (Suc ?N) \<le> 25600" using kheap_repr_blocks [OF r] 1(4) by simp
  have aw: "away path (Suc (length xs)) a (Suc (Suc ?N))" using 1(7) by simp
  have c0: "block_addr c \<noteq> 0" "block_addr c \<noteq> block_addr (a + 1)"
    using block_addr_ne_0 [of c] block_addr_inj [of c "a + 1"] 1(10) len by auto
  obtain s1 where run: "pathparser_parse_path_part (block_addr c) path s
      = Ret ((if ?p = [] then 0 else block_addr (a + 1), ?path'), s1)"
    and s1: "kheap_repr s1 (A @ (if ?p = [] then [FreeBlk, FreeBlk] else [Alloc 0, Alloc 0]) @ replicate ?N FreeBlk @ B)"
      "?p \<noteq> [] \<longrightarrow> cstr (ram s1) (block_addr a) ?p"
      "s1 = s\<lparr>ram := ram s1, path_parts := (if ?p = [] then path_parts s
        else link (block_addr c) (block_addr (a + 1))
          ((path_parts s)(block_addr (a + 1) \<mapsto> \<lparr>part = block_addr a, next_part = 0\<rparr>)))\<rparr>"
      "blocks_frame a 2 (ram s) (ram s1)"
    using parse_path_part_run [OF r 1(3,4,5,6) aw _ c0(2)] 1(8) by blast
  show ?case
  proof (cases "?p = []")
    case True
    note ps = parts_of_Nil [OF True]
    have "parse_parts (block_addr c) path s = Some (Ret ((), s1))"
      using run True c0(1) by (simp add: parse_parts.simps [of "block_addr c"] parse_parts.simps [of 0])
    moreover have "path_parts s1 = path_parts s" by (subst s1(3)) (use True in simp)
    moreover have "lp\<lparr>next_part := 0\<rparr> = lp" using 1(9) by (cases lp) simp
    moreover have "s1 = s\<lparr>ram := ram s1, path_parts := path_parts s\<rparr>" by (subst s1(3)) (use True in simp)
    ultimately show ?thesis
      using s1(1,4) 1(8) True by (intro exI [of _ s1]) (simp add: ps numeral_2_eq_2)
  next
    case False
    let ?xs' = "drop (Suc (length ?p)) xs" and ?v = "block_addr (a + 1)"
    note ps = parts_of_Cons [OF False]
    have pp1: "path_parts s1 = link (block_addr c) ?v ((path_parts s)(?v \<mapsto> \<lparr>part = block_addr a, next_part = 0\<rparr>))"
      by (subst s1(3)) (use False in simp)
    have plen: "length ?p \<le> length xs" by (rule length_takeWhile_le)
    have N: "?N = 2 * length (parts_of ?xs') + 2 + n" by (subst ps) simp
    have r1: "kheap_repr s1 ((A @ [Alloc 0, Alloc 0]) @ replicate (2 * length (parts_of ?xs') + 2 + n) FreeBlk @ B)"
      using s1(1) False unfolding N by simp
    have str1: "cstr (ram s1) path xs"
      using cstr_blocks_frame [OF 1(5) aw _ blocks_frame_mono [OF s1(4)]] 1(6) by simp
    have "drop (min (Suc (length ?p)) (length xs)) xs = ?xs'" by (simp add: min_def)
    then have str: "cstr (ram s1) ?path' ?xs'"
      using cstr_drop [OF str1, of "min (Suc (length ?p)) (length xs)"] by simp
    have aw': "away ?path' (Suc (length ?xs')) (a + 2) (2 * length (parts_of ?xs') + 2 + n)"
      using 1(6) len unfolding N by (intro away_sub [OF aw [unfolded N]]) (auto simp: min_def)
    have nA: "FreeBlk \<notin> set (A @ [Alloc 0, Alloc 0])" and sA: "a + 2 = seg_blocks (A @ [Alloc 0, Alloc 0])"
      using 1(3,4) by simp_all
    have xl: "length ?xs' < 108" using 1(6) by simp
    have lv: "path_parts s1 ?v = Some \<lparr>part = block_addr a, next_part = 0\<rparr>" using c0 by (simp add: pp1 link_def)
    obtain s' where s': "parse_parts ?v ?path' s1 = Some (Ret ((), s'))"
      "kheap_repr s' ((A @ [Alloc 0, Alloc 0]) @ replicate (2 * length (parts_of ?xs')) (Alloc 0) @ replicate (2 + n) FreeBlk @ B)"
      "chain s' (a + 2) (parts_of ?xs')" "s' = s1\<lparr>ram := ram s', path_parts := path_parts s'\<rparr>"
      "path_parts s' ?v = Some \<lparr>part = block_addr a, next_part = if parts_of ?xs' = [] then 0 else block_addr (a + 3)\<rparr>"
      "\<And>b. b < a + 2 \<Longrightarrow> b \<noteq> a + 1 \<Longrightarrow> path_parts s' (block_addr b) = path_parts s1 (block_addr b)"
      "blocks_frame (a + 2) (2 * length (parts_of ?xs') + 2) (ram s1) (ram s')"
      using 1(1) [OF refl False r1 nA sA str xl aw' lv] by (auto simp: numeral_3_eq_3)
    have "parse_parts (block_addr c) path s = Some (Ret ((), s'))"
      using run False c0(1) s'(1) by (simp add: parse_parts.simps [of "block_addr c"])
    moreover have "kheap_repr s' (A @ replicate (2 * length (parts_of xs)) (Alloc 0) @ replicate (2 + n) FreeBlk @ B)"
      using s'(2) by (simp add: ps)
    moreover have "cstr (ram s') (block_addr a) ?p"
    proof (rule cstr_blocks_frame [OF _ _ _ s'(7)])
      show "cstr (ram s1) (block_addr a) ?p" using s1(2) False by blast
      show "away (block_addr a) (Suc (length ?p)) (a + 2) (2 * length (parts_of ?xs') + 2)"
        using len plen 1(6) unfolding N by (intro block_away) simp_all
    qed (use plen 1(6) in simp)
    moreover have "s' = s\<lparr>ram := ram s', path_parts := path_parts s'\<rparr>"
      by (subst s'(4), subst s1(3)) simp
    moreover have "path_parts s' (block_addr c) = Some (lp\<lparr>next_part := ?v\<rparr>)"
      using s'(6) [of c] 1(8,10) c0 by (simp add: pp1 link_def)
    moreover have "path_parts s' (block_addr b) = path_parts s (block_addr b)" if "b < a" "b \<noteq> c" for b
      using s'(6) [of b] that c0 len block_addr_inj [of b c] block_addr_inj [of b "a + 1"] 1(10) by (simp add: pp1 link_def)
    moreover have "blocks_frame a (2 * length (parts_of xs) + 2) (ram s) (ram s')"
      by (rule blocks_frame_trans [OF blocks_frame_mono [OF s1(4)] blocks_frame_mono [OF s'(7)]]) (simp_all add: ps)
    ultimately show ?thesis
      using s'(3,5) by (intro exI [of _ s']) (simp add: ps)
  qed
qed

section \<open>Parsing a path\<close>

lemma path_header:
  assumes "cstr m path (d # 0x3A # 0x2F # rest)" "is_digit d" "length rest \<le> 105"
  shows "strlen m path = Some (of_nat (length rest + 3))" "\<not> of_nat (length rest + 3) > (108 :: u32)"
    and "pathparser_get_drive_by_path m path = (sint d - 48, path + 3)" "0 \<le> sint d - 48"
proof -
  show "strlen m path = Some (of_nat (length rest + 3))" using strlen_cstr [OF assms(1)] by simp
  show "\<not> of_nat (length rest + 3) > (108 :: u32)"
    using assms(3) by (simp add: word_less_nat_alt unat_of_nat_u32 del: of_nat_add)
  have "strnlen m path 108 \<ge> 3" using strnlen_cstr [OF assms(1), of 108] by simp
  moreover have "bytes_at m (path + 1) 2 = [0x3A, 0x2F]"
    using assms(1) by (simp add: bytes_at_Suc numeral_2_eq_2 bytes_at_def [of _ _ 0])
  ultimately show "pathparser_get_drive_by_path m path = (sint d - 48, path + 3)"
    using assms(1,2) by (simp add: pathparser_get_drive_by_path_def pathparser_path_valid_format_def to_numeric_digit_def)
  show "0 \<le> sint d - 48" using assms(2) by (simp add: is_digit_def)
qed

lemma create_root_run:
  assumes r: "kheap_repr s (A @ replicate (Suc n) FreeBlk @ B)" and A: "FreeBlk \<notin> set A" "a = seg_blocks A"
  shows "\<exists>s'. pathparser_create_root d s = Ret (block_addr a, s')
    \<and> kheap_repr s' (A @ Alloc 0 # replicate n FreeBlk @ B)
    \<and> s' = s\<lparr>ram := ram s', path_roots := (path_roots s)(block_addr a \<mapsto> \<lparr>drive_no = d, first_part = 0\<rparr>)\<rparr>
    \<and> blocks_frame a 1 (ram s) (ram s')"
proof -
  have r1: "kheap_repr s (A @ replicate (Suc 0) FreeBlk @ (replicate n FreeBlk @ B))" using r by simp
  have sz: "4096 * 0 < unat (8 :: u32)" "unat (8 :: u32) \<le> 4096 * Suc 0" by simp_all
  obtain t where run: "kzalloc 8 s = Ret (block_addr a, t)"
    and t: "kheap_repr t (A @ Alloc 0 # replicate n FreeBlk @ B)" "t = s\<lparr>ram := ram t\<rparr>"
    and f: "\<And>x. \<not> in_range x (block_addr a) 8 \<Longrightarrow> \<not> in_range x PEACHOS_HEAP_TABLE_ADDRESS 25600 \<Longrightarrow> ram t x = ram s x"
    using kzalloc_run [OF r1 A(1) sz] A(2) by auto
  define s' where "s' = t\<lparr>path_roots := (path_roots t)(block_addr a \<mapsto> \<lparr>drive_no = d, first_part = 0\<rparr>)\<rparr>"
  have rt: "path_roots t = path_roots s" by (subst t(2)) simp
  have "s' = s\<lparr>ram := ram s', path_roots := (path_roots s)(block_addr a \<mapsto> \<lparr>drive_no = d, first_part = 0\<rparr>)\<rparr>"
    unfolding s'_def rt by (subst t(2)) simp
  moreover have "pathparser_create_root d s = Ret (block_addr a, s')"
    using run by (simp add: pathparser_create_root_def kbind_def kmod_def kret_def s'_def)
  moreover have "blocks_frame a 1 (ram s) (ram s')"
    using f in_range_mono [of _ "block_addr a" 8 4096] by (auto simp: blocks_frame_def s'_def)
  moreover have "kheap_repr s' (A @ Alloc 0 # replicate n FreeBlk @ B)" using t(1) by (simp add: kheap_repr_def s'_def)
  ultimately show ?thesis by blast
qed

text \<open>Updates that compose: only memory and the two struct maps change.\<close>

lemma only_paths_1:
  "t = s\<lparr>ram := r, path_roots := q\<rparr> \<Longrightarrow> u = t\<lparr>ram := r', path_parts := p\<rparr>
    \<Longrightarrow> u = s\<lparr>ram := ram u, path_parts := path_parts u, path_roots := path_roots u\<rparr>"
  by simp

lemma only_paths_2:
  "t = s\<lparr>ram := r, path_parts := p, path_roots := q\<rparr> \<Longrightarrow> u = t\<lparr>path_roots := q'\<rparr>
    \<Longrightarrow> v = u\<lparr>ram := r', path_parts := p'\<rparr>
    \<Longrightarrow> v = s\<lparr>ram := ram v, path_parts := path_parts v, path_roots := path_roots v\<rparr>"
  by simp

lemma pathparser_parse_run:
  assumes str: "cstr (ram s) path (d # 0x3A # 0x2F # rest)" and d: "is_digit d" and len: "length rest \<le> 105"
    and r: "kheap_repr s (A @ replicate (2 * length (parts_of rest) + 3 + n) FreeBlk @ B)"
    and A: "FreeBlk \<notin> set A" "a = seg_blocks A"
    and aw: "away path (length rest + 4) a (2 * length (parts_of rest) + 3 + n)"
  shows "\<exists>s'. pathparser_parse path cwd s = Ret (block_addr a, s')
    \<and> path_roots s' (block_addr a) = Some \<lparr>drive_no = sint d - 48,
        first_part = (if parts_of rest = [] then 0 else block_addr (a + 2))\<rparr>
    \<and> chain s' (a + 1) (parts_of rest)
    \<and> kheap_repr s' (A @ replicate (2 * length (parts_of rest) + 1) (Alloc 0) @ replicate (2 + n) FreeBlk @ B)
    \<and> s' = s\<lparr>ram := ram s', path_parts := path_parts s', path_roots := path_roots s'\<rparr>
    \<and> blocks_frame a (2 * length (parts_of rest) + 3) (ram s) (ram s')"
proof -
  let ?P = "length (parts_of rest)" and ?p = "takeWhile ((\<noteq>) 0x2F) rest"
  have blk: "a + 2 * ?P + 3 + n \<le> 25600" using kheap_repr_blocks [OF r] A(2) by simp
  have r0: "kheap_repr s (A @ replicate (Suc (2 * ?P + 2 + n)) FreeBlk @ B)"
    using r by (simp add: numeral_3_eq_3 del: replicate_Suc)
  obtain s1 where run1: "pathparser_create_root (sint d - 48) s = Ret (block_addr a, s1)"
    and s1: "kheap_repr s1 (A @ Alloc 0 # replicate (2 * ?P + 2 + n) FreeBlk @ B)"
      "s1 = s\<lparr>ram := ram s1, path_roots := (path_roots s)(block_addr a \<mapsto> \<lparr>drive_no = sint d - 48, first_part = 0\<rparr>)\<rparr>"
      "blocks_frame a 1 (ram s) (ram s1)"
    using create_root_run [OF r0 A] by blast
  have rr: "kheap_repr s1 ((A @ [Alloc 0]) @ replicate (Suc (Suc (2 * ?P + n))) FreeBlk @ B)" using s1(1) by simp
  have nA: "FreeBlk \<notin> set (A @ [Alloc 0])" and sA: "a + 1 = seg_blocks (A @ [Alloc 0])" using A by simp_all
  have str1: "cstr (ram s1) path (d # 0x3A # 0x2F # rest)"
  proof (rule cstr_blocks_frame [OF str _ _ blocks_frame_mono [OF s1(3)]])
    have "Suc (length (d # 0x3A # 0x2F # rest)) = length rest + 4" by simp
    then show "away path (Suc (length (d # 0x3A # 0x2F # rest))) a (2 * ?P + 3 + n)" using aw by (simp only:)
  qed (use len in simp_all)
  have str3: "cstr (ram s1) (path + 3) rest" using cstr_drop [OF str1, of 3] by (simp add: numeral_3_eq_3)
  have aw3: "away (path + 3) (Suc (length rest)) (a + 1) (Suc (Suc (2 * ?P + n)))"
    using away_sub [OF aw, of 3 "Suc (length rest)" "a + 1" "Suc (Suc (2 * ?P + n))"] len by simp
  have b0: "block_addr a \<noteq> 0" "block_addr (a + 2) \<noteq> 0" using block_addr_ne_0 [of a] block_addr_ne_0 [of "a + 2"] blk by simp_all
  have e2: "a + 1 + 1 = a + 2" by simp
  have v2: "(0 :: u32) \<noteq> block_addr (a + 1 + 1)" using b0(2) by (simp add: numeral_2_eq_2)
  let ?path' = "path + 3 + of_nat (min (Suc (length ?p)) (length rest))"
  have len3: "length rest < 108" using len by simp
  obtain s2 where run2: "pathparser_parse_path_part 0 (path + 3) s1
      = Ret ((if ?p = [] then 0 else block_addr (a + 2), ?path'), s2)"
    and s2: "kheap_repr s2 ((A @ [Alloc 0]) @ (if ?p = [] then [FreeBlk, FreeBlk] else [Alloc 0, Alloc 0]) @ replicate (2 * ?P + n) FreeBlk @ B)"
      "?p \<noteq> [] \<longrightarrow> cstr (ram s2) (block_addr (a + 1)) ?p"
      "s2 = s1\<lparr>ram := ram s2, path_parts := (if ?p = [] then path_parts s1
        else link 0 (block_addr (a + 2)) ((path_parts s1)(block_addr (a + 2) \<mapsto> \<lparr>part = block_addr (a + 1), next_part = 0\<rparr>)))\<rparr>"
      "blocks_frame (a + 1) 2 (ram s1) (ram s2)"
    using parse_path_part_run [OF rr nA sA str3 len3 aw3 disjI1 [OF refl] v2] unfolding e2 by blast
  have head: "pathparser_parse path cwd s = kbind (pathparser_create_root (sint d - 48)) (\<lambda>path_root.
                       if path_root = 0 then kret path_root
                       else kbind (pathparser_parse_path_part 0 (path + 3)) (\<lambda>(first, tmp_path1).
                         if first = 0 then kret path_root
                         else kbind (kread ''no root'' (\<lambda>s. path_roots s path_root)) (\<lambda>r.
                              kbind (kmod (\<lambda>s. s\<lparr>path_roots := (path_roots s)(path_root \<mapsto> r\<lparr>first_part := first\<rparr>)\<rparr>)) (\<lambda>_.
                              kbind (\<lambda>s. run_loop (parse_parts first tmp_path1 s)) (\<lambda>_.
                              kret path_root))))) s"
    using path_header [OF str d len] by (simp add: pathparser_parse_def)
  have pr1: "path_roots s2 = (path_roots s)(block_addr a \<mapsto> \<lparr>drive_no = sint d - 48, first_part = 0\<rparr>)"
    by (subst s2(3), subst s1(2)) simp
  have fr2: "blocks_frame a (2 * ?P + 3) (ram s) (ram s2)"
    using blocks_frame_trans [OF blocks_frame_mono [OF s1(3)] blocks_frame_mono [OF s2(4)], of a "2 * ?P + 3"] by simp
  show ?thesis
  proof (cases "?p = []")
    case True
    note ps = parts_of_Nil [OF True]
    have "pathparser_parse path cwd s = Ret (block_addr a, s2)"
      unfolding head using run1 run2 b0 True by (simp add: kbind_def kret_def)
    moreover note only_paths_1 [OF s1(2) s2(3)]
    ultimately show ?thesis
      using s2(1) True fr2 by (intro exI [of _ s2]) (simp add: ps pr1 numeral_2_eq_2)
  next
    case False
    let ?xs' = "drop (Suc (length ?p)) rest"
    note ps = parts_of_Cons [OF False]
    define s3 where "s3 = s2\<lparr>path_roots := (path_roots s2)(block_addr a \<mapsto> \<lparr>drive_no = sint d - 48, first_part = block_addr (a + 2)\<rparr>)\<rparr>"
    have P: "2 * ?P + n = 2 * length (parts_of ?xs') + 2 + n" by (subst ps) simp
    have r3: "kheap_repr s3 ((A @ [Alloc 0, Alloc 0, Alloc 0]) @ replicate (2 * length (parts_of ?xs') + 2 + n) FreeBlk @ B)"
      using s2(1) False unfolding P [symmetric] by (simp add: kheap_repr_def s3_def)
    have nA3: "FreeBlk \<notin> set (A @ [Alloc 0, Alloc 0, Alloc 0])" and sA3: "a + 3 = seg_blocks (A @ [Alloc 0, Alloc 0, Alloc 0])"
      using A by simp_all
    have "cstr (ram s2) (path + 3) rest"
      using cstr_blocks_frame [OF str3 aw3 _ blocks_frame_mono [OF s2(4)]] len by simp
    moreover have "drop (min (Suc (length ?p)) (length rest)) rest = ?xs'" by (simp add: min_def)
    ultimately have str4: "cstr (ram s3) ?path' ?xs'"
      using cstr_drop [of "ram s2" "path + 3" rest "min (Suc (length ?p)) (length rest)"] by (simp add: s3_def)
    have aw4: "away ?path' (Suc (length ?xs')) (a + 3) (2 * length (parts_of ?xs') + 2 + n)"
      using len unfolding P [symmetric] by (intro away_sub [OF aw3]) (auto simp: min_def)
    have len4: "length ?xs' < 108" using len by simp
    have node: "path_parts s3 (block_addr (a + 2)) = Some \<lparr>part = block_addr (a + 1), next_part = 0\<rparr>"
    proof -
      have "path_parts s2 (block_addr (a + 2)) = Some \<lparr>part = block_addr (a + 1), next_part = 0\<rparr>"
        by (subst s2(3)) (use False in \<open>simp add: link_def\<close>)
      then show ?thesis by (simp add: s3_def)
    qed
    obtain s' where s': "parse_parts (block_addr (a + 2)) ?path' s3 = Some (Ret ((), s'))"
      "kheap_repr s' ((A @ [Alloc 0, Alloc 0, Alloc 0]) @ replicate (2 * length (parts_of ?xs')) (Alloc 0) @ replicate (2 + n) FreeBlk @ B)"
      "chain s' (a + 3) (parts_of ?xs')" "s' = s3\<lparr>ram := ram s', path_parts := path_parts s'\<rparr>"
      "path_parts s' (block_addr (a + 2)) = Some \<lparr>part = block_addr (a + 1), next_part = if parts_of ?xs' = [] then 0 else block_addr (a + 4)\<rparr>"
      "blocks_frame (a + 3) (2 * length (parts_of ?xs') + 2) (ram s3) (ram s')"
      using parse_parts_run [OF r3 nA3 sA3 str4 len4 aw4 node] by (auto simp: add.commute [of _ a])
    have run: "pathparser_parse path cwd s = Ret (block_addr a, s')"
      unfolding head using run1 run2 b0 False s'(1)
      by (simp add: kbind_def kret_def kread_def kmod_def pr1 s3_def)
    have "cstr (ram s') (block_addr (a + 1)) ?p"
    proof (rule cstr_blocks_frame [OF _ _ _ s'(6)])
      show "cstr (ram s3) (block_addr (a + 1)) ?p" using s2(2) False by (simp add: s3_def)
      show "away (block_addr (a + 1)) (Suc (length ?p)) (a + 3) (2 * length (parts_of ?xs') + 2)"
        using blk len length_takeWhile_le [of "(\<noteq>) 0x2F" rest] P by (intro block_away) simp_all
    qed (use len length_takeWhile_le [of "(\<noteq>) 0x2F" rest] in simp)
    then have ch: "chain s' (a + 1) (parts_of rest)"
      using s'(3,5) by (simp add: ps numeral_eq_Suc)
    have "path_roots s' = path_roots s3" by (subst s'(4)) simp
    then have roots: "path_roots s' (block_addr a) = Some \<lparr>drive_no = sint d - 48, first_part = block_addr (a + 2)\<rparr>"
      by (simp add: s3_def)
    have "s' = s\<lparr>ram := ram s', path_parts := path_parts s', path_roots := path_roots s'\<rparr>"
      by (rule only_paths_2 [OF only_paths_1 [OF s1(2) s2(3)] s3_def s'(4)])
    moreover have "blocks_frame a (2 * ?P + 3) (ram s) (ram s')"
      using fr2 blocks_frame_mono [OF s'(6), of a "2 * ?P + 3"] P blocks_frame_trans by (simp add: s3_def)
    moreover have "kheap_repr s' (A @ replicate (2 * ?P + 1) (Alloc 0) @ replicate (2 + n) FreeBlk @ B)"
      using s'(2) by (simp add: ps)
    ultimately show ?thesis
      using run roots ch by (intro exI [of _ s']) (simp add: ps)
  qed
qed

section \<open>Freeing a path\<close>

text \<open>The nodes of a chain of \<open>n\<close> parts.\<close>

fun links :: "(u32 \<Rightarrow> path_part option) \<Rightarrow> nat \<Rightarrow> nat \<Rightarrow> bool" where
  "links pp b 0 \<longleftrightarrow> True"
| "links pp b (Suc n) \<longleftrightarrow>
     pp (block_addr (b + 1)) = Some \<lparr>part = block_addr b, next_part = (if n = 0 then 0 else block_addr (b + 3))\<rparr>
     \<and> links pp (b + 2) n"

lemma chain_links: "chain s b ps \<Longrightarrow> links (path_parts s) b (length ps)"
  by (induction ps arbitrary: b) auto

lemma free_parts_run:
  assumes "kheap_repr s (X @ replicate (2 * n) (Alloc 0) @ B)" "b = seg_blocks X" "links (path_parts s) b n"
  shows "\<exists>s'. free_parts (if n = 0 then 0 else block_addr (b + 1)) s = Some (Ret ((), s'))
    \<and> kheap_repr s' (X @ replicate (2 * n) FreeBlk @ B) \<and> s' = s\<lparr>ram := ram s'\<rparr>"
  using assms
proof (induction n arbitrary: s X b)
  case 0
  have "s = s\<lparr>ram := ram s\<rparr>" by simp
  with 0 show ?case by (auto simp: free_parts.simps [of 0])
next
  case (Suc n)
  have "kheap_repr s (X @ Alloc 0 # (Alloc 0 # replicate (2 * n) (Alloc 0) @ B))" using Suc.prems(1) by simp
  from kfree_run [OF this] obtain t where run1: "kfree (block_addr b) s = Ret ((), t)"
    and t: "kheap_repr t (X @ replicate (Suc 0) FreeBlk @ (Alloc 0 # replicate (2 * n) (Alloc 0) @ B))" "t = s\<lparr>ram := ram t\<rparr>"
    using Suc.prems(2) by blast
  have "kheap_repr t ((X @ [FreeBlk]) @ Alloc 0 # (replicate (2 * n) (Alloc 0) @ B))" using t(1) by simp
  from kfree_run [OF this] obtain u where run2: "kfree (block_addr (b + 1)) t = Ret ((), u)"
    and u: "kheap_repr u ((X @ [FreeBlk]) @ replicate (Suc 0) FreeBlk @ (replicate (2 * n) (Alloc 0) @ B))" "u = t\<lparr>ram := ram u\<rparr>"
    using Suc.prems(2) by auto
  have ur: "kheap_repr u ((X @ [FreeBlk, FreeBlk]) @ replicate (2 * n) (Alloc 0) @ B)" using u(1) by simp
  have us: "u = s\<lparr>ram := ram u\<rparr>" using ram_only [OF t(2), of "ram u"] u(2) by simp
  have pu: "path_parts u = path_parts s" by (subst us) simp
  have sX: "b + 2 = seg_blocks (X @ [FreeBlk, FreeBlk])" using Suc.prems(2) by simp
  have lk: "links (path_parts u) (b + 2) n" using Suc.prems(3) pu by simp
  obtain s' where s': "free_parts (if n = 0 then 0 else block_addr (b + 2 + 1)) u = Some (Ret ((), s'))"
    "kheap_repr s' ((X @ [FreeBlk, FreeBlk]) @ replicate (2 * n) FreeBlk @ B)" "s' = u\<lparr>ram := ram s'\<rparr>"
    using Suc.IH [OF ur sX lk] by blast
  have len: "b + 1 < 25600" using kheap_repr_blocks [OF Suc.prems(1)] Suc.prems(2) by simp
  have b3: "b + 2 + 1 = b + 3" by simp
  have "free_parts (block_addr (b + 1)) s = free_parts (if n = 0 then 0 else block_addr (b + 3)) u"
    unfolding free_parts.simps [of "block_addr (b + 1)" s]
    using run1 run2 Suc.prems(3) len block_addr_ne_0 [of "b + 1"] by (simp add: kbind_def)
  moreover have "s' = s\<lparr>ram := ram s'\<rparr>" using ram_only [OF us, of "ram s'"] s'(3) by simp
  moreover have "kheap_repr s' (X @ replicate (2 * Suc n) FreeBlk @ B)" using s'(2) by simp
  ultimately show ?case using s'(1) unfolding b3 by (intro exI [of _ s']) simp
qed

section \<open>Properties\<close>

text \<open>The list of strings that starts at the node \<open>p\<close>.\<close>

fun path_list :: "('d, 'z) path_machine_scheme \<Rightarrow> u32 \<Rightarrow> u8 list list \<Rightarrow> bool" where
  "path_list s p [] \<longleftrightarrow> p = 0"
| "path_list s p (x # xs) \<longleftrightarrow> p \<noteq> 0 \<and> (\<exists>n. path_parts s p = Some n \<and> cstr (ram s) (part n) x \<and> path_list s (next_part n) xs)"

lemma chain_path_list:
  "chain s b ps \<Longrightarrow> b + 2 * length ps \<le> 25600 \<Longrightarrow> path_list s (if ps = [] then 0 else block_addr (b + 1)) ps"
proof (induction ps arbitrary: b)
  case (Cons p ps)
  then have "path_list s (if ps = [] then 0 else block_addr (b + 2 + 1)) ps" by simp
  moreover have "b + 2 + 1 = b + 3" by simp
  ultimately have "path_list s (if ps = [] then 0 else block_addr (b + 3)) ps" by (simp only:)
  then show ?case using Cons.prems block_addr_ne_0 [of "b + 1"] by auto
qed simp

text \<open>
  C23: parsing a path \<open>d:/rest\<close> of at most 108 characters, with enough free blocks and the text
  outside them, returns a root with the drive number and, in order, the parts of the rest.
\<close>

theorem pathparser_parse_correct:
  assumes "cstr (ram s) path (d # 0x3A # 0x2F # rest)" "is_digit d" "length rest \<le> 105"
    and "kheap_repr s (A @ replicate (2 * length (parts_of rest) + 3 + n) FreeBlk @ B)" "FreeBlk \<notin> set A"
    and "away path (length rest + 4) (seg_blocks A) (2 * length (parts_of rest) + 3 + n)"
  shows "\<exists>root r s'. pathparser_parse path cwd s = Ret (root, s') \<and> path_roots s' root = Some r
    \<and> drive_no r = sint d - 48 \<and> path_list s' (first_part r) (parts_of rest)"
proof -
  have len: "seg_blocks A + 2 * length (parts_of rest) + 3 \<le> 25600" using kheap_repr_blocks [OF assms(4)] by simp
  obtain s' where s': "pathparser_parse path cwd s = Ret (block_addr (seg_blocks A), s')"
    "path_roots s' (block_addr (seg_blocks A)) = Some \<lparr>drive_no = sint d - 48,
        first_part = (if parts_of rest = [] then 0 else block_addr (seg_blocks A + 2))\<rparr>"
    "chain s' (seg_blocks A + 1) (parts_of rest)"
    using pathparser_parse_run [OF assms(1-5) refl assms(6)] by blast
  have "seg_blocks A + 1 + 1 = seg_blocks A + 2" by simp
  then show ?thesis using s' chain_path_list [OF s'(3)] len by (simp only:) simp
qed

text \<open>
  Freeing the result of a parse gives back every block the parse took: the heap's table is
  the one from before.
\<close>

lemma pathparser_parse_free:
  assumes "cstr (ram s) path (d # 0x3A # 0x2F # rest)" "is_digit d" "length rest \<le> 105"
    and "kheap_repr s (A @ replicate (2 * length (parts_of rest) + 3 + n) FreeBlk @ B)" "FreeBlk \<notin> set A"
    and "away path (length rest + 4) (seg_blocks A) (2 * length (parts_of rest) + 3 + n)"
  shows "\<exists>root s1 s2. pathparser_parse path cwd s = Ret (root, s1) \<and> pathparser_free root s1 = Ret ((), s2)
    \<and> kheap_repr s2 (A @ replicate (2 * length (parts_of rest) + 3 + n) FreeBlk @ B)"
proof -
  let ?a = "seg_blocks A" and ?P = "length (parts_of rest)"
  obtain s1 where s1: "pathparser_parse path cwd s = Ret (block_addr ?a, s1)"
    "path_roots s1 (block_addr ?a) = Some \<lparr>drive_no = sint d - 48,
        first_part = (if parts_of rest = [] then 0 else block_addr (?a + 2))\<rparr>"
    "chain s1 (?a + 1) (parts_of rest)"
    "kheap_repr s1 (A @ replicate (2 * ?P + 1) (Alloc 0) @ replicate (2 + n) FreeBlk @ B)"
    using pathparser_parse_run [OF assms(1-5) refl assms(6)] by blast
  have r1: "kheap_repr s1 ((A @ [Alloc 0]) @ replicate (2 * ?P) (Alloc 0) @ (replicate (2 + n) FreeBlk @ B))"
    using s1(4) by simp
  have sA: "?a + 1 = seg_blocks (A @ [Alloc 0])" and a2: "?a + 1 + 1 = ?a + 2" by simp_all
  obtain t where run1: "free_parts (if ?P = 0 then 0 else block_addr (?a + 1 + 1)) s1 = Some (Ret ((), t))"
    and t: "kheap_repr t ((A @ [Alloc 0]) @ replicate (2 * ?P) FreeBlk @ (replicate (2 + n) FreeBlk @ B))"
    using free_parts_run [OF r1 sA chain_links [OF s1(3)]] by blast
  have "kheap_repr t (A @ Alloc 0 # (replicate (2 * ?P) FreeBlk @ replicate (2 + n) FreeBlk @ B))" using t by simp
  from kfree_run [OF this] obtain s2 where run2: "kfree (block_addr ?a) t = Ret ((), s2)"
    and s2: "kheap_repr s2 (A @ replicate (Suc 0) FreeBlk @ replicate (2 * ?P) FreeBlk @ replicate (2 + n) FreeBlk @ B)" by blast
  have "pathparser_free (block_addr ?a) s1 = Ret ((), s2)"
    using run1 [unfolded a2] run2 s1(2) by (auto simp: pathparser_free_def kbind_def kread_def)
  moreover have "kheap_repr s2 (A @ replicate (2 * ?P + 3 + n) FreeBlk @ B)"
  proof -
    have "2 * ?P + 3 + n = Suc 0 + (2 * ?P + (2 + n))" by simp
    then show ?thesis using s2 by (simp only: replicate_add append_assoc)
  qed
  ultimately show ?thesis using s1(1) by blast
qed

text \<open>
  C40: a text longer than 108 characters, or one that does not begin with a digit and \<open>:/\<close>,
  is answered with the null pointer, and nothing is allocated or changed.
\<close>

theorem pathparser_parse_rejects:
  assumes "cstr (ram s) path xs" "length xs < 2147483648"
    and "108 < length xs \<or> \<not> (\<exists>d rest. is_digit d \<and> xs = d # 0x3A # 0x2F # rest)"
  shows "pathparser_parse path cwd s = Ret (0, s)"
proof (cases "108 < length xs")
  case True
  then have "of_nat (length xs) > (108 :: u32)"
    using assms(2) by (simp add: word_less_nat_alt unat_of_nat_u32)
  then show ?thesis using strlen_cstr [OF assms(1)] by (simp add: pathparser_parse_def)
next
  case False
  have "\<not> pathparser_path_valid_format (ram s) path"
  proof
    assume v: "pathparser_path_valid_format (ram s) path"
    then have "3 \<le> length xs"
      using strnlen_cstr [OF assms(1), of 108] by (simp add: pathparser_path_valid_format_def)
    then obtain d c e rest where xs: "xs = d # c # e # rest"
      by (auto simp: numeral_3_eq_3 Suc_le_length_iff)
    then have "is_digit d" "c = 0x3A" "e = 0x2F"
      using v assms(1) by (simp_all add: pathparser_path_valid_format_def bytes_at_Suc numeral_2_eq_2 bytes_at_def [of _ _ 0])
    with xs assms(3) False show False by auto
  qed
  moreover have "\<not> of_nat (length xs) > (108 :: u32)"
    using False assms(2) by (simp add: word_less_nat_alt unat_of_nat_u32)
  ultimately show ?thesis
    using strlen_cstr [OF assms(1)] by (simp add: pathparser_parse_def pathparser_get_drive_by_path_def)
qed

section \<open>Concrete instances\<close>

text \<open>A machine with an empty heap and the text \<open>xs\<close> at \<open>0x100\<close>.\<close>

definition text_machine :: "u8 list \<Rightarrow> simple_drive path_machine" where
  "text_machine xs = \<lparr>ram = put_bytes (\<lambda>_. 0) 0x100 xs, kernel_heap = kheap, screen = home, current_directory = 0,
     cr3 = 0, paging_on = False, dev = (\<lambda>_. 0, [], 0),
     the_disk = \<lparr>dk_type = 0, dk_sector_size = 512, dk_id = 0, dk_filesystem = 0, dk_fs_private = 0\<rparr>,
     streams = \<lambda>_. None, path_roots = \<lambda>_. None, path_parts = \<lambda>_. None\<rparr>"

lemma text_machine_cstr: "0 \<notin> set xs \<Longrightarrow> length xs < 4294967295 \<Longrightarrow> cstr (ram (text_machine xs)) 0x100 xs"
  by (simp add: text_machine_def cstr_put_zero)

lemma text_machine_repr:
  assumes "length xs \<le> 200"
  shows "kheap_repr (text_machine xs) (replicate 25600 FreeBlk)"
proof (rule kheap_repr_cong [OF _ _])
  show "kheap_repr (text_machine []) (replicate 25600 FreeBlk)"
    by (simp add: text_machine_def kheap_repr_def heap_repr_def heap_table_ok_def bytes_at_zero)
  fix x assume "in_range x PEACHOS_HEAP_TABLE_ADDRESS 25600"
  moreover have "disjoint_ranges 0x100 (length xs) PEACHOS_HEAP_TABLE_ADDRESS 25600"
    using assms by (intro disjoint_rangesI) simp_all
  ultimately have "\<not> in_range x 0x100 (length xs)" by (auto simp: disjoint_ranges_def)
  then show "ram (text_machine xs) x = ram (text_machine []) x"
    using assms by (simp add: text_machine_def put_bytes_outside)
qed (simp add: text_machine_def)

lemma low_away: "c \<le> 200 \<Longrightarrow> n \<le> 25600 \<Longrightarrow> away 0x100 c 0 n"
  unfolding away_def
proof (intro allI impI conjI)
  fix x assume c: "c \<le> 200" and n: "n \<le> 25600" and x: "in_range x 0x100 c"
  have "disjoint_ranges 0x100 c PEACHOS_HEAP_TABLE_ADDRESS 25600" using c by (intro disjoint_rangesI) simp_all
  then show "\<not> in_range x PEACHOS_HEAP_TABLE_ADDRESS 25600" using x by (auto simp: disjoint_ranges_def)
  fix b assume b: "0 \<le> b \<and> b < 0 + n"
  have "disjoint_ranges 0x100 c (block_addr b) 4096"
    using c n b unat_block_addr [of b] by (intro disjoint_rangesI) simp_all
  then show "\<not> in_range x (block_addr b) 4096" using x by (auto simp: disjoint_ranges_def)
qed

lemma text_machine_run:
  assumes "length xs \<le> 200" "k \<le> 25600"
  shows "kheap_repr (text_machine xs) ([] @ replicate k FreeBlk @ replicate (25600 - k) FreeBlk)"
  using text_machine_repr [OF assms(1)] assms(2) by (simp flip: replicate_add)

lemma parts_of_a_b: "parts_of [0x61, 0x2F, 0x62] = [[0x61], [0x62]]"
  by (simp add: parts_of.simps)

theorem pathparser_parse_correct_witness:
  "\<exists>root r s'. pathparser_parse 0x100 0 (text_machine [0x30, 0x3A, 0x2F, 0x61, 0x2F, 0x62]) = Ret (root, s')
    \<and> path_roots s' root = Some r \<and> drive_no r = 0 \<and> path_list s' (first_part r) [[0x61], [0x62]]"
  using pathparser_parse_correct [of "text_machine [0x30, 0x3A, 0x2F, 0x61, 0x2F, 0x62]" "0x100" "0x30" "[0x61, 0x2F, 0x62]"
      "[]" 0 "replicate (25600 - 7) FreeBlk" 0]
    text_machine_cstr [of "[0x30, 0x3A, 0x2F, 0x61, 0x2F, 0x62]"]
    text_machine_run [of "[0x30, 0x3A, 0x2F, 0x61, 0x2F, 0x62]" 7] low_away [of 7 7]
  by (simp add: is_digit_def parts_of_a_b)

theorem pathparser_parse_rejects_witness:
  "pathparser_parse 0x100 0 (text_machine [0x61, 0x62]) = Ret (0, text_machine [0x61, 0x62])"
  using pathparser_parse_rejects [OF text_machine_cstr [of "[0x61, 0x62]"], of 0] by simp

end
