(* ===== verification/Fat16.thy ===== *)
theory Fat16 imports PathParser
begin

text \<open>
  \<open>src/src/fs/fat/fat16.c\<close>: the FAT16 file system. Its structs are kept as the code lays them
  out, as bytes of memory at the offsets the compiler gives them; the records below are what those
  bytes say. What the routines do on a mounted disk is proved in \<open>FatRuns\<close>, what they leave alone
  in \<open>FatFrame\<close>.
\<close>

section \<open>Structs on disk and in memory\<close>

record fat_header_extended =
  drive_number :: u8
  win_nt_bit :: u8
  signature :: u8
  volume_id :: u32
  volume_id_string :: "u8 list"
  system_id_string :: "u8 list"

record fat_header =
  short_jump_ins :: "u8 list"
  oem_identifier :: "u8 list"
  bytes_per_sector :: u16
  sectors_per_cluster :: u8
  reserved_sectors :: u16
  fat_copies :: u8
  root_directory_entries :: u16
  number_of_sectors :: u16
  media_type :: u8
  sectors_per_fat :: u16
  sectors_per_track :: u16
  number_of_heads :: u16
  hidden_sectors :: u32
  sectors_big :: u32

record fat_h =
  primary_header :: fat_header
  extended_header :: fat_header_extended

record fat_directory_item =
  filename :: "u8 list"
  item_ext :: "u8 list"
  attribute :: u8
  reserved :: u8
  creation_time_tenths :: u8
  creation_time :: u16
  creation_date :: u16
  last_access :: u16
  high_16_bits_first_cluster :: u16
  last_mod_time :: u16
  last_mod_date :: u16
  low_16_bits_first_cluster :: u16
  file_size :: u32

record fat_directory =
  dir_item :: u32
  dir_total :: int
  dir_sector_pos :: int
  dir_ending_sector_pos :: int

text \<open>The union of \<open>struct fat_item\<close> holds one pointer, whatever it points to.\<close>

record fat_item =
  item_ptr :: u32
  item_type :: u32

record fat_file_descriptor =
  desc_item :: u32
  desc_pos :: u32

record fat_private =
  header :: fat_h
  root_directory :: fat_directory
  cluster_read_stream :: u32
  fat_read_stream :: u32
  directory_stream :: u32

definition fat_h_at :: "mem \<Rightarrow> u32 \<Rightarrow> fat_h" where
  "fat_h_at m p =
     \<lparr>primary_header =
        \<lparr>short_jump_ins = bytes_at m p 3, oem_identifier = bytes_at m (p + 3) 8,
         bytes_per_sector = load16 m (p + 11), sectors_per_cluster = m (p + 13),
         reserved_sectors = load16 m (p + 14), fat_copies = m (p + 16),
         root_directory_entries = load16 m (p + 17), number_of_sectors = load16 m (p + 19),
         media_type = m (p + 21), sectors_per_fat = load16 m (p + 22),
         sectors_per_track = load16 m (p + 24), number_of_heads = load16 m (p + 26),
         hidden_sectors = load32 m (p + 28), sectors_big = load32 m (p + 32)\<rparr>,
      extended_header =
        \<lparr>drive_number = m (p + 36), win_nt_bit = m (p + 37), signature = m (p + 38),
         volume_id = load32 m (p + 39), volume_id_string = bytes_at m (p + 43) 11,
         system_id_string = bytes_at m (p + 54) 8\<rparr>\<rparr>"

definition fat_directory_item_at :: "mem \<Rightarrow> u32 \<Rightarrow> fat_directory_item" where
  "fat_directory_item_at m p =
     \<lparr>filename = bytes_at m p 8, item_ext = bytes_at m (p + 8) 3, attribute = m (p + 11),
      reserved = m (p + 12), creation_time_tenths = m (p + 13), creation_time = load16 m (p + 14),
      creation_date = load16 m (p + 16), last_access = load16 m (p + 18),
      high_16_bits_first_cluster = load16 m (p + 20), last_mod_time = load16 m (p + 22),
      last_mod_date = load16 m (p + 24), low_16_bits_first_cluster = load16 m (p + 26),
      file_size = load32 m (p + 28)\<rparr>"

definition fat_directory_at :: "mem \<Rightarrow> u32 \<Rightarrow> fat_directory" where
  "fat_directory_at m p =
     \<lparr>dir_item = load32 m p, dir_total = sint (load32 m (p + 4)),
      dir_sector_pos = sint (load32 m (p + 8)), dir_ending_sector_pos = sint (load32 m (p + 12))\<rparr>"

definition fat_item_at :: "mem \<Rightarrow> u32 \<Rightarrow> fat_item" where
  "fat_item_at m p = \<lparr>item_ptr = load32 m p, item_type = load32 m (p + 4)\<rparr>"

definition fat_file_descriptor_at :: "mem \<Rightarrow> u32 \<Rightarrow> fat_file_descriptor" where
  "fat_file_descriptor_at m p = \<lparr>desc_item = load32 m p, desc_pos = load32 m (p + 4)\<rparr>"

text \<open>The header takes 62 bytes, the directory follows at the next multiple of four.\<close>

definition fat_private_at :: "mem \<Rightarrow> u32 \<Rightarrow> fat_private" where
  "fat_private_at m p =
     \<lparr>header = fat_h_at m p, root_directory = fat_directory_at m (p + 64),
      cluster_read_stream = load32 m (p + 80), fat_read_stream = load32 m (p + 84),
      directory_stream = load32 m (p + 88)\<rparr>"

text \<open>
  Addresses that the linker and the stack layout fix: the object \<open>fat16_fs\<close> and the local
  variables whose address the code takes.
\<close>

record fat_addresses =
  fat16_fs :: u32
  item_local :: u32
  empty_item_local :: u32
  entry_local :: u32
  tmp_filename :: u32

record 'd fat_machine = "'d path_machine" +
  fat_vars :: fat_addresses

abbreviation (input) FAT_FILE_READ_ONLY :: u8 where "FAT_FILE_READ_ONLY \<equiv> 0x01"
abbreviation (input) FAT_FILE_SUBDIRECTORY :: u8 where "FAT_FILE_SUBDIRECTORY \<equiv> 0x10"
abbreviation (input) FAT_ITEM_TYPE_DIRECTORY :: u32 where "FAT_ITEM_TYPE_DIRECTORY \<equiv> 0"
abbreviation (input) FAT_ITEM_TYPE_FILE :: u32 where "FAT_ITEM_TYPE_FILE \<equiv> 1"
abbreviation (input) PEACHOS_FAT16_FAT_ENTRY_SIZE :: int where "PEACHOS_FAT16_FAT_ENTRY_SIZE \<equiv> 2"
abbreviation (input) PEACHOS_FAT16_BAD_SECTOR :: int where "PEACHOS_FAT16_BAD_SECTOR \<equiv> 0xFF7"
abbreviation (input) SEEK_SET :: u32 where "SEEK_SET \<equiv> 0"
abbreviation (input) SEEK_CUR :: u32 where "SEEK_CUR \<equiv> 1"
abbreviation (input) SEEK_END :: u32 where "SEEK_END \<equiv> 2"
abbreviation (input) FILE_MODE_READ :: u32 where "FILE_MODE_READ \<equiv> 0"
abbreviation (input) FILE_MODE_WRITE :: u32 where "FILE_MODE_WRITE \<equiv> 1"
abbreviation (input) FILE_MODE_APPEND :: u32 where "FILE_MODE_APPEND \<equiv> 2"
abbreviation (input) FILE_MODE_INVALID :: u32 where "FILE_MODE_INVALID \<equiv> 3"
abbreviation (input) FILE_STAT_READ_ONLY :: u32 where "FILE_STAT_READ_ONLY \<equiv> 1"

text \<open>A word store, and the disk behind a pointer.\<close>

definition poke :: "u32 \<Rightarrow> u32 \<Rightarrow> ('z machine_scheme, unit) prog" where
  "poke a v = kmod (\<lambda>s. s\<lparr>ram := store32 (ram s) a v\<rparr>)"

definition disk_at :: "disk_ptr \<Rightarrow> ('d, 'z) disk_machine_scheme \<Rightarrow> disk option" where
  "disk_at d s = (case d of NullDisk \<Rightarrow> None | MainDisk \<Rightarrow> Some (the_disk s))"

text \<open>\<open>disk->fs_private\<close>, and what it points to.\<close>

definition fs_private_of :: "disk_ptr \<Rightarrow> ('d, 'z) disk_machine_scheme \<Rightarrow> fat_private option" where
  "fs_private_of d s = map_option (\<lambda>d. fat_private_at (ram s) (dk_fs_private d)) (disk_at d s)"

section \<open>Setting up\<close>

text \<open>\<open>strcpy\<close> of the literal into the field \<open>name\<close>, which follows the six pointers.\<close>

definition fat16_init :: "(('d, 'z) fat_machine_scheme, u32) prog" where
  "fat16_init =
     kbind (kmod (\<lambda>s. s\<lparr>ram := put_bytes (ram s) (fat16_fs (fat_vars s) + 24) (map of_char ''FAT16'' @ [0])\<rparr>)) (\<lambda>_.
     kget (\<lambda>s. fat16_fs (fat_vars s)))"

definition fat16_init_private :: "disk_ptr \<Rightarrow> u32 \<Rightarrow> (('d, 'z) fat_machine_scheme, unit) prog" where
  "fat16_init_private disk private =
     kbind (kmod (\<lambda>s. s\<lparr>ram := memset (ram s) private 0 92\<rparr>)) (\<lambda>_.
     kbind (kread ''null disk'' (disk_at disk)) (\<lambda>d.
     kbind (disk_streamer_new (dk_id d)) (\<lambda>st.
     kbind (poke (private + 80) st) (\<lambda>_.
     kbind (disk_streamer_new (dk_id d)) (\<lambda>st.
     kbind (poke (private + 84) st) (\<lambda>_.
     kbind (disk_streamer_new (dk_id d)) (\<lambda>st.
     poke (private + 88) st)))))))"

definition fat16_sector_to_absolute :: "disk \<Rightarrow> int \<Rightarrow> int" where
  "fat16_sector_to_absolute d sector = i32 (sector * dk_sector_size d)"

text \<open>The endless loop over the entries of a directory.\<close>

partial_function (option) count_items ::
  "'d ports \<Rightarrow> u32 \<Rightarrow> u32 \<Rightarrow> int \<Rightarrow> ('d, 'z) fat_machine_scheme \<Rightarrow> (int \<times> ('d, 'z) fat_machine_scheme) outcome option" where
  "count_items P stream item i s =
     (case diskstreamer_read P stream item 32 s of
        Ret r \<Rightarrow>
          if fst r \<noteq> 0 then Some (Ret (err EIO, snd r))
          else if ram (snd r) item = 0x00 then Some (Ret (i, snd r))
          else if ram (snd r) item = 0xE5 then count_items P stream item i (snd r)
          else count_items P stream item (i32 (i + 1)) (snd r)
      | Panic e \<Rightarrow> Some (Panic e) | Fault e \<Rightarrow> Some (Fault e) | Hang \<Rightarrow> Some Hang)"

definition fat16_get_total_items_for_directory ::
  "'d ports \<Rightarrow> disk_ptr \<Rightarrow> u32 \<Rightarrow> (('d, 'z) fat_machine_scheme, int) prog" where
  "fat16_get_total_items_for_directory P disk directory_start_sector =
     kbind (kmod (\<lambda>s. s\<lparr>ram := memset (ram s) (empty_item_local (fat_vars s)) 0 32\<rparr>)) (\<lambda>_.
     kbind (kread ''null disk'' (disk_at disk)) (\<lambda>d.
     kbind (kread ''null disk'' (fs_private_of disk)) (\<lambda>private.
     let directory_start_pos = sint (directory_start_sector * word_of_int (dk_sector_size d));
         stream = directory_stream private
     in kbind (diskstreamer_seek stream directory_start_pos) (\<lambda>r.
        if r \<noteq> 0 then kret (err EIO)
        else (\<lambda>s. run_loop (count_items P stream (item_local (fat_vars s)) 0 s))))))"

text \<open>
  \<open>total_sectors\<close> is computed and not used; its division is the reason a sector size of 0
  traps here.
\<close>

definition fat16_get_root_directory ::
  "'d ports \<Rightarrow> disk_ptr \<Rightarrow> u32 \<Rightarrow> u32 \<Rightarrow> (('d, 'z) fat_machine_scheme, int) prog" where
  "fat16_get_root_directory P disk private root =
     kbind (kget (\<lambda>s. primary_header (header (fat_private_at (ram s) private)))) (\<lambda>h.
     kbind (kread ''null disk'' (disk_at disk)) (\<lambda>d.
     let root_dir_sector_pos = uint (fat_copies h) * uint (sectors_per_fat h) + uint (reserved_sectors h);
         root_dir_size = uint (root_directory_entries h) * 32
     in if dk_sector_size d = 0 then kfault ''division by zero''
        else kbind (fat16_get_total_items_for_directory P disk (word_of_int root_dir_sector_pos)) (\<lambda>total_items.
             kbind (kzalloc (word_of_int root_dir_size)) (\<lambda>dir.
             if dir = 0 then kret (err ENOMEM)
             else kbind (kget (\<lambda>s. directory_stream (fat_private_at (ram s) private))) (\<lambda>stream.
                  kbind (diskstreamer_seek stream (fat16_sector_to_absolute d root_dir_sector_pos)) (\<lambda>r.
                  if r \<noteq> 0 then kbind (kfree dir) (\<lambda>_. kret (err EIO))
                  else kbind (diskstreamer_read P stream dir root_dir_size) (\<lambda>r.
                       if r \<noteq> 0 then kbind (kfree dir) (\<lambda>_. kret (err EIO))
                       else kbind (poke root dir) (\<lambda>_.
                            kbind (poke (root + 4) (word_of_int total_items)) (\<lambda>_.
                            kbind (poke (root + 8) (word_of_int root_dir_sector_pos)) (\<lambda>_.
                            kbind (poke (root + 12) (word_of_int (root_dir_sector_pos + cdiv root_dir_size (dk_sector_size d)))) (\<lambda>_.
                            kret 0))))))))))) "

definition set_fs_private :: "u32 \<Rightarrow> ('d, 'z) disk_machine_scheme \<Rightarrow> ('d, 'z) disk_machine_scheme" where
  "set_fs_private p s = s\<lparr>the_disk := (the_disk s)\<lparr>dk_fs_private := p\<rparr>\<rparr>"

text \<open>The checks between opening the stream and the clean-up, and the whole routine.\<close>

definition resolve_checks ::
  "'d ports \<Rightarrow> disk_ptr \<Rightarrow> u32 \<Rightarrow> u32 \<Rightarrow> (('d, 'z) fat_machine_scheme, int) prog" where
  "resolve_checks P disk fat_private stream =
     (if stream = 0 then kret (err ENOMEM)
      else kbind (diskstreamer_read P stream fat_private 62) (\<lambda>r.
           if r \<noteq> 0 then kret (err EIO)
           else kbind (kget (\<lambda>s. fat_h_at (ram s) fat_private)) (\<lambda>h.
                if signature (extended_header h) \<noteq> 0x29 then kret (err EFSNOTUS)
                else kbind (fat16_get_root_directory P disk fat_private (fat_private + 64)) (\<lambda>r.
                     if r \<noteq> 0 then kret (err EIO) else kret 0))))"

definition fat16_resolve :: "'d ports \<Rightarrow> disk_ptr \<Rightarrow> (('d, 'z) fat_machine_scheme, int) prog" where
  "fat16_resolve P disk =
     kbind (kzalloc 92) (\<lambda>fat_private.
     kbind (fat16_init_private disk fat_private) (\<lambda>_.
     kbind (kmod (\<lambda>s. s\<lparr>the_disk := (the_disk s)\<lparr>dk_fs_private := fat_private, dk_filesystem := fat16_fs (fat_vars s)\<rparr>\<rparr>)) (\<lambda>_.
     kbind (kread ''null disk'' (disk_at disk)) (\<lambda>d.
     kbind (disk_streamer_new (dk_id d)) (\<lambda>stream.
     kbind (resolve_checks P disk fat_private stream) (\<lambda>res.
     kbind (if stream \<noteq> 0 then diskstreamer_close stream else kret ()) (\<lambda>_.
     kbind (if res < 0 then kbind (kfree fat_private) (\<lambda>_. kmod (set_fs_private 0)) else kret ()) (\<lambda>_.
     kret res))))))))"

section \<open>Names and entries\<close>

text \<open>The memory and the new value of \<open>*out\<close>.\<close>

partial_function (option) proper_string_loop :: "mem \<Rightarrow> u32 \<Rightarrow> u32 \<Rightarrow> u32 \<Rightarrow> u32 \<Rightarrow> (mem \<times> u32) option" where
  "proper_string_loop m out inp counter mx =
     (if m inp \<noteq> 0x00 \<and> m inp \<noteq> 0x20
      then if counter \<ge> mx - 1 then Some (m(out := m inp), out + 1)
           else proper_string_loop (m(out := m inp)) (out + 1) (inp + 1) (counter + 1) mx
      else Some (m, out))"

definition fat16_to_proper_string :: "mem \<Rightarrow> u32 \<Rightarrow> u32 \<Rightarrow> u32 \<Rightarrow> (mem \<times> u32) option" where
  "fat16_to_proper_string m out inp mx =
     map_option (\<lambda>(m', out'). (m'(out' := 0x00), out')) (proper_string_loop m out inp 0 mx)"

definition fat16_get_full_relative_filename :: "mem \<Rightarrow> u32 \<Rightarrow> u32 \<Rightarrow> int \<Rightarrow> mem option" where
  "fat16_get_full_relative_filename m item out max_len =
     (case fat16_to_proper_string (memset m out 0x00 (word_of_int max_len)) out item 8 of
        None \<Rightarrow> None
      | Some (m1, out_tmp) \<Rightarrow>
          if m1 (item + 8) \<noteq> 0x00 \<and> m1 (item + 8) \<noteq> 0x20
          then map_option fst (fat16_to_proper_string (m1(out_tmp := 0x2E)) (out_tmp + 1) (item + 8) 3)
          else Some m1)"

definition fat_16_clone_directory_item :: "u32 \<Rightarrow> int \<Rightarrow> (('d, 'z) fat_machine_scheme, u32) prog" where
  "fat_16_clone_directory_item item sz =
     (if (word_of_int sz :: u32) < 32 then kret 0
      else kbind (kzalloc (word_of_int sz)) (\<lambda>item_copy.
           if item_copy = 0 then kret 0
           else kbind (kmod (\<lambda>s. s\<lparr>ram := memcpy (ram s) item_copy item sz\<rparr>)) (\<lambda>_. kret item_copy)))"

definition fat16_get_first_cluster :: "fat_directory_item \<Rightarrow> u32" where
  "fat16_get_first_cluster item =
     push_bit 16 (ucast (high_16_bits_first_cluster item)) OR ucast (low_16_bits_first_cluster item)"

section \<open>Clusters\<close>

definition fat16_cluster_to_sector :: "fat_private \<Rightarrow> int \<Rightarrow> int" where
  "fat16_cluster_to_sector private cluster =
     i32 (dir_ending_sector_pos (root_directory private)
          + (cluster - 2) * uint (sectors_per_cluster (primary_header (header private))))"

definition fat16_get_first_fat_sector :: "fat_private \<Rightarrow> u32" where
  "fat16_get_first_fat_sector private = ucast (reserved_sectors (primary_header (header private)))"

definition fat16_get_fat_entry :: "'d ports \<Rightarrow> disk_ptr \<Rightarrow> int \<Rightarrow> (('d, 'z) fat_machine_scheme, int) prog" where
  "fat16_get_fat_entry P disk cluster =
     kbind (kread ''null disk'' (disk_at disk)) (\<lambda>d.
     kbind (kread ''null disk'' (fs_private_of disk)) (\<lambda>private.
     let stream = fat_read_stream private;
         fat_table_position = fat16_get_first_fat_sector private * word_of_int (dk_sector_size d)
     in if stream = 0 then kret (-1)
        else kbind (diskstreamer_seek stream (sint (fat_table_position * word_of_int (cluster * PEACHOS_FAT16_FAT_ENTRY_SIZE)))) (\<lambda>res.
             if res < 0 then kret res
             else kbind (kget (\<lambda>s. entry_local (fat_vars s))) (\<lambda>result.
                  kbind (kmod (\<lambda>s. s\<lparr>ram := put_bytes (ram s) result [0, 0]\<rparr>)) (\<lambda>_.
                  kbind (diskstreamer_read P stream result 2) (\<lambda>res.
                  if res < 0 then kret res
                  else kget (\<lambda>s. uint (load16 (ram s) result))))))))"

text \<open>The loop with \<open>n\<close> clusters still to go; a negative result is an error.\<close>

primrec cluster_ahead :: "'d ports \<Rightarrow> disk_ptr \<Rightarrow> nat \<Rightarrow> int \<Rightarrow> (('d, 'z) fat_machine_scheme, int) prog" where
  "cluster_ahead P disk 0 cluster_to_use = kret cluster_to_use"
| "cluster_ahead P disk (Suc n) cluster_to_use =
     kbind (fat16_get_fat_entry P disk cluster_to_use) (\<lambda>entry.
       if entry = 0xFF8 \<or> entry = 0xFFF then kret (err EIO)
       else if entry = PEACHOS_FAT16_BAD_SECTOR then kret (err EIO)
       else if entry = 0xFF0 \<or> entry = 0xFF6 then kret (err EIO)
       else if entry = 0x00 then kret (err EIO)
       else cluster_ahead P disk n entry)"

definition fat16_get_cluster_for_offset ::
  "'d ports \<Rightarrow> disk_ptr \<Rightarrow> int \<Rightarrow> int \<Rightarrow> (('d, 'z) fat_machine_scheme, int) prog" where
  "fat16_get_cluster_for_offset P disk starting_cluster offset =
     kbind (kread ''null disk'' (disk_at disk)) (\<lambda>d.
     kbind (kread ''null disk'' (fs_private_of disk)) (\<lambda>private.
     let size_of_cluster_in_bytes = i32 (uint (sectors_per_cluster (primary_header (header private))) * dk_sector_size d)
     in if size_of_cluster_in_bytes = 0 then kfault ''division by zero''
        else cluster_ahead P disk (nat (cdiv offset size_of_cluster_in_bytes)) starting_cluster))"

definition fat16_free_directory :: "u32 \<Rightarrow> (('d, 'z) fat_machine_scheme, unit) prog" where
  "fat16_free_directory directory =
     (if directory = 0 then kret ()
      else kbind (kget (\<lambda>s. fat_directory_at (ram s) directory)) (\<lambda>dir.
           kbind (if dir_item dir \<noteq> 0 then kfree (dir_item dir) else kret ()) (\<lambda>_.
           kfree directory)))"

definition fat16_fat_item_free :: "u32 \<Rightarrow> (('d, 'z) fat_machine_scheme, unit) prog" where
  "fat16_fat_item_free item =
     kbind (kget (\<lambda>s. fat_item_at (ram s) item)) (\<lambda>it.
     kbind (if item_type it = FAT_ITEM_TYPE_DIRECTORY then fat16_free_directory (item_ptr it)
            else if item_type it = FAT_ITEM_TYPE_FILE then kfree (item_ptr it)
            else kret ()) (\<lambda>_.
     kfree item))"

text \<open>One cluster per call; the recursion ends when nothing is left to read.\<close>

partial_function (option) read_internal_from_stream ::
  "'d ports \<Rightarrow> disk_ptr \<Rightarrow> u32 \<Rightarrow> int \<Rightarrow> int \<Rightarrow> int \<Rightarrow> u32 \<Rightarrow> ('d, 'z) fat_machine_scheme
    \<Rightarrow> (int \<times> ('d, 'z) fat_machine_scheme) outcome option" where
  "read_internal_from_stream P disk stream cluster offset tot out s =
     (case kbind (fat16_get_cluster_for_offset P disk cluster offset) (\<lambda>cluster_to_use.
             if cluster_to_use < 0 then kret (True, cluster_to_use, 0)
             else kbind (kread ''null disk'' (disk_at disk)) (\<lambda>d.
                  kbind (kread ''null disk'' (fs_private_of disk)) (\<lambda>private.
                  let size_of_cluster_in_bytes = i32 (uint (sectors_per_cluster (primary_header (header private))) * dk_sector_size d);
                      offset_from_cluster = cmod offset size_of_cluster_in_bytes;
                      starting_sector = fat16_cluster_to_sector private cluster_to_use;
                      starting_pos = i32 (starting_sector * dk_sector_size d + offset_from_cluster);
                      total_to_read = (if tot > size_of_cluster_in_bytes then size_of_cluster_in_bytes else tot)
                  in kbind (diskstreamer_seek stream starting_pos) (\<lambda>res.
                     if res \<noteq> 0 then kret (True, res, 0)
                     else kbind (diskstreamer_read P stream out total_to_read) (\<lambda>res.
                          kret (res \<noteq> 0, res, total_to_read)))))) s of
        Ret r \<Rightarrow>
          (if fst (fst r) then Some (Ret (fst (snd (fst r)), snd r))
           else if i32 (tot - snd (snd (fst r))) > 0
           then read_internal_from_stream P disk stream cluster (i32 (offset + snd (snd (fst r))))
                  (i32 (tot - snd (snd (fst r)))) (out + word_of_int (snd (snd (fst r)))) (snd r)
           else Some (Ret (fst (snd (fst r)), snd r)))
      | Panic e \<Rightarrow> Some (Panic e) | Fault e \<Rightarrow> Some (Fault e) | Hang \<Rightarrow> Some Hang)"

definition fat16_read_internal_from_stream ::
  "'d ports \<Rightarrow> disk_ptr \<Rightarrow> u32 \<Rightarrow> int \<Rightarrow> int \<Rightarrow> int \<Rightarrow> u32 \<Rightarrow> (('d, 'z) fat_machine_scheme, int) prog" where
  "fat16_read_internal_from_stream P disk stream cluster offset tot out s =
     run_loop (read_internal_from_stream P disk stream cluster offset tot out s)"

definition fat16_read_internal ::
  "'d ports \<Rightarrow> disk_ptr \<Rightarrow> int \<Rightarrow> int \<Rightarrow> int \<Rightarrow> u32 \<Rightarrow> (('d, 'z) fat_machine_scheme, int) prog" where
  "fat16_read_internal P disk starting_cluster offset tot out =
     kbind (kread ''null disk'' (fs_private_of disk)) (\<lambda>private.
     fat16_read_internal_from_stream P disk (cluster_read_stream private) starting_cluster offset tot out)"

section \<open>Directories\<close>

text \<open>On an error the directory is released and its address returned all the same.\<close>

definition fat16_load_fat_directory :: "'d ports \<Rightarrow> disk_ptr \<Rightarrow> u32 \<Rightarrow> (('d, 'z) fat_machine_scheme, u32) prog" where
  "fat16_load_fat_directory P disk item =
     kbind (kread ''null disk'' (fs_private_of disk)) (\<lambda>private.
     kbind (kget (\<lambda>s. fat_directory_item_at (ram s) item)) (\<lambda>it.
     if attribute it AND FAT_FILE_SUBDIRECTORY = 0 then kbind (fat16_free_directory 0) (\<lambda>_. kret 0)
     else kbind (kzalloc 16) (\<lambda>directory.
          if directory = 0 then kbind (fat16_free_directory 0) (\<lambda>_. kret 0)
          else kbind (kget (\<lambda>s. sint (fat16_get_first_cluster (fat_directory_item_at (ram s) item)))) (\<lambda>cluster.
               kbind (kread ''null disk'' (fs_private_of disk)) (\<lambda>private.
               let cluster_sector = fat16_cluster_to_sector private cluster
               in kbind (fat16_get_total_items_for_directory P disk (word_of_int cluster_sector)) (\<lambda>total_items.
                  kbind (poke (directory + 4) (word_of_int total_items)) (\<lambda>_.
                  let directory_size = word_of_int total_items * 32 :: u32
                  in kbind (kzalloc directory_size) (\<lambda>items.
                     kbind (poke directory items) (\<lambda>_.
                     if items = 0 then kbind (fat16_free_directory directory) (\<lambda>_. kret directory)
                     else kbind (fat16_read_internal P disk cluster 0x00 (sint directory_size) items) (\<lambda>res.
                          kbind (if res \<noteq> 0 then fat16_free_directory directory else kret ()) (\<lambda>_.
                          kret directory))))))))))) "

definition fat16_new_fat_item_for_directory_item ::
  "'d ports \<Rightarrow> disk_ptr \<Rightarrow> u32 \<Rightarrow> (('d, 'z) fat_machine_scheme, u32) prog" where
  "fat16_new_fat_item_for_directory_item P disk item =
     kbind (kzalloc 8) (\<lambda>f_item.
     if f_item = 0 then kret 0
     else kbind (kget (\<lambda>s. attribute (fat_directory_item_at (ram s) item))) (\<lambda>attr.
          kbind (if attr AND FAT_FILE_SUBDIRECTORY \<noteq> 0
                 then kbind (fat16_load_fat_directory P disk item) (\<lambda>directory.
                      kbind (poke f_item directory) (\<lambda>_.
                      poke (f_item + 4) FAT_ITEM_TYPE_DIRECTORY))
                 else kbind (poke (f_item + 4) FAT_ITEM_TYPE_FILE) (\<lambda>_.
                      kbind (fat_16_clone_directory_item item 32) (\<lambda>copy.
                      poke f_item copy))) (\<lambda>_.
          kret f_item)))"

partial_function (option) find_item ::
  "'d ports \<Rightarrow> disk_ptr \<Rightarrow> u32 \<Rightarrow> u32 \<Rightarrow> int \<Rightarrow> u32 \<Rightarrow> ('d, 'z) fat_machine_scheme
    \<Rightarrow> (u32 \<times> ('d, 'z) fat_machine_scheme) outcome option" where
  "find_item P disk directory name i f_item s =
     (if i < dir_total (fat_directory_at (ram s) directory)
      then case fat16_get_full_relative_filename (ram s)
                  (dir_item (fat_directory_at (ram s) directory) + 32 * word_of_int i) (tmp_filename (fat_vars s)) PEACHOS_MAX_PATH of
          None \<Rightarrow> Some Hang
        | Some m \<Rightarrow>
            if strncmp_insensitive m (tmp_filename (fat_vars s)) name PEACHOS_MAX_PATH = 0
            then (case fat16_new_fat_item_for_directory_item P disk
                         (dir_item (fat_directory_at m directory) + 32 * word_of_int i) (s\<lparr>ram := m\<rparr>) of
                    Ret r \<Rightarrow> find_item P disk directory name (i32 (i + 1)) (fst r) (snd r)
                  | Panic e \<Rightarrow> Some (Panic e) | Fault e \<Rightarrow> Some (Fault e) | Hang \<Rightarrow> Some Hang)
            else find_item P disk directory name (i32 (i + 1)) f_item (s\<lparr>ram := m\<rparr>)
      else Some (Ret (f_item, s)))"

definition fat16_find_item_in_directory ::
  "'d ports \<Rightarrow> disk_ptr \<Rightarrow> u32 \<Rightarrow> u32 \<Rightarrow> (('d, 'z) fat_machine_scheme, u32) prog" where
  "fat16_find_item_in_directory P disk directory name s = run_loop (find_item P disk directory name 0 0 s)"

text \<open>The loop over the parts of the path; a part of a missing directory reads through null.\<close>

partial_function (option) entry_loop ::
  "'d ports \<Rightarrow> disk_ptr \<Rightarrow> u32 \<Rightarrow> u32 \<Rightarrow> ('d, 'z) fat_machine_scheme
    \<Rightarrow> (u32 \<times> ('d, 'z) fat_machine_scheme) outcome option" where
  "entry_loop P disk current_item next s =
     (if next = 0 then Some (Ret (current_item, s))
      else if current_item = 0 then Some (Fault ''null pointer'')
      else if item_type (fat_item_at (ram s) current_item) \<noteq> FAT_ITEM_TYPE_DIRECTORY then Some (Ret (0, s))
      else case path_parts s next of None \<Rightarrow> Some (Fault ''no part'')
        | Some pp \<Rightarrow>
            (case kbind (fat16_find_item_in_directory P disk (item_ptr (fat_item_at (ram s) current_item)) (part pp)) (\<lambda>tmp_item.
                    kbind (fat16_fat_item_free current_item) (\<lambda>_.
                    kbind (kread ''no part'' (\<lambda>s. path_parts s next)) (\<lambda>pp. kret (tmp_item, next_part pp)))) s of
               Ret r \<Rightarrow> entry_loop P disk (fst (fst r)) (snd (fst r)) (snd r)
             | Panic e \<Rightarrow> Some (Panic e) | Fault e \<Rightarrow> Some (Fault e) | Hang \<Rightarrow> Some Hang))"

definition fat16_get_directory_entry :: "'d ports \<Rightarrow> disk_ptr \<Rightarrow> u32 \<Rightarrow> (('d, 'z) fat_machine_scheme, u32) prog" where
  "fat16_get_directory_entry P disk path =
     kbind (kread ''null disk'' (disk_at disk)) (\<lambda>d.
     kbind (kread ''no part'' (\<lambda>s. path_parts s path)) (\<lambda>pp.
     kbind (fat16_find_item_in_directory P disk (dk_fs_private d + 64) (part pp)) (\<lambda>root_item.
     if root_item = 0 then kret 0
     else kbind (kread ''no part'' (\<lambda>s. path_parts s path)) (\<lambda>pp.
          (\<lambda>s. run_loop (entry_loop P disk root_item (next_part pp) s))))))"

section \<open>Open files\<close>

definition fat16_open :: "'d ports \<Rightarrow> disk_ptr \<Rightarrow> u32 \<Rightarrow> u32 \<Rightarrow> (('d, 'z) fat_machine_scheme, u32) prog" where
  "fat16_open P disk path mode =
     (if mode \<noteq> FILE_MODE_READ then kret (word_of_int (err ERDONLY))
      else kbind (kzalloc 8) (\<lambda>descriptor.
           if descriptor = 0 then kret (word_of_int (err ENOMEM))
           else kbind (fat16_get_directory_entry P disk path) (\<lambda>item.
                kbind (poke descriptor item) (\<lambda>_.
                if item = 0 then kbind (kfree descriptor) (\<lambda>_. kret (word_of_int (err EIO)))
                else kbind (poke (descriptor + 4) 0) (\<lambda>_. kret descriptor)))))"

definition fat16_seek :: "u32 \<Rightarrow> u32 \<Rightarrow> u32 \<Rightarrow> (('d, 'z) fat_machine_scheme, int) prog" where
  "fat16_seek private offset seek_mode =
     kbind (kget (\<lambda>s. fat_file_descriptor_at (ram s) private)) (\<lambda>desc.
     kbind (kget (\<lambda>s. fat_item_at (ram s) (desc_item desc))) (\<lambda>it.
     if item_type it \<noteq> FAT_ITEM_TYPE_FILE then kret (err EINVARG)
     else kbind (kget (\<lambda>s. fat_directory_item_at (ram s) (item_ptr it))) (\<lambda>ritem.
          if offset \<ge> file_size ritem then kret (err EIO)
          else if seek_mode = SEEK_SET then kbind (poke (private + 4) offset) (\<lambda>_. kret 0)
          else if seek_mode = SEEK_END then kret (err EUNIMP)
          else if seek_mode = SEEK_CUR then kbind (poke (private + 4) (desc_pos desc + offset)) (\<lambda>_. kret 0)
          else kret (err EINVARG))))"

definition fat16_free_file_descriptor :: "u32 \<Rightarrow> (('d, 'z) fat_machine_scheme, unit) prog" where
  "fat16_free_file_descriptor desc =
     kbind (kget (\<lambda>s. desc_item (fat_file_descriptor_at (ram s) desc))) (\<lambda>item.
     kbind (fat16_fat_item_free item) (\<lambda>_. kfree desc))"

definition fat16_close :: "u32 \<Rightarrow> (('d, 'z) fat_machine_scheme, int) prog" where
  "fat16_close private = kbind (fat16_free_file_descriptor private) (\<lambda>_. kret 0)"

definition fat16_stat :: "disk_ptr \<Rightarrow> u32 \<Rightarrow> u32 \<Rightarrow> (('d, 'z) fat_machine_scheme, int) prog" where
  "fat16_stat disk private stat =
     kbind (kget (\<lambda>s. fat_item_at (ram s) (desc_item (fat_file_descriptor_at (ram s) private)))) (\<lambda>it.
     if item_type it \<noteq> FAT_ITEM_TYPE_FILE then kret (err EINVARG)
     else kbind (kget (\<lambda>s. fat_directory_item_at (ram s) (item_ptr it))) (\<lambda>ritem.
          kbind (poke (stat + 4) (file_size ritem)) (\<lambda>_.
          kbind (poke stat 0) (\<lambda>_.
          kbind (kget (\<lambda>s. attribute (fat_directory_item_at (ram s) (item_ptr it)))) (\<lambda>attr.
          kbind (if attr AND FAT_FILE_READ_ONLY \<noteq> 0
                 then kbind (kget (\<lambda>s. load32 (ram s) stat)) (\<lambda>flags. poke stat (flags OR FILE_STAT_READ_ONLY))
                 else kret ()) (\<lambda>_.
          kret 0))))))"

text \<open>The loop over the \<open>n\<close> blocks that are left; \<open>None\<close> when no read failed.\<close>

primrec read_blocks :: "'d ports \<Rightarrow> disk_ptr \<Rightarrow> u32 \<Rightarrow> u32 \<Rightarrow> nat \<Rightarrow> int \<Rightarrow> u32 \<Rightarrow> (('d, 'z) fat_machine_scheme, int option) prog" where
  "read_blocks P disk item sz 0 offset out_ptr = kret None"
| "read_blocks P disk item sz (Suc n) offset out_ptr =
     kbind (kget (\<lambda>s. sint (fat16_get_first_cluster (fat_directory_item_at (ram s) item)))) (\<lambda>cluster.
     kbind (fat16_read_internal P disk cluster offset (sint sz) out_ptr) (\<lambda>res.
     if res < 0 then kret (Some res)
     else read_blocks P disk item sz n (sint (word_of_int offset + sz)) (out_ptr + sz)))"

definition fat16_read :: "'d ports \<Rightarrow> disk_ptr \<Rightarrow> u32 \<Rightarrow> u32 \<Rightarrow> u32 \<Rightarrow> u32 \<Rightarrow> (('d, 'z) fat_machine_scheme, int) prog" where
  "fat16_read P disk descriptor sz no_of_mem_bytes out_ptr =
     kbind (kget (\<lambda>s. fat_file_descriptor_at (ram s) descriptor)) (\<lambda>fat_desc.
     kbind (kget (\<lambda>s. item_ptr (fat_item_at (ram s) (desc_item fat_desc)))) (\<lambda>item.
     kbind (read_blocks P disk item sz (unat no_of_mem_bytes) (sint (desc_pos fat_desc)) out_ptr) (\<lambda>r.
     case r of Some res \<Rightarrow> kret res | None \<Rightarrow> kret (sint no_of_mem_bytes))))"

end
