(* ===== verification/FatRuns.thy ===== *)
theory FatRuns imports Fat16
begin

text \<open>
  The behaviour of the FAT16 routines of \<open>Fat16\<close>: names, directory sizes, the walk over the
  allocation table and reads of files, on a drive that holds an image.
\<close>

section \<open>Names\<close>

text \<open>The characters of a padded field up to its first space or terminator.\<close>

definition unpadded :: "u8 list \<Rightarrow> u8 list" where
  "unpadded xs = takeWhile (\<lambda>c. c \<noteq> 0x00 \<and> c \<noteq> 0x20) xs"

lemma proper_string_loop_run:
  assumes "0 < k" "k \<le> mx" "mx < 4294967296" "disjoint_ranges out k inp k"
  shows "proper_string_loop m out inp (of_nat (mx - k)) (of_nat mx)
    = Some (put_bytes m out (unpadded (bytes_at m inp k)), out + of_nat (length (unpadded (bytes_at m inp k))))"
  using assms
proof (induction k arbitrary: m out inp)
  case (Suc k)
  let ?c = "m inp"
  have b: "bytes_at m inp (Suc k) = ?c # bytes_at m (inp + 1) k" by (rule bytes_at_Suc)
  have last: "(of_nat (mx - Suc k) :: u32) \<ge> of_nat mx - 1 \<longleftrightarrow> k = 0"
  proof -
    have e: "(of_nat mx - 1 :: u32) = of_nat (mx - 1)"
      using Suc.prems by (simp add: of_nat_diff)
    have "unat (of_nat (mx - 1) :: u32) = mx - 1" "unat (of_nat (mx - Suc k) :: u32) = mx - Suc k"
      by (rule unat_of_nat_u32, use Suc.prems in simp)+
    then show ?thesis unfolding e word_le_nat_alt using Suc.prems by auto
  qed
  show ?case
  proof (cases "?c = 0 \<or> ?c = 0x20")
    case True
    then show ?thesis unfolding b by (subst proper_string_loop.simps) (auto simp: unpadded_def)
  next
    case ch: False
    show ?thesis
    proof (cases "k = 0")
      case True
      then show ?thesis using ch last unfolding b
        by (subst proper_string_loop.simps) (simp add: unpadded_def bytes_at_def)
    next
      case False
      let ?m = "m(out := ?c)"
      have d: "disjoint_ranges (out + 1) k (inp + 1) k"
        using Suc.prems(2-4) in_range_step [of k] unfolding disjoint_ranges_def by simp blast
      have "\<not> in_range out inp (Suc k)"
        using Suc.prems(2-4) in_range_add [of "Suc k" 0 out] by (auto simp: disjoint_ranges_def)
      then have n: "\<not> in_range out (inp + 1) k"
        using in_range_step [of k out inp] Suc.prems(2,3) by auto
      have bb: "bytes_at ?m (inp + 1) k = bytes_at m (inp + 1) k"
        using n Suc.prems(2,3) by (intro bytes_at_cong) auto
      have cnt: "(of_nat (mx - Suc k) + 1 :: u32) = of_nat (mx - k)"
      proof -
        have "mx - k = Suc (mx - Suc k)" using Suc.prems by simp
        then show ?thesis by (simp only: of_nat_Suc add.commute)
      qed
      have "proper_string_loop ?m (out + 1) (inp + 1) (of_nat (mx - k)) (of_nat mx)
        = Some (put_bytes ?m (out + 1) (unpadded (bytes_at m (inp + 1) k)),
                out + 1 + of_nat (length (unpadded (bytes_at m (inp + 1) k))))"
        using Suc.IH [of "out + 1" "inp + 1" ?m] False Suc.prems d unfolding bb by (simp del: fun_upd_apply of_nat_diff)
      then show ?thesis using ch last False unfolding b
        by (subst proper_string_loop.simps) (simp add: unpadded_def mem_simps cnt add.assoc)
    qed
  qed
qed simp

lemma unpadded_props: "0 \<notin> set (unpadded xs)" "length (unpadded xs) \<le> length xs"
  unfolding unpadded_def by (auto dest: set_takeWhileD intro: length_takeWhile_le)

lemma proper_string_run:
  fixes m :: mem
  assumes "0 < k" "k < 4294967296" "disjoint_ranges out k inp k"
  defines "w \<equiv> unpadded (bytes_at m inp k)"
  shows "fat16_to_proper_string m out inp (of_nat k) = Some (put_bytes m out (w @ [0]), out + of_nat (length w))"
  using proper_string_loop_run [of k k out inp m] assms
  by (simp add: fat16_to_proper_string_def put_bytes_append)

lemma full_filename_run:
  assumes "disjoint_ranges out 108 item 11"
  shows "fat16_get_full_relative_filename m item out 108
    = Some (put_bytes (memset m out 0 108) out
        (if unpadded (bytes_at m (item + 8) 3) = [] then unpadded (bytes_at m item 8) @ [0]
         else unpadded (bytes_at m item 8) @ 0x2E # unpadded (bytes_at m (item + 8) 3) @ [0]))"
proof -
  define w where "w = unpadded (bytes_at m item 8)"
  define e where "e = unpadded (bytes_at m (item + 8) 3)"
  let ?m0 = "memset m out 0 108"
  have w: "length w \<le> 8" unfolding w_def using unpadded_props(2) [of "bytes_at m item 8"] by simp
  have out: "\<not> in_range a out 108" if "in_range a item 11" for a
    using assms that by (auto simp: disjoint_ranges_def)
  have i8: "in_range (item + of_nat j) item 11" if "j < 11" for j
    using that by (intro in_range_add) simp_all
  have sub: "in_range a item 11" if "in_range a (item + of_nat k) n" "k + n \<le> 11" for a k n
  proof -
    from that(1) obtain i where "i < n" "a = item + of_nat (k + i)" by (auto elim!: in_rangeE simp: add.assoc)
    then show ?thesis using that(2) i8 [of "k + i"] by simp
  qed
  have subo: "in_range a out 108" if "in_range a (out + of_nat k) n" "k + n \<le> 108" for a k n
  proof -
    from that(1) obtain i where "i < n" "a = out + of_nat (k + i)" by (auto elim!: in_rangeE simp: add.assoc)
    then show ?thesis using that(2) in_range_add [of 108 "k + i" out] by simp
  qed
  have dis: "disjoint_ranges (out + of_nat k) n (item + of_nat j) l" if "k + n \<le> 108" "j + l \<le> 11" for k n j l
    using out sub [OF _ that(2)] subo [OF _ that(1)] unfolding disjoint_ranges_def by blast
  have m0: "?m0 a = m a" if "in_range a item 11" for a
    using out [OF that] by (simp add: memset_apply)
  have b0: "bytes_at ?m0 item 8 = bytes_at m item 8"
    by (rule bytes_at_cong) (use m0 sub [of _ 0 8] in auto)
  define m1 where "m1 = put_bytes ?m0 out (w @ [0])"
  have s1: "fat16_to_proper_string ?m0 out item 8 = Some (m1, out + of_nat (length w))"
    using proper_string_run [of 8 out item ?m0] dis [of 0 8 0 8] by (simp add: b0 w_def m1_def)
  have m1: "m1 a = m a" if "in_range a item 11" for a
  proof -
    have "\<not> in_range a out (length (w @ [0]))" using out [OF that] w in_range_mono [of a out "length (w @ [0])" 108] by auto
    then show ?thesis unfolding m1_def using w m0 [OF that] by (simp add: put_bytes_outside)
  qed
  have eh: "e = [] \<longleftrightarrow> m (item + 8) = 0 \<or> m (item + 8) = 0x20"
    unfolding e_def using bytes_at_Suc [of m "item + 8" 2] by (auto simp: unpadded_def)
  have i8': "in_range (item + 8) item 11" using i8 [of 8] by simp
  show ?thesis
  proof (cases "e = []")
    case True
    then have "m1 (item + 8) = 0 \<or> m1 (item + 8) = 0x20" using eh m1 [OF i8'] by simp
    with True s1 show ?thesis
      unfolding fat16_get_full_relative_filename_def w_def [symmetric] e_def [symmetric]
      by (auto simp: m1_def)
  next
    case False
    let ?o = "out + of_nat (length w)"
    let ?m2 = "m1(?o := 0x2E)"
    have "\<not> in_range ?o item 11" using out [of ?o] in_range_add [of 108 "length w" out] w by auto
    then have m2: "?m2 a = m a" if "in_range a item 11" for a using m1 [OF that] that by auto
    have b2: "bytes_at ?m2 (item + 8) 3 = bytes_at m (item + 8) 3"
      by (rule bytes_at_cong) (use m2 sub [of _ 8 3] in auto)
    have s2: "fat16_to_proper_string ?m2 (?o + 1) (item + 8) 3
        = Some (put_bytes ?m2 (?o + 1) (e @ [0]), ?o + 1 + of_nat (length e))"
      using proper_string_run [of 3 "?o + 1" "item + 8" ?m2] dis [of "Suc (length w)" 3 8 3] w
      unfolding b2 e_def by (simp add: add.assoc add.commute [of 1])
    have ne: "m1 (item + 8) \<noteq> 0" "m1 (item + 8) \<noteq> 0x20" using False eh m1 [OF i8'] by simp_all
    have "put_bytes ?m2 (?o + 1) (e @ [0]) = put_bytes ?m0 out (w @ 0x2E # e @ [0])"
      unfolding m1_def by (simp add: put_bytes_append del: fun_upd_apply)
    then show ?thesis using s1 s2 ne False
      unfolding fat16_get_full_relative_filename_def
      by (simp add: w_def [symmetric] e_def [symmetric] del: fun_upd_apply)
  qed
qed

section \<open>A mounted disk\<close>

definition stream_ok :: "('d, 'z) disk_machine_scheme \<Rightarrow> u32 \<Rightarrow> bool" where
  "stream_ok s p \<longleftrightarrow> (\<exists>q. streams s p = Some \<lparr>stream_pos = q, stream_disk = MainDisk\<rparr>)"

text \<open>The private data of the mounted file system, and its address.\<close>

definition mount_addr :: "('d, 'z) disk_machine_scheme \<Rightarrow> u32" where
  "mount_addr s = dk_fs_private (the_disk s)"

definition mount :: "('d, 'z) disk_machine_scheme \<Rightarrow> fat_private" where
  "mount s = fat_private_at (ram s) (mount_addr s)"

text \<open>
  The drive holds the image, the three streams are open, and the buffers on the stack do not
  overlap the private data.
\<close>

definition fat_mounted :: "'d ports \<Rightarrow> nat \<Rightarrow> (nat \<Rightarrow> u8 list) \<Rightarrow> ('d, 'z) fat_machine_scheme \<Rightarrow> bool" where
  "fat_mounted P n img s \<longleftrightarrow>
     drive_ok P n img (dev s) \<and> dk_sector_size (the_disk s) = 512
     \<and> fat_read_stream (mount s) \<noteq> 0
     \<and> stream_ok s (directory_stream (mount s)) \<and> stream_ok s (fat_read_stream (mount s))
     \<and> stream_ok s (cluster_read_stream (mount s))
     \<and> disjoint_ranges (item_local (fat_vars s)) 32 (mount_addr s) 92
     \<and> disjoint_ranges (empty_item_local (fat_vars s)) 32 (mount_addr s) 92
     \<and> disjoint_ranges (entry_local (fat_vars s)) 2 (mount_addr s) 92"

text \<open>What reading the disk may change: bytes of \<open>A\<close>, the drive and stream positions.\<close>

definition reads_into :: "u32 set \<Rightarrow> ('d, 'z) disk_machine_scheme \<Rightarrow> ('d, 'z) disk_machine_scheme \<Rightarrow> bool" where
  "reads_into A s s' \<longleftrightarrow> (\<forall>a. a \<notin> A \<longrightarrow> ram s' a = ram s a)
     \<and> (\<forall>p. stream_ok s p \<longrightarrow> stream_ok s' p)
     \<and> s' = s\<lparr>ram := ram s', dev := dev s', streams := streams s'\<rparr>"

definition range_of :: "u32 \<Rightarrow> nat \<Rightarrow> u32 set" where
  "range_of p n = {a. in_range a p n}"

lemma range_of_iff [simp]: "a \<in> range_of p n \<longleftrightarrow> in_range a p n"
  by (simp add: range_of_def)

lemma reads_into_refl: "reads_into A s s"
  by (simp add: reads_into_def)

lemma three_updates:
  "t = s\<lparr>ram := a, dev := b, streams := c\<rparr> \<Longrightarrow> u = t\<lparr>ram := a', dev := b', streams := c'\<rparr>
    \<Longrightarrow> u = s\<lparr>ram := a', dev := b', streams := c'\<rparr>"
  by simp

lemma reads_into_trans:
  assumes "reads_into A s t" "reads_into B t u"
  shows "reads_into (A \<union> B) s u"
proof -
  have t: "t = s\<lparr>ram := ram t, dev := dev t, streams := streams t\<rparr>"
    and u: "u = t\<lparr>ram := ram u, dev := dev u, streams := streams u\<rparr>"
    using assms unfolding reads_into_def by blast+
  have "ram u a = ram s a" if "a \<notin> A \<union> B" for a
    using that assms unfolding reads_into_def by simp
  moreover have "stream_ok u p" if "stream_ok s p" for p
    using that assms unfolding reads_into_def by blast
  ultimately show ?thesis using three_updates [OF t u] unfolding reads_into_def by blast
qed

lemma reads_into_mono: "reads_into A s t \<Longrightarrow> A \<subseteq> B \<Longrightarrow> reads_into B s t"
  unfolding reads_into_def by blast

lemma reads_into_fields:
  fixes s :: "('d, 'z) fat_machine_scheme"
  assumes "reads_into A s t"
  shows "the_disk t = the_disk s" "fat_vars t = fat_vars s" "path_parts t = path_parts s"
    "path_roots t = path_roots s" "kernel_heap t = kernel_heap s"
proof -
  have t: "t = s\<lparr>ram := ram t, dev := dev t, streams := streams t\<rparr>" using assms by (simp add: reads_into_def)
  show "the_disk t = the_disk s" "fat_vars t = fat_vars s" "path_parts t = path_parts s"
    "path_roots t = path_roots s" "kernel_heap t = kernel_heap s"
    by (subst t, simp)+
qed

text \<open>Structs depend on their bytes only.\<close>

lemma struct_bytes:
  assumes "\<And>a. in_range a p n \<Longrightarrow> m' a = m a" "n \<le> 4294967296"
  shows "k < n \<Longrightarrow> m' (p + of_nat k) = m (p + of_nat k)"
    and "k + j \<le> n \<Longrightarrow> bytes_at m' (p + of_nat k) j = bytes_at m (p + of_nat k) j"
    and "Suc k < n \<Longrightarrow> load16 m' (p + of_nat k) = load16 m (p + of_nat k)"
    and "k + 3 < n \<Longrightarrow> load32 m' (p + of_nat k) = load32 m (p + of_nat k)"
proof -
  have b: "m' (p + of_nat k) = m (p + of_nat k)" if "k < n" for k
    using assms(1) in_range_add [OF assms(2) that] by blast
  show "k < n \<Longrightarrow> m' (p + of_nat k) = m (p + of_nat k)" by (rule b)
  show "k + j \<le> n \<Longrightarrow> bytes_at m' (p + of_nat k) j = bytes_at m (p + of_nat k) j"
    unfolding bytes_at_def using b [of "k + i" for i] by (simp add: add.assoc)
  show "Suc k < n \<Longrightarrow> load16 m' (p + of_nat k) = load16 m (p + of_nat k)"
    using b [of k] b [of "k + 1"] by (simp add: load16_def add.assoc add.commute [of 1])
  show "k + 3 < n \<Longrightarrow> load32 m' (p + of_nat k) = load32 m (p + of_nat k)"
    using b [of k] b [of "k + 1"] b [of "k + 2"] b [of "k + 3"]
    by (intro load32_cong) (simp_all add: ac_simps)
qed

lemma fat_private_at_cong:
  assumes "\<And>a. in_range a p 92 \<Longrightarrow> m' a = m a"
  shows "fat_private_at m' p = fat_private_at m p"
proof -
  have b: "m' (p + of_nat k) = m (p + of_nat k)" if "k < 92" for k
    by (rule struct_bytes(1) [of p 92 m' m]) (use assms that in simp_all)
  have bs: "bytes_at m' (p + of_nat k) j = bytes_at m (p + of_nat k) j" if "k + j \<le> 92" for k j
    by (rule struct_bytes(2) [of p 92 m' m]) (use assms that in simp_all)
  have w: "load16 m' (p + of_nat k) = load16 m (p + of_nat k)" if "Suc k < 92" for k
    by (rule struct_bytes(3) [of p 92 m' m]) (use assms that in simp_all)
  have d: "load32 m' (p + of_nat k) = load32 m (p + of_nat k)" if "k + 3 < 92" for k
    by (rule struct_bytes(4) [of p 92 m' m]) (use assms that in simp_all)
  have "fat_h_at m' p = fat_h_at m p"
    unfolding fat_h_at_def
    using bs [of 0 3] bs [of 3 8] w [of 11] b [of 13] w [of 14] b [of 16] w [of 17] w [of 19] b [of 21]
      w [of 22] w [of 24] w [of 26] d [of 28] d [of 32] b [of 36] b [of 37] b [of 38] d [of 39]
      bs [of 43 11] bs [of 54 8] by simp
  moreover have "fat_directory_at m' (p + 64) = fat_directory_at m (p + 64)"
    unfolding fat_directory_at_def
    using d [of 64] d [of 68] d [of 72] d [of 76] by (simp add: add.assoc)
  ultimately show ?thesis
    unfolding fat_private_at_def using d [of 80] d [of 84] d [of 88] by simp
qed

lemma mount_reads_into:
  fixes s :: "('d, 'z) fat_machine_scheme"
  assumes "reads_into A s t" "A \<inter> range_of (mount_addr s) 92 = {}"
  shows "mount_addr t = mount_addr s" "mount t = mount s"
proof -
  show a: "mount_addr t = mount_addr s" using reads_into_fields [OF assms(1)] by (simp add: mount_addr_def)
  show "mount t = mount s"
    unfolding mount_def a
  proof (rule fat_private_at_cong)
    fix x assume "in_range x (mount_addr s) 92"
    then have "x \<notin> A" using assms(2) by auto
    then show "ram t x = ram s x" using assms(1) by (simp add: reads_into_def)
  qed
qed

lemma fat_mounted_reads_into:
  assumes "fat_mounted P n img s" "reads_into A s t" "A \<inter> range_of (mount_addr s) 92 = {}"
    and "drive_ok P n img (dev t)"
  shows "fat_mounted P n img t"
  using assms mount_reads_into [OF assms(2,3)] reads_into_fields [OF assms(2)]
  unfolding fat_mounted_def reads_into_def by simp

lemma fs_private_of_mount [simp]: "fs_private_of MainDisk s = Some (mount s)"
  by (simp add: fs_private_of_def disk_at_def mount_def mount_addr_def)

lemma disk_at_main [simp]: "disk_at MainDisk s = Some (the_disk s)"
  by (simp add: disk_at_def)

section \<open>Seeking and reading\<close>

lemma seek_run:
  assumes "stream_ok s p"
  shows "\<exists>s'. diskstreamer_seek p q s = Ret (0, s') \<and> dev s' = dev s \<and> ram s' = ram s \<and> reads_into {} s s'
    \<and> streams s' p = Some \<lparr>stream_pos = q, stream_disk = MainDisk\<rparr>"
proof -
  from assms obtain q' where st: "streams s p = Some \<lparr>stream_pos = q', stream_disk = MainDisk\<rparr>"
    by (auto simp: stream_ok_def)
  define s' where "s' = s\<lparr>streams := (streams s)(p \<mapsto> \<lparr>stream_pos = q, stream_disk = MainDisk\<rparr>)\<rparr>"
  have "diskstreamer_seek p q s = Ret (0, s')"
    using st by (simp add: diskstreamer_seek_def kbind_def kread_def kmod_def kret_def s'_def del: fun_upd_apply)
  moreover have "reads_into {} s s'" by (auto simp: reads_into_def s'_def stream_ok_def)
  ultimately show ?thesis by (intro exI [of _ s']) (simp add: s'_def)
qed

lemma read_run:
  assumes "streams s p = Some \<lparr>stream_pos = int q, stream_disk = MainDisk\<rparr>"
    and "drive_ok P n img (dev s)" and "q + t < 512 * n" and "q + t < 2147483136"
  shows "\<exists>s'. diskstreamer_read P p out (int t) s = Ret (0, s') \<and> drive_ok P n img (dev s')
    \<and> ram s' = put_bytes (ram s) out (stream_bytes img q t)
    \<and> streams s' p = Some \<lparr>stream_pos = int (q + t), stream_disk = MainDisk\<rparr>
    \<and> reads_into (range_of out t) s s'"
proof -
  from diskstreamer_read_image [OF assms, of out] obtain s' where
    r: "diskstreamer_read P p out (int t) s = Ret (0, s')" "drive_ok P n img (dev s')"
    and s': "s' = s\<lparr>ram := put_bytes (ram s) out (stream_bytes img q t), dev := dev s',
             streams := (streams s)(p \<mapsto> \<lparr>stream_pos = int (q + t), stream_disk = MainDisk\<rparr>)\<rparr>"
    by blast
  have ram: "ram s' = put_bytes (ram s) out (stream_bytes img q t)"
    and str: "streams s' = (streams s)(p \<mapsto> \<lparr>stream_pos = int (q + t), stream_disk = MainDisk\<rparr>)"
    by (subst s', simp)+
  have "reads_into (range_of out t) s s'"
    unfolding reads_into_def
  proof (intro conjI allI impI)
    show "s' = s\<lparr>ram := ram s', dev := dev s', streams := streams s'\<rparr>"
      using s' unfolding ram str .
    fix a assume "a \<notin> range_of out t"
    then show "ram s' a = ram s a" using assms(4) unfolding ram by (simp add: put_bytes_outside)
  next
    fix a assume "stream_ok s a"
    then show "stream_ok s' a" by (auto simp: stream_ok_def str)
  qed
  then show ?thesis using r ram str by (intro exI [of _ s']) simp
qed

section \<open>Counting the entries of a directory\<close>

text \<open>The first byte of entry \<open>j\<close> of the directory that starts at byte \<open>q\<close> of the image.\<close>

definition entry_byte :: "(nat \<Rightarrow> u8 list) \<Rightarrow> nat \<Rightarrow> nat \<Rightarrow> u8" where
  "entry_byte img q j = hd (stream_bytes img (q + 32 * j) 32)"

lemma put_stream_head:
  "put_bytes m a (stream_bytes img q 32) a = hd (stream_bytes img q 32)"
proof -
  have "put_bytes m a (stream_bytes img q 32) a = stream_bytes img q 32 ! 0"
    by (subst put_bytes_apply) (simp_all add: in_range_def)
  moreover have "stream_bytes img q 32 \<noteq> []" by (metis length_stream_bytes list.size(3) zero_neq_numeral)
  ultimately show ?thesis by (simp add: hd_conv_nth)
qed

lemma count_items_run:
  assumes "streams s p = Some \<lparr>stream_pos = int (q + 32 * j), stream_disk = MainDisk\<rparr>"
    and "drive_ok P n img (dev s)" and "q + 32 * (j + k) + 32 < 512 * n" and "q + 32 * (j + k) + 32 < 2147483136"
    and "entry_byte img q (j + k) = 0" and "\<And>i. i < k \<Longrightarrow> entry_byte img q (j + i) \<noteq> 0"
    and "0 \<le> c" and "c + int k < 2147483648"
  shows "\<exists>s'. count_items P p item c s
      = Some (Ret (c + int (length (filter (\<lambda>i. entry_byte img q i \<noteq> 0xE5) [j..<j + k])), s'))
    \<and> drive_ok P n img (dev s') \<and> reads_into (range_of item 32) s s'"
  using assms
proof (induction k arbitrary: j s c)
  case 0
  from 0(3,4) have b: "q + 32 * j + 32 < 512 * n" "q + 32 * j + 32 < 2147483136" by simp_all
  from read_run [OF 0(1,2) b, of item] obtain s1 where s1:
    "diskstreamer_read P p item 32 s = Ret (0, s1)" "drive_ok P n img (dev s1)"
    "ram s1 = put_bytes (ram s) item (stream_bytes img (q + 32 * j) 32)" "reads_into (range_of item 32) s s1" by auto
  have "ram s1 item = 0" using 0(5) unfolding s1(3) put_stream_head by (simp add: entry_byte_def)
  then show ?case using s1 by (subst count_items.simps) simp
next
  case (Suc k)
  from Suc.prems(3,4) have b: "q + 32 * j + 32 < 512 * n" "q + 32 * j + 32 < 2147483136" by simp_all
  from read_run [OF Suc.prems(1,2) b, of item] obtain s1 where s1:
    "diskstreamer_read P p item 32 s = Ret (0, s1)" "drive_ok P n img (dev s1)"
    "ram s1 = put_bytes (ram s) item (stream_bytes img (q + 32 * j) 32)"
    "streams s1 p = Some \<lparr>stream_pos = int (q + 32 * j + 32), stream_disk = MainDisk\<rparr>"
    "reads_into (range_of item 32) s s1" by auto
  have pos: "q + 32 * j + 32 = q + 32 * Suc j" by simp
  have e: "ram s1 item = entry_byte img q j" unfolding s1(3) put_stream_head by (simp add: entry_byte_def)
  have ne: "entry_byte img q j \<noteq> 0" using Suc.prems(6) [of 0] by simp
  let ?c = "if entry_byte img q j = 0xE5 then c else c + 1"
  have "\<exists>s'. count_items P p item ?c s1
      = Some (Ret (?c + int (length (filter (\<lambda>i. entry_byte img q i \<noteq> 0xE5) [Suc j..<Suc j + k])), s'))
    \<and> drive_ok P n img (dev s') \<and> reads_into (range_of item 32) s1 s'"
    using Suc.prems s1(2) Suc.prems(6) [of "Suc i" for i]
    by (intro Suc.IH) (simp_all add: s1(4) pos)
  then obtain s' where s': "count_items P p item ?c s1
      = Some (Ret (?c + int (length (filter (\<lambda>i. entry_byte img q i \<noteq> 0xE5) [Suc j..<Suc j + k])), s'))"
    "drive_ok P n img (dev s')" "reads_into (range_of item 32) s1 s'" by blast
  have up: "[j..<j + Suc k] = j # [Suc j..<Suc j + k]" by (simp add: upt_conv_Cons)
  have "count_items P p item c s = count_items P p item ?c s1"
    using s1(1) e ne Suc.prems(7,8) by (subst count_items.simps) (simp add: i32_id)
  then show ?case
    using s'(1,2) reads_into_trans [OF s1(5) s'(3)] unfolding up by auto
qed

lemma total_items_run:
  assumes "fat_mounted P n img s"
    and "512 * d + 32 * k + 32 < 512 * n" and "512 * d + 32 * k + 32 < 2147483136"
    and "entry_byte img (512 * d) k = 0" and "\<And>i. i < k \<Longrightarrow> entry_byte img (512 * d) i \<noteq> 0"
  shows "\<exists>s'. fat16_get_total_items_for_directory P MainDisk (of_nat d) s
      = Ret (int (length (filter (\<lambda>i. entry_byte img (512 * d) i \<noteq> 0xE5) [0..<k])), s')
    \<and> fat_mounted P n img s'
    \<and> reads_into (range_of (item_local (fat_vars s)) 32 \<union> range_of (empty_item_local (fat_vars s)) 32) s s'"
proof -
  let ?A = "range_of (item_local (fat_vars s)) 32" and ?B = "range_of (empty_item_local (fat_vars s)) 32"
  let ?st = "directory_stream (mount s)"
  define s1 where "s1 = s\<lparr>ram := memset (ram s) (empty_item_local (fat_vars s)) 0 32\<rparr>"
  have r1: "reads_into ?B s s1" by (simp add: reads_into_def s1_def memset_apply stream_ok_def)
  have dj: "?A \<inter> range_of (mount_addr s) 92 = {}" "?B \<inter> range_of (mount_addr s) 92 = {}"
    using assms(1) by (auto simp: fat_mounted_def disjoint_ranges_def)
  have m1: "mount s1 = mount s" by (rule mount_reads_into(2) [OF r1 dj(2)])
  have st1: "stream_ok s1 ?st" using assms(1) r1 by (auto simp: fat_mounted_def reads_into_def)
  have d: "(of_nat d * 512 :: u32) = of_nat (512 * d)" by simp
  have si: "sint (of_nat d * 512 :: u32) = int (512 * d)"
    unfolding d using assms(3) by (subst sint_small) (simp_all only: unat_of_nat_u32)
  obtain s2 where s2: "diskstreamer_seek ?st (int (512 * d)) s1 = Ret (0, s2)" "dev s2 = dev s1"
    "reads_into {} s1 s2" "streams s2 ?st = Some \<lparr>stream_pos = int (512 * d), stream_disk = MainDisk\<rparr>"
    using seek_run [OF st1] by blast
  have drv: "drive_ok P n img (dev s2)" using assms(1) by (simp add: s2(2) s1_def fat_mounted_def)
  have loc: "item_local (fat_vars s2) = item_local (fat_vars s)"
    using reads_into_fields(2) [OF r1] reads_into_fields(2) [OF s2(3)] by simp
  from count_items_run [of s2 ?st "512 * d" 0 P n img k 0 "item_local (fat_vars s)"] s2(4) drv assms(2-5)
  obtain s3 where s3: "count_items P ?st (item_local (fat_vars s)) 0 s2
      = Some (Ret (int (length (filter (\<lambda>i. entry_byte img (512 * d) i \<noteq> 0xE5) [0..<k])), s3))"
    "drive_ok P n img (dev s3)" "reads_into ?A s2 s3" by auto
  have "fat16_get_total_items_for_directory P MainDisk (of_nat d) s
      = Ret (int (length (filter (\<lambda>i. entry_byte img (512 * d) i \<noteq> 0xE5) [0..<k])), s3)"
    unfolding fat16_get_total_items_for_directory_def
    using s2(1) s3(1) si m1 assms(1)
    by (simp add: kbind_def kmod_def kread_def Let_def s1_def [symmetric] loc)
      (simp add: s1_def fat_mounted_def loc)
  moreover have ri: "reads_into (?A \<union> ?B) s s3"
    using reads_into_trans [OF reads_into_trans [OF r1 s2(3)] s3(3)] by (simp add: Un_commute)
  ultimately show ?thesis
    using fat_mounted_reads_into [OF assms(1) ri _ s3(2)] dj by blast
qed

section \<open>The allocation table\<close>

text \<open>
  The table follows the reserved sectors, with two bytes for each cluster, so the entry of cluster \<open>c\<close> lies
  at the sum of the two. What the table says of a file is a chain: each entry is the next cluster.
\<close>

definition word_on :: "(nat \<Rightarrow> u8 list) \<Rightarrow> nat \<Rightarrow> nat" where
  "word_on img q = (let bs = stream_bytes img q 2 in unat (ucast (bs ! 0) OR push_bit 8 (ucast (bs ! 1)) :: u16))"

definition table_entry :: "(nat \<Rightarrow> u8 list) \<Rightarrow> nat \<Rightarrow> nat \<Rightarrow> nat" where
  "table_entry img rsv c = word_on img (rsv * 512 + c * 2)"

fun cluster_chain :: "(nat \<Rightarrow> u8 list) \<Rightarrow> nat \<Rightarrow> nat list \<Rightarrow> bool" where
  "cluster_chain img rsv [] \<longleftrightarrow> False"
| "cluster_chain img rsv [c] \<longleftrightarrow> True"
| "cluster_chain img rsv (c # d # cs) \<longleftrightarrow> table_entry img rsv c = d \<and> cluster_chain img rsv (d # cs)"

text \<open>
  The code goes elsewhere: \<open>fat16_get_fat_entry\<close> multiplies where it has to add. \<open>links_found\<close> says that
  it finds the entries of a chain all the same, because the word at its position is the entry of the table,
  and not one of the marks that the code compares with. A file in one cluster has no links, so for that nothing
  is asked of the table.
\<close>

definition read_pos :: "nat \<Rightarrow> nat \<Rightarrow> nat" where
  "read_pos rsv c = rsv * 512 * (c * 2)"

definition link_word :: "nat \<Rightarrow> (nat \<Rightarrow> u8 list) \<Rightarrow> nat \<Rightarrow> nat \<Rightarrow> nat \<Rightarrow> bool" where
  "link_word n img rsv c d \<longleftrightarrow> read_pos rsv c + 2 < 512 * n \<and> read_pos rsv c + 2 < 2147483136
     \<and> word_on img (read_pos rsv c) = d \<and> d \<notin> {0xFF8, 0xFFF, 0xFF7, 0xFF0, 0xFF6, 0}"

definition links_found :: "nat \<Rightarrow> (nat \<Rightarrow> u8 list) \<Rightarrow> nat \<Rightarrow> nat list \<Rightarrow> bool" where
  "links_found n img rsv cs \<longleftrightarrow> (\<forall>c\<in>set (butlast cs). link_word n img rsv c (table_entry img rsv c))"

lemma links_found_single: "links_found n img rsv [c]"
  by (simp add: links_found_def)

lemma load16_put:
  assumes "length bs = 2"
  shows "load16 (put_bytes m a bs) a = ucast (bs ! 0) OR push_bit 8 (ucast (bs ! 1))"
proof -
  from assms obtain x y where "bs = [x, y]" by (auto simp: numeral_2_eq_2 length_Suc_conv)
  then show ?thesis by (simp add: load16_def)
qed

definition fat_reserved :: "('d, 'z) disk_machine_scheme \<Rightarrow> nat" where
  "fat_reserved s = unat (reserved_sectors (primary_header (header (mount s))))"

lemma fat_entry_run:
  assumes "fat_mounted P n img s"
    and "read_pos (fat_reserved s) c + 2 < 512 * n" "read_pos (fat_reserved s) c + 2 < 2147483136"
  shows "\<exists>s'. fat16_get_fat_entry P MainDisk (int c) s = Ret (int (word_on img (read_pos (fat_reserved s) c)), s')
    \<and> fat_mounted P n img s' \<and> reads_into (range_of (entry_local (fat_vars s)) 2) s s'"
proof -
  let ?A = "range_of (entry_local (fat_vars s)) 2" and ?e = "entry_local (fat_vars s)"
  let ?st = "fat_read_stream (mount s)" and ?q = "read_pos (fat_reserved s) c"
  have st: "stream_ok s ?st" and st0: "?st \<noteq> 0" using assms(1) by (simp_all add: fat_mounted_def)
  have "(word_of_int (int c * 2) :: u32) = of_nat (c * 2)" by simp
  then have w: "fat16_get_first_fat_sector (mount s) * word_of_int 512 * word_of_int (int c * 2) = (of_nat ?q :: u32)"
    by (simp add: read_pos_def fat_reserved_def fat16_get_first_fat_sector_def)
  have si: "sint (of_nat ?q :: u32) = int ?q"
    using assms(3) by (subst sint_small) (simp_all only: unat_of_nat_u32)
  obtain s1 where s1: "diskstreamer_seek ?st (int ?q) s = Ret (0, s1)" "dev s1 = dev s"
    "reads_into {} s s1" "streams s1 ?st = Some \<lparr>stream_pos = int ?q, stream_disk = MainDisk\<rparr>"
    using seek_run [OF st] by blast
  define s2 where "s2 = s1\<lparr>ram := put_bytes (ram s1) ?e [0, 0]\<rparr>"
  have drv: "drive_ok P n img (dev s2)" using assms(1) by (simp add: s2_def s1(2) fat_mounted_def)
  have s2st: "streams s2 ?st = Some \<lparr>stream_pos = int ?q, stream_disk = MainDisk\<rparr>" using s1(4) by (simp add: s2_def)
  have r2: "reads_into ?A s1 s2"
    using put_bytes_outside [of "[0, 0]" _ ?e "ram s1"]
    by (auto simp: reads_into_def s2_def stream_ok_def numeral_2_eq_2 simp del: put_bytes.simps)
  obtain s3 where s3: "diskstreamer_read P ?st ?e 2 s2 = Ret (0, s3)" "drive_ok P n img (dev s3)"
    "ram s3 = put_bytes (ram s2) ?e (stream_bytes img ?q 2)" "reads_into ?A s2 s3"
    using read_run [OF s2st drv assms(2,3), of ?e] by auto
  have ri: "reads_into ?A s s3"
    using reads_into_trans [OF reads_into_trans [OF s1(3) r2] s3(4)] by simp
  have loc: "entry_local (fat_vars s1) = ?e" "entry_local (fat_vars s3) = ?e"
    using reads_into_fields(2) [OF s1(3)] reads_into_fields(2) [OF ri] by simp_all
  have val: "uint (load16 (ram s3) ?e) = int (word_on img (read_pos (fat_reserved s) c))"
    unfolding s3(3) by (subst load16_put) (simp_all add: word_on_def Let_def)
  have ss: "dk_sector_size (the_disk s) = 512" using assms(1) by (simp add: fat_mounted_def)
  have "fat16_get_fat_entry P MainDisk (int c) s = Ret (int (word_on img (read_pos (fat_reserved s) c)), s3)"
    unfolding fat16_get_fat_entry_def kbind_def kread_def kmod_def kget_def disk_at_main fs_private_of_mount
      option.case outcome.case fst_conv snd_conv Let_def ss w si
    using st0 s1(1) s3(1) val by (simp add: loc s2_def [symmetric] kret_def del: put_bytes.simps)
  moreover have "?A \<inter> range_of (mount_addr s) 92 = {}"
    using assms(1) by (auto simp: fat_mounted_def disjoint_ranges_def)
  ultimately show ?thesis using fat_mounted_reads_into [OF assms(1) ri _ s3(2)] ri by blast
qed

text \<open>The clusters that the code goes through, by the words that it reads.\<close>

fun walked :: "nat \<Rightarrow> (nat \<Rightarrow> u8 list) \<Rightarrow> nat \<Rightarrow> nat list \<Rightarrow> bool" where
  "walked n img rsv [] \<longleftrightarrow> False"
| "walked n img rsv [c] \<longleftrightarrow> True"
| "walked n img rsv (c # d # cs) \<longleftrightarrow> link_word n img rsv c d \<and> walked n img rsv (d # cs)"

text \<open>They are the clusters of the file when the links are found.\<close>

lemma chain_walked: "cluster_chain img rsv cs \<Longrightarrow> links_found n img rsv cs \<Longrightarrow> walked n img rsv cs"
proof (induction cs rule: walked.induct)
  case (3 n img rsv c d cs)
  then have "links_found n img rsv (d # cs)" "link_word n img rsv c d" by (auto simp: links_found_def)
  then show ?case using 3 by simp
qed simp_all

lemma fat_reserved_reads_into:
  fixes s :: "('d, 'z) fat_machine_scheme"
  assumes "reads_into A s t" "A \<inter> range_of (mount_addr s) 92 = {}"
  shows "fat_reserved t = fat_reserved s"
  using mount_reads_into [OF assms] by (simp add: fat_reserved_def)

lemma cluster_ahead_run:
  assumes "fat_mounted P n img s" "walked n img (fat_reserved s) cs" "k < length cs"
  shows "\<exists>s'. cluster_ahead P MainDisk k (int (hd cs)) s = Ret (int (cs ! k), s')
    \<and> fat_mounted P n img s' \<and> reads_into (range_of (entry_local (fat_vars s)) 2) s s'"
  using assms
proof (induction k arbitrary: cs s)
  case 0
  then have "cs \<noteq> []" by auto
  then show ?case using 0 reads_into_refl by (auto simp: kret_def hd_conv_nth)
next
  case (Suc k)
  then obtain c d ds where cs: "cs = c # d # ds" by (cases cs; cases "tl cs") auto
  note ch = Suc.prems(2) [unfolded cs, simplified, unfolded link_word_def]
  have dj: "range_of (entry_local (fat_vars s)) 2 \<inter> range_of (mount_addr s) 92 = {}"
    using Suc.prems(1) by (auto simp: fat_mounted_def disjoint_ranges_def)
  obtain s1 where s1: "fat16_get_fat_entry P MainDisk (int c) s = Ret (int d, s1)" "fat_mounted P n img s1"
    "reads_into (range_of (entry_local (fat_vars s)) 2) s s1"
    using fat_entry_run [OF Suc.prems(1), of c] ch by auto
  have rs: "fat_reserved s1 = fat_reserved s" by (rule fat_reserved_reads_into [OF s1(3) dj])
  have loc: "entry_local (fat_vars s1) = entry_local (fat_vars s)" using reads_into_fields(2) [OF s1(3)] by simp
  have "walked n img (fat_reserved s1) (d # ds)" "k < length (d # ds)" using ch Suc.prems(3) rs cs by auto
  from Suc.IH [OF s1(2) this] obtain s2 where s2: "cluster_ahead P MainDisk k (int d) s1 = Ret (int ((d # ds) ! k), s2)"
    "fat_mounted P n img s2" "reads_into (range_of (entry_local (fat_vars s)) 2) s1 s2" by (auto simp: loc)
  have "cluster_ahead P MainDisk (Suc k) (int (hd cs)) s = Ret (int (cs ! Suc k), s2)"
    unfolding cs using s1(1) s2(1) ch by (simp add: kbind_def)
  then show ?case using s2(2) reads_into_trans [OF s1(3) s2(3)] by auto
qed

section \<open>Reading a run of clusters\<close>

definition cluster_size :: "('d, 'z) disk_machine_scheme \<Rightarrow> nat" where
  "cluster_size s = unat (sectors_per_cluster (primary_header (header (mount s)))) * 512"

text \<open>The first byte of a cluster, given the last sector of the root directory.\<close>

definition cluster_pos :: "('d, 'z) disk_machine_scheme \<Rightarrow> nat \<Rightarrow> nat \<Rightarrow> nat" where
  "cluster_pos s e c = e * 512 + (c - 2) * cluster_size s"

definition clusters_ok :: "nat \<Rightarrow> ('d, 'z) disk_machine_scheme \<Rightarrow> nat \<Rightarrow> nat list \<Rightarrow> bool" where
  "clusters_ok n s e cs \<longleftrightarrow> dir_ending_sector_pos (root_directory (mount s)) = int e \<and> 0 < cluster_size s
     \<and> (\<forall>c \<in> set cs. 2 \<le> c \<and> c < 2147483648 \<and> cluster_pos s e c + cluster_size s < 512 * n
          \<and> cluster_pos s e c + cluster_size s < 2147483136)"

definition file_bytes :: "(nat \<Rightarrow> u8 list) \<Rightarrow> ('d, 'z) disk_machine_scheme \<Rightarrow> nat \<Rightarrow> nat list \<Rightarrow> u8 list" where
  "file_bytes img s e cs = concat (map (\<lambda>c. stream_bytes img (cluster_pos s e c) (cluster_size s)) cs)"

lemma geometry_reads_into:
  fixes s :: "('d, 'z) fat_machine_scheme"
  assumes "reads_into A s t" "A \<inter> range_of (mount_addr s) 92 = {}"
  shows "cluster_size t = cluster_size s" "cluster_pos t = cluster_pos s"
    "clusters_ok n t e cs = clusters_ok n s e cs" "file_bytes img t e cs = file_bytes img s e cs"
proof -
  show c: "cluster_size t = cluster_size s" using mount_reads_into [OF assms] by (simp add: cluster_size_def)
  show p: "cluster_pos t = cluster_pos s" by (intro ext) (simp add: cluster_pos_def c)
  show "clusters_ok n t e cs = clusters_ok n s e cs"
    unfolding clusters_ok_def c p mount_reads_into(2) [OF assms] ..
  show "file_bytes img t e cs = file_bytes img s e cs" unfolding file_bytes_def c p ..
qed

lemma length_file_bytes: "length (file_bytes img s e cs) = length cs * cluster_size s"
  by (induction cs) (simp_all add: file_bytes_def)

text \<open>Cutting the first cluster off what is left of a file.\<close>

lemma take_file_bytes:
  assumes "k < length cs"
  shows "take t (drop (k * cluster_size s) (file_bytes img s e cs))
    = (let b = stream_bytes img (cluster_pos s e (cs ! k)) (cluster_size s) in
       if t \<le> cluster_size s then take t b
       else b @ take (t - cluster_size s) (drop (Suc k * cluster_size s) (file_bytes img s e cs)))"
  using assms
proof (induction cs arbitrary: k)
  case (Cons c cs)
  have l: "length (stream_bytes img (cluster_pos s e c) (cluster_size s)) = cluster_size s" by simp
  show ?case
  proof (cases k)
    case 0
    then show ?thesis by (simp add: file_bytes_def Let_def)
  next
    case (Suc k')
    have d: "drop (Suc j * cluster_size s) (file_bytes img s e (c # cs)) = drop (j * cluster_size s) (file_bytes img s e cs)" for j
      by (simp add: file_bytes_def)
    show ?thesis using Cons.IH [of k'] Cons.prems unfolding Suc d by simp
  qed
qed simp

lemma take_stream_bytes: "t \<le> c \<Longrightarrow> take t (stream_bytes img q c) = stream_bytes img q t"
  by (simp add: stream_bytes_def take_map)

lemma size_of_cluster:
  assumes "fat_mounted P n img s"
  shows "i32 (uint (sectors_per_cluster (primary_header (header (mount s)))) * dk_sector_size (the_disk s)) = int (cluster_size s)"
    "cluster_size s \<le> 130560"
proof -
  have "unat (sectors_per_cluster (primary_header (header (mount s)))) < 256"
    using unsigned_less [where ?'a = nat, of "sectors_per_cluster (primary_header (header (mount s)))"] by simp
  then show l: "cluster_size s \<le> 130560" by (simp add: cluster_size_def)
  have "uint (sectors_per_cluster (primary_header (header (mount s)))) * 512 = int (cluster_size s)"
    by (simp add: cluster_size_def)
  then show "i32 (uint (sectors_per_cluster (primary_header (header (mount s)))) * dk_sector_size (the_disk s)) = int (cluster_size s)"
    using assms l by (simp add: fat_mounted_def i32_id)
qed

lemma cluster_for_offset_run:
  assumes "fat_mounted P n img s" "walked n img (fat_reserved s) cs" "k < length cs" "0 < cluster_size s"
  shows "\<exists>s'. fat16_get_cluster_for_offset P MainDisk (int (hd cs)) (int (k * cluster_size s)) s = Ret (int (cs ! k), s')
    \<and> fat_mounted P n img s' \<and> reads_into (range_of (entry_local (fat_vars s)) 2) s s'"
proof -
  have "nat (cdiv (int (k * cluster_size s)) (int (cluster_size s))) = k"
    using assms(4) by (simp add: cdiv_nonneg)
  then show ?thesis
    using cluster_ahead_run [OF assms(1-3)] assms(4)
    unfolding fat16_get_cluster_for_offset_def
    by (simp add: kbind_def kread_def Let_def size_of_cluster [OF assms(1)])
qed

lemma cluster_start:
  assumes "fat_mounted P n img s" "clusters_ok n s e cs" "c \<in> set cs"
  shows "i32 (fat16_cluster_to_sector (mount s) (int c) * dk_sector_size (the_disk s) + 0) = int (cluster_pos s e c)"
proof -
  define spc where "spc = unat (sectors_per_cluster (primary_header (header (mount s))))"
  define N where "N = e + (c - 2) * spc"
  have c: "2 \<le> c" "cluster_pos s e c < 2147483136" and e: "dir_ending_sector_pos (root_directory (mount s)) = int e"
    using assms(2,3) by (auto simp: clusters_ok_def)
  have p: "cluster_pos s e c = N * 512"
    by (simp add: cluster_pos_def cluster_size_def algebra_simps N_def spc_def)
  have "int e + (int c - 2) * uint (sectors_per_cluster (primary_header (header (mount s)))) = int N"
    using c(1) by (simp add: of_nat_diff N_def spc_def)
  then have "fat16_cluster_to_sector (mount s) (int c) = int N"
    unfolding fat16_cluster_to_sector_def e using c(2) p by (simp add: i32_id)
  then show ?thesis using assms(1) c(2) p by (simp add: fat_mounted_def i32_id)
qed

lemma one_cluster_run:
  assumes "fat_mounted P n img s" "walked n img (fat_reserved s) cs" "clusters_ok n s e cs" "k < length cs"
    and "stream_ok s p" "0 < t" "t < 2147483648" "range_of out t \<inter> range_of (mount_addr s) 92 = {}"
  defines "c \<equiv> (if t > cluster_size s then cluster_size s else t)"
  shows "\<exists>s'. read_internal_from_stream P MainDisk p (int (hd cs)) (int (k * cluster_size s)) (int t) out s
      = (if t > c then read_internal_from_stream P MainDisk p (int (hd cs)) (i32 (int (k * cluster_size s) + int c)) (int (t - c)) (out + of_nat c) s'
         else Some (Ret (0, s')))
    \<and> fat_mounted P n img s' \<and> bytes_at (ram s') out c = stream_bytes img (cluster_pos s e (cs ! k)) c
    \<and> reads_into (range_of (entry_local (fat_vars s)) 2 \<union> range_of out c) s s'"
proof -
  let ?A = "range_of (entry_local (fat_vars s)) 2" and ?q = "cluster_pos s e (cs ! k)"
  have cz: "0 < cluster_size s" and mem: "cs ! k \<in> set cs" using assms(3,4) by (auto simp: clusters_ok_def)
  have cle: "c \<le> cluster_size s" "c \<le> t" "0 < c" using cz assms(6) by (auto simp: c_def)
  obtain s1 where s1: "fat16_get_cluster_for_offset P MainDisk (int (hd cs)) (int (k * cluster_size s)) s = Ret (int (cs ! k), s1)"
    "fat_mounted P n img s1" "reads_into ?A s s1"
    using cluster_for_offset_run [OF assms(1,2,4) cz] by blast
  have dj: "?A \<inter> range_of (mount_addr s) 92 = {}"
    using assms(1) by (auto simp: fat_mounted_def disjoint_ranges_def)
  note g = geometry_reads_into [OF s1(3) dj] mount_reads_into [OF s1(3) dj]
  have co: "clusters_ok n s1 e cs" using assms(3) g(3) by simp
  have pos: "i32 (fat16_cluster_to_sector (mount s1) (int (cs ! k)) * dk_sector_size (the_disk s1)
      + cmod (int (k * cluster_size s)) (i32 (uint (sectors_per_cluster (primary_header (header (mount s1)))) * dk_sector_size (the_disk s1)))) = int ?q"
    using cluster_start [OF s1(2) co mem] size_of_cluster(1) [OF s1(2)] cz
    by (simp add: g(1,2) cmod_nonneg)
  have st: "stream_ok s1 p" using assms(5) s1(3) by (simp add: reads_into_def)
  obtain s2 where s2: "diskstreamer_seek p (int ?q) s1 = Ret (0, s2)" "dev s2 = dev s1"
    "reads_into {} s1 s2" "streams s2 p = Some \<lparr>stream_pos = int ?q, stream_disk = MainDisk\<rparr>"
    using seek_run [OF st] by blast
  have b: "?q + c < 512 * n" "?q + c < 2147483136"
    using assms(3) mem cle(1) unfolding clusters_ok_def by fastforce+
  have drv: "drive_ok P n img (dev s2)" using s1(2) by (simp add: s2(2) fat_mounted_def)
  obtain s3 where s3: "diskstreamer_read P p out (int c) s2 = Ret (0, s3)" "drive_ok P n img (dev s3)"
    "ram s3 = put_bytes (ram s2) out (stream_bytes img ?q c)" "reads_into (range_of out c) s2 s3"
    using read_run [OF s2(4) drv b] by blast
  have ri: "reads_into (?A \<union> range_of out c) s s3"
    using reads_into_trans [OF reads_into_trans [OF s1(3) s2(3)] s3(4)] by simp
  have "range_of out c \<subseteq> range_of out t" using in_range_mono [OF _ cle(2)] by auto
  then have dj3: "(?A \<union> range_of out c) \<inter> range_of (mount_addr s) 92 = {}" using dj assms(8) by blast
  have bytes: "bytes_at (ram s3) out c = stream_bytes img ?q c"
    using bytes_at_put_bytes_same [of "stream_bytes img ?q c" "ram s2" out] b unfolding s3(3) by simp
  have sz: "(if int t > i32 (uint (sectors_per_cluster (primary_header (header (mount s1)))) * dk_sector_size (the_disk s1))
      then i32 (uint (sectors_per_cluster (primary_header (header (mount s1)))) * dk_sector_size (the_disk s1)) else int t) = int c"
    unfolding size_of_cluster(1) [OF s1(2)] g(1) by (simp add: c_def)
  have "read_internal_from_stream P MainDisk p (int (hd cs)) (int (k * cluster_size s)) (int t) out s
      = (if i32 (int t - int c) > 0 then read_internal_from_stream P MainDisk p (int (hd cs)) (i32 (int (k * cluster_size s) + int c)) (i32 (int t - int c)) (out + word_of_int (int c)) s3
         else Some (Ret (0, s3)))"
    unfolding read_internal_from_stream.simps [of P MainDisk p "int (hd cs)" "int (k * cluster_size s)" "int t" out s]
      kbind_def
    by (simp only: s1(1) kread_def fs_private_of_mount disk_at_main option.case outcome.case fst_conv snd_conv Let_def
        of_nat_less_0_iff if_False pos sz s2(1) s3(1) kret_def not_True_eq_False if_True refl)
  moreover have "i32 (int t - int c) = int (t - c)" using cle assms(7) by (simp add: i32_id of_nat_diff)
  ultimately have "read_internal_from_stream P MainDisk p (int (hd cs)) (int (k * cluster_size s)) (int t) out s
      = (if t > c then read_internal_from_stream P MainDisk p (int (hd cs)) (i32 (int (k * cluster_size s) + int c)) (int (t - c)) (out + of_nat c) s3
         else Some (Ret (0, s3)))" by simp
  then show ?thesis
    using fat_mounted_reads_into [OF assms(1) ri dj3 s3(2)] bytes ri by blast
qed

lemma read_internal_run:
  assumes "fat_mounted P n img s" "walked n img (fat_reserved s) cs" "clusters_ok n s e cs"
    and "k * cluster_size s + t \<le> length cs * cluster_size s" "k * cluster_size s + t < 2147483648" "0 < t"
    and "stream_ok s p" "range_of out t \<inter> range_of (mount_addr s) 92 = {}"
    and "range_of out t \<inter> range_of (entry_local (fat_vars s)) 2 = {}"
  shows "\<exists>s'. read_internal_from_stream P MainDisk p (int (hd cs)) (int (k * cluster_size s)) (int t) out s = Some (Ret (0, s'))
    \<and> fat_mounted P n img s' \<and> bytes_at (ram s') out t = take t (drop (k * cluster_size s) (file_bytes img s e cs))
    \<and> reads_into (range_of (entry_local (fat_vars s)) 2 \<union> range_of out t) s s'"
  using assms
proof (induction t arbitrary: k s out rule: less_induct)
  case (less t)
  let ?c = "if t > cluster_size s then cluster_size s else t" and ?E = "range_of (entry_local (fat_vars s)) 2"
  have cz: "0 < cluster_size s" using less.prems(3) by (simp add: clusters_ok_def)
  have k: "k < length cs"
  proof (rule ccontr)
    assume "\<not> k < length cs"
    then have "length cs * cluster_size s \<le> k * cluster_size s" by simp
    with less.prems(4,6) show False by linarith
  qed
  have t: "t < 2147483648" using less.prems(5) by simp
  from one_cluster_run [OF less.prems(1-3) k less.prems(7,6) t less.prems(8)] obtain s1 where
    step: "read_internal_from_stream P MainDisk p (int (hd cs)) (int (k * cluster_size s)) (int t) out s
      = (if t > ?c then read_internal_from_stream P MainDisk p (int (hd cs)) (i32 (int (k * cluster_size s) + int ?c)) (int (t - ?c)) (out + of_nat ?c) s1
         else Some (Ret (0, s1)))"
    and s1: "fat_mounted P n img s1" "bytes_at (ram s1) out ?c = stream_bytes img (cluster_pos s e (cs ! k)) ?c"
      "reads_into (?E \<union> range_of out ?c) s s1" by blast
  show ?case
  proof (cases "t > cluster_size s")
    case False
    then have "bytes_at (ram s1) out t = take t (drop (k * cluster_size s) (file_bytes img s e cs))"
      using s1(2) take_file_bytes [OF k, of t s img e] by (simp add: Let_def take_stream_bytes)
    with False step s1 show ?thesis by (intro exI [of _ s1]) simp
  next
    case True
    define c where "c = cluster_size s"
    have c: "?c = c" "0 < c" "c < t" using True cz by (simp_all add: c_def)
    have sub: "range_of out c \<subseteq> range_of out t" using in_range_mono [of _ out c t] c(3) by auto
    have sub': "range_of (out + of_nat c) (t - c) \<subseteq> range_of out t"
    proof
      fix x assume "x \<in> range_of (out + of_nat c) (t - c)"
      then obtain i where "i < t - c" "x = out + of_nat (c + i)" by (auto elim!: in_rangeE simp: add.assoc)
      then show "x \<in> range_of out t" using t in_range_add [of t "c + i" out] c(3) by simp
    qed
    have dj: "(?E \<union> range_of out c) \<inter> range_of (mount_addr s) 92 = {}"
      using less.prems(1,8) sub by (auto simp: fat_mounted_def disjoint_ranges_def)
    note ri = s1(3) [unfolded c(1)]
    note g = geometry_reads_into [OF ri dj] mount_reads_into [OF ri dj] fat_reserved_reads_into [OF ri dj]
    have loc: "entry_local (fat_vars s1) = entry_local (fat_vars s)" using reads_into_fields(2) [OF ri] by simp
    have kc: "int (k * cluster_size s) + int c = int (Suc k * cluster_size s1)" by (simp add: c_def g(1))
    have "i32 (int (k * cluster_size s) + int c) = int (Suc k * cluster_size s1)"
    proof -
      have "k * cluster_size s + c < 2147483648" using less.prems(5) c(3) by simp
      then have "i32 (int (k * cluster_size s + c)) = int (k * cluster_size s + c)" by (simp only: i32_id)
      with kc show ?thesis by (simp only: of_nat_add)
    qed
    with step c have st: "read_internal_from_stream P MainDisk p (int (hd cs)) (int (k * cluster_size s)) (int t) out s
      = read_internal_from_stream P MainDisk p (int (hd cs)) (int (Suc k * cluster_size s1)) (int (t - c)) (out + of_nat c) s1"
      by simp
    have "\<exists>s'. read_internal_from_stream P MainDisk p (int (hd cs)) (int (Suc k * cluster_size s1)) (int (t - c)) (out + of_nat c) s1 = Some (Ret (0, s'))
      \<and> fat_mounted P n img s' \<and> bytes_at (ram s') (out + of_nat c) (t - c) = take (t - c) (drop (Suc k * cluster_size s1) (file_bytes img s1 e cs))
      \<and> reads_into (range_of (entry_local (fat_vars s1)) 2 \<union> range_of (out + of_nat c) (t - c)) s1 s'"
    proof (rule less.IH)
      show "t - c < t" "0 < t - c" using c by simp_all
      show "walked n img (fat_reserved s1) cs" "clusters_ok n s1 e cs" "fat_mounted P n img s1"
        using less.prems(2,3) s1(1) g(3,7) by simp_all
      show "Suc k * cluster_size s1 + (t - c) \<le> length cs * cluster_size s1" "Suc k * cluster_size s1 + (t - c) < 2147483648"
        using less.prems(4,5) c(3) unfolding g(1) by (simp_all add: c_def)
      show "stream_ok s1 p" using less.prems(7) ri by (simp add: reads_into_def)
      show "range_of (out + of_nat c) (t - c) \<inter> range_of (mount_addr s1) 92 = {}"
        "range_of (out + of_nat c) (t - c) \<inter> range_of (entry_local (fat_vars s1)) 2 = {}"
        using less.prems(8,9) sub' unfolding g(5) loc by blast+
    qed
    then obtain s' where s': "read_internal_from_stream P MainDisk p (int (hd cs)) (int (Suc k * cluster_size s1)) (int (t - c)) (out + of_nat c) s1 = Some (Ret (0, s'))"
      "fat_mounted P n img s'" "bytes_at (ram s') (out + of_nat c) (t - c) = take (t - c) (drop (Suc k * cluster_size s) (file_bytes img s e cs))"
      "reads_into (?E \<union> range_of (out + of_nat c) (t - c)) s1 s'"
      unfolding g(1,4) loc by blast
    have keep: "bytes_at (ram s') out c = bytes_at (ram s1) out c"
    proof (rule bytes_at_cong)
      fix x assume x: "in_range x out c"
      have "\<not> in_range x (out + of_nat c) (t - c)"
      proof
        assume "in_range x (out + of_nat c) (t - c)"
        then obtain i where i: "i < t - c" "x = out + of_nat (c + i)" by (auto elim!: in_rangeE simp: add.assoc)
        then have "unat (x - out) = c + i" using t by (simp add: unat_of_nat_u32 del: of_nat_add)
        with x show False by (simp add: in_range_def)
      qed
      moreover have "x \<in> range_of out t" using x sub range_of_iff by blast
      then have "x \<notin> ?E" using less.prems(9) by blast
      ultimately show "ram s' x = ram s1 x" using s'(4) by (simp add: reads_into_def)
    qed (use t c(3) in simp)
    have app: "bytes_at (ram s') out t = bytes_at (ram s') out c @ bytes_at (ram s') (out + of_nat c) (t - c)"
      using bytes_at_slice [of c "t - c" t "ram s'" out] bytes_at_slice [of 0 c t "ram s'" out] c(3)
        append_take_drop_id [of c "bytes_at (ram s') out t"] by simp
    have bytes: "bytes_at (ram s') out t = take t (drop (k * cluster_size s) (file_bytes img s e cs))"
    proof -
      have "take t (drop (k * cluster_size s) (file_bytes img s e cs))
          = stream_bytes img (cluster_pos s e (cs ! k)) c @ take (t - c) (drop (Suc k * cluster_size s) (file_bytes img s e cs))"
        unfolding take_file_bytes [OF k, of t s img e] Let_def c_def by (rule if_not_P) (use True in simp)
      moreover have "bytes_at (ram s1) out c = stream_bytes img (cluster_pos s e (cs ! k)) c"
        using s1(2) unfolding c(1) .
      ultimately show ?thesis using app keep s'(3) by (metis (no_types))
    qed
    have "reads_into (?E \<union> range_of out t) s s'"
      by (rule reads_into_mono [OF reads_into_trans [OF ri s'(4)]]) (use sub sub' in blast)
    with s'(1,2) bytes show ?thesis unfolding st by blast
  qed
qed

text \<open>
  Reading \<open>t\<close> bytes of an open file, from a position that is a multiple of the cluster size,
  returns 1 and leaves in the buffer exactly those bytes of the clusters that the code walks through, one
  after the other, however many clusters the range spans. Only the buffer, the
  routine's own local, the drive and stream positions change, and the disk stays mounted.
\<close>

lemma fat16_read_correct:
  fixes s :: "('d, 'z) fat_machine_scheme"
  assumes "fat_mounted P n img s" "walked n img (fat_reserved s) cs" "clusters_ok n s e cs"
    and "desc_pos (fat_file_descriptor_at (ram s) fd) = of_nat (k * cluster_size s)"
    and "fat16_get_first_cluster (fat_directory_item_at (ram s) (item_ptr (fat_item_at (ram s) (desc_item (fat_file_descriptor_at (ram s) fd)))))
      = of_nat (hd cs)"
    and "k * cluster_size s + t \<le> length cs * cluster_size s" "k * cluster_size s + t < 2147483648" "0 < t"
    and "range_of out t \<inter> (range_of (mount_addr s) 92 \<union> range_of (entry_local (fat_vars s)) 2) = {}"
  shows "\<exists>s'. fat16_read P MainDisk fd (of_nat t) 1 out s = Ret (1, s')
    \<and> bytes_at (ram s') out t = take t (drop (k * cluster_size s) (file_bytes img s e cs))
    \<and> fat_mounted P n img s'
    \<and> reads_into (range_of (entry_local (fat_vars s)) 2 \<union> range_of out t) s s'"
proof -
  have st: "stream_ok s (cluster_read_stream (mount s))" using assms(1) by (simp add: fat_mounted_def)
  obtain s' where s': "read_internal_from_stream P MainDisk (cluster_read_stream (mount s)) (int (hd cs))
      (int (k * cluster_size s)) (int t) out s = Some (Ret (0, s'))" "fat_mounted P n img s'"
    "bytes_at (ram s') out t = take t (drop (k * cluster_size s) (file_bytes img s e cs))"
    "reads_into (range_of (entry_local (fat_vars s)) 2 \<union> range_of out t) s s'"
    using read_internal_run [OF assms(1-3,6-8) st] assms(9) by blast
  have "cs \<noteq> []" using assms(2) by auto
  then have "hd cs < 2147483648" using assms(3) hd_in_set [of cs] by (auto simp: clusters_ok_def)
  then have c: "sint (of_nat (hd cs) :: u32) = int (hd cs)"
    by (subst sint_small) (simp_all add: unat_of_nat_u32)
  have p: "sint (of_nat (k * cluster_size s) :: u32) = int (k * cluster_size s)"
    using assms(7) by (subst sint_small) (simp_all only: unat_of_nat_u32)
  have z: "sint (of_nat t :: u32) = int t"
    using assms(7) by (subst sint_small) (simp_all add: unat_of_nat_u32)
  have "unat (1 :: u32) = Suc 0" by simp
  then have "fat16_read P MainDisk fd (of_nat t) 1 out s = Ret (1, s')"
    unfolding fat16_read_def kbind_def kget_def kread_def
    by (simp only: read_blocks.simps kbind_def kget_def kread_def fat16_read_internal_def fat16_read_internal_from_stream_def
        fs_private_of_mount option.case outcome.case fst_conv snd_conv assms(4,5) c p z s'(1) run_loop_simps)
      (simp add: kret_def)
  with s'(2-4) show ?thesis by blast
qed

section \<open>A concrete disk\<close>

text \<open>
  One sector per cluster, one reserved sector, the table in sector 1, data from sector 3 on. The table
  puts cluster 5 after cluster 2. Sector 4, which belongs to cluster 3, begins with the same word: there the
  code looks for the entry of cluster 2. Sector 5 holds a directory with two entries and a deleted one
  between them. In \<open>other_image\<close> sector 4 begins with another word.
\<close>

definition dir_entry :: "u8 \<Rightarrow> u8 list" where
  "dir_entry c = c # replicate 31 0x20"

definition table_sector :: "u8 list" where
  "table_sector = [0xF8, 0xFF, 0xFF, 0xFF, 5, 0, 0, 0, 0, 0, 0xFF, 0xFF] @ replicate 500 0"

definition fat_image :: "nat \<Rightarrow> u8 list" where
  "fat_image k =
     (if k = 1 then table_sector
      else if k = 4 then 5 # replicate 511 0
      else if k = 5 then dir_entry 0x41 @ dir_entry 0xE5 @ dir_entry 0x42 @ replicate 416 0
      else replicate 512 (of_nat k))"

definition other_image :: "nat \<Rightarrow> u8 list" where
  "other_image = fat_image(4 := 4 # replicate 511 0)"

lemma image_length: "length (fat_image k) = 512" "length (other_image k) = 512"
  by (simp_all add: other_image_def fat_image_def dir_entry_def table_sector_def)

lemma image_words:
  "word_on fat_image 516 = 5" "word_on fat_image 2048 = 5" "word_on other_image 516 = 5" "word_on other_image 2048 = 4"
  by (simp_all add: word_on_def other_image_def fat_image_def table_sector_def stream_bytes_def upt_rec)

definition fat_ram :: mem where
  "fat_ram = (\<lambda>_. 0)(0x100D := 1, 0x100E := 1, 0x104C := 3, 0x1051 := 0x11, 0x1055 := 0x12, 0x1059 := 0x13,
     0x2001 := 0x21, 0x2101 := 0x22, 0x2104 := 1, 0x221A := 2)"

definition sample_fat :: "(simple_drive, 'z) fat_machine_scheme \<Rightarrow> bool" where
  "sample_fat s \<longleftrightarrow> ram s = fat_ram \<and> dev s = (\<lambda>_. 0, [], 0)
     \<and> the_disk s = \<lparr>dk_type = 0, dk_sector_size = 512, dk_id = 0, dk_filesystem = 0x3000, dk_fs_private = 0x1000\<rparr>
     \<and> streams s = (\<lambda>_. Some \<lparr>stream_pos = 0, stream_disk = MainDisk\<rparr>)
     \<and> fat_vars s = \<lparr>fat16_fs = 0x3000, item_local = 0x4000, empty_item_local = 0x5000, entry_local = 0x6000, tmp_filename = 0x7000\<rparr>"

lemma sample_fat_simps:
  assumes "sample_fat s"
  shows "ram s = fat_ram" "mount_addr s = 0x1000" "fat16_fs (fat_vars s) = 0x3000" "entry_local (fat_vars s) = 0x6000"
    "item_local (fat_vars s) = 0x4000" "empty_item_local (fat_vars s) = 0x5000"
  using assms by (simp_all add: sample_fat_def mount_addr_def)

lemma sample_fat_mount:
  assumes "sample_fat s"
  shows "cluster_read_stream (mount s) = 0x1100" "fat_read_stream (mount s) = 0x1200"
    "directory_stream (mount s) = 0x1300" "dir_ending_sector_pos (root_directory (mount s)) = 3"
    "cluster_size s = 512" "fat_reserved s = 1"
  by (simp_all add: mount_def fat_private_at_def fat_directory_at_def fat_h_at_def load32_def load16_def
      cluster_size_def fat_reserved_def sample_fat_simps [OF assms] fat_ram_def)

lemma sample_fat_mounted:
  assumes "sample_fat s" "\<And>k. length (img k) = 512"
  shows "fat_mounted (simple_ports img) 65536 img s"
proof -
  have "drive_ok (simple_ports img) 65536 img (dev s)"
    unfolding drive_ok_def
    by (intro exI conjI, rule simple_drive_ata) (use assms in \<open>simp_all add: sample_fat_def\<close>)
  moreover have "disjoint_ranges 0x4000 32 0x1000 92" "disjoint_ranges 0x5000 32 0x1000 92" "disjoint_ranges 0x6000 2 0x1000 92"
    by (rule disjoint_ranges_sym, rule disjoint_rangesI, simp_all)+
  moreover have "stream_ok s p" "dk_sector_size (the_disk s) = 512" for p
    using assms by (simp_all add: stream_ok_def sample_fat_def)
  ultimately show ?thesis unfolding fat_mounted_def by (simp add: sample_fat_mount [OF assms(1)] sample_fat_simps [OF assms(1)])
qed

lemma nth_stream_bytes: "i < c \<Longrightarrow> stream_bytes img q c ! i = img ((q + i) div 512) ! ((q + i) mod 512)"
  by (simp add: stream_bytes_def)

lemma entry_byte_image: "q + 32 * j < 512 * (k + 1) \<Longrightarrow> 512 * k \<le> q + 32 * j \<Longrightarrow> entry_byte img q j = img k ! (q + 32 * j - 512 * k)"
proof -
  assume a: "q + 32 * j < 512 * (k + 1)" "512 * k \<le> q + 32 * j"
  then have "(q + 32 * j) div 512 = k" by (intro div_nat_eqI) simp_all
  moreover from this have "(q + 32 * j) mod 512 = q + 32 * j - 512 * k"
    by (metis minus_mult_div_eq_mod mult.commute)
  ultimately show ?thesis by (simp add: entry_byte_def stream_bytes_def upt_conv_Cons)
qed

definition fat_machine_0 :: "simple_drive fat_machine" where
  "fat_machine_0 = \<lparr>ram = fat_ram, kernel_heap = kheap, screen = home, current_directory = 0, cr3 = 0, paging_on = False,
     dev = (\<lambda>_. 0, [], 0), the_disk = \<lparr>dk_type = 0, dk_sector_size = 512, dk_id = 0, dk_filesystem = 0x3000, dk_fs_private = 0x1000\<rparr>,
     streams = (\<lambda>_. Some \<lparr>stream_pos = 0, stream_disk = MainDisk\<rparr>), path_roots = (\<lambda>_. None), path_parts = (\<lambda>_. None),
     fat_vars = \<lparr>fat16_fs = 0x3000, item_local = 0x4000, empty_item_local = 0x5000, entry_local = 0x6000, tmp_filename = 0x7000\<rparr>\<rparr>"

lemma fat_machine_0_sample: "sample_fat fat_machine_0"
  by (simp add: sample_fat_def fat_machine_0_def)

text \<open>The open file at 0x2000: clusters 2 and 5, from the beginning.\<close>

lemma sample_fat_file:
  assumes "sample_fat s"
  shows "c = 4 \<or> c = 5 \<Longrightarrow> clusters_ok 65536 s 3 [2, c]"
    and "desc_pos (fat_file_descriptor_at (ram s) 0x2000) = of_nat (0 * cluster_size s)"
    and "fat16_get_first_cluster (fat_directory_item_at (ram s)
      (item_ptr (fat_item_at (ram s) (desc_item (fat_file_descriptor_at (ram s) 0x2000))))) = of_nat (hd [2, c'])"
    and "c = 4 \<or> c = 5 \<Longrightarrow> file_bytes img s 3 [2, c] = stream_bytes img 1536 512 @ stream_bytes img ((c + 1) * 512) 512"
    and "range_of 0x10000 514 \<inter> (range_of (mount_addr s) 92 \<union> range_of (entry_local (fat_vars s)) 2) = {}"
proof -
  note m = sample_fat_mount [OF assms] sample_fat_simps [OF assms]
  show "clusters_ok 65536 s 3 [2, c]" if "c = 4 \<or> c = 5"
    using that by (auto simp: clusters_ok_def cluster_pos_def m)
  show "desc_pos (fat_file_descriptor_at (ram s) 0x2000) = of_nat (0 * cluster_size s)"
    "fat16_get_first_cluster (fat_directory_item_at (ram s)
      (item_ptr (fat_item_at (ram s) (desc_item (fat_file_descriptor_at (ram s) 0x2000))))) = of_nat (hd [2, c'])"
    by (simp_all add: m fat_file_descriptor_at_def fat_item_at_def fat_directory_item_at_def fat16_get_first_cluster_def
        load32_def load16_def fat_ram_def)
  show "file_bytes img s 3 [2, c] = stream_bytes img 1536 512 @ stream_bytes img ((c + 1) * 512) 512" if "c = 4 \<or> c = 5"
    using that by (auto simp: file_bytes_def cluster_pos_def m)
  have "disjoint_ranges 0x1000 92 0x10000 514" "disjoint_ranges 0x6000 2 0x10000 514"
    by (rule disjoint_rangesI, simp_all)+
  then show "range_of 0x10000 514 \<inter> (range_of (mount_addr s) 92 \<union> range_of (entry_local (fat_vars s)) 2) = {}"
    by (auto simp: disjoint_ranges_def m)
qed

end
