(* ===== verification/FatFrame.thy ===== *)
theory FatFrame imports FatRuns
begin

text \<open>
  The FAT16 routines leave the state of every later component alone: the file descriptors, the
  tasks and the processes are the part \<open>fat_machine.more\<close> of the state.
\<close>

abbreviation (input) beyond :: "('d, 'z) fat_machine_scheme \<Rightarrow> 'z" where
  "beyond \<equiv> fat_machine.more"

section \<open>Heap and disk\<close>

lemma keeps_kmalloc [keeps_intros]: "keeps beyond (kmalloc sz)"
  by (auto simp: keeps_def kmalloc_def Let_def split: prod.splits if_splits)

lemma keeps_kzalloc [keeps_intros]: "keeps beyond (kzalloc sz)"
  unfolding kzalloc_def by (intro keeps_intros) simp

lemma keeps_kfree [keeps_intros]: "keeps beyond (kfree p)"
  unfolding kfree_def by (intro keeps_intros) simp

lemma keeps_poke [keeps_intros]: "keeps beyond (poke a v)"
  unfolding poke_def by (intro keeps_intros) simp

lemma keeps_streamer_new [keeps_intros]: "keeps beyond (disk_streamer_new d)"
  unfolding disk_streamer_new_def Let_def by (intro keeps_intros) simp

lemma keeps_streamer_seek [keeps_intros]: "keeps beyond (diskstreamer_seek p q)"
  unfolding diskstreamer_seek_def by (intro keeps_intros) simp

lemma keeps_streamer_close [keeps_intros]: "keeps beyond (diskstreamer_close p)"
  unfolding diskstreamer_close_def by (intro keeps_intros)

lemma disk_read_block_beyond: "disk_read_block P d l n s = Ret (r, t) \<Longrightarrow> beyond t = beyond s"
  by (auto simp: disk_read_block_def disk_read_sector_def kret_def split: if_splits option.splits)

lemma diskstreamer_read_beyond: "diskstreamer_read P p out t s = Ret (r, s') \<Longrightarrow> beyond s' = beyond s"
proof (induction P p out t s arbitrary: r s' rule: diskstreamer_read.induct)
  case (1 P stream out tot s)
  from "1.prems" obtain st res buf s1 where
    st: "streams s stream = Some st"
    and rd: "disk_read_block P (stream_disk st) (word_of_int (cdiv (stream_pos st) PEACHOS_SECTOR_SIZE)) 1 s = Ret ((res, buf), s1)"
    and nf: "\<not> (cmod (stream_pos st) 512 + tot < - 2147483648 \<or> 2147483647 < cmod (stream_pos st) 512 + tot)"
    by (subst (asm) diskstreamer_read.simps) (auto simp: Let_def split: option.splits outcome.splits if_splits prod.splits)
  note b1 = disk_read_block_beyond [OF rd]
  note ih = "1.IH" [OF st refl refl refl refl nf rd refl]
  show ?case
    using "1.prems" st rd nf ih b1
    by (subst (asm) diskstreamer_read.simps)
      (auto simp: Let_def split: outcome.splits if_splits)
qed

lemma keeps_streamer_read [keeps_intros]: "keeps beyond (diskstreamer_read P p out t)"
  by (rule keepsI) (rule diskstreamer_read_beyond)

section \<open>The file system\<close>

lemma keeps_run_loop [keeps_intros]:
  assumes "\<And>s a t. f s = Some (Ret (a, t)) \<Longrightarrow> v t = v s"
  shows "keeps v (\<lambda>s. run_loop (f s))"
  using assms by (auto simp: keeps_def run_loop_def split: option.splits)

text \<open>The same for the loops, which are fixed points.\<close>

lemma count_items_beyond:
  "count_items P st item i s = Some y \<Longrightarrow> \<forall>a t. y = Ret (a, t) \<longrightarrow> beyond t = beyond s"
proof (erule count_items.raw_induct [where Pa = "\<lambda>x y. \<forall>a t. y = Ret (a, t) \<longrightarrow> beyond t = beyond (snd x)", unfolded snd_conv, rotated], goal_cases)
  case (1 f P st item i s y)
  then show ?case
    by (auto split: outcome.splits if_splits dest!: diskstreamer_read_beyond)
qed

lemma keeps_total_items [keeps_intros]: "keeps beyond (fat16_get_total_items_for_directory P d n)"
  unfolding fat16_get_total_items_for_directory_def
  by (intro keeps_intros) (auto dest: count_items_beyond)

lemma keeps_root_directory [keeps_intros]: "keeps beyond (fat16_get_root_directory P d p r)"
  unfolding fat16_get_root_directory_def by (intro keeps_intros)

lemma keeps_init_private [keeps_intros]: "keeps beyond (fat16_init_private d p)"
  unfolding fat16_init_private_def by (intro keeps_intros) simp

lemma keeps_fat16_init [keeps_intros]: "keeps beyond fat16_init"
  unfolding fat16_init_def by (intro keeps_intros) simp

lemma keeps_fat16_resolve: "keeps beyond (fat16_resolve P d)"
  unfolding fat16_resolve_def resolve_checks_def
  by (intro keeps_intros) (simp_all add: set_fs_private_def)

lemma keeps_clone [keeps_intros]: "keeps beyond (fat_16_clone_directory_item p n)"
  unfolding fat_16_clone_directory_item_def by (intro keeps_intros) simp

lemma keeps_fat_entry [keeps_intros]: "keeps beyond (fat16_get_fat_entry P d c)"
  unfolding fat16_get_fat_entry_def by (intro keeps_intros) simp

lemma keeps_cluster_ahead [keeps_intros]: "keeps beyond (cluster_ahead P d n c)"
  by (induction n arbitrary: c) (auto intro!: keeps_intros)

lemma keeps_cluster_for_offset [keeps_intros]: "keeps beyond (fat16_get_cluster_for_offset P d c off)"
  unfolding fat16_get_cluster_for_offset_def by (intro keeps_intros)

lemma read_internal_beyond:
  "read_internal_from_stream P d st c off tot out s = Some y \<Longrightarrow> \<forall>a t. y = Ret (a, t) \<longrightarrow> beyond t = beyond s"
proof (erule read_internal_from_stream.raw_induct [where Pa = "\<lambda>x y. \<forall>a t. y = Ret (a, t) \<longrightarrow> beyond t = beyond (snd x)", unfolded snd_conv, rotated], goal_cases)
  case (1 f P d st c off tot out s y)
  let ?step = "kbind (fat16_get_cluster_for_offset P d c off) (\<lambda>cluster_to_use.
             if cluster_to_use < 0 then kret (True, cluster_to_use, 0)
             else kbind (kread ''null disk'' (disk_at d)) (\<lambda>dk.
                  kbind (kread ''null disk'' (fs_private_of d)) (\<lambda>private.
                  let size_of_cluster_in_bytes = i32 (uint (sectors_per_cluster (primary_header (header private))) * dk_sector_size dk);
                      offset_from_cluster = cmod off size_of_cluster_in_bytes;
                      starting_sector = fat16_cluster_to_sector private cluster_to_use;
                      starting_pos = i32 (starting_sector * dk_sector_size dk + offset_from_cluster);
                      total_to_read = (if tot > size_of_cluster_in_bytes then size_of_cluster_in_bytes else tot)
                  in kbind (diskstreamer_seek st starting_pos) (\<lambda>res.
                     if res \<noteq> 0 then kret (True, res, 0)
                     else kbind (diskstreamer_read P st out total_to_read) (\<lambda>res.
                          kret (res \<noteq> 0, res, total_to_read))))))"
  have k: "keeps beyond ?step" by (intro keeps_intros)
  show ?case
  proof (cases "?step s")
    case (Ret r)
    then have "beyond (snd r) = beyond s" using keepsD [OF k, of s "fst r" "snd r"] by simp
    with 1(1) 1(2) [unfolded Ret] show ?thesis by (auto split: if_splits)
  qed (use 1(2) in auto)
qed

lemma keeps_read_internal [keeps_intros]: "keeps beyond (fat16_read_internal P d c off tot out)"
  unfolding fat16_read_internal_def fat16_read_internal_from_stream_def
  by (intro keeps_intros) (auto dest: read_internal_beyond)

lemma keeps_free_directory [keeps_intros]: "keeps beyond (fat16_free_directory p)"
  unfolding fat16_free_directory_def by (intro keeps_intros)

lemma keeps_item_free [keeps_intros]: "keeps beyond (fat16_fat_item_free p)"
  unfolding fat16_fat_item_free_def by (intro keeps_intros)

lemma keeps_load_directory [keeps_intros]: "keeps beyond (fat16_load_fat_directory P d item)"
  unfolding fat16_load_fat_directory_def by (intro keeps_intros)

lemma keeps_new_item [keeps_intros]: "keeps beyond (fat16_new_fat_item_for_directory_item P d item)"
  unfolding fat16_new_fat_item_for_directory_item_def by (intro keeps_intros)

lemma find_item_beyond:
  "find_item P d dir nm i f_item s = Some y \<Longrightarrow> \<forall>a t. y = Ret (a, t) \<longrightarrow> beyond t = beyond s"
proof (erule find_item.raw_induct [where Pa = "\<lambda>x y. \<forall>a t. y = Ret (a, t) \<longrightarrow> beyond t = beyond (snd x)", unfolded snd_conv, rotated], goal_cases)
  case (1 f P d dir nm i f_item s y)
  have k: "beyond t = beyond u" if "fat16_new_fat_item_for_directory_item P d x u = Ret (a, t)" for x u a t
    using keepsD [OF keeps_new_item that] .
  from 1 show ?case
    by (auto split: outcome.splits if_splits option.splits dest!: k)
qed

lemma keeps_find_item [keeps_intros]: "keeps beyond (fat16_find_item_in_directory P d dir nm)"
  unfolding fat16_find_item_in_directory_def
  by (intro keeps_intros) (auto dest: find_item_beyond)

lemma entry_loop_beyond:
  "entry_loop P d cur nxt s = Some y \<Longrightarrow> \<forall>a t. y = Ret (a, t) \<longrightarrow> beyond t = beyond s"
proof (erule entry_loop.raw_induct [where Pa = "\<lambda>x y. \<forall>a t. y = Ret (a, t) \<longrightarrow> beyond t = beyond (snd x)", unfolded snd_conv, rotated], goal_cases)
  case (1 f P d cur nxt s y)
  let ?step = "\<lambda>pp. kbind (fat16_find_item_in_directory P d (item_ptr (fat_item_at (ram s) cur)) (part pp)) (\<lambda>tmp_item.
                    kbind (fat16_fat_item_free cur) (\<lambda>_.
                    kbind (kread ''no part'' (\<lambda>s. path_parts s nxt)) (\<lambda>pp. kret (tmp_item, next_part pp))))"
  have k: "keeps beyond (?step pp)" for pp by (intro keeps_intros)
  have step: "beyond t = beyond s" if "?step pp s = Ret (a, t)" for pp a t by (rule keepsD [OF k that])
  from 1 show ?case
    by (auto split: outcome.splits if_splits option.splits dest!: step)
qed

lemma keeps_directory_entry [keeps_intros]: "keeps beyond (fat16_get_directory_entry P d p)"
  unfolding fat16_get_directory_entry_def
  by (intro keeps_intros) (auto dest: entry_loop_beyond)

lemma keeps_read_blocks [keeps_intros]: "keeps beyond (read_blocks P d item sz n off out)"
  by (induction n arbitrary: off out) (auto intro!: keeps_intros)

lemma keeps_fat16_open: "keeps beyond (fat16_open P d p m)"
  unfolding fat16_open_def by (intro keeps_intros)

lemma keeps_fat16_seek: "keeps beyond (fat16_seek p off m)"
  unfolding fat16_seek_def by (intro keeps_intros)

lemma keeps_fat16_close: "keeps beyond (fat16_close p)"
  unfolding fat16_close_def fat16_free_file_descriptor_def by (intro keeps_intros)

lemma keeps_fat16_stat: "keeps beyond (fat16_stat d p st)"
  unfolding fat16_stat_def by (intro keeps_intros)

lemma keeps_fat16_read: "keeps beyond (fat16_read P d p sz n out)"
  unfolding fat16_read_def by (intro keeps_intros)

section \<open>Paths\<close>

lemma keeps_get_path_part [keeps_intros]: "keeps beyond (pathparser_get_path_part path)"
  unfolding pathparser_get_path_part_def
  by (intro keeps_kbind keeps_kzalloc keepsI)
    (auto simp: kbind_def kfree_def kmod_def kret_def Let_def split: option.splits prod.splits if_splits)

lemma keeps_parse_path_part [keeps_intros]: "keeps beyond (pathparser_parse_path_part l path)"
  unfolding pathparser_parse_path_part_def by (intro keeps_intros) simp_all

lemma parse_parts_beyond:
  "parse_parts nxt path s = Some y \<Longrightarrow> \<forall>a t. y = Ret (a, t) \<longrightarrow> beyond t = beyond s"
proof (erule parse_parts.raw_induct [where P = "\<lambda>_ _ s y. \<forall>a t. y = Ret (a, t) \<longrightarrow> beyond t = beyond s", rotated], goal_cases)
  case (1 f nxt path s y)
  have k: "beyond t = beyond s" if "pathparser_parse_path_part nxt path s = Ret (a, t)" for a t
    by (rule keepsD [OF keeps_parse_path_part that])
  from 1 show ?case
    by (auto split: outcome.splits if_splits dest!: k)
qed

lemma keeps_parse [keeps_intros]: "keeps beyond (pathparser_parse path cd)"
proof (rule keepsI)
  fix s t :: "('d, 'z) fat_machine_scheme" and a
  assume run: "pathparser_parse path cd s = Ret (a, t)"
  let ?body = "\<lambda>res tmp_path. kbind (pathparser_create_root res) (\<lambda>path_root.
     if path_root = 0 then kret path_root
     else kbind (pathparser_parse_path_part 0 tmp_path) (\<lambda>(first, tmp_path1).
       if first = 0 then kret path_root
       else kbind (kread ''no root'' (\<lambda>s. path_roots s path_root)) (\<lambda>r.
            kbind (kmod (\<lambda>s. s\<lparr>path_roots := (path_roots s)(path_root \<mapsto> r\<lparr>first_part := first\<rparr>)\<rparr>)) (\<lambda>_.
            kbind (\<lambda>s. run_loop (parse_parts first tmp_path1 s)) (\<lambda>_.
            kret path_root)))))"
  have "keeps beyond (?body res tmp_path)" for res tmp_path
    unfolding pathparser_create_root_def
    by (intro keeps_intros) (auto dest: parse_parts_beyond)
  from this [THEN keepsD] run show "beyond t = beyond s"
    by (auto simp: pathparser_parse_def Let_def split: option.splits if_splits prod.splits)
qed

end
