(* ===== verification/FileSystem.thy ===== *)
theory FileSystem imports FatFrame
begin

text \<open>
  \<open>src/src/fs/file.c\<close>: the table of file systems, the table of open files, and the generic
  file operations, which call the file system of the disk through its operations.
\<close>

section \<open>State\<close>

text \<open>A \<open>struct filesystem\<close>: the six operations of a file system on states \<open>'s\<close>.\<close>

record 's filesystem =
  resolve_op :: "disk_ptr \<Rightarrow> ('s, int) prog"
  open_op :: "disk_ptr \<Rightarrow> u32 \<Rightarrow> u32 \<Rightarrow> ('s, u32) prog"
  read_op :: "disk_ptr \<Rightarrow> u32 \<Rightarrow> u32 \<Rightarrow> u32 \<Rightarrow> u32 \<Rightarrow> ('s, int) prog"
  close_op :: "u32 \<Rightarrow> ('s, int) prog"
  seek_op :: "u32 \<Rightarrow> u32 \<Rightarrow> u32 \<Rightarrow> ('s, int) prog"
  stat_op :: "disk_ptr \<Rightarrow> u32 \<Rightarrow> u32 \<Rightarrow> ('s, int) prog"

record file_descriptor =
  fdesc_index :: int
  fdesc_filesystem :: u32
  fdesc_private :: u32
  fdesc_disk :: disk_ptr

record 'd file_machine = "'d fat_machine" +
  filesystems :: "u32 list"
  file_descriptors :: "u32 list"
  descriptors :: "u32 \<Rightarrow> file_descriptor option"

abbreviation (input) PEACHOS_MAX_FILESYSTEMS :: nat where "PEACHOS_MAX_FILESYSTEMS \<equiv> 12"
abbreviation (input) PEACHOS_MAX_FILE_DESCRIPTORS :: nat where "PEACHOS_MAX_FILE_DESCRIPTORS \<equiv> 512"

text \<open>The object \<open>fat16_fs\<close>, and the file system that a pointer points to.\<close>

definition fat16_filesystem :: "'d ports \<Rightarrow> ('d, 'z) fat_machine_scheme filesystem" where
  "fat16_filesystem P = \<lparr>resolve_op = fat16_resolve P, open_op = fat16_open P, read_op = fat16_read P,
     close_op = fat16_close, seek_op = fat16_seek, stat_op = fat16_stat\<rparr>"

definition fs_at :: "'d ports \<Rightarrow> u32 \<Rightarrow> ('d, 'z) file_machine_scheme \<Rightarrow> ('d, 'z) file_machine_scheme filesystem option" where
  "fs_at P p s = (if p = fat16_fs (fat_vars s) then Some (fat16_filesystem P) else None)"

section \<open>The table of file systems\<close>

text \<open>The first null entry of a table, counted from \<open>i\<close>.\<close>

fun free_slot :: "u32 list \<Rightarrow> nat \<Rightarrow> nat option" where
  "free_slot [] i = None"
| "free_slot (p # ps) i = (if p = 0 then Some i else free_slot ps (Suc i))"

definition fs_get_free_filesystem :: "('d, 'z) file_machine_scheme \<Rightarrow> nat option" where
  "fs_get_free_filesystem s = free_slot (filesystems s) 0"

definition fs_insert_filesystem :: "u32 \<Rightarrow> (('d, 'z) file_machine_scheme, unit) prog" where
  "fs_insert_filesystem fs =
     kbind (kget fs_get_free_filesystem) (\<lambda>slot.
     case slot of None \<Rightarrow> kpanic ''Problem inserting filesystem''
     | Some i \<Rightarrow> kmod (\<lambda>s. s\<lparr>filesystems := (filesystems s)[i := fs]\<rparr>))"

definition fs_static_load :: "(('d, 'z) file_machine_scheme, unit) prog" where
  "fs_static_load = kbind fat16_init fs_insert_filesystem"

definition fs_load :: "(('d, 'z) file_machine_scheme, unit) prog" where
  "fs_load = kbind (kmod (\<lambda>s. s\<lparr>filesystems := replicate PEACHOS_MAX_FILESYSTEMS 0\<rparr>)) (\<lambda>_. fs_static_load)"

definition fs_init :: "(('d, 'z) file_machine_scheme, unit) prog" where
  "fs_init = kbind (kmod (\<lambda>s. s\<lparr>file_descriptors := replicate PEACHOS_MAX_FILE_DESCRIPTORS 0\<rparr>)) (\<lambda>_. fs_load)"

text \<open>The loop of \<open>fs_resolve\<close> with \<open>n\<close> entries left.\<close>

primrec fs_resolve_loop :: "'d ports \<Rightarrow> disk_ptr \<Rightarrow> nat \<Rightarrow> (('d, 'z) file_machine_scheme, u32) prog" where
  "fs_resolve_loop P disk 0 = kret 0"
| "fs_resolve_loop P disk (Suc n) =
     kbind (kget (\<lambda>s. filesystems s ! (PEACHOS_MAX_FILESYSTEMS - Suc n))) (\<lambda>fs.
     if fs = 0 then fs_resolve_loop P disk n
     else kbind (kread ''no file system'' (fs_at P fs)) (\<lambda>ops.
          kbind (resolve_op ops disk) (\<lambda>r.
          if r = 0 then kret fs else fs_resolve_loop P disk n)))"

definition fs_resolve :: "'d ports \<Rightarrow> disk_ptr \<Rightarrow> (('d, 'z) file_machine_scheme, u32) prog" where
  "fs_resolve P disk = fs_resolve_loop P disk PEACHOS_MAX_FILESYSTEMS"

section \<open>The table of open files\<close>

definition file_free_descriptor :: "u32 \<Rightarrow> (('d, 'z) file_machine_scheme, unit) prog" where
  "file_free_descriptor desc =
     kbind (kread ''no descriptor'' (\<lambda>s. descriptors s desc)) (\<lambda>d.
     kbind (kmod (\<lambda>s. s\<lparr>file_descriptors := (file_descriptors s)[nat (fdesc_index d - 1) := 0]\<rparr>)) (\<lambda>_.
     kfree desc))"

text \<open>The result and \<open>*desc_out\<close>.\<close>

definition file_new_descriptor :: "(('d, 'z) file_machine_scheme, int \<times> u32) prog" where
  "file_new_descriptor =
     kbind (kget (\<lambda>s. free_slot (file_descriptors s) 0)) (\<lambda>slot.
     case slot of None \<Rightarrow> kret (err ENOMEM, 0)
     | Some i \<Rightarrow>
         kbind (kzalloc 16) (\<lambda>desc.
         kbind (kmod (\<lambda>s. s\<lparr>descriptors := (descriptors s)(desc \<mapsto>
             \<lparr>fdesc_index = int i + 1, fdesc_filesystem = 0, fdesc_private = 0, fdesc_disk = NullDisk\<rparr>),
             file_descriptors := (file_descriptors s)[i := desc]\<rparr>)) (\<lambda>_.
         kret (0, desc))))"

definition file_get_descriptor :: "int \<Rightarrow> ('d, 'z) file_machine_scheme \<Rightarrow> u32" where
  "file_get_descriptor fd s =
     (if fd \<le> 0 \<or> fd \<ge> int PEACHOS_MAX_FILE_DESCRIPTORS then 0 else file_descriptors s ! nat (fd - 1))"

section \<open>File operations\<close>

text \<open>\<open>strncmp\<close> of one character with a literal.\<close>

definition file_get_mode_by_string :: "mem \<Rightarrow> u32 \<Rightarrow> u32" where
  "file_get_mode_by_string m str =
     (let mode = FILE_MODE_INVALID;
          mode = (if m str = 0x72 then FILE_MODE_READ else mode);
          mode = (if m str = 0x77 then FILE_MODE_WRITE else mode)
      in if m str = 0x61 then FILE_MODE_APPEND else mode)"

text \<open>The end of \<open>fopen\<close>, once the file system has opened the file.\<close>

definition fopen_descriptor :: "disk_ptr \<Rightarrow> u32 \<Rightarrow> (('d, 'z) file_machine_scheme, int) prog" where
  "fopen_descriptor disk descriptor_private_data =
     kbind file_new_descriptor (\<lambda>(res, desc).
     if res < 0 then kret res
     else kbind (kread ''null disk'' (disk_at disk)) (\<lambda>d.
          kbind (kread ''no descriptor'' (\<lambda>s. descriptors s desc)) (\<lambda>fd.
          kbind (kmod (\<lambda>s. s\<lparr>descriptors := (descriptors s)(desc \<mapsto>
            fd\<lparr>fdesc_filesystem := dk_filesystem d, fdesc_private := descriptor_private_data, fdesc_disk := disk\<rparr>)\<rparr>)) (\<lambda>_.
          kret (fdesc_index fd)))))"

text \<open>The body of \<open>fopen\<close> up to the label \<open>out\<close>.\<close>

definition fopen_result :: "'d ports \<Rightarrow> u32 \<Rightarrow> u32 \<Rightarrow> (('d, 'z) file_machine_scheme, int) prog" where
  "fopen_result P fname mode_str =
     kbind (pathparser_parse fname 0) (\<lambda>root_path.
     if root_path = 0 then kret (err EINVARG)
     else kbind (kread ''no root'' (\<lambda>s. path_roots s root_path)) (\<lambda>r.
          if first_part r = 0 then kret (err EINVARG)
          else let disk = disk_get (drive_no r)
               in if disk = NullDisk then kret (err EIO)
                  else kbind (kread ''null disk'' (disk_at disk)) (\<lambda>d.
                       if dk_filesystem d = 0 then kret (err EIO)
                       else kbind (kget (\<lambda>s. file_get_mode_by_string (ram s) mode_str)) (\<lambda>mode.
                            if mode = FILE_MODE_INVALID then kret (err EINVARG)
                            else kbind (kread ''no file system'' (fs_at P (dk_filesystem d))) (\<lambda>ops.
                                 kbind (open_op ops disk (first_part r) mode) (\<lambda>descriptor_private_data.
                                 if sint descriptor_private_data < 0 then kret (sint descriptor_private_data)
                                 else fopen_descriptor disk descriptor_private_data))))))"

definition fopen :: "'d ports \<Rightarrow> u32 \<Rightarrow> u32 \<Rightarrow> (('d, 'z) file_machine_scheme, int) prog" where
  "fopen P fname mode_str =
     kbind (fopen_result P fname mode_str) (\<lambda>res. kret (if res < 0 then 0 else res))"

text \<open>Every other operation looks up the descriptor and calls the file system behind it.\<close>

definition fstat :: "'d ports \<Rightarrow> int \<Rightarrow> u32 \<Rightarrow> (('d, 'z) file_machine_scheme, int) prog" where
  "fstat P fd stat =
     kbind (kget (file_get_descriptor fd)) (\<lambda>desc.
     if desc = 0 then kret (err EIO)
     else kbind (kread ''no descriptor'' (\<lambda>s. descriptors s desc)) (\<lambda>d.
          kbind (kread ''no file system'' (fs_at P (fdesc_filesystem d))) (\<lambda>ops.
          stat_op ops (fdesc_disk d) (fdesc_private d) stat)))"

definition fclose :: "'d ports \<Rightarrow> int \<Rightarrow> (('d, 'z) file_machine_scheme, int) prog" where
  "fclose P fd =
     kbind (kget (file_get_descriptor fd)) (\<lambda>desc.
     if desc = 0 then kret (err EINVARG)
     else kbind (kread ''no descriptor'' (\<lambda>s. descriptors s desc)) (\<lambda>d.
          kbind (kread ''no file system'' (fs_at P (fdesc_filesystem d))) (\<lambda>ops.
          kbind (close_op ops (fdesc_private d)) (\<lambda>res.
          if res = 0 then kbind (file_free_descriptor desc) (\<lambda>_. kret res) else kret res))))"

definition fseek :: "'d ports \<Rightarrow> int \<Rightarrow> int \<Rightarrow> u32 \<Rightarrow> (('d, 'z) file_machine_scheme, int) prog" where
  "fseek P fd offset whence =
     kbind (kget (file_get_descriptor fd)) (\<lambda>desc.
     if desc = 0 then kret (err EIO)
     else kbind (kread ''no descriptor'' (\<lambda>s. descriptors s desc)) (\<lambda>d.
          kbind (kread ''no file system'' (fs_at P (fdesc_filesystem d))) (\<lambda>ops.
          seek_op ops (fdesc_private d) (word_of_int offset) whence)))"

definition fread :: "'d ports \<Rightarrow> u32 \<Rightarrow> u32 \<Rightarrow> u32 \<Rightarrow> int \<Rightarrow> (('d, 'z) file_machine_scheme, int) prog" where
  "fread P out sz no_of_mem_blocks fd =
     (if sz = 0 \<or> no_of_mem_blocks = 0 \<or> fd < 1 then kret (err EINVARG)
      else kbind (kget (file_get_descriptor fd)) (\<lambda>desc.
           if desc = 0 then kret (err EINVARG)
           else kbind (kread ''no descriptor'' (\<lambda>s. descriptors s desc)) (\<lambda>d.
                kbind (kread ''no file system'' (fs_at P (fdesc_filesystem d))) (\<lambda>ops.
                read_op ops (fdesc_disk d) (fdesc_private d) sz no_of_mem_blocks out))))"

section \<open>What the file layer relies on\<close>

text \<open>The operations of a file system leave the tables of the file layer alone.\<close>

locale file_system =
  fixes ops :: "('d, 'z) file_machine_scheme filesystem"
  assumes open_keeps: "keeps beyond (open_op ops d p m)"
    and read_keeps: "keeps beyond (read_op ops d p sz n out)"
    and close_keeps: "keeps beyond (close_op ops p)"
    and seek_keeps: "keeps beyond (seek_op ops p off m)"
    and stat_keeps: "keeps beyond (stat_op ops d p st)"
    and resolve_keeps: "keeps beyond (resolve_op ops d)"

lemma beyond_tables:
  fixes s t :: "('d, 'z) file_machine_scheme"
  assumes "beyond t = beyond s"
  shows "filesystems t = filesystems s" "file_descriptors t = file_descriptors s" "descriptors t = descriptors s"
  using assms by (cases s, cases t, simp)+

context file_system
begin

text \<open>Reading, seeking and asking for the status keep every table as it is.\<close>

lemma fread_keeps_tables:
  assumes "fread P out sz n fd s = Ret (r, t)" "\<And>p. fs_at P p s = Some ops \<or> fs_at P p s = None"
  shows "file_descriptors t = file_descriptors s" "descriptors t = descriptors s"
proof -
  have "beyond t = beyond s"
    using assms read_keeps [THEN keepsD]
    by (auto simp: fread_def kret_def kbind_def kget_def kread_def split: if_splits option.splits)
      (metis option.distinct(1) option.inject)
  then show "file_descriptors t = file_descriptors s" "descriptors t = descriptors s"
    by (rule beyond_tables)+
qed

lemma fseek_keeps_tables:
  assumes "fseek P fd off w s = Ret (r, t)" "\<And>p. fs_at P p s = Some ops \<or> fs_at P p s = None"
  shows "file_descriptors t = file_descriptors s" "descriptors t = descriptors s"
proof -
  have "beyond t = beyond s"
    using assms seek_keeps [THEN keepsD]
    by (auto simp: fseek_def kret_def kbind_def kget_def kread_def split: if_splits option.splits)
      (metis option.distinct(1) option.inject)
  then show "file_descriptors t = file_descriptors s" "descriptors t = descriptors s"
    by (rule beyond_tables)+
qed

text \<open>Closing empties the slot of the descriptor and no other.\<close>

lemma fclose_frees_slot:
  assumes "fclose P fd s = Ret (0, t)" "\<And>p. fs_at P p s = Some ops \<or> fs_at P p s = None"
    and "descriptors s (file_get_descriptor fd s) = Some d" "fdesc_index d = fd"
  shows "file_descriptors t = (file_descriptors s)[nat (fd - 1) := 0]"
proof -
  let ?p = "file_get_descriptor fd s"
  have "?p \<noteq> 0" using assms(1) by (auto simp: fclose_def kbind_def kget_def kret_def)
  then obtain u where u: "fs_at P (fdesc_filesystem d) s = Some ops" "close_op ops (fdesc_private d) s = Ret (0, u)"
    "file_free_descriptor ?p u = Ret ((), t)"
    using assms(1,2) assms(3)
    by (auto simp: fclose_def kbind_def kget_def kread_def kret_def split: option.splits outcome.splits if_splits)
      (metis option.distinct(1) option.inject)
  from keepsD [OF close_keeps u(2)] have "beyond u = beyond s" .
  note same = beyond_tables [OF this]
  have "descriptors u ?p = Some d" using assms(3) same by simp
  then show ?thesis
    using u(3) same assms(4)
    by (auto simp: file_free_descriptor_def kbind_def kread_def kmod_def kfree_def)
qed

end

interpretation fat: file_system "fat16_filesystem P" for P :: "'d ports"
  by unfold_locales
    (simp_all add: fat16_filesystem_def keeps_fat16_open keeps_fat16_read keeps_fat16_close keeps_fat16_seek
      keeps_fat16_stat keeps_fat16_resolve)

lemma fs_at_fat: "fs_at P p s = Some (fat16_filesystem P) \<or> fs_at P p s = None"
  by (simp add: fs_at_def)

section \<open>Opening\<close>

lemma free_slot_Some:
  "free_slot ps i = Some k \<Longrightarrow> i \<le> k \<and> k < i + length ps \<and> ps ! (k - i) = 0 \<and> (\<forall>j < k - i. ps ! j \<noteq> 0)"
proof (induction ps i rule: free_slot.induct)
  case (2 p ps i)
  show ?case
  proof (cases "p = 0")
    case False
    with 2 have "Suc i \<le> k \<and> k < Suc i + length ps \<and> ps ! (k - Suc i) = 0 \<and> (\<forall>j < k - Suc i. ps ! j \<noteq> 0)" by simp
    moreover from this have "k - i = Suc (k - Suc i)" by arith
    ultimately show ?thesis using False by (auto simp: nth_Cons split: nat.split)
  qed (use 2 in simp)
qed simp

lemma kzalloc_nonzero: "kzalloc sz s = Ret (p, t) \<Longrightarrow> p \<noteq> 0"
  by (auto simp: kzalloc_def kbind_def kmalloc_def Let_def kret_def kmod_def split: prod.splits if_splits)

lemma kzalloc_beyond:
  fixes s :: "('d, 'z) fat_machine_scheme"
  shows "kzalloc sz s = Ret (p, t) \<Longrightarrow> beyond t = beyond s"
  by (rule keepsD [OF keeps_kzalloc])

lemma file_new_descriptor_run:
  assumes "file_new_descriptor s = Ret ((res, p), t)" "0 \<le> res"
  obtains i where "free_slot (file_descriptors s) 0 = Some i" "p \<noteq> 0"
    "file_descriptors t = (file_descriptors s)[i := p]" "fat_vars t = fat_vars s"
    "descriptors t = (descriptors s)(p \<mapsto> \<lparr>fdesc_index = int i + 1, fdesc_filesystem = 0, fdesc_private = 0, fdesc_disk = NullDisk\<rparr>)"
proof -
  from assms obtain i u where i: "free_slot (file_descriptors s) 0 = Some i" and u: "kzalloc 16 s = Ret (p, u)"
    and t: "t = u\<lparr>descriptors := (descriptors u)(p \<mapsto>
             \<lparr>fdesc_index = int i + 1, fdesc_filesystem = 0, fdesc_private = 0, fdesc_disk = NullDisk\<rparr>),
             file_descriptors := (file_descriptors u)[i := p]\<rparr>"
    by (auto simp: file_new_descriptor_def kbind_def kget_def kret_def kmod_def split: option.splits outcome.splits)
  note same = beyond_tables [OF kzalloc_beyond [OF u]]
  have "fat_vars u = fat_vars s"
    using u by (auto simp: kzalloc_def kmalloc_def kbind_def kret_def kmod_def Let_def split: prod.splits if_splits)
  with that [OF i kzalloc_nonzero [OF u]] show thesis
    unfolding t using same by simp
qed

lemma fopen_descriptor_run:
  assumes "fopen_descriptor disk pd s = Ret (fd, t)" "0 < fd"
  obtains i p d where "free_slot (file_descriptors s) 0 = Some i" "p \<noteq> 0" "fd = int i + 1"
    "file_descriptors t = (file_descriptors s)[i := p]" "descriptors t p = Some d" "fdesc_index d = fd"
    "fdesc_filesystem d = dk_filesystem (the_disk t)" "fdesc_private d = pd" "fdesc_disk d = disk"
proof -
  from assms(1) obtain r u where new: "file_new_descriptor s = Ret (r, u)"
    and fin: "(case r of (res, desc) \<Rightarrow> if res < 0 then kret res
     else kbind (kread ''null disk'' (disk_at disk)) (\<lambda>d.
          kbind (kread ''no descriptor'' (\<lambda>s. descriptors s desc)) (\<lambda>fd.
          kbind (kmod (\<lambda>s. s\<lparr>descriptors := (descriptors s)(desc \<mapsto>
            fd\<lparr>fdesc_filesystem := dk_filesystem d, fdesc_private := pd, fdesc_disk := disk\<rparr>)\<rparr>)) (\<lambda>_.
          kret (fdesc_index fd))))) u = Ret (fd, t)"
    unfolding fopen_descriptor_def by (rule kbind_RetE)
  obtain res p where r: "r = (res, p)" by (cases r)
  have pos: "0 \<le> res" using fin assms(2) by (auto simp: r kret_def split: if_splits)
  from file_new_descriptor_run [OF new [unfolded r] pos] obtain i where i: "free_slot (file_descriptors s) 0 = Some i" "p \<noteq> 0"
      "file_descriptors u = (file_descriptors s)[i := p]"
      "descriptors u = (descriptors s)(p \<mapsto> \<lparr>fdesc_index = int i + 1, fdesc_filesystem = 0, fdesc_private = 0, fdesc_disk = NullDisk\<rparr>)" .
  show thesis
  proof (rule that [OF i(1,2)])
    show "fd = int i + 1" "file_descriptors t = (file_descriptors s)[i := p]"
      "descriptors t p = Some \<lparr>fdesc_index = int i + 1, fdesc_filesystem = dk_filesystem (the_disk t), fdesc_private = pd, fdesc_disk = disk\<rparr>"
      using fin pos i(3,4)
      by (auto simp: r kbind_def kread_def kret_def kmod_def disk_at_def split: option.splits disk_ptr.splits)
    then show "fdesc_index \<lparr>fdesc_index = int i + 1, fdesc_filesystem = dk_filesystem (the_disk t), fdesc_private = pd, fdesc_disk = disk\<rparr> = fd"
      by simp
  qed simp_all
qed

text \<open>
  When \<open>fopen\<close> returns a descriptor number other than 0, the number is one more than the
  lowest free slot of the table, the slot holds the address of a new descriptor with that number
  and the file system of the disk, and no other slot has changed. The number can be used with the
  other operations exactly when it is below 512: the last slot is handed out but never found again.
\<close>

lemma fopen_lowest_slot:
  assumes "length (file_descriptors s) = 512"
  shows "case fopen P fname mode_str s of
      Ret (fd, t) \<Rightarrow> fd = 0 \<or>
        (\<exists>i p d. fd = int i + 1 \<and> i < 512 \<and> file_descriptors s ! i = 0 \<and> (\<forall>j < i. file_descriptors s ! j \<noteq> 0)
          \<and> p \<noteq> 0 \<and> file_descriptors t = (file_descriptors s)[i := p]
          \<and> descriptors t p = Some d \<and> fdesc_index d = fd \<and> fdesc_filesystem d = dk_filesystem (the_disk t)
          \<and> file_get_descriptor fd t = (if fd < 512 then p else 0))
    | _ \<Rightarrow> True"
proof (cases "fopen P fname mode_str s")
  case (Ret r)
  obtain fd t where r: "r = (fd, t)" by (cases r)
  show ?thesis
  proof (cases "fd = 0")
    case False
    from Ret r False have run: "fopen_result P fname mode_str s = Ret (fd, t)" "0 < fd"
      by (auto simp: fopen_def kret_def split: if_splits elim!: kbind_RetE)
    then obtain root s1 disk first m pd s2 where
      parse: "pathparser_parse fname 0 s = Ret (root, s1)"
      and open': "open_op (fat16_filesystem P) disk first m s1 = Ret (pd, s2)"
      and fin: "fopen_descriptor disk pd s2 = Ret (fd, t)"
      by (auto simp: fopen_result_def kget_def kread_def kret_def fs_at_def Let_def
          split: if_splits option.splits elim!: kbind_RetE)
    have same: "file_descriptors s2 = file_descriptors s"
      using beyond_tables(2) [OF keepsD [OF keeps_parse parse]]
        beyond_tables(2) [OF keepsD [OF fat.open_keeps open']] by simp
    from fopen_descriptor_run [OF fin run(2)] obtain i p d where i: "free_slot (file_descriptors s) 0 = Some i" "p \<noteq> 0"
      "fd = int i + 1" "file_descriptors t = (file_descriptors s)[i := p]" "descriptors t p = Some d"
      "fdesc_index d = fd" "fdesc_filesystem d = dk_filesystem (the_disk t)"
      unfolding same by metis
    note slot = free_slot_Some [OF i(1), simplified, unfolded assms]
    have "file_get_descriptor fd t = (if fd < 512 then p else 0)"
      using slot assms by (auto simp: file_get_descriptor_def i(3,4))
    then show ?thesis using slot i unfolding Ret r by auto
  qed (simp add: Ret r)
qed simp_all

section \<open>Reading an open file\<close>

text \<open>The descriptor \<open>fd\<close> is in use and belongs to the FAT16 file system of the disk.\<close>

definition open_file :: "('d, 'z) file_machine_scheme \<Rightarrow> int \<Rightarrow> u32 \<Rightarrow> bool" where
  "open_file s fd private \<longleftrightarrow> 0 < fd \<and> fd < 512 \<and> file_descriptors s ! nat (fd - 1) \<noteq> 0
     \<and> descriptors s (file_descriptors s ! nat (fd - 1))
         = Some \<lparr>fdesc_index = fd, fdesc_filesystem = fat16_fs (fat_vars s), fdesc_private = private, fdesc_disk = MainDisk\<rparr>"

text \<open>One read of an open file.\<close>

lemma fread_run:
  fixes s :: "('d, 'z) file_machine_scheme"
  assumes "open_file s fd private" "fat_mounted P n img s" "walked n img (fat_reserved s) cs" "clusters_ok n s e cs"
    and "desc_pos (fat_file_descriptor_at (ram s) private) = of_nat (k * cluster_size s)"
    and "fat16_get_first_cluster (fat_directory_item_at (ram s)
      (item_ptr (fat_item_at (ram s) (desc_item (fat_file_descriptor_at (ram s) private))))) = of_nat (hd cs)"
    and "k * cluster_size s + t \<le> length cs * cluster_size s" "k * cluster_size s + t < 2147483648" "0 < t"
    and "range_of out t \<inter> (range_of (mount_addr s) 92 \<union> range_of (entry_local (fat_vars s)) 2) = {}"
  shows "\<exists>s'. fread P out (of_nat t) 1 fd s = Ret (1, s')
    \<and> bytes_at (ram s') out t = take t (drop (k * cluster_size s) (file_bytes img s e cs))
    \<and> reads_into (range_of (entry_local (fat_vars s)) 2 \<union> range_of out t) s s'
    \<and> fat_mounted P n img s' \<and> file_descriptors s' = file_descriptors s \<and> descriptors s' = descriptors s"
proof -
  from fat16_read_correct [OF assms(2-10)] obtain s' where
    s': "fat16_read P MainDisk private (of_nat t) 1 out s = Ret (1, s')"
    "bytes_at (ram s') out t = take t (drop (k * cluster_size s) (file_bytes img s e cs))"
    "fat_mounted P n img s'" "reads_into (range_of (entry_local (fat_vars s)) 2 \<union> range_of out t) s s'" by blast
  have "(of_nat t :: u32) \<noteq> 0"
  proof
    assume "(of_nat t :: u32) = 0"
    then have "unat (of_nat t :: u32) = 0" by simp
    with assms(8,9) show False by (simp add: unat_of_nat_u32)
  qed
  then have "fread P out (of_nat t) 1 fd s = Ret (1, s')"
    using assms(1) s'(1)
    by (simp add: fread_def open_file_def file_get_descriptor_def kbind_def kget_def kread_def fs_at_def fat16_filesystem_def)
  moreover from fat.fread_keeps_tables [OF this fs_at_fat]
  have "file_descriptors s' = file_descriptors s" "descriptors s' = descriptors s" .
  ultimately show ?thesis using s' by blast
qed

text \<open>
  C5: reading \<open>t\<close> bytes of an open file with one call of \<open>fread\<close>, from a position that is a
  multiple of the cluster size. The clusters of the file are those that the allocation table of the volume
  names, each after the other from the first one; for a file of more than one cluster the words that the
  code takes for its entries, which are not in the table, have to agree with them. Then the call returns 1 and
  leaves in the buffer exactly those bytes of the file, however many clusters the range spans.
  Outside the buffer only the allocation-table local of the driver, the drive and the stream
  positions change; the disk stays mounted and the tables of the file layer stay as they are.
\<close>

theorem fread_correct:
  fixes s :: "('d, 'z) file_machine_scheme"
  assumes "open_file s fd private" "fat_mounted P n img s"
    and chain: "cluster_chain img (fat_reserved s) cs" "links_found n img (fat_reserved s) cs" "clusters_ok n s e cs"
    and "desc_pos (fat_file_descriptor_at (ram s) private) = of_nat (k * cluster_size s)"
    and "fat16_get_first_cluster (fat_directory_item_at (ram s)
      (item_ptr (fat_item_at (ram s) (desc_item (fat_file_descriptor_at (ram s) private))))) = of_nat (hd cs)"
    and "k * cluster_size s + t \<le> length cs * cluster_size s" "k * cluster_size s + t < 2147483648" "0 < t"
    and "range_of out t \<inter> (range_of (mount_addr s) 92 \<union> range_of (entry_local (fat_vars s)) 2) = {}"
  shows "\<exists>s'. fread P out (of_nat t) 1 fd s = Ret (1, s')
    \<and> bytes_at (ram s') out t = take t (drop (k * cluster_size s) (file_bytes img s e cs))
    \<and> reads_into (range_of (entry_local (fat_vars s)) 2 \<union> range_of out t) s s'
    \<and> fat_mounted P n img s' \<and> file_descriptors s' = file_descriptors s \<and> descriptors s' = descriptors s"
  by (rule fread_run [OF assms(1,2) chain_walked [OF chain(1,2)] assms(5-)])

text \<open>
  C32: where the words do not agree. The table says that \<open>d\<close> follows the first cluster \<open>c\<close> of an open file,
  and the word at the product of position and offset, where the code looks, is another cluster \<open>w\<close> of
  the volume. Reading across the end of the first cluster succeeds like any other read, and what follows
  it in the buffer comes from \<open>w\<close>; where \<open>w\<close> and \<open>d\<close> differ, the buffer is not the file.
\<close>

theorem fread_takes_wrong_cluster:
  fixes s :: "('d, 'z) file_machine_scheme"
  assumes "open_file s fd private" "fat_mounted P n img s"
    and chain: "cluster_chain img (fat_reserved s) [c, d]" and wd: "link_word n img (fat_reserved s) c w" and ok: "clusters_ok n s e [c, w]"
    and "desc_pos (fat_file_descriptor_at (ram s) private) = 0"
    and "fat16_get_first_cluster (fat_directory_item_at (ram s)
      (item_ptr (fat_item_at (ram s) (desc_item (fat_file_descriptor_at (ram s) private))))) = of_nat c"
    and t: "cluster_size s < t" "t \<le> 2 * cluster_size s" "t < 2147483648"
    and "range_of out t \<inter> (range_of (mount_addr s) 92 \<union> range_of (entry_local (fat_vars s)) 2) = {}"
  defines "piece b \<equiv> stream_bytes img (cluster_pos s e b) (t - cluster_size s)"
  shows "\<exists>s'. fread P out (of_nat t) 1 fd s = Ret (1, s')
    \<and> bytes_at (ram s') out t = stream_bytes img (cluster_pos s e c) (cluster_size s) @ piece w
    \<and> (bytes_at (ram s') out t = take t (file_bytes img s e [c, d]) \<longleftrightarrow> piece w = piece d)"
proof -
  have w: "walked n img (fat_reserved s) [c, w]" using wd by simp
  have len: "0 * cluster_size s + t \<le> length [c, w] * cluster_size s" "0 * cluster_size s + t < 2147483648" "0 < t" using t by simp_all
  have bytes: "take t (file_bytes img s e [c, b]) = stream_bytes img (cluster_pos s e c) (cluster_size s) @ piece b" for b
    using t by (simp add: file_bytes_def piece_def take_stream_bytes)
  from fread_run [OF assms(1,2) w ok _ _ len assms(11)] assms(6,7) obtain s' where
    "fread P out (of_nat t) 1 fd s = Ret (1, s')" "bytes_at (ram s') out t = take t (file_bytes img s e [c, w])" by auto
  then show ?thesis unfolding bytes by (intro exI [of _ s']) simp
qed

section \<open>A concrete open file\<close>

definition file_machine_0 :: "simple_drive file_machine" where
  "file_machine_0 = \<lparr>ram = fat_ram, kernel_heap = kheap, screen = home, current_directory = 0, cr3 = 0, paging_on = False,
     dev = (\<lambda>_. 0, [], 0), the_disk = \<lparr>dk_type = 0, dk_sector_size = 512, dk_id = 0, dk_filesystem = 0x3000, dk_fs_private = 0x1000\<rparr>,
     streams = (\<lambda>_. Some \<lparr>stream_pos = 0, stream_disk = MainDisk\<rparr>), path_roots = (\<lambda>_. None), path_parts = (\<lambda>_. None),
     fat_vars = \<lparr>fat16_fs = 0x3000, item_local = 0x4000, empty_item_local = 0x5000, entry_local = 0x6000, tmp_filename = 0x7000\<rparr>,
     filesystems = 0x3000 # replicate 11 0, file_descriptors = 0x8000 # replicate 511 0,
     descriptors = [0x8000 \<mapsto> \<lparr>fdesc_index = 1, fdesc_filesystem = 0x3000, fdesc_private = 0x2000, fdesc_disk = MainDisk\<rparr>]\<rparr>"

lemma file_machine_0_sample: "sample_fat file_machine_0"
  by (simp add: sample_fat_def file_machine_0_def)

lemma file_machine_0_open: "open_file file_machine_0 1 0x2000"
  by (simp add: open_file_def file_machine_0_def)

theorem fread_correct_witness:
  "\<exists>s'. fread (simple_ports fat_image) 0x10000 514 1 1 file_machine_0 = Ret (1, s')
    \<and> ram s' 0x10000 = 3 \<and> ram s' 0x10200 = 6"
proof -
  note sm = file_machine_0_sample
  have chain: "cluster_chain fat_image (fat_reserved file_machine_0) [2, 5]" "links_found 65536 fat_image (fat_reserved file_machine_0) [2, 5]"
    by (simp_all add: links_found_def link_word_def table_entry_def read_pos_def sample_fat_mount [OF sm] image_words)
  have "0 * cluster_size file_machine_0 + 514 \<le> length [2::nat, 5] * cluster_size file_machine_0"
    "0 * cluster_size file_machine_0 + 514 < 2147483648" "(0::nat) < 514"
    by (simp_all add: sample_fat_mount [OF sm])
  from fread_correct [OF file_machine_0_open sample_fat_mounted [OF sm image_length(1)] chain sample_fat_file(1-3) [OF sm] this sample_fat_file(5) [OF sm]]
  obtain s' where r: "fread (simple_ports fat_image) 0x10000 514 1 1 file_machine_0 = Ret (1, s')"
    "bytes_at (ram s') 0x10000 514 = take 514 (stream_bytes fat_image 1536 512 @ stream_bytes fat_image 3072 512)"
    by (auto simp: sample_fat_file(4) [OF sm])
  have "ram s' 0x10000 = bytes_at (ram s') 0x10000 514 ! 0" "ram s' 0x10200 = bytes_at (ram s') 0x10000 514 ! 512" by simp_all
  then have "ram s' 0x10000 = 3 \<and> ram s' 0x10200 = 6"
    unfolding r(2) by (simp add: nth_append nth_stream_bytes fat_image_def)
  with r(1) show ?thesis by blast
qed

text \<open>The same read on a volume where the two words differ: its last two bytes come from sector 5, not from sector 6.\<close>

theorem fread_takes_wrong_cluster_witness:
  "\<exists>s'. fread (simple_ports other_image) 0x10000 514 1 1 file_machine_0 = Ret (1, s')
    \<and> cluster_chain other_image 1 [2, 5] \<and> ram s' 0x10200 = 0x41 \<and> other_image 6 ! 0 = 6"
proof -
  note sm = file_machine_0_sample and m = sample_fat_mount [OF file_machine_0_sample]
  have chain: "cluster_chain other_image (fat_reserved file_machine_0) [2, 5]" and word: "link_word 65536 other_image (fat_reserved file_machine_0) 2 4"
    by (simp_all add: link_word_def table_entry_def read_pos_def m image_words)
  have ok: "clusters_ok 65536 file_machine_0 3 [2, 4]" by (rule sample_fat_file(1) [OF sm]) simp
  have at: "desc_pos (fat_file_descriptor_at (ram file_machine_0) 0x2000) = 0" using sample_fat_file(2) [OF sm] by simp
  have t: "cluster_size file_machine_0 < 514" "514 \<le> 2 * cluster_size file_machine_0" "(514::nat) < 2147483648" by (simp_all add: m)
  from fread_takes_wrong_cluster [OF file_machine_0_open sample_fat_mounted [OF sm image_length(2)] chain word ok at _ t sample_fat_file(5) [OF sm]]
  obtain s' where r: "fread (simple_ports other_image) 0x10000 514 1 1 file_machine_0 = Ret (1, s')"
    "bytes_at (ram s') 0x10000 514 = stream_bytes other_image 1536 512 @ stream_bytes other_image 2560 2"
    using sample_fat_file(3) [OF sm] by (auto simp: m cluster_pos_def)
  have "ram s' 0x10200 = bytes_at (ram s') 0x10000 514 ! 512" by simp
  then have "ram s' 0x10200 = 0x41"
    unfolding r(2) by (simp add: nth_append nth_stream_bytes other_image_def fat_image_def dir_entry_def)
  then show ?thesis using r(1) chain m by (intro exI [of _ s']) (simp add: other_image_def fat_image_def)
qed

end
