(* ===== verification/ElfLoader.thy ===== *)
theory ElfLoader imports FileSystem
begin

text \<open>
  \<open>src/src/loader/formats/elf.h\<close>, \<open>elf.c\<close> and \<open>elfloader.c\<close>: ELF files in memory, the
  checks on their headers, and the bounds of their loadable segments.
\<close>

section \<open>The headers of a ef\<close>

record elf32_phdr =
  p_type :: u32
  p_offset :: u32
  p_vaddr :: u32
  p_paddr :: u32
  p_filesz :: u32
  p_memsz :: u32
  p_flags :: u32
  p_align :: u32

record elf32_shdr =
  sh_name :: u32
  sh_type :: u32
  sh_flags :: u32
  sh_addr :: u32
  sh_offset :: u32
  sh_size :: u32
  sh_link :: u32
  sh_info :: u32
  sh_addralign :: u32
  sh_entsize :: u32

record elf_header =
  e_ident :: "u8 list"
  e_type :: u16
  e_machine :: u16
  e_version :: u32
  e_entry :: u32
  e_phoff :: u32
  e_shoff :: u32
  e_flags :: u32
  e_ehsize :: u16
  e_phentsize :: u16
  e_phnum :: u16
  e_shentsize :: u16
  e_shnum :: u16
  e_shstrndx :: u16

text \<open>What the packed structs say that lie at an address.\<close>

definition elf32_phdr_at :: "mem \<Rightarrow> u32 \<Rightarrow> elf32_phdr" where
  "elf32_phdr_at m p =
     \<lparr>p_type = load32 m p, p_offset = load32 m (p + 4), p_vaddr = load32 m (p + 8), p_paddr = load32 m (p + 12),
      p_filesz = load32 m (p + 16), p_memsz = load32 m (p + 20), p_flags = load32 m (p + 24), p_align = load32 m (p + 28)\<rparr>"

definition elf32_shdr_at :: "mem \<Rightarrow> u32 \<Rightarrow> elf32_shdr" where
  "elf32_shdr_at m p =
     \<lparr>sh_name = load32 m p, sh_type = load32 m (p + 4), sh_flags = load32 m (p + 8), sh_addr = load32 m (p + 12),
      sh_offset = load32 m (p + 16), sh_size = load32 m (p + 20), sh_link = load32 m (p + 24),
      sh_info = load32 m (p + 28), sh_addralign = load32 m (p + 32), sh_entsize = load32 m (p + 36)\<rparr>"

definition elf_header_at :: "mem \<Rightarrow> u32 \<Rightarrow> elf_header" where
  "elf_header_at m p =
     \<lparr>e_ident = bytes_at m p 16, e_type = load16 m (p + 16), e_machine = load16 m (p + 18),
      e_version = load32 m (p + 20), e_entry = load32 m (p + 24), e_phoff = load32 m (p + 28),
      e_shoff = load32 m (p + 32), e_flags = load32 m (p + 36), e_ehsize = load16 m (p + 40),
      e_phentsize = load16 m (p + 42), e_phnum = load16 m (p + 44), e_shentsize = load16 m (p + 46),
      e_shnum = load16 m (p + 48), e_shstrndx = load16 m (p + 50)\<rparr>"

definition elf_get_entry_ptr :: "mem \<Rightarrow> u32 \<Rightarrow> u32" where
  "elf_get_entry_ptr m hdr = e_entry (elf_header_at m hdr)"

definition elf_get_entry :: "mem \<Rightarrow> u32 \<Rightarrow> u32" where
  "elf_get_entry m hdr = e_entry (elf_header_at m hdr)"

abbreviation (input) PF_W :: u32 where "PF_W \<equiv> 0x02"
abbreviation (input) PT_LOAD :: u32 where "PT_LOAD \<equiv> 1"
abbreviation (input) ET_EXEC :: u16 where "ET_EXEC \<equiv> 2"
abbreviation (input) PEACHOS_PROGRAM_VIRTUAL_ADDRESS :: u32 where "PEACHOS_PROGRAM_VIRTUAL_ADDRESS \<equiv> 0x400000"

section \<open>State\<close>

text \<open>
  The internal representation of a loaded file. The structs live on the kernel heap; the buffer
  of \<open>fstat\<close> on the stack and the literal \<open>"r"\<close> have fixed addresses.
\<close>

record elf_file =
  in_memory_size :: int
  elf_memory :: u32
  virtual_base_address :: u32
  virtual_end_address :: u32
  physical_base_address :: u32
  physical_end_address :: u32

record 'd elf_machine = "'d file_machine" +
  elf_files :: "u32 \<Rightarrow> elf_file option"
  stat_local :: u32
  literal_r :: u32

text \<open>A \<open>struct elf_file\<close> that \<open>kzalloc\<close> has just cleared.\<close>

definition no_elf_file :: elf_file where
  "no_elf_file = \<lparr>in_memory_size = 0, elf_memory = 0, virtual_base_address = 0, virtual_end_address = 0,
     physical_base_address = 0, physical_end_address = 0\<rparr>"

section \<open>Checks and accessors\<close>

definition elf_signature :: "u8 list" where
  "elf_signature = [0x7F, 0x45, 0x4C, 0x46]"

definition elf_valid_signature :: "mem \<Rightarrow> u32 \<Rightarrow> bool" where
  "elf_valid_signature m buffer \<longleftrightarrow> bytes_at m buffer 4 = elf_signature"

definition elf_valid_class :: "elf_header \<Rightarrow> bool" where
  "elf_valid_class hdr \<longleftrightarrow> e_ident hdr ! 4 = 0 \<or> e_ident hdr ! 4 = 1"

definition elf_valid_encoding :: "elf_header \<Rightarrow> bool" where
  "elf_valid_encoding hdr \<longleftrightarrow> e_ident hdr ! 5 = 0 \<or> e_ident hdr ! 5 = 1"

definition elf_is_executable :: "elf_header \<Rightarrow> bool" where
  "elf_is_executable hdr \<longleftrightarrow> e_type hdr = ET_EXEC \<and> e_entry hdr \<ge> PEACHOS_PROGRAM_VIRTUAL_ADDRESS"

definition elf_has_program_header :: "elf_header \<Rightarrow> bool" where
  "elf_has_program_header hdr \<longleftrightarrow> e_phoff hdr \<noteq> 0"

definition elf_sheader :: "mem \<Rightarrow> u32 \<Rightarrow> u32" where
  "elf_sheader m hdr = hdr + e_shoff (elf_header_at m hdr)"

definition elf_pheader :: "mem \<Rightarrow> u32 \<Rightarrow> u32" where
  "elf_pheader m hdr =
     (if e_phoff (elf_header_at m hdr) = 0 then 0 else hdr + e_phoff (elf_header_at m hdr))"

definition elf_program_header :: "mem \<Rightarrow> u32 \<Rightarrow> int \<Rightarrow> u32" where
  "elf_program_header m hdr index = elf_pheader m hdr + 32 * word_of_int index"

definition elf_section_header :: "mem \<Rightarrow> u32 \<Rightarrow> int \<Rightarrow> u32" where
  "elf_section_header m hdr index = elf_sheader m hdr + 40 * word_of_int index"

definition elf_str_table :: "mem \<Rightarrow> u32 \<Rightarrow> u32" where
  "elf_str_table m hdr =
     hdr + sh_offset (elf32_shdr_at m (elf_section_header m hdr (uint (e_shstrndx (elf_header_at m hdr)))))"

definition elf_phdr_phys_address :: "elf_file \<Rightarrow> elf32_phdr \<Rightarrow> u32" where
  "elf_phdr_phys_address ef phdr = elf_memory ef + p_offset phdr"

definition elf_validate_loaded :: "mem \<Rightarrow> u32 \<Rightarrow> int" where
  "elf_validate_loaded m hdr =
     (if elf_valid_signature m hdr \<and> elf_valid_class (elf_header_at m hdr)
         \<and> elf_valid_encoding (elf_header_at m hdr) \<and> elf_has_program_header (elf_header_at m hdr)
      then 0 else err EINFORMAT)"

section \<open>Segments\<close>

text \<open>The struct after the call; the result is always 0.\<close>

definition elf_process_pheader_pt_load :: "elf_file \<Rightarrow> elf32_phdr \<Rightarrow> elf_file" where
  "elf_process_pheader_pt_load ef phdr =
     (let file1 = (if virtual_base_address ef \<ge> p_vaddr phdr \<or> virtual_base_address ef = 0x00
                   then ef\<lparr>virtual_base_address := p_vaddr phdr,
                             physical_base_address := elf_memory ef + p_offset phdr\<rparr>
                   else ef);
          end_virtual_address = p_vaddr phdr + p_filesz phdr
      in if virtual_end_address file1 \<le> end_virtual_address \<or> virtual_end_address file1 = 0x00
         then file1\<lparr>virtual_end_address := end_virtual_address,
                    physical_end_address := elf_memory file1 + p_offset phdr + p_filesz phdr\<rparr>
         else file1)"

definition elf_process_pheader :: "elf_file \<Rightarrow> elf32_phdr \<Rightarrow> elf_file" where
  "elf_process_pheader ef phdr =
     (if p_type phdr = PT_LOAD then elf_process_pheader_pt_load ef phdr else ef)"

text \<open>The loop with \<open>n\<close> headers left from header \<open>i\<close>; no hdr fails.\<close>

primrec process_pheaders_loop :: "mem \<Rightarrow> u32 \<Rightarrow> nat \<Rightarrow> int \<Rightarrow> elf_file \<Rightarrow> elf_file" where
  "process_pheaders_loop m hdr 0 i ef = ef"
| "process_pheaders_loop m hdr (Suc n) i ef =
     process_pheaders_loop m hdr n (i + 1)
       (elf_process_pheader ef (elf32_phdr_at m (elf_program_header m hdr i)))"

definition elf_process_pheaders :: "mem \<Rightarrow> elf_file \<Rightarrow> elf_file" where
  "elf_process_pheaders m ef =
     process_pheaders_loop m (elf_memory ef) (unat (e_phnum (elf_header_at m (elf_memory ef)))) 0 ef"

text \<open>The failure of the validation skips the segments, and the result is 0 all the same.\<close>

definition elf_process_loaded :: "mem \<Rightarrow> elf_file \<Rightarrow> int \<times> elf_file" where
  "elf_process_loaded m ef =
     (if elf_validate_loaded m (elf_memory ef) < 0 then (0, ef) else (0, elf_process_pheaders m ef))"

section \<open>Loading and closing\<close>

text \<open>The statements between the opening of the file and the label \<open>out\<close>.\<close>

definition elf_load_file :: "'d ports \<Rightarrow> int \<Rightarrow> u32 \<Rightarrow> (('d, 'z) elf_machine_scheme, int \<times> u32) prog" where
  "elf_load_file P fd ef =
     kbind (kget stat_local) (\<lambda>stat.
     kbind (fstat P fd stat) (\<lambda>res.
     if res < 0 then kret (res, 0)
     else kbind (kget (\<lambda>s. load32 (ram s) (stat + 4))) (\<lambda>sz.
          kbind (kzalloc sz) (\<lambda>mem.
          kbind (kread ''no elf file'' (\<lambda>s. elf_files s ef)) (\<lambda>f.
          kbind (kmod (\<lambda>s. s\<lparr>elf_files := (elf_files s)(ef \<mapsto> f\<lparr>elf_memory := mem\<rparr>)\<rparr>)) (\<lambda>_.
          kbind (kget (\<lambda>s. load32 (ram s) (stat + 4))) (\<lambda>sz.
          kbind (fread P mem sz 1 fd) (\<lambda>res.
          if res < 0 then kret (res, 0)
          else kbind (kread ''no elf file'' (\<lambda>s. elf_files s ef)) (\<lambda>f.
               kbind (kget (\<lambda>s. elf_process_loaded (ram s) f)) (\<lambda>(res, f').
               kbind (kmod (\<lambda>s. s\<lparr>elf_files := (elf_files s)(ef \<mapsto> f')\<rparr>)) (\<lambda>_.
               if res < 0 then kret (res, 0) else kret (res, ef))))))))))))"

text \<open>The result and the value stored to \<open>*file_out\<close> (0: nothing is stored).\<close>

definition elf_load :: "'d ports \<Rightarrow> u32 \<Rightarrow> (('d, 'z) elf_machine_scheme, int \<times> u32) prog" where
  "elf_load P fname =
     kbind (kzalloc 132) (\<lambda>ef.
     kbind (kmod (\<lambda>s. s\<lparr>elf_files := (elf_files s)(ef \<mapsto> no_elf_file)\<rparr>)) (\<lambda>_.
     kbind (kget literal_r) (\<lambda>mode.
     kbind (fopen P fname mode) (\<lambda>fd.
     if fd \<le> 0 then kbind (fclose P 0) (\<lambda>_. kret (err EIO, 0))
     else kbind (elf_load_file P fd ef) (\<lambda>res.
          kbind (fclose P fd) (\<lambda>_. kret res))))))"

definition elf_close :: "u32 \<Rightarrow> (('d, 'z) elf_machine_scheme, unit) prog" where
  "elf_close ef =
     (if ef = 0 then kret ()
      else kbind (kread ''no elf file'' (\<lambda>s. elf_files s ef)) (\<lambda>f.
           kbind (kfree (elf_memory f)) (\<lambda>_. kfree ef)))"

section \<open>What the loader computes\<close>

text \<open>The loadable program headers of a file, in order.\<close>

definition load_headers :: "mem \<Rightarrow> u32 \<Rightarrow> nat \<Rightarrow> elf32_phdr list" where
  "load_headers m hdr n =
     filter (\<lambda>ph. p_type ph = PT_LOAD) (map (\<lambda>i. elf32_phdr_at m (elf_program_header m hdr (int i))) [0..<n])"

lemma process_pheaders_fold:
  "process_pheaders_loop m hdr n (int i) ef
    = foldl elf_process_pheader_pt_load ef
        (filter (\<lambda>ph. p_type ph = PT_LOAD) (map (\<lambda>j. elf32_phdr_at m (elf_program_header m hdr (int j))) [i..<i + n]))"
proof (induction n arbitrary: i ef)
  case (Suc n)
  have u: "[i..<i + Suc n] = i # [Suc i..<Suc i + n]" by (simp add: upt_conv_Cons)
  have s: "int i + 1 = int (Suc i)" by simp
  show ?case unfolding u process_pheaders_loop.simps s Suc.IH by (simp add: elf_process_pheader_def)
qed simp

text \<open>
  The invariant of the loop over segments: after the segments \<open>phs\<close>, the bounds are the lowest
  start and the highest end, and the physical bounds are those of the segments that attain them.
\<close>

definition bounds_of :: "elf_file \<Rightarrow> elf32_phdr list \<Rightarrow> bool" where
  "bounds_of ef phs \<longleftrightarrow>
     (if phs = [] then virtual_base_address ef = 0 \<and> virtual_end_address ef = 0
      else (\<exists>ph \<in> set phs. virtual_base_address ef = p_vaddr ph \<and> physical_base_address ef = elf_memory ef + p_offset ph)
         \<and> (\<forall>ph \<in> set phs. virtual_base_address ef \<le> p_vaddr ph)
         \<and> (\<exists>ph \<in> set phs. virtual_end_address ef = p_vaddr ph + p_filesz ph
              \<and> physical_end_address ef = elf_memory ef + p_offset ph + p_filesz ph)
         \<and> (\<forall>ph \<in> set phs. p_vaddr ph + p_filesz ph \<le> virtual_end_address ef))"

lemma bounds_of_step:
  assumes "bounds_of ef phs" "\<And>q. q \<in> set (phs @ [ph]) \<Longrightarrow> 0 < p_vaddr q \<and> 0 < p_vaddr q + p_filesz q"
  shows "bounds_of (elf_process_pheader_pt_load ef ph) (phs @ [ph])"
proof (cases "phs = []")
  case True
  then show ?thesis using assms by (simp add: bounds_of_def elf_process_pheader_pt_load_def Let_def)
next
  case False
  note inv = assms(1) [unfolded bounds_of_def, simplified False if_False]
  have pos: "virtual_base_address ef \<noteq> 0" "virtual_end_address ef \<noteq> 0"
  proof -
    from inv obtain q r where "q \<in> set phs" "virtual_base_address ef = p_vaddr q" "r \<in> set phs"
      "virtual_end_address ef = p_vaddr r + p_filesz r" by blast
    with assms(2) [of q] assms(2) [of r] show "virtual_base_address ef \<noteq> 0" "virtual_end_address ef \<noteq> 0" by auto
  qed
  show ?thesis
    using inv pos False
    unfolding bounds_of_def elf_process_pheader_pt_load_def Let_def
    by (auto simp: not_le intro: order.trans less_imp_le)
qed

lemma bounds_of_fold:
  assumes "bounds_of ef phs" "\<And>q. q \<in> set (phs @ qs) \<Longrightarrow> 0 < p_vaddr q \<and> 0 < p_vaddr q + p_filesz q"
  shows "bounds_of (foldl elf_process_pheader_pt_load ef qs) (phs @ qs)"
  using assms
proof (induction qs arbitrary: ef phs)
  case (Cons q qs)
  have "bounds_of (elf_process_pheader_pt_load ef q) (phs @ [q])"
    using Cons.prems by (intro bounds_of_step) auto
  from Cons.IH [OF this] Cons.prems(2) show ?case by simp
qed simp

lemma fold_keeps_memory: "elf_memory (foldl elf_process_pheader_pt_load ef qs) = elf_memory ef"
  by (induction qs arbitrary: ef) (simp_all add: elf_process_pheader_pt_load_def Let_def)

text \<open>
  C38: for a file that passes the validation and has a loadable segment, none of whose loadable
  segments starts or ends at address 0, the loader computes the exact bounds of the loadable
  segments: the virtual base is the lowest start of a segment and the virtual end the highest end,
  and the physical bounds are the places in the loaded file of a segment that attains them.
\<close>

theorem elf_segment_bounds:
  assumes "elf_validate_loaded m (elf_memory ef) = 0"
    and "virtual_base_address ef = 0" "virtual_end_address ef = 0"
  defines "phs \<equiv> load_headers m (elf_memory ef) (unat (e_phnum (elf_header_at m (elf_memory ef))))"
  assumes "phs \<noteq> []" and "\<And>ph. ph \<in> set phs \<Longrightarrow> p_vaddr ph \<noteq> 0 \<and> p_vaddr ph + p_filesz ph \<noteq> 0"
  shows "fst (elf_process_loaded m ef) = 0
    \<and> (\<forall>ph \<in> set phs. virtual_base_address (snd (elf_process_loaded m ef)) \<le> p_vaddr ph
          \<and> p_vaddr ph + p_filesz ph \<le> virtual_end_address (snd (elf_process_loaded m ef)))
    \<and> (\<exists>ph \<in> set phs. virtual_base_address (snd (elf_process_loaded m ef)) = p_vaddr ph
          \<and> physical_base_address (snd (elf_process_loaded m ef)) = elf_memory ef + p_offset ph)
    \<and> (\<exists>ph \<in> set phs. virtual_end_address (snd (elf_process_loaded m ef)) = p_vaddr ph + p_filesz ph
          \<and> physical_end_address (snd (elf_process_loaded m ef)) = elf_memory ef + p_offset ph + p_filesz ph)"
proof -
  have run: "elf_process_loaded m ef = (0, foldl elf_process_pheader_pt_load ef phs)"
    using assms(1) process_pheaders_fold [of m "elf_memory ef" _ 0 ef]
    by (simp add: elf_process_loaded_def elf_process_pheaders_def phs_def load_headers_def)
  have "bounds_of ef []" using assms(2,3) by (simp add: bounds_of_def)
  then have "bounds_of (foldl elf_process_pheader_pt_load ef phs) ([] @ phs)"
    using assms(6) by (intro bounds_of_fold) (auto simp: word_neq_0_conv)
  then show ?thesis
    using assms(5) unfolding run bounds_of_def by (simp add: fold_keeps_memory)
qed

text \<open>
  the failure of the validation never reaches the caller: processing a loaded file returns 0
  for every content of memory, and a file that is not a valid ELF file keeps all its bounds unset.
\<close>

lemma elf_process_loaded_hides_format:
  "fst (elf_process_loaded m ef) = 0
    \<and> snd (elf_process_loaded m ef) = (if elf_validate_loaded m (elf_memory ef) = err EINFORMAT then ef else elf_process_pheaders m ef)"
  by (auto simp: elf_process_loaded_def elf_validate_loaded_def)

text \<open>A file at 0x1000 with two loadable segments and a note between them.\<close>

definition elf_memory_0 :: mem where
  "elf_memory_0 = (\<lambda>_. 0)(0x1000 := 0x7F, 0x1001 := 0x45, 0x1002 := 0x4C, 0x1003 := 0x46, 0x1004 := 1, 0x1005 := 1,
     0x101C := 0x34, 0x102C := 3, 0x1034 := 1, 0x1039 := 0x10, 0x103E := 0x50, 0x1045 := 2, 0x1054 := 4,
     0x1074 := 1, 0x1079 := 0x20, 0x107E := 0x40, 0x1085 := 1)"

definition elf_file_0 :: elf_file where
  "elf_file_0 = no_elf_file\<lparr>elf_memory := 0x1000\<rparr>"

lemma elf_memory_0_headers:
  "elf_validate_loaded elf_memory_0 0x1000 = 0" "e_phnum (elf_header_at elf_memory_0 0x1000) = 3"
  "load_headers elf_memory_0 0x1000 3 =
     [\<lparr>p_type = 1, p_offset = 0x1000, p_vaddr = 0x500000, p_paddr = 0, p_filesz = 0x200, p_memsz = 0, p_flags = 0, p_align = 0\<rparr>,
      \<lparr>p_type = 1, p_offset = 0x2000, p_vaddr = 0x400000, p_paddr = 0, p_filesz = 0x100, p_memsz = 0, p_flags = 0, p_align = 0\<rparr>]"
proof -
  have ph: "e_phoff (elf_header_at elf_memory_0 0x1000) = 0x34"
    by (simp add: elf_header_at_def elf_memory_0_def load32_def)
  show "e_phnum (elf_header_at elf_memory_0 0x1000) = 3"
    by (simp add: elf_header_at_def elf_memory_0_def load16_def)
  show "elf_validate_loaded elf_memory_0 0x1000 = 0"
    using ph by (simp add: elf_validate_loaded_def elf_valid_signature_def elf_valid_class_def elf_valid_encoding_def
        elf_has_program_header_def elf_signature_def bytes_at_def upt_rec)
      (simp add: elf_header_at_def elf_memory_0_def bytes_at_def upt_rec)
  show "load_headers elf_memory_0 0x1000 3 =
     [\<lparr>p_type = 1, p_offset = 0x1000, p_vaddr = 0x500000, p_paddr = 0, p_filesz = 0x200, p_memsz = 0, p_flags = 0, p_align = 0\<rparr>,
      \<lparr>p_type = 1, p_offset = 0x2000, p_vaddr = 0x400000, p_paddr = 0, p_filesz = 0x100, p_memsz = 0, p_flags = 0, p_align = 0\<rparr>]"
    using ph by (simp add: load_headers_def elf_program_header_def elf_pheader_def upt_rec elf32_phdr_at_def)
      (simp add: elf_memory_0_def load32_def)
qed

theorem elf_segment_bounds_witness:
  "virtual_base_address (snd (elf_process_loaded elf_memory_0 elf_file_0)) = 0x400000
    \<and> virtual_end_address (snd (elf_process_loaded elf_memory_0 elf_file_0)) = 0x500200"
proof -
  have f: "elf_memory elf_file_0 = 0x1000" "virtual_base_address elf_file_0 = 0" "virtual_end_address elf_file_0 = 0"
    by (simp_all add: elf_file_0_def no_elf_file_def)
  have n: "load_headers elf_memory_0 (elf_memory elf_file_0) (unat (e_phnum (elf_header_at elf_memory_0 (elf_memory elf_file_0))))
      = load_headers elf_memory_0 0x1000 3"
    by (simp add: f elf_memory_0_headers)
  have v: "elf_validate_loaded elf_memory_0 (elf_memory elf_file_0) = 0" by (simp add: f elf_memory_0_headers)
  note app = elf_segment_bounds [OF v f(2,3), unfolded n elf_memory_0_headers(3)]
  have ne: "p_vaddr ph \<noteq> 0 \<and> p_vaddr ph + p_filesz ph \<noteq> 0" if "ph \<in> set (load_headers elf_memory_0 0x1000 3)" for ph
    using that unfolding elf_memory_0_headers(3) by auto
  show ?thesis using app [OF _ ne [unfolded elf_memory_0_headers(3)]] by auto
qed

end
