(* ===== verification/Task.thy ===== *)
theory Task imports ElfLoader
begin

text \<open>
  \<open>src/src/task/task.c\<close>: tasks, the list the scheduler walks, and the access of the kernel to
  the memory of a task through its page directory. Entering a task is the last thing that kernel
  code does, so the routines that end in \<open>task_return\<close> say so in their result.
\<close>

section \<open>State\<close>

record registers =
  edi :: u32
  esi :: u32
  ebp :: u32
  ebx :: u32
  edx :: u32
  ecx :: u32
  eax :: u32
  ip :: u32
  cs :: u32
  flags :: u32
  esp :: u32
  ss :: u32

record task =
  page_directory :: u32
  regs :: registers
  owner :: u32
  next_task :: u32
  prev_task :: u32

abbreviation (input) PROCESS_FILETYPE_ELF :: u8 where "PROCESS_FILETYPE_ELF \<equiv> 0"
abbreviation (input) PROCESS_FILETYPE_BINARY :: u8 where "PROCESS_FILETYPE_BINARY \<equiv> 1"

text \<open>
  A \<open>struct process\<close>. The name stays in memory, at offset 2 of the struct; \<open>program\<close> is the
  union of the pointer to the program and the pointer to its \<open>elf_file\<close>.
\<close>

record process =
  process_id :: u16
  main_task :: u32
  active_allocations :: int
  allocations :: "(u32 \<times> u32) list"
  process_type :: u8
  program :: u32
  stack :: u32
  program_size :: u32
  key_buffer :: "u8 list"
  key_tail :: int
  key_head :: int
  argc :: int
  argv :: u32

text \<open>
  \<open>data_selector\<close> is what the segment registers hold, \<open>eflags\<close> the flags of the processor while it
  runs kernel code, \<open>entered\<close> the registers that the last \<open>task_return\<close> loaded.
\<close>

record 'd task_machine = "'d elf_machine" +
  kernel_chunk :: u32
  data_selector :: u16
  eflags :: u32
  entered :: registers
  current_task :: u32
  task_head :: u32
  task_tail :: u32
  tasks :: "u32 \<Rightarrow> task option"
  procs :: "u32 \<Rightarrow> process option"

abbreviation (input) USER_DATA_SEGMENT :: u32 where "USER_DATA_SEGMENT \<equiv> 0x23"
abbreviation (input) USER_CODE_SEGMENT :: u32 where "USER_CODE_SEGMENT \<equiv> 0x1B"
abbreviation (input) PROGRAM_STACK_START :: u32 where "PROGRAM_STACK_START \<equiv> 0x3FF000"
abbreviation (input) PAGING_IS_PRESENT :: int where "PAGING_IS_PRESENT \<equiv> 1"
abbreviation (input) PAGING_IS_WRITEABLE :: int where "PAGING_IS_WRITEABLE \<equiv> 2"
abbreviation (input) PAGING_ACCESS_FROM_ALL :: int where "PAGING_ACCESS_FROM_ALL \<equiv> 4"

definition no_registers :: registers where
  "no_registers = \<lparr>edi = 0, esi = 0, ebp = 0, ebx = 0, edx = 0, ecx = 0, eax = 0, ip = 0, cs = 0, flags = 0, esp = 0, ss = 0\<rparr>"

definition no_task :: task where
  "no_task = \<lparr>page_directory = 0, regs = no_registers, owner = 0, next_task = 0, prev_task = 0\<rparr>"

text \<open>The code runs on either to the next statement, or into a task for good.\<close>

datatype 'a exit = Back 'a | Entered

definition update_task :: "u32 \<Rightarrow> (task \<Rightarrow> task) \<Rightarrow> (('d, 'z) task_machine_scheme, unit) prog" where
  "update_task t f =
     kbind (kread ''no task'' (\<lambda>s. tasks s t)) (\<lambda>tk. kmod (\<lambda>s. s\<lparr>tasks := (tasks s)(t \<mapsto> f tk)\<rparr>))"

section \<open>Assembly routines\<close>

text \<open>\<open>user_registers\<close>, \<open>kernel_registers\<close> and \<open>task_return\<close>: the effect on the processor.\<close>

definition user_registers :: "(('d, 'z) task_machine_scheme, unit) prog" where
  "user_registers = kmod (\<lambda>s. s\<lparr>data_selector := 0x23\<rparr>)"

definition kernel_page :: "(('d, 'z) task_machine_scheme, unit) prog" where
  "kernel_page =
     kbind (kmod (\<lambda>s. s\<lparr>data_selector := 0x10\<rparr>)) (\<lambda>_.
     kbind (kget kernel_chunk) paging_switch)"

text \<open>The flags that the task gets are those of the kernel with interrupts enabled.\<close>

definition task_return :: "u32 \<Rightarrow> (('d, 'z) task_machine_scheme, 'a exit) prog" where
  "task_return t =
     kbind (kread ''no task'' (\<lambda>s. tasks s t)) (\<lambda>tk.
     kbind (kmod (\<lambda>s. s\<lparr>entered := (regs tk)\<lparr>flags := eflags s OR 0x200\<rparr>, data_selector := ucast (ss (regs tk))\<rparr>)) (\<lambda>_.
     kret Entered))"

section \<open>The list of tasks\<close>

definition task_get_next :: "(('d, 'z) task_machine_scheme, u32) prog" where
  "task_get_next =
     kbind (kget current_task) (\<lambda>cur.
     kbind (kread ''no task'' (\<lambda>s. tasks s cur)) (\<lambda>tk.
     if next_task tk = 0 then kget task_head else kret (next_task tk)))"

definition task_list_remove :: "u32 \<Rightarrow> (('d, 'z) task_machine_scheme, unit) prog" where
  "task_list_remove t =
     kbind (kread ''no task'' (\<lambda>s. tasks s t)) (\<lambda>tk.
     kbind (if prev_task tk \<noteq> 0 then update_task (prev_task tk) (\<lambda>p. p\<lparr>next_task := next_task tk\<rparr>) else kret ()) (\<lambda>_.
     kbind (kmod (\<lambda>s. if t = task_head s then s\<lparr>task_head := next_task tk\<rparr> else s)) (\<lambda>_.
     kbind (kmod (\<lambda>s. if t = task_tail s then s\<lparr>task_tail := prev_task tk\<rparr> else s)) (\<lambda>_.
     kbind (kget current_task) (\<lambda>cur.
     if t = cur then kbind task_get_next (\<lambda>n. kmod (\<lambda>s. s\<lparr>current_task := n\<rparr>)) else kret ())))))"

text \<open>A struct on the heap is gone once it is freed: reading it afterwards is undefined.\<close>

definition task_free :: "u32 \<Rightarrow> (('d, 'z) task_machine_scheme, int) prog" where
  "task_free t =
     kbind (kread ''no task'' (\<lambda>s. tasks s t)) (\<lambda>tk.
     kbind (paging_free_4gb (page_directory tk)) (\<lambda>_.
     kbind (task_list_remove t) (\<lambda>_.
     kbind (kfree t) (\<lambda>_.
     kbind (kmod (\<lambda>s. s\<lparr>tasks := (tasks s)(t := None)\<rparr>)) (\<lambda>_. kret 0)))))"

definition task_init :: "u32 \<Rightarrow> u32 \<Rightarrow> (('d, 'z) task_machine_scheme, int) prog" where
  "task_init t process =
     kbind (kmod (\<lambda>s. s\<lparr>tasks := (tasks s)(t \<mapsto> no_task)\<rparr>)) (\<lambda>_.
     kbind (paging_new_4gb (word_of_int (PAGING_IS_PRESENT OR PAGING_ACCESS_FROM_ALL))) (\<lambda>dir.
     kbind (update_task t (\<lambda>tk. tk\<lparr>page_directory := dir\<rparr>)) (\<lambda>_.
     if dir = 0 then kret (err EIO)
     else kbind (kread ''no process'' (\<lambda>s. procs s process)) (\<lambda>p.
          kbind (if process_type p = PROCESS_FILETYPE_ELF
                 then kbind (kread ''no elf file'' (\<lambda>s. elf_files s (program p))) (\<lambda>ef.
                      kget (\<lambda>s. e_entry (elf_header_at (ram s) (elf_memory ef))))
                 else kret PEACHOS_PROGRAM_VIRTUAL_ADDRESS) (\<lambda>entry.
          kbind (update_task t (\<lambda>tk. tk\<lparr>regs := (regs tk)\<lparr>ip := entry, ss := USER_DATA_SEGMENT, cs := USER_CODE_SEGMENT,
                                            esp := PROGRAM_STACK_START\<rparr>, owner := process\<rparr>)) (\<lambda>_.
          kret 0))))))"

text \<open>The address of the task, or an error code as a pointer.\<close>

definition task_new :: "u32 \<Rightarrow> (('d, 'z) task_machine_scheme, u32) prog" where
  "task_new process =
     kbind (kzalloc 64) (\<lambda>t.
     if t = 0 then kbind (task_free t) (\<lambda>_. kret (word_of_int (err ENOMEM)))
     else kbind (task_init t process) (\<lambda>res.
     if res \<noteq> 0 then kbind (if res < 0 then task_free t else kret 0) (\<lambda>_. kret (if res < 0 then word_of_int res else t))
     else kbind (kget task_head) (\<lambda>hd.
          if hd = 0 then kbind (kmod (\<lambda>s. s\<lparr>task_head := t, task_tail := t, current_task := t\<rparr>)) (\<lambda>_. kret t)
          else kbind (kget task_tail) (\<lambda>tl.
               kbind (update_task tl (\<lambda>tk. tk\<lparr>next_task := t\<rparr>)) (\<lambda>_.
               kbind (update_task t (\<lambda>tk. tk\<lparr>prev_task := tl\<rparr>)) (\<lambda>_.
               kbind (kmod (\<lambda>s. s\<lparr>task_tail := t\<rparr>)) (\<lambda>_. kret t)))))))"

section \<open>Saving and switching\<close>

record interrupt_frame =
  f_edi :: u32
  f_esi :: u32
  f_ebp :: u32
  f_reserved :: u32
  f_ebx :: u32
  f_edx :: u32
  f_ecx :: u32
  f_eax :: u32
  f_ip :: u32
  f_cs :: u32
  f_flags :: u32
  f_esp :: u32
  f_ss :: u32

definition save_frame :: "interrupt_frame \<Rightarrow> registers \<Rightarrow> registers" where
  "save_frame frame r = r\<lparr>ip := f_ip frame, cs := f_cs frame, flags := f_flags frame, esp := f_esp frame,
     ss := f_ss frame, eax := f_eax frame, ebp := f_ebp frame, ebx := f_ebx frame, ecx := f_ecx frame,
     edi := f_edi frame, edx := f_edx frame, esi := f_esi frame\<rparr>"

text \<open>The registers that an interrupt frame holds, one by one.\<close>

definition frame_registers :: "interrupt_frame \<Rightarrow> registers" where
  "frame_registers f = \<lparr>edi = f_edi f, esi = f_esi f, ebp = f_ebp f, ebx = f_ebx f, edx = f_edx f, ecx = f_ecx f, eax = f_eax f,
     ip = f_ip f, cs = f_cs f, flags = f_flags f, esp = f_esp f, ss = f_ss f\<rparr>"

lemma save_frame_registers: "save_frame f r = frame_registers f"
  by (cases r) (simp add: save_frame_def frame_registers_def)

definition task_save_frame :: "u32 \<Rightarrow> interrupt_frame \<Rightarrow> (('d, 'z) task_machine_scheme, unit) prog" where
  "task_save_frame t frame = update_task t (\<lambda>tk. tk\<lparr>regs := save_frame frame (regs tk)\<rparr>)"

definition task_current_save_state :: "interrupt_frame \<Rightarrow> (('d, 'z) task_machine_scheme, unit) prog" where
  "task_current_save_state frame =
     kbind (kget current_task) (\<lambda>cur.
     if cur = 0 then kpanic ''No current task to save'' else task_save_frame cur frame)"

definition task_switch :: "u32 \<Rightarrow> (('d, 'z) task_machine_scheme, int) prog" where
  "task_switch t =
     kbind (kmod (\<lambda>s. s\<lparr>current_task := t\<rparr>)) (\<lambda>_.
     kbind (kread ''no task'' (\<lambda>s. tasks s t)) (\<lambda>tk.
     kbind (paging_switch (page_directory tk)) (\<lambda>_. kret 0)))"

definition task_page :: "(('d, 'z) task_machine_scheme, int) prog" where
  "task_page =
     kbind user_registers (\<lambda>_. kbind (kget current_task) (\<lambda>cur. kbind (task_switch cur) (\<lambda>_. kret 0)))"

definition task_page_task :: "u32 \<Rightarrow> (('d, 'z) task_machine_scheme, int) prog" where
  "task_page_task t =
     kbind user_registers (\<lambda>_.
     kbind (kread ''no task'' (\<lambda>s. tasks s t)) (\<lambda>tk.
     kbind (paging_switch (page_directory tk)) (\<lambda>_. kret 0)))"

definition task_next :: "(('d, 'z) task_machine_scheme, 'a exit) prog" where
  "task_next =
     kbind task_get_next (\<lambda>nxt.
     if nxt = 0 then kpanic ''task_next(): No more tasks''
     else kbind (task_switch nxt) (\<lambda>_. task_return nxt))"

definition task_run_first_ever_task :: "(('d, 'z) task_machine_scheme, 'a exit) prog" where
  "task_run_first_ever_task =
     kbind (kget current_task) (\<lambda>cur.
     if cur = 0 then kpanic ''task_run_first_ever_task(): No current task exists''
     else kbind (kget task_head) (\<lambda>hd.
          kbind (task_switch hd) (\<lambda>_. task_return hd)))"

section \<open>The memory of a task\<close>

text \<open>
  The translation of the processor with the directory in \<open>cr3\<close>: a page that is not present
  raises a page fault.
\<close>

definition translate :: "mem \<Rightarrow> u32 \<Rightarrow> u32 \<Rightarrow> u32 option" where
  "translate m directory a =
     (if paging_get m directory (paging_align_to_lower_page a) AND 1 = 0 then None
      else Some (paging_get_physical_address m directory a))"

text \<open>\<open>strncpy\<close> with both pointers seen through a directory, with \<open>n\<close> rounds left.\<close>

fun strncpy_in :: "u32 \<Rightarrow> mem \<Rightarrow> u32 \<Rightarrow> u32 \<Rightarrow> nat \<Rightarrow> mem option" where
  "strncpy_in directory m dest src 0 =
     (case translate m directory dest of None \<Rightarrow> None | Some d \<Rightarrow> Some (m(d := 0)))"
| "strncpy_in directory m dest src (Suc n) =
     (case translate m directory src of None \<Rightarrow> None
      | Some p \<Rightarrow> (case translate m directory dest of None \<Rightarrow> None
        | Some d \<Rightarrow> if m p = 0 then Some (m(d := 0))
                    else strncpy_in directory (m(d := m p)) (dest + 1) (src + 1) n))"

text \<open>A word read through a directory.\<close>

definition load32_in :: "mem \<Rightarrow> u32 \<Rightarrow> u32 \<Rightarrow> u32 option" where
  "load32_in m directory a =
     (case (translate m directory a, translate m directory (a + 1), translate m directory (a + 2), translate m directory (a + 3)) of
        (Some a0, Some a1, Some a2, Some a3) \<Rightarrow>
          Some (ucast (m a0) OR push_bit 8 (ucast (m a1)) OR push_bit 16 (ucast (m a2)) OR push_bit 24 (ucast (m a3)))
      | _ \<Rightarrow> None)"

definition copy_string_from_task :: "u32 \<Rightarrow> u32 \<Rightarrow> u32 \<Rightarrow> int \<Rightarrow> (('d, 'z) task_machine_scheme, int) prog" where
  "copy_string_from_task t virtual physical mx =
     (if mx \<ge> 4096 then kret (err EINVARG)
      else kbind (kzalloc (word_of_int mx)) (\<lambda>tmp.
           if tmp = 0 then kret (err ENOMEM)
           else kbind (kread ''no task'' (\<lambda>s. tasks s t)) (\<lambda>tk.
                kbind (kget (\<lambda>s. paging_4gb_chunk_get_directory (ram s) (page_directory tk))) (\<lambda>task_directory.
                kbind (kget (\<lambda>s. paging_get (ram s) task_directory tmp)) (\<lambda>old_entry.
                kbind (kmod (\<lambda>s. s\<lparr>ram := snd (paging_map (ram s) (page_directory tk) tmp tmp
                        (PAGING_IS_WRITEABLE OR PAGING_IS_PRESENT OR PAGING_ACCESS_FROM_ALL))\<rparr>)) (\<lambda>_.
                kbind (paging_switch (page_directory tk)) (\<lambda>_.
                kbind (kread ''page fault'' (\<lambda>s. strncpy_in (cr3 s) (ram s) tmp virtual (nat (i32 (mx - 1))))) (\<lambda>m.
                kbind (kmod (\<lambda>s. s\<lparr>ram := m\<rparr>)) (\<lambda>_.
                kbind kernel_page (\<lambda>_.
                kbind (kget (\<lambda>s. fst (paging_set (ram s) task_directory tmp old_entry))) (\<lambda>res.
                kbind (kmod (\<lambda>s. s\<lparr>ram := snd (paging_set (ram s) task_directory tmp old_entry)\<rparr>)) (\<lambda>_.
                if res < 0 then kbind (kfree tmp) (\<lambda>_. kret (err EIO))
                else kbind (kmod (\<lambda>s. s\<lparr>ram := strncpy (ram s) physical tmp mx\<rparr>)) (\<lambda>_.
                     kbind (kfree tmp) (\<lambda>_. kret res))))))))))))))"

definition task_get_stack_item :: "u32 \<Rightarrow> int \<Rightarrow> (('d, 'z) task_machine_scheme, u32) prog" where
  "task_get_stack_item t index =
     kbind (kread ''no task'' (\<lambda>s. tasks s t)) (\<lambda>tk.
     kbind (task_page_task t) (\<lambda>_.
     kbind (kread ''page fault'' (\<lambda>s. load32_in (ram s) (cr3 s) (esp (regs tk) + 4 * word_of_int index))) (\<lambda>result.
     kbind kernel_page (\<lambda>_. kret result))))"

definition task_virtual_address_to_physical :: "u32 \<Rightarrow> u32 \<Rightarrow> (('d, 'z) task_machine_scheme, u32) prog" where
  "task_virtual_address_to_physical t virtual_address =
     kbind (kread ''no task'' (\<lambda>s. tasks s t)) (\<lambda>tk.
     kget (\<lambda>s. paging_get_physical_address (ram s) (paging_4gb_chunk_get_directory (ram s) (page_directory tk)) virtual_address))"

end
