(* ===== verification/Process.thy ===== *)
theory Process imports Task
begin

text \<open>
  \<open>src/src/task/process.c\<close>: the table of processes, their memory, their arguments, and the
  loading and termination of programs.
\<close>

section \<open>State\<close>

record 'd process_machine = "'d task_machine" +
  current_process :: u32
  processes :: "u32 list"

abbreviation (input) PEACHOS_MAX_PROGRAM_ALLOCATIONS :: nat where "PEACHOS_MAX_PROGRAM_ALLOCATIONS \<equiv> 1024"
abbreviation (input) PEACHOS_MAX_PROCESSES :: nat where "PEACHOS_MAX_PROCESSES \<equiv> 12"
abbreviation (input) USER_PROGRAM_STACK_SIZE :: u32 where "USER_PROGRAM_STACK_SIZE \<equiv> 16384"
abbreviation (input) PROGRAM_STACK_END :: u32 where "PROGRAM_STACK_END \<equiv> 0x3FB000"
abbreviation (input) KEYBOARD_BUFFER_SIZE :: nat where "KEYBOARD_BUFFER_SIZE \<equiv> 1024"

text \<open>A struct after \<open>memset(process, 0, sizeof(struct process))\<close>.\<close>

definition no_process :: process where
  "no_process = \<lparr>process_id = 0, main_task = 0, active_allocations = 0,
     allocations = replicate PEACHOS_MAX_PROGRAM_ALLOCATIONS (0, 0), process_type = 0, program = 0, stack = 0,
     program_size = 0, key_buffer = replicate KEYBOARD_BUFFER_SIZE 0, key_tail = 0, key_head = 0, argc = 0, argv = 0\<rparr>"

text \<open>The field \<open>filename\<close> of a struct, and the string at an address.\<close>

definition name_of :: "u32 \<Rightarrow> u32" where
  "name_of process = process + 2"

definition string_at :: "u32 \<Rightarrow> ('z machine_scheme, u8 list) prog" where
  "string_at p s = (case strlen (ram s) p of None \<Rightarrow> Hang | Some n \<Rightarrow> Ret (bytes_at (ram s) p (unat n), s))"

definition on_screen :: "(terminal \<Rightarrow> terminal) \<Rightarrow> ('z machine_scheme, unit) prog" where
  "on_screen f = kmod (\<lambda>s. s\<lparr>screen := f (screen s)\<rparr>)"

definition on_screen_printf :: "u8 list \<Rightarrow> printf_arg list \<Rightarrow> ('z machine_scheme, unit) prog" where
  "on_screen_printf fmt args s =
     (case printf fmt args (screen s) of Ret t \<Rightarrow> Ret ((), s\<lparr>screen := t\<rparr>)
      | Panic e \<Rightarrow> Panic e | Fault e \<Rightarrow> Fault e | Hang \<Rightarrow> Hang)"

definition proc :: "u32 \<Rightarrow> (('d, 'z) task_machine_scheme, process) prog" where
  "proc p = kread ''no process'' (\<lambda>s. procs s p)"

definition update_process :: "u32 \<Rightarrow> (process \<Rightarrow> process) \<Rightarrow> (('d, 'z) task_machine_scheme, unit) prog" where
  "update_process p f = kbind (proc p) (\<lambda>pr. kmod (\<lambda>s. s\<lparr>procs := (procs s)(p \<mapsto> f pr)\<rparr>))"

section \<open>The table\<close>

definition process_init :: "u32 \<Rightarrow> (('d, 'z) process_machine_scheme, unit) prog" where
  "process_init p = kmod (\<lambda>s. s\<lparr>ram := memset (ram s) p 0 9368, procs := (procs s)(p \<mapsto> no_process)\<rparr>)"

definition process_get :: "int \<Rightarrow> ('d, 'z) process_machine_scheme \<Rightarrow> u32" where
  "process_get pid s = (if pid < 0 \<or> pid \<ge> int PEACHOS_MAX_PROCESSES then 0 else processes s ! nat pid)"

definition process_switch :: "u32 \<Rightarrow> (('d, 'z) process_machine_scheme, int) prog" where
  "process_switch p = kbind (kmod (\<lambda>s. s\<lparr>current_process := p\<rparr>)) (\<lambda>_. kret 0)"

section \<open>Memory of a process\<close>

text \<open>The first entry from \<open>i\<close> on whose pointer satisfies a test.\<close>

fun find_allocation :: "(u32 \<Rightarrow> bool) \<Rightarrow> (u32 \<times> u32) list \<Rightarrow> nat \<Rightarrow> nat option" where
  "find_allocation test [] i = None"
| "find_allocation test (a # as) i = (if test (fst a) then Some i else find_allocation test as (Suc i))"

definition process_find_free_allocation_index :: "u32 \<Rightarrow> (('d, 'z) process_machine_scheme, int) prog" where
  "process_find_free_allocation_index p =
     kbind (proc p) (\<lambda>pr.
     case find_allocation (\<lambda>q. q = 0) (allocations pr) 0 of
       Some i \<Rightarrow> kret (int i)
     | None \<Rightarrow> kbind (on_screen (println (map of_char ''Error''))) (\<lambda>_. kret (err ENOMEM)))"

definition process_malloc :: "u32 \<Rightarrow> u32 \<Rightarrow> (('d, 'z) process_machine_scheme, u32) prog" where
  "process_malloc p sz =
     kbind (kzalloc sz) (\<lambda>ptr.
     if ptr = 0 then kret 0
     else kbind (process_find_free_allocation_index p) (\<lambda>index.
          if index < 0 then kpanic ''process_malloc: Allocation not successful''
          else kbind (proc p) (\<lambda>pr.
               kbind (kread ''no task'' (\<lambda>s. tasks s (main_task pr))) (\<lambda>tk.
               kbind (kget (\<lambda>s. paging_map_to (ram s) (page_directory tk) ptr ptr (paging_align_address (ptr + sz))
                     (PAGING_IS_WRITEABLE OR PAGING_IS_PRESENT OR PAGING_ACCESS_FROM_ALL))) (\<lambda>(res, m).
               kbind (kmod (\<lambda>s. s\<lparr>ram := m\<rparr>)) (\<lambda>_.
               if res < 0 then kbind (kfree ptr) (\<lambda>_. kret 0)
               else kbind (update_process p (\<lambda>pr. pr\<lparr>allocations := (allocations pr)[nat index := (ptr, sz)],
                                                   active_allocations := active_allocations pr + 1\<rparr>)) (\<lambda>_.
                    kret ptr)))))))"

definition process_ptr_belongs_to_process :: "process \<Rightarrow> u32 \<Rightarrow> bool" where
  "process_ptr_belongs_to_process pr ptr = (find_allocation (\<lambda>q. q = ptr) (allocations pr) 0 \<noteq> None)"

definition process_allocation_unjoin :: "u32 \<Rightarrow> process \<Rightarrow> process" where
  "process_allocation_unjoin ptr pr =
     pr\<lparr>allocations := map (\<lambda>a. if fst a = ptr then (0, 0) else a) (allocations pr)\<rparr>"

text \<open>The entry with an address, if there is one.\<close>

definition process_get_allocation_by_addr :: "process \<Rightarrow> u32 \<Rightarrow> (u32 \<times> u32) option" where
  "process_get_allocation_by_addr pr addr =
     map_option ((!) (allocations pr)) (find_allocation (\<lambda>q. q = addr) (allocations pr) 0)"

definition process_free :: "u32 \<Rightarrow> u32 \<Rightarrow> (('d, 'z) process_machine_scheme, unit) prog" where
  "process_free p ptr =
     kbind (proc p) (\<lambda>pr.
     case process_get_allocation_by_addr pr ptr of None \<Rightarrow> kret ()
     | Some (aptr, asize) \<Rightarrow>
         kbind (kread ''no task'' (\<lambda>s. tasks s (main_task pr))) (\<lambda>tk.
         kbind (kget (\<lambda>s. paging_map_to (ram s) (page_directory tk) aptr aptr (paging_align_address (aptr + asize)) 0)) (\<lambda>(res, m).
         kbind (kmod (\<lambda>s. s\<lparr>ram := m\<rparr>)) (\<lambda>_.
         if res < 0 then kret ()
         else kbind (update_process p (process_allocation_unjoin ptr)) (\<lambda>_.
              kbind (update_process p (\<lambda>pr. pr\<lparr>active_allocations := active_allocations pr - 1\<rparr>)) (\<lambda>_.
              kfree ptr))))))"

section \<open>Termination\<close>

text \<open>The loop over the table, with \<open>n\<close> entries left: also the unused entries are released.\<close>

primrec terminate_allocations_loop :: "u32 \<Rightarrow> nat \<Rightarrow> (('d, 'z) process_machine_scheme, unit) prog" where
  "terminate_allocations_loop p 0 = kret ()"
| "terminate_allocations_loop p (Suc n) =
     kbind (proc p) (\<lambda>pr.
     kbind (kfree (fst (allocations pr ! (PEACHOS_MAX_PROGRAM_ALLOCATIONS - Suc n)))) (\<lambda>_.
     terminate_allocations_loop p n))"

definition process_terminate_allocations :: "u32 \<Rightarrow> (('d, 'z) process_machine_scheme, int) prog" where
  "process_terminate_allocations p =
     kbind (terminate_allocations_loop p PEACHOS_MAX_PROGRAM_ALLOCATIONS) (\<lambda>_. kret 0)"

definition process_terminate_binary_data :: "u32 \<Rightarrow> (('d, 'z) process_machine_scheme, int) prog" where
  "process_terminate_binary_data p = kbind (proc p) (\<lambda>pr. kbind (kfree (program pr)) (\<lambda>_. kret 0))"

definition process_terminate_elf_data :: "u32 \<Rightarrow> (('d, 'z) process_machine_scheme, int) prog" where
  "process_terminate_elf_data p = kbind (proc p) (\<lambda>pr. kbind (elf_close (program pr)) (\<lambda>_. kret 0))"

definition process_terminate_program_data :: "u32 \<Rightarrow> (('d, 'z) process_machine_scheme, int) prog" where
  "process_terminate_program_data p =
     kbind (proc p) (\<lambda>pr.
     if process_type pr = PROCESS_FILETYPE_BINARY then process_terminate_binary_data p
     else if process_type pr = PROCESS_FILETYPE_ELF then process_terminate_elf_data p
     else kret (err EINVARG))"

definition process_switch_to_any :: "(('d, 'z) process_machine_scheme, unit) prog" where
  "process_switch_to_any =
     kbind (kget (\<lambda>s. filter (\<lambda>p. p \<noteq> 0) (processes s))) (\<lambda>ps.
     case ps of [] \<Rightarrow> kpanic ''process_switch_to_any(): No processes to switch to''
     | p # _ \<Rightarrow> kbind (process_switch p) (\<lambda>_. kret ()))"

definition process_unlink :: "u32 \<Rightarrow> (('d, 'z) process_machine_scheme, unit) prog" where
  "process_unlink p =
     kbind (proc p) (\<lambda>pr.
     kbind (kmod (\<lambda>s. s\<lparr>processes := (processes s)[unat (process_id pr) := 0]\<rparr>)) (\<lambda>_.
     kbind (kget current_process) (\<lambda>cur.
     if cur = p then process_switch_to_any else kret ())))"

definition process_terminate :: "u32 \<Rightarrow> (('d, 'z) process_machine_scheme, int) prog" where
  "process_terminate p =
     kbind (process_terminate_allocations p) (\<lambda>res.
     if res < 0 then kret res
     else kbind (process_terminate_program_data p) (\<lambda>res.
          if res < 0 then kret res
          else kbind (proc p) (\<lambda>pr.
               kbind (kfree (stack pr)) (\<lambda>_.
               kbind (task_free (main_task pr)) (\<lambda>_.
               kbind (process_unlink p) (\<lambda>_.
               kbind (string_at (name_of p)) (\<lambda>nm.
               kbind (on_screen_printf (map of_char ''Terminating process: %s ...'' @ [0x0A]) [StrArg nm]) (\<lambda>_.
               kbind (kfree p) (\<lambda>_.
               kbind (kmod (\<lambda>s. s\<lparr>procs := (procs s)(p := None)\<rparr>)) (\<lambda>_.
               kret res))))))))))"

section \<open>Arguments\<close>

text \<open>A \<open>struct command_argument\<close>: 512 characters and the address of the next one.\<close>

definition next_argument :: "mem \<Rightarrow> u32 \<Rightarrow> u32" where
  "next_argument m a = load32 m (a + 512)"

definition process_get_arguments :: "u32 \<Rightarrow> u32 \<Rightarrow> u32 \<Rightarrow> (('d, 'z) process_machine_scheme, unit) prog" where
  "process_get_arguments p argc_out argv_out =
     kbind (proc p) (\<lambda>pr.
     kbind (poke argc_out (word_of_int (argc pr))) (\<lambda>_. poke argv_out (argv pr)))"

partial_function (option) count_commands :: "mem \<Rightarrow> u32 \<Rightarrow> int \<Rightarrow> int option" where
  "count_commands m current count =
     (if current = 0 then Some count else count_commands m (next_argument m current) (i32 (count + 1)))"

definition process_count_commands :: "u32 \<Rightarrow> (('d, 'z) process_machine_scheme, int) prog" where
  "process_count_commands root_argument s =
     (case count_commands (ram s) root_argument 0 of None \<Rightarrow> Hang | Some n \<Rightarrow> Ret (n, s))"

partial_function (option) inject_loop ::
  "u32 \<Rightarrow> u32 \<Rightarrow> u32 \<Rightarrow> int \<Rightarrow> ('d, 'z) process_machine_scheme \<Rightarrow> (int \<times> ('d, 'z) process_machine_scheme) outcome option" where
  "inject_loop p argv_ptr current i s =
     (if current = 0 then Some (Ret (0, s))
      else case kbind (process_malloc p 512) (\<lambda>argument_string.
                  if argument_string = 0 then kret (0, 0)
                  else kbind (kmod (\<lambda>s. s\<lparr>ram := strncpy (ram s) argument_string current 512\<rparr>)) (\<lambda>_.
                       kbind (poke (argv_ptr + 4 * word_of_int i) argument_string) (\<lambda>_.
                       kget (\<lambda>s. (argument_string, next_argument (ram s) current))))) s of
             Ret r \<Rightarrow> if fst (fst r) = 0 then Some (Ret (err ENOMEM, snd r))
                      else inject_loop p argv_ptr (snd (fst r)) (i32 (i + 1)) (snd r)
           | Panic e \<Rightarrow> Some (Panic e) | Fault e \<Rightarrow> Some (Fault e) | Hang \<Rightarrow> Some Hang)"

definition process_inject_arguments :: "u32 \<Rightarrow> u32 \<Rightarrow> (('d, 'z) process_machine_scheme, int) prog" where
  "process_inject_arguments p root_argument =
     kbind (process_count_commands root_argument) (\<lambda>n.
     if n = 0 then kret (err EIO)
     else kbind (process_malloc p (word_of_int n * 4)) (\<lambda>argv_ptr.
          if argv_ptr = 0 then kret (err ENOMEM)
          else kbind (\<lambda>s. run_loop (inject_loop p argv_ptr root_argument 0 s)) (\<lambda>res.
               if res < 0 then kret res
               else kbind (update_process p (\<lambda>pr. pr\<lparr>argc := n, argv := argv_ptr\<rparr>)) (\<lambda>_. kret 0))))"

end
