(* ===== verification/ProcessLoad.thy ===== *)
theory ProcessLoad imports Process
begin

text \<open>
  \<open>src/src/task/process.c\<close>, second part: loading a program from a file, mapping it into the
  address space of its task, and the slots of the process table.
\<close>

section \<open>Loading the file\<close>

text \<open>Everything between the opening of the file and the clean-up: the result and the program.\<close>

definition load_binary_data :: "'d ports \<Rightarrow> int \<Rightarrow> u32 \<Rightarrow> (('d, 'z) process_machine_scheme, int \<times> u32) prog" where
  "load_binary_data P fd p =
     kbind (kget stat_local) (\<lambda>stat.
     kbind (fstat P fd stat) (\<lambda>res.
     if res \<noteq> 0 then kret (res, 0)
     else kbind (kget (\<lambda>s. load32 (ram s) (stat + 4))) (\<lambda>sz.
          kbind (kzalloc sz) (\<lambda>ptr.
          if ptr = 0 then kret (err ENOMEM, 0)
          else kbind (kget (\<lambda>s. load32 (ram s) (stat + 4))) (\<lambda>sz.
               kbind (fread P ptr sz 1 fd) (\<lambda>n.
               if n \<noteq> 1 then kret (err EIO, ptr)
               else kbind (kget (\<lambda>s. load32 (ram s) (stat + 4))) (\<lambda>sz.
                    kbind (update_process p (\<lambda>pr. pr\<lparr>process_type := PROCESS_FILETYPE_BINARY, program := ptr, program_size := sz\<rparr>)) (\<lambda>_.
                    kret (0, ptr)))))))))"

definition process_load_binary :: "'d ports \<Rightarrow> u32 \<Rightarrow> u32 \<Rightarrow> (('d, 'z) process_machine_scheme, int) prog" where
  "process_load_binary P fname p =
     kbind (kget literal_r) (\<lambda>mode.
     kbind (fopen P fname mode) (\<lambda>fd.
     kbind (if fd = 0 then kret (err EIO, 0) else load_binary_data P fd p) (\<lambda>(res, ptr).
     kbind (if res < 0 \<and> ptr \<noteq> 0 then kfree ptr else kret ()) (\<lambda>_.
     kbind (fclose P fd) (\<lambda>_. kret res)))))"

definition process_load_elf :: "'d ports \<Rightarrow> u32 \<Rightarrow> u32 \<Rightarrow> (('d, 'z) process_machine_scheme, int) prog" where
  "process_load_elf P fname p =
     kbind (elf_load P fname) (\<lambda>(res, ef).
     if res < 0 then kret res
     else kbind (update_process p (\<lambda>pr. pr\<lparr>process_type := PROCESS_FILETYPE_ELF, program := ef\<rparr>)) (\<lambda>_. kret res))"

definition process_load_data :: "'d ports \<Rightarrow> u32 \<Rightarrow> u32 \<Rightarrow> (('d, 'z) process_machine_scheme, int) prog" where
  "process_load_data P fname p =
     kbind (process_load_elf P fname p) (\<lambda>res.
     if res = err EINFORMAT then process_load_binary P fname p else kret res)"

section \<open>Mapping the memory\<close>

text \<open>The directory of the main task of a process.\<close>

definition directory_of :: "u32 \<Rightarrow> (('d, 'z) process_machine_scheme, u32) prog" where
  "directory_of p =
     kbind (proc p) (\<lambda>pr. kbind (kread ''no task'' (\<lambda>s. tasks s (main_task pr))) (\<lambda>tk. kret (page_directory tk)))"

text \<open>\<open>paging_map_to\<close> on the memory of the machine.\<close>

definition map_to :: "u32 \<Rightarrow> u32 \<Rightarrow> u32 \<Rightarrow> u32 \<Rightarrow> int \<Rightarrow> (('d, 'z) process_machine_scheme, int) prog" where
  "map_to dir virt phys phys_end fl =
     kbind (kget (\<lambda>s. paging_map_to (ram s) dir virt phys phys_end fl)) (\<lambda>(res, m).
     kbind (kmod (\<lambda>s. s\<lparr>ram := m\<rparr>)) (\<lambda>_. kret res))"

definition process_map_binary :: "u32 \<Rightarrow> (('d, 'z) process_machine_scheme, int) prog" where
  "process_map_binary p =
     kbind (proc p) (\<lambda>pr.
     kbind (directory_of p) (\<lambda>dir.
     kbind (map_to dir PEACHOS_PROGRAM_VIRTUAL_ADDRESS (program pr) (paging_align_address (program pr + program_size pr))
              (PAGING_IS_PRESENT OR PAGING_ACCESS_FROM_ALL OR PAGING_IS_WRITEABLE)) (\<lambda>_.
     kret 0)))"

text \<open>What the flags of a segment become in the page table.\<close>

definition segment_flags :: "elf32_phdr \<Rightarrow> int" where
  "segment_flags phdr =
     (PAGING_IS_PRESENT OR PAGING_ACCESS_FROM_ALL) OR (if p_flags phdr AND PF_W \<noteq> 0 then PAGING_IS_WRITEABLE else 0)"

lemma less_unat_u16: "i < unat (w :: u16) \<Longrightarrow> i < 65536"
  using unsigned_less [of w, where 'a = nat] by simp

text \<open>The loop over the headers, from header \<open>i\<close> on; \<open>res\<close> is the result so far.\<close>

function map_segments :: "u32 \<Rightarrow> elf_file \<Rightarrow> u32 \<Rightarrow> nat \<Rightarrow> int \<Rightarrow> mem \<Rightarrow> int \<times> mem" where
  "map_segments dir ef phdrs i res m =
     (if i < unat (e_phnum (elf_header_at m (elf_memory ef)))
      then let phdr = elf32_phdr_at m (phdrs + 32 * of_nat i);
               phys = elf_phdr_phys_address ef phdr;
               (res', m') = paging_map_to m dir (paging_align_to_lower_page (p_vaddr phdr)) (paging_align_to_lower_page phys)
                              (paging_align_address (phys + p_memsz phdr)) (segment_flags phdr)
           in if res' < 0 then (res', m') else map_segments dir ef phdrs (Suc i) res' m'
      else (res, m))"
  by pat_completeness auto
termination
proof (relation "measure (\<lambda>(dir, ef, phdrs, i, res, m). 65536 - i)")
qed (auto dest!: less_unat_u16)

definition process_map_elf :: "u32 \<Rightarrow> (('d, 'z) process_machine_scheme, int) prog" where
  "process_map_elf p =
     kbind (proc p) (\<lambda>pr.
     kbind (kread ''no elf file'' (\<lambda>s. elf_files s (program pr))) (\<lambda>ef.
     kbind (kget (\<lambda>s. elf_pheader (ram s) (elf_memory ef))) (\<lambda>phdrs.
     kbind (directory_of p) (\<lambda>dir.
     kbind (kget (\<lambda>s. map_segments dir ef phdrs 0 0 (ram s))) (\<lambda>(res, m).
     kbind (kmod (\<lambda>s. s\<lparr>ram := m\<rparr>)) (\<lambda>_. kret res))))))"

definition process_map_memory :: "u32 \<Rightarrow> (('d, 'z) process_machine_scheme, int) prog" where
  "process_map_memory p =
     kbind (proc p) (\<lambda>pr.
     kbind (if process_type pr = PROCESS_FILETYPE_ELF then process_map_elf p
            else if process_type pr = PROCESS_FILETYPE_BINARY then process_map_binary p
            else kpanic ''process_map_memory(): Invalid file type'') (\<lambda>res.
     if res < 0 then kret res
     else kbind (directory_of p) (\<lambda>dir.
          map_to dir PROGRAM_STACK_END (stack pr) (paging_align_address (stack pr + USER_PROGRAM_STACK_SIZE))
            (PAGING_IS_PRESENT OR PAGING_ACCESS_FROM_ALL OR PAGING_IS_WRITEABLE))))"

section \<open>Slots\<close>

definition process_get_free_slot :: "('d, 'z) process_machine_scheme \<Rightarrow> int" where
  "process_get_free_slot s = (case free_slot (processes s) 0 of None \<Rightarrow> err EISTKN | Some i \<Rightarrow> int i)"

text \<open>
  The statements after the program is loaded. The result, and what is stored to \<open>*process\<close>
  (0: nothing is stored).
\<close>

definition load_task :: "u32 \<Rightarrow> u32 \<Rightarrow> int \<Rightarrow> (('d, 'z) process_machine_scheme, int \<times> u32) prog" where
  "load_task fname p process_slot =
     kbind (kzalloc USER_PROGRAM_STACK_SIZE) (\<lambda>program_stack_ptr.
     if program_stack_ptr = 0 then kret (err ENOMEM, 0)
     else kbind (kmod (\<lambda>s. s\<lparr>ram := strncpy (ram s) (name_of p) fname PEACHOS_MAX_PATH\<rparr>)) (\<lambda>_.
          kbind (update_process p (\<lambda>pr. pr\<lparr>stack := program_stack_ptr, process_id := word_of_int process_slot\<rparr>)) (\<lambda>_.
          kbind (task_new p) (\<lambda>t.
          if t = 0 then kret (0, 0)
          else kbind (update_process p (\<lambda>pr. pr\<lparr>main_task := t\<rparr>)) (\<lambda>_.
               kbind (process_map_memory p) (\<lambda>res.
               kbind (kmod (\<lambda>s. s\<lparr>processes := (processes s)[nat process_slot := p]\<rparr>)) (\<lambda>_.
               kret (res, p))))))))"

text \<open>When the slot is taken the clean-up reads the uninitialised variable \<open>_process\<close>.\<close>

definition process_load_for_slot :: "'d ports \<Rightarrow> u32 \<Rightarrow> int \<Rightarrow> (('d, 'z) process_machine_scheme, int \<times> u32) prog" where
  "process_load_for_slot P fname process_slot =
     kbind (kget (process_get process_slot)) (\<lambda>q.
     if q \<noteq> 0 then kfault ''uninitialised variable''
     else kbind (kzalloc 9368) (\<lambda>p.
          if p = 0 then kret (err ENOMEM, 0)
          else kbind (process_init p) (\<lambda>_.
               kbind (process_load_data P fname p) (\<lambda>res.
               kbind (if res < 0 then kret (res, 0) else load_task fname p process_slot) (\<lambda>(res, out).
               if res < 0
               then kbind (proc p) (\<lambda>pr.
                    kbind (if main_task pr \<noteq> 0 then task_free (main_task pr) else kret 0) (\<lambda>_.
                    kret (res, out)))
               else kret (res, out))))))"

definition process_load :: "'d ports \<Rightarrow> u32 \<Rightarrow> (('d, 'z) process_machine_scheme, int \<times> u32) prog" where
  "process_load P fname =
     kbind (kget process_get_free_slot) (\<lambda>process_slot.
     if process_slot < 0 then kret (err EISTKN, 0) else process_load_for_slot P fname process_slot)"

definition process_load_switch :: "'d ports \<Rightarrow> u32 \<Rightarrow> (('d, 'z) process_machine_scheme, int \<times> u32) prog" where
  "process_load_switch P fname =
     kbind (process_load P fname) (\<lambda>(res, p).
     if res \<noteq> 0
     then kbind (on_screen (print (map of_char ''Could not find program: ''))) (\<lambda>_.
          kbind (string_at fname) (\<lambda>text.
          kbind (on_screen (println text)) (\<lambda>_.
          kret (res, p))))
     else kbind (process_switch p) (\<lambda>_. kret (res, p)))"

end
