(* ===== verification/Interrupts.thy ===== *)
theory Interrupts imports ProcessLoad
begin

text \<open>
  \<open>src/src/idt/idt.c\<close>, the tables: the interrupt descriptor table, the callbacks of the
  interrupts and the table of system commands. Function pointers are values of a datatype; a null
  pointer is \<open>None\<close>. What the callbacks do is defined after the components they call.
\<close>

section \<open>State\<close>

abbreviation (input) PEACHOS_TOTAL_INTERRUPTS :: nat where "PEACHOS_TOTAL_INTERRUPTS \<equiv> 512"
abbreviation (input) PEACHOS_MAX_ISR80H_COMMANDS :: nat where "PEACHOS_MAX_ISR80H_COMMANDS \<equiv> 1024"
abbreviation (input) KERNEL_CODE_SELECTOR :: u16 where "KERNEL_CODE_SELECTOR \<equiv> 0x08"
abbreviation (input) KERNEL_DATA_SELECTOR :: u32 where "KERNEL_DATA_SELECTOR \<equiv> 0x10"

record idt_desc =
  offset_1 :: u16
  selector :: u16
  always_zero :: u8
  type_attr :: u8
  offset_2 :: u16

record idtr_desc =
  idtr_limit :: u16
  idtr_base :: u32

datatype callback = Idt_handle_exception | Idt_zero | Idt_clock | Classic_keyboard_handle_interrupt

datatype command =
    Process_exit | Print | Putchar | Getkey | Malloc | Free
  | Process_load_start | Invoke_system_command | Get_program_arguments

text \<open>
  \<open>idt_loaded\<close> is the register that \<open>lidt\<close> fills. The last three fields are addresses that the
  linker fixes: the stubs of \<open>idt.asm\<close> and the table itself.
\<close>

record 'd idt_machine = "'d process_machine" +
  idt_descriptors :: "idt_desc list"
  idtr_descriptor :: idtr_desc
  idt_loaded :: idtr_desc
  interrupt_callbacks :: "callback option list"
  isr80h_commands :: "command option list"
  interrupt_pointer_table :: "u32 list"
  isr80h_wrapper :: u32
  idt_descriptors_addr :: u32

section \<open>Running code\<close>

text \<open>Sequencing of code that may enter a task, a loop over a list, and the port instructions.\<close>

definition ebind :: "('s, 'a exit) prog \<Rightarrow> ('a \<Rightarrow> ('s, 'b exit) prog) \<Rightarrow> ('s, 'b exit) prog" where
  "ebind f g = kbind f (\<lambda>r. case r of Back a \<Rightarrow> g a | Entered \<Rightarrow> kret Entered)"

definition eret :: "'a \<Rightarrow> ('s, 'a exit) prog" where
  "eret a = kret (Back a)"

primrec each :: "('a \<Rightarrow> ('s, unit) prog) \<Rightarrow> 'a list \<Rightarrow> ('s, unit) prog" where
  "each f [] = kret ()"
| "each f (x # xs) = kbind (f x) (\<lambda>_. each f xs)"

definition port_in :: "'d ports \<Rightarrow> u16 \<Rightarrow> (('d, 'z) disk_machine_scheme, u8) prog" where
  "port_in P port =
     kbind (kget (\<lambda>s. insb P port (dev s))) (\<lambda>(v, d). kbind (kmod (\<lambda>s. s\<lparr>dev := d\<rparr>)) (\<lambda>_. kret v))"

definition port_out :: "'d ports \<Rightarrow> u16 \<Rightarrow> u8 \<Rightarrow> (('d, 'z) disk_machine_scheme, unit) prog" where
  "port_out P port v = kmod (\<lambda>s. s\<lparr>dev := outb P port v (dev s)\<rparr>)"

text \<open>\<open>task_current()->process\<close>.\<close>

definition current_owner :: "(('d, 'z) task_machine_scheme, u32) prog" where
  "current_owner =
     kbind (kget current_task) (\<lambda>cur. kbind (kread ''no task'' (\<lambda>s. tasks s cur)) (\<lambda>tk. kret (owner tk)))"

section \<open>The tables\<close>

definition idt_set :: "nat \<Rightarrow> u32 \<Rightarrow> (('d, 'z) idt_machine_scheme, unit) prog" where
  "idt_set interrupt_no address =
     kmod (\<lambda>s. s\<lparr>idt_descriptors := (idt_descriptors s)[interrupt_no :=
       \<lparr>offset_1 = ucast (address AND 0x0000FFFF), selector = KERNEL_CODE_SELECTOR, always_zero = 0x00,
        type_attr = 0xEE, offset_2 = ucast (drop_bit 16 address)\<rparr>]\<rparr>)"

definition idt_register_interrupt_callback :: "int \<Rightarrow> callback \<Rightarrow> (('d, 'z) idt_machine_scheme, int) prog" where
  "idt_register_interrupt_callback interrupt_no callback_function =
     (if interrupt_no < 0 \<or> interrupt_no \<ge> int PEACHOS_TOTAL_INTERRUPTS then kret (err EINVARG)
      else kbind (kmod (\<lambda>s. s\<lparr>interrupt_callbacks := (interrupt_callbacks s)[nat interrupt_no := Some callback_function]\<rparr>)) (\<lambda>_.
           kret 0))"

definition isr80h_register_command :: "int \<Rightarrow> command \<Rightarrow> (('d, 'z) idt_machine_scheme, unit) prog" where
  "isr80h_register_command command_id command_func =
     (if command_id < 0 \<or> command_id \<ge> int PEACHOS_MAX_ISR80H_COMMANDS
      then kpanic ''isr80h_register_command(): Command is out of bounds''
      else kbind (kget (\<lambda>s. isr80h_commands s ! nat command_id)) (\<lambda>old.
           if old \<noteq> None then kpanic ''isr80h_register_command(): Attempting to overwrite existing command''
           else kmod (\<lambda>s. s\<lparr>isr80h_commands := (isr80h_commands s)[nat command_id := Some command_func]\<rparr>)))"

definition isr80h_register_all_commands :: "(('d, 'z) idt_machine_scheme, unit) prog" where
  "isr80h_register_all_commands =
     kbind (isr80h_register_command 0 Process_exit) (\<lambda>_.
     kbind (isr80h_register_command 1 Print) (\<lambda>_.
     kbind (isr80h_register_command 2 Putchar) (\<lambda>_.
     kbind (isr80h_register_command 3 Getkey) (\<lambda>_.
     kbind (isr80h_register_command 4 Malloc) (\<lambda>_.
     kbind (isr80h_register_command 5 Free) (\<lambda>_.
     kbind (isr80h_register_command 6 Process_load_start) (\<lambda>_.
     kbind (isr80h_register_command 7 Invoke_system_command) (\<lambda>_.
     isr80h_register_command 8 Get_program_arguments))))))))"

definition no_gate :: idt_desc where
  "no_gate = \<lparr>offset_1 = 0, selector = 0, always_zero = 0, type_attr = 0, offset_2 = 0\<rparr>"

text \<open>The limit is the size of the table less one, 512 gates of 8 bytes.\<close>

definition idt_init :: "(('d, 'z) idt_machine_scheme, unit) prog" where
  "idt_init =
     kbind (kmod (\<lambda>s. s\<lparr>idt_descriptors := replicate PEACHOS_TOTAL_INTERRUPTS no_gate\<rparr>)) (\<lambda>_.
     kbind (kmod (\<lambda>s. s\<lparr>idtr_descriptor := \<lparr>idtr_limit = 512 * 8 - 1, idtr_base = idt_descriptors_addr s\<rparr>\<rparr>)) (\<lambda>_.
     kbind (each (\<lambda>i. kbind (kget (\<lambda>s. interrupt_pointer_table s ! i)) (idt_set i)) [0..<PEACHOS_TOTAL_INTERRUPTS]) (\<lambda>_.
     kbind (each (\<lambda>i. kbind (idt_register_interrupt_callback (int i) Idt_handle_exception) (\<lambda>_. kret ())) [0..<0x20]) (\<lambda>_.
     kbind (kbind (kget isr80h_wrapper) (idt_set 0x80)) (\<lambda>_.
     kbind (idt_register_interrupt_callback 0 Idt_zero) (\<lambda>_.
     kbind (idt_register_interrupt_callback 0x20 Idt_clock) (\<lambda>_.
     kbind (kmod (\<lambda>s. s\<lparr>idt_loaded := idtr_descriptor s\<rparr>)) (\<lambda>_.
     on_screen (println (map of_char ''Initialised IDT''))))))))))"

end
