(* ===== verification/Keyboard.thy ===== *)
theory Keyboard imports Interrupts
begin

text \<open>
  \<open>src/src/keyboard/keyboard.c\<close> and \<open>src/src/keyboard/classic.c\<close>: the list of keyboards, the
  buffer of keys of every process, and the driver of the PS/2 keyboard.
\<close>

section \<open>State\<close>

datatype keyboard_driver = Classic_keyboard_init

record keyboard =
  kb_init :: "keyboard_driver option"
  capslock_state :: int
  kb_next :: u32

record 'd keyboard_machine = "'d idt_machine" +
  keyboards :: "u32 \<Rightarrow> keyboard option"
  keyboard_list_head :: u32
  keyboard_list_last :: u32
  classic_keyboard :: u32

abbreviation (input) KEYBOARD_CAPSLOCK_OFF :: int where "KEYBOARD_CAPSLOCK_OFF \<equiv> 0"
abbreviation (input) KEYBOARD_CAPSLOCK_ON :: int where "KEYBOARD_CAPSLOCK_ON \<equiv> 1"
abbreviation (input) CLASSIC_KEYBOARD_CAPSLOCK :: u8 where "CLASSIC_KEYBOARD_CAPSLOCK \<equiv> 15"
abbreviation (input) CLASSIC_KEYBOARD_KEY_RELEASED :: u8 where "CLASSIC_KEYBOARD_KEY_RELEASED \<equiv> 0x80"
abbreviation (input) KEYBOARD_INPUT_PORT :: u16 where "KEYBOARD_INPUT_PORT \<equiv> 0x60"
abbreviation (input) PS2_PORT :: u16 where "PS2_PORT \<equiv> 0x64"
abbreviation (input) ISR_KEYBOARD_INTERRUPT :: int where "ISR_KEYBOARD_INTERRUPT \<equiv> 0x21"

definition update_keyboard :: "u32 \<Rightarrow> (keyboard \<Rightarrow> keyboard) \<Rightarrow> (('d, 'z) keyboard_machine_scheme, unit) prog" where
  "update_keyboard k f =
     kbind (kread ''no keyboard'' (\<lambda>s. keyboards s k)) (\<lambda>kb. kmod (\<lambda>s. s\<lparr>keyboards := (keyboards s)(k \<mapsto> f kb)\<rparr>))"

section \<open>The buffer of a process\<close>

text \<open>The index is a signed integer divided by the unsigned size of the buffer.\<close>

definition keyboard_get_tail_index :: "process \<Rightarrow> nat" where
  "keyboard_get_tail_index pr = unat (word_of_int (key_tail pr) :: u32) mod KEYBOARD_BUFFER_SIZE"

definition backspaced :: "process \<Rightarrow> process" where
  "backspaced pr =
     (let pr1 = pr\<lparr>key_tail := i32 (key_tail pr - 1)\<rparr>
      in pr1\<lparr>key_buffer := (key_buffer pr1)[keyboard_get_tail_index pr1 := 0x00]\<rparr>)"

definition keyboard_backspace :: "u32 \<Rightarrow> (('d, 'z) process_machine_scheme, unit) prog" where
  "keyboard_backspace p = update_process p backspaced"

definition pushed :: "u8 \<Rightarrow> process \<Rightarrow> process" where
  "pushed c pr =
     pr\<lparr>key_buffer := (key_buffer pr)[keyboard_get_tail_index pr := c], key_tail := i32 (key_tail pr + 1)\<rparr>"

definition keyboard_push :: "u8 \<Rightarrow> (('d, 'z) process_machine_scheme, unit) prog" where
  "keyboard_push c =
     kbind (kget current_process) (\<lambda>p.
     if p = 0 then kret ()
     else if c = 0 then kret ()
     else update_process p (pushed c))"

text \<open>The character and the process after the call.\<close>

definition popped :: "process \<Rightarrow> u8 \<times> process" where
  "popped pr =
     (let real_index_head = unat (word_of_int (key_head pr) :: u32) mod KEYBOARD_BUFFER_SIZE;
          c = key_buffer pr ! real_index_head
      in if c = 0x00 then (0, pr)
         else (c, pr\<lparr>key_buffer := (key_buffer pr)[real_index_head := 0], key_head := i32 (key_head pr + 1)\<rparr>))"

definition keyboard_pop :: "(('d, 'z) process_machine_scheme, u8) prog" where
  "keyboard_pop =
     kbind (kget current_task) (\<lambda>cur.
     if cur = 0 then kret 0
     else kbind current_owner (\<lambda>p.
          kbind (proc p) (\<lambda>pr.
          kbind (update_process p (\<lambda>pr. snd (popped pr))) (\<lambda>_.
          kret (fst (popped pr))))))"

section \<open>The classic keyboard\<close>

definition keyboard_scan_set_one :: "u8 list" where
  "keyboard_scan_set_one =
     [0x00, 0x1B] @ map of_char ''1234567890-='' @ [0x08, 0x09] @ map of_char ''QWERTYUIOP[]''
     @ [0x0D, 0x00] @ map of_char ''ASDFGHJKL;'' @ [0x27, 0x60, 0x00, 0x5C] @ map of_char ''ZXCVBNM,./''
     @ [0x00, 0x2A, 0x00, 0x20, 0x00, 0x00, 0x00, 0x00, 0x00, 0x00, 0x00, 0x00, 0x00, 0x00, 0x00]
     @ map of_char ''789-456+1230.''"

definition keyboard_set_capslock :: "u32 \<Rightarrow> int \<Rightarrow> (('d, 'z) keyboard_machine_scheme, unit) prog" where
  "keyboard_set_capslock k st = update_keyboard k (\<lambda>kb. kb\<lparr>capslock_state := st\<rparr>)"

definition keyboard_get_capslock :: "u32 \<Rightarrow> (('d, 'z) keyboard_machine_scheme, int) prog" where
  "keyboard_get_capslock k = kbind (kread ''no keyboard'' (\<lambda>s. keyboards s k)) (\<lambda>kb. kret (capslock_state kb))"

definition classic_keyboard_init :: "'d ports \<Rightarrow> (('d, 'z) keyboard_machine_scheme, int) prog" where
  "classic_keyboard_init P =
     kbind (idt_register_interrupt_callback ISR_KEYBOARD_INTERRUPT Classic_keyboard_handle_interrupt) (\<lambda>_.
     kbind (kget classic_keyboard) (\<lambda>k.
     kbind (keyboard_set_capslock k KEYBOARD_CAPSLOCK_OFF) (\<lambda>_.
     kbind (port_out P PS2_PORT 0xAE) (\<lambda>_. kret 0))))"

definition classic_keyboard_scancode_to_char :: "u8 \<Rightarrow> (('d, 'z) keyboard_machine_scheme, u8) prog" where
  "classic_keyboard_scancode_to_char scancode =
     (if unat scancode > length keyboard_scan_set_one then kret 0
      else if unat scancode = length keyboard_scan_set_one then kfault ''index out of bounds''
      else let c = keyboard_scan_set_one ! unat scancode
           in kbind (kget classic_keyboard) (\<lambda>k.
              kbind (keyboard_get_capslock k) (\<lambda>state.
              kret (if state = KEYBOARD_CAPSLOCK_OFF \<and> is_ascii_char c then tolower c else c))))"

definition classic_keyboard_handle_interrupt :: "'d ports \<Rightarrow> (('d, 'z) keyboard_machine_scheme, unit) prog" where
  "classic_keyboard_handle_interrupt P =
     kbind kernel_page (\<lambda>_.
     kbind (port_in P KEYBOARD_INPUT_PORT) (\<lambda>scancode.
     kbind (port_in P KEYBOARD_INPUT_PORT) (\<lambda>_.
     if scancode AND CLASSIC_KEYBOARD_KEY_RELEASED \<noteq> 0 then kret ()
     else kbind (if scancode = CLASSIC_KEYBOARD_CAPSLOCK
                 then kbind (kget classic_keyboard) (\<lambda>k.
                      kbind (keyboard_get_capslock k) (\<lambda>old_state.
                      keyboard_set_capslock k
                        (if old_state = KEYBOARD_CAPSLOCK_ON then KEYBOARD_CAPSLOCK_OFF else KEYBOARD_CAPSLOCK_ON)))
                 else kbind (classic_keyboard_scancode_to_char scancode) (\<lambda>c.
                      if c \<noteq> 0 then keyboard_push c else kret ())) (\<lambda>_.
          kbind task_page (\<lambda>_. kret ())))))"

definition classic_init :: "('d, 'z) keyboard_machine_scheme \<Rightarrow> u32" where
  "classic_init s = classic_keyboard s"

section \<open>The list of keyboards\<close>

definition keyboard_insert :: "'d ports \<Rightarrow> u32 \<Rightarrow> (('d, 'z) keyboard_machine_scheme, int) prog" where
  "keyboard_insert P k =
     kbind (kread ''no keyboard'' (\<lambda>s. keyboards s k)) (\<lambda>kb.
     case kb_init kb of None \<Rightarrow> kret (err EINVARG)
     | Some Classic_keyboard_init \<Rightarrow>
         kbind (kget keyboard_list_last) (\<lambda>last.
         kbind (if last \<noteq> 0
                then kbind (update_keyboard last (\<lambda>kb. kb\<lparr>kb_next := k\<rparr>)) (\<lambda>_.
                     kmod (\<lambda>s. s\<lparr>keyboard_list_last := k\<rparr>))
                else kmod (\<lambda>s. s\<lparr>keyboard_list_head := k, keyboard_list_last := k\<rparr>)) (\<lambda>_.
         classic_keyboard_init P)))"

definition keyboard_init :: "'d ports \<Rightarrow> (('d, 'z) keyboard_machine_scheme, unit) prog" where
  "keyboard_init P = kbind (kget classic_init) (\<lambda>k. kbind (keyboard_insert P k) (\<lambda>_. kret ()))"

end
