(* ===== verification/SystemCalls.thy ===== *)
theory SystemCalls imports Keyboard
begin

text \<open>
  \<open>src/src/isr80h/\<close>: the system commands, and the dispatch of interrupt 0x80 and of the other
  interrupts in \<open>src/src/idt/idt.c\<close>. A result of the kernel goes back to the program in
  \<open>eax\<close>; a command that starts or ends a program enters another task and never returns.
\<close>

section \<open>State\<close>

text \<open>The addresses of the local buffers of the commands on the kernel stack.\<close>

record 'd syscall_machine = "'d keyboard_machine" +
  message_real_buffer :: u32
  path_buffer :: u32

section \<open>Commands\<close>

definition stack_item :: "int \<Rightarrow> (('d, 'z) task_machine_scheme, u32) prog" where
  "stack_item index = kbind (kget current_task) (\<lambda>cur. task_get_stack_item cur index)"

definition isr80h_command0_sum :: "(('d, 'z) task_machine_scheme, u32) prog" where
  "isr80h_command0_sum = kbind (stack_item 1) (\<lambda>v2. kbind (stack_item 0) (\<lambda>v1. kret (v1 + v2)))"

definition isr80h_command1_print :: "(('d, 'z) syscall_machine_scheme, u32) prog" where
  "isr80h_command1_print =
     kbind (stack_item 0) (\<lambda>message_virt_addr.
     kbind (kget current_task) (\<lambda>cur.
     kbind (kget message_real_buffer) (\<lambda>buf.
     kbind (copy_string_from_task cur message_virt_addr buf 1024) (\<lambda>_.
     kbind (string_at buf) (\<lambda>text.
     kbind (on_screen (print text)) (\<lambda>_. kret 0))))))"

definition isr80h_command2_putchar :: "(('d, 'z) task_machine_scheme, u32) prog" where
  "isr80h_command2_putchar =
     kbind (stack_item 0) (\<lambda>v.
     kbind (on_screen (terminal_writechar (ucast v) TERMINAL_DEFAULT_COLOUR)) (\<lambda>_. kret 0))"

definition isr80h_command3_getkey :: "(('d, 'z) process_machine_scheme, u32) prog" where
  "isr80h_command3_getkey = kbind keyboard_pop (\<lambda>c. kret (scast c))"

definition isr80h_command4_malloc :: "(('d, 'z) process_machine_scheme, u32) prog" where
  "isr80h_command4_malloc = kbind (stack_item 0) (\<lambda>sz. kbind current_owner (\<lambda>p. process_malloc p sz))"

definition isr80h_command5_free :: "(('d, 'z) process_machine_scheme, u32) prog" where
  "isr80h_command5_free =
     kbind (stack_item 0) (\<lambda>ptr_to_free. kbind current_owner (\<lambda>p. kbind (process_free p ptr_to_free) (\<lambda>_. kret 0)))"

definition isr80h_command0_process_exit :: "(('d, 'z) process_machine_scheme, u32 exit) prog" where
  "isr80h_command0_process_exit =
     kbind current_owner (\<lambda>p.
     kbind (stack_item 0) (\<lambda>exit_code.
     kbind (string_at (name_of p)) (\<lambda>nm.
     kbind (on_screen_printf ([0x0A] @ map of_char ''Process '' @ [0x22] @ map of_char ''%s'' @ [0x22]
              @ map of_char '' ended with exit code %i'' @ [0x0A]) [StrArg nm, IntArg (sint exit_code)]) (\<lambda>_.
     kbind (process_terminate p) (\<lambda>_.
     ebind task_next (\<lambda>_ :: unit. eret 0))))))"

text \<open>Switching to the task of a program that has just been loaded, and dropping into it.\<close>

definition start_process :: "u32 \<Rightarrow> (('d, 'z) process_machine_scheme, u32 exit) prog" where
  "start_process p =
     kbind (proc p) (\<lambda>pr. kbind (task_switch (main_task pr)) (\<lambda>_. task_return (main_task pr)))"

definition isr80h_command6_process_load_start :: "'d ports \<Rightarrow> (('d, 'z) syscall_machine_scheme, u32 exit) prog" where
  "isr80h_command6_process_load_start P =
     kbind (stack_item 0) (\<lambda>path_user_ptr.
     kbind (kget current_task) (\<lambda>cur.
     kbind (kget path_buffer) (\<lambda>path.
     kbind (copy_string_from_task cur path_user_ptr path PEACHOS_MAX_PATH) (\<lambda>res.
     if res < 0 then eret 0
     else kbind (process_load_switch P path) (\<lambda>(res, p).
          if res < 0 then eret 0 else start_process p)))))"

text \<open>Starting the program whose name is at an address of physical memory.\<close>

definition invoke_command :: "'d ports \<Rightarrow> u32 \<Rightarrow> (('d, 'z) syscall_machine_scheme, u32 exit) prog" where
  "invoke_command P root_command_argument =
     kbind (process_load_switch P root_command_argument) (\<lambda>(res, p).
     if res < 0 then eret 0
     else kbind (process_inject_arguments p root_command_argument) (\<lambda>res.
          if res < 0 then eret 0 else start_process p))"

definition isr80h_command7_invoke_system_command :: "'d ports \<Rightarrow> (('d, 'z) syscall_machine_scheme, u32 exit) prog" where
  "isr80h_command7_invoke_system_command P =
     kbind (stack_item 0) (\<lambda>arguments_virt_addr.
     kbind (kget current_task) (\<lambda>cur.
     kbind (task_virtual_address_to_physical cur arguments_virt_addr) (\<lambda>arguments.
     if arguments = 0 then eret (word_of_int (err EINVARG))
     else kbind (string_at arguments) (\<lambda>nm.
          if length nm = 0 then eret (word_of_int (err EINVARG))
          else if length nm > nat (PEACHOS_MAX_PATH - 4)
               then kpanic ''isr80h_command7_invoke_system_command: program name is too long''
          else invoke_command P arguments))))"

definition isr80h_command8_get_program_arguments :: "(('d, 'z) process_machine_scheme, u32) prog" where
  "isr80h_command8_get_program_arguments =
     kbind current_owner (\<lambda>p.
     kbind (stack_item 0) (\<lambda>virt_addr.
     kbind (kget current_task) (\<lambda>cur.
     kbind (task_virtual_address_to_physical cur virt_addr) (\<lambda>arguments.
     kbind (process_get_arguments p arguments (arguments + 4)) (\<lambda>_. kret 0)))))"

section \<open>Dispatch of interrupt 0x80\<close>

definition returning :: "('s, 'a) prog \<Rightarrow> ('s, 'a exit) prog" where
  "returning f = kbind f eret"

primrec run_command :: "'d ports \<Rightarrow> command \<Rightarrow> (('d, 'z) syscall_machine_scheme, u32 exit) prog" where
  "run_command P Process_exit = isr80h_command0_process_exit"
| "run_command P Print = returning isr80h_command1_print"
| "run_command P Putchar = returning isr80h_command2_putchar"
| "run_command P Getkey = returning isr80h_command3_getkey"
| "run_command P Malloc = returning isr80h_command4_malloc"
| "run_command P Free = returning isr80h_command5_free"
| "run_command P Process_load_start = isr80h_command6_process_load_start P"
| "run_command P Invoke_system_command = isr80h_command7_invoke_system_command P"
| "run_command P Get_program_arguments = returning isr80h_command8_get_program_arguments"

definition isr80h_handle_command :: "'d ports \<Rightarrow> int \<Rightarrow> (('d, 'z) syscall_machine_scheme, u32 exit) prog" where
  "isr80h_handle_command P command =
     (if command < 0 \<or> command \<ge> int PEACHOS_MAX_ISR80H_COMMANDS then eret 0
      else kbind (kget (\<lambda>s. isr80h_commands s ! nat command)) (\<lambda>command_func.
           case command_func of None \<Rightarrow> eret 0 | Some c \<Rightarrow> run_command P c))"

definition isr80h_handler :: "'d ports \<Rightarrow> int \<Rightarrow> interrupt_frame \<Rightarrow> (('d, 'z) syscall_machine_scheme, u32 exit) prog" where
  "isr80h_handler P command frame =
     kbind kernel_page (\<lambda>_.
     kbind (task_current_save_state frame) (\<lambda>_.
     ebind (isr80h_handle_command P command) (\<lambda>res.
     kbind task_page (\<lambda>_. eret res))))"

section \<open>The other interrupts\<close>

definition idt_zero :: "(('d, 'z) idt_machine_scheme, unit exit) prog" where
  "idt_zero = kpanic ''Divide by zero error''"

definition int0Dh_handler :: "(('d, 'z) idt_machine_scheme, unit) prog" where
  "int0Dh_handler = kpanic ''General protection fault''"

definition int20h_handler :: "(('d, 'z) idt_machine_scheme, unit) prog" where
  "int20h_handler = on_screen (print (map of_char ''Timer triggered!''))"

definition int21h_handler :: "'d ports \<Rightarrow> (('d, 'z) idt_machine_scheme, unit) prog" where
  "int21h_handler P =
     kbind (on_screen (print (map of_char ''Keyboard pressed!''))) (\<lambda>_. port_out P 0x20 0x20)"

definition no_interrupt_handler :: "'d ports \<Rightarrow> (('d, 'z) idt_machine_scheme, unit) prog" where
  "no_interrupt_handler P = port_out P 0x20 0x20"

definition idt_handle_exception :: "(('d, 'z) idt_machine_scheme, unit exit) prog" where
  "idt_handle_exception =
     kbind (on_screen (println (0x0A # map of_char ''Exception reached''))) (\<lambda>_.
     kbind current_owner (\<lambda>p.
     kbind (process_terminate p) (\<lambda>_. task_next)))"

definition idt_clock :: "'d ports \<Rightarrow> (('d, 'z) idt_machine_scheme, unit exit) prog" where
  "idt_clock P = kbind (port_out P 0x20 0x20) (\<lambda>_. task_next)"

primrec run_callback :: "'d ports \<Rightarrow> callback \<Rightarrow> (('d, 'z) syscall_machine_scheme, unit exit) prog" where
  "run_callback P Idt_handle_exception = idt_handle_exception"
| "run_callback P Idt_zero = idt_zero"
| "run_callback P Idt_clock = idt_clock P"
| "run_callback P Classic_keyboard_handle_interrupt = returning (classic_keyboard_handle_interrupt P)"

definition interrupt_handler :: "'d ports \<Rightarrow> nat \<Rightarrow> interrupt_frame \<Rightarrow> (('d, 'z) syscall_machine_scheme, unit exit) prog" where
  "interrupt_handler P interrupt frame =
     kbind kernel_page (\<lambda>_.
     kbind (kget (\<lambda>s. interrupt_callbacks s ! interrupt)) (\<lambda>callback.
     ebind (case callback of None \<Rightarrow> eret ()
            | Some c \<Rightarrow> kbind (task_current_save_state frame) (\<lambda>_. run_callback P c)) (\<lambda>_.
     kbind task_page (\<lambda>_.
     kbind (port_out P 0x20 0x20) (\<lambda>_. eret ())))))"

section \<open>A concrete machine\<close>

text \<open>Two tasks of two processes, the callbacks and commands that the boot code installs.\<close>

definition sample_task :: "u32 \<Rightarrow> u32 \<Rightarrow> u32 \<Rightarrow> task" where
  "sample_task p nxt prv = \<lparr>page_directory = 0x1100000, regs = no_registers, owner = p, next_task = nxt, prev_task = prv\<rparr>"

definition syscall_machine_0 :: "simple_drive syscall_machine" where
  "syscall_machine_0 = \<lparr>ram = (\<lambda>_. 0), kernel_heap = kheap, screen = home, current_directory = 0, cr3 = 0, paging_on = True,
     dev = (\<lambda>_. 0, [], 0), the_disk = \<lparr>dk_type = 0, dk_sector_size = 512, dk_id = 0, dk_filesystem = 0x3000, dk_fs_private = 0x1000\<rparr>,
     streams = (\<lambda>_. None), path_roots = (\<lambda>_. None), path_parts = (\<lambda>_. None),
     fat_vars = \<lparr>fat16_fs = 0x3000, item_local = 0x4000, empty_item_local = 0x5000, entry_local = 0x6000, tmp_filename = 0x7000\<rparr>,
     filesystems = 0x3000 # replicate 11 0, file_descriptors = replicate 512 0, descriptors = (\<lambda>_. None),
     elf_files = (\<lambda>_. None), stat_local = 0x9000, literal_r = 0x9100,
     kernel_chunk = 0x1000000, data_selector = 0x10, eflags = 2, entered = no_registers,
     current_task = 0x1200000, task_head = 0x1200000, task_tail = 0x1201000,
     tasks = [0x1200000 \<mapsto> sample_task 0x1300000 0x1201000 0, 0x1201000 \<mapsto> sample_task 0x1310000 0 0x1200000],
     procs = [0x1300000 \<mapsto> no_process\<lparr>main_task := 0x1200000\<rparr>, 0x1310000 \<mapsto> no_process\<lparr>process_id := 1, main_task := 0x1201000\<rparr>],
     current_process = 0x1310000, processes = [0x1300000, 0x1310000] @ replicate 10 0,
     idt_descriptors = [], idtr_descriptor = \<lparr>idtr_limit = 0, idtr_base = 0\<rparr>, idt_loaded = \<lparr>idtr_limit = 0, idtr_base = 0\<rparr>,
     interrupt_callbacks = Some Idt_zero # replicate 31 (Some Idt_handle_exception)
       @ [Some Idt_clock, Some Classic_keyboard_handle_interrupt] @ replicate 478 None,
     isr80h_commands = map Some [Process_exit, Print, Putchar, Getkey, Malloc, Free, Process_load_start,
       Invoke_system_command, Get_program_arguments] @ replicate 1015 None,
     interrupt_pointer_table = replicate 512 0, isr80h_wrapper = 0x100000, idt_descriptors_addr = 0xA000,
     keyboards = [0xB000 \<mapsto> \<lparr>kb_init = Some Classic_keyboard_init, capslock_state = 0, kb_next = 0\<rparr>],
     keyboard_list_head = 0xB000, keyboard_list_last = 0xB000, classic_keyboard = 0xB000,
     message_real_buffer = 0xC000, path_buffer = 0xD000\<rparr>"

end
