(* ===== verification/KeyQueue.thy ===== *)
theory KeyQueue imports SystemCalls
begin

text \<open>
  The keyboard buffer of a process as a queue: the ring buffer of
  \<open>src/src/keyboard/keyboard.c\<close> refines a list of at most 1024 characters.
\<close>

section \<open>The interface\<close>

text \<open>A bounded queue, as its clients see it: \<open>pop\<close> answers 0 when there is nothing.\<close>

locale bounded_queue =
  fixes push :: "'c::zero \<Rightarrow> 'q \<Rightarrow> 'q" and pop :: "'q \<Rightarrow> 'c \<times> 'q" and items :: "'q \<Rightarrow> 'c list"
    and ok :: "'q \<Rightarrow> bool" and capacity :: nat
  assumes push_ok: "ok q \<Longrightarrow> c \<noteq> 0 \<Longrightarrow> length (items q) < capacity \<Longrightarrow> ok (push c q) \<and> items (push c q) = items q @ [c]"
    and pop_some: "ok q \<Longrightarrow> items q = c # ks \<Longrightarrow> fst (pop q) = c \<and> ok (snd (pop q)) \<and> items (snd (pop q)) = ks"
    and pop_none: "ok q \<Longrightarrow> items q = [] \<Longrightarrow> pop q = (0, q)"
begin

lemma push_all:
  assumes "ok q" and "0 \<notin> set ks" and "length (items q) + length ks \<le> capacity"
  shows "ok (fold push ks q) \<and> items (fold push ks q) = items q @ ks"
  using assms
proof (induction ks arbitrary: q)
  case (Cons c ks)
  have p: "ok (push c q)" "items (push c q) = items q @ [c]"
    using push_ok [OF Cons.prems(1), of c] Cons.prems by auto
  show ?case using Cons.IH [OF p(1)] Cons.prems p(2) by simp
qed simp

primrec pops :: "nat \<Rightarrow> 'q \<Rightarrow> 'c list \<times> 'q" where
  "pops 0 q = ([], q)"
| "pops (Suc k) q = (let (c, q1) = pop q; (ks, q2) = pops k q1 in (c # ks, q2))"

lemma pops_all: "ok q \<Longrightarrow> fst (pops (Suc (length (items q))) q) = items q @ [0] \<and> ok (snd (pops (Suc (length (items q))) q))
    \<and> items (snd (pops (Suc (length (items q))) q)) = []"
proof (induction "items q" arbitrary: q)
  case Nil
  then show ?case using pop_none [of q] by simp
next
  case (Cons c ks)
  obtain q1 where q1: "pop q = (c, q1)" "ok q1" "items q1 = ks"
    using pop_some [OF Cons.prems, of c ks] Cons.hyps(2) by (cases "pop q") auto
  obtain r q2 where pq: "pops (Suc (length (items q1))) q1 = (r, q2)" by fastforce
  then have q2: "r = items q1 @ [0]" "ok q2" "items q2 = []"
    using Cons.hyps(1) [OF q1(3) [symmetric] q1(2)] by simp_all
  have len: "length (items q) = Suc (length (items q1))" and "items q = c # items q1"
    using Cons.hyps(2) q1(3) by (metis length_Cons, simp)
  moreover have "pops (Suc (length (items q))) q = (c # r, q2)"
    unfolding len by (subst pops.simps(2)) (simp only: q1(1) pq Let_def prod.case)
  ultimately show ?case using q2 by simp
qed

text \<open>What was put in comes out in the same order, and then there is nothing.\<close>

lemma fifo:
  assumes "ok q" and "0 \<notin> set ks" and "length (items q) + length ks \<le> capacity"
  shows "fst (pops (Suc (length (items q) + length ks)) (fold push ks q)) = items q @ ks @ [0]
    \<and> items (snd (pops (Suc (length (items q) + length ks)) (fold push ks q))) = []"
  using pops_all [of "fold push ks q"] push_all [OF assms] by simp

end

section \<open>The ring buffer\<close>

text \<open>The counters run on without bound; their values modulo \<open>2 ^ 32\<close> decide.\<close>

definition slot :: "u32 \<Rightarrow> nat" where
  "slot w = unat w mod 1024"

definition head_of :: "process \<Rightarrow> u32" where
  "head_of pr = word_of_int (key_head pr)"

definition pending :: "process \<Rightarrow> nat" where
  "pending pr = unat (word_of_int (key_tail pr) - head_of pr :: u32)"

definition keys_of :: "process \<Rightarrow> u8 list" where
  "keys_of pr = map (\<lambda>i. key_buffer pr ! slot (head_of pr + of_nat i)) [0..<pending pr]"

text \<open>The characters between head and tail are set, all others are clear.\<close>

definition keys_ok :: "process \<Rightarrow> bool" where
  "keys_ok pr \<longleftrightarrow> length (key_buffer pr) = 1024 \<and> pending pr \<le> 1024
     \<and> (\<forall>i<1024. key_buffer pr ! slot (head_of pr + of_nat i) = 0 \<longleftrightarrow> pending pr \<le> i)"

lemma slot_less [simp]: "slot w < 1024"
  by (simp add: slot_def)

lemma slot_add: "slot (w + of_nat i) = (slot w + i) mod 1024"
proof -
  have "slot (w + of_nat i) = (unat w + i mod 4294967296) mod 4294967296 mod 1024"
    by (simp add: slot_def unat_word_ariths unsigned_of_nat take_bit_eq_mod)
  also have "\<dots> = (unat w + i mod 4294967296) mod 1024" by (rule mod_mod_cancel) simp
  also have "\<dots> = (unat w mod 1024 + i mod 4294967296 mod 1024) mod 1024" by (rule mod_add_eq [symmetric])
  also have "i mod 4294967296 mod 1024 = i mod 1024" by (rule mod_mod_cancel) simp
  finally show ?thesis by (simp add: slot_def mod_simps)
qed

lemma mod_wrap: "a < (n :: nat) \<Longrightarrow> i < n \<Longrightarrow> (a + i) mod n = (if a + i < n then a + i else a + i - n)"
  using mod_if [of "a + i" n] by simp

lemma slot_inj: "i < 1024 \<Longrightarrow> j < 1024 \<Longrightarrow> slot (w + of_nat i) = slot (w + of_nat j) \<longleftrightarrow> i = j"
  unfolding slot_add using slot_less [of w] by (auto simp: mod_wrap split: if_splits)

lemma word_of_i32: "(word_of_int (i32 x) :: u32) = word_of_int x"
  by (simp add: i32_def word_of_int_eq_iff take_bit_signed_take_bit)

lemma word_of_i32_add: "(word_of_int (i32 (x + y)) :: u32) = word_of_int x + word_of_int y"
  by (simp add: word_of_i32)

lemma length_keys_of [simp]: "length (keys_of pr) = pending pr"
  by (simp add: keys_of_def)

lemma tail_index: "keyboard_get_tail_index pr = slot (head_of pr + of_nat (pending pr))"
  by (simp add: keyboard_get_tail_index_def slot_def pending_def head_of_def)

lemma keys_of_update:
  assumes "length (key_buffer pr) = 1024" and "pending pr \<le> n" and "n < 1024"
  shows "map (\<lambda>i. (key_buffer pr)[slot (head_of pr + of_nat n) := c] ! slot (head_of pr + of_nat i)) [0..<pending pr] = keys_of pr"
  unfolding keys_of_def using assms by (intro map_cong) (auto simp: nth_list_update slot_inj)

lemma pushed_run:
  assumes "keys_ok pr" and "c \<noteq> 0" and "pending pr < 1024"
  shows "keys_ok (pushed c pr) \<and> keys_of (pushed c pr) = keys_of pr @ [c]"
proof -
  let ?b = "(key_buffer pr)[slot (head_of pr + of_nat (pending pr)) := c]"
  have len: "length (key_buffer pr) = 1024" and set: "\<And>i. i < 1024 \<Longrightarrow> key_buffer pr ! slot (head_of pr + of_nat i) = 0 \<longleftrightarrow> pending pr \<le> i"
    using assms(1) by (auto simp: keys_ok_def)
  have h: "head_of (pushed c pr) = head_of pr" by (simp add: head_of_def pushed_def)
  have b: "key_buffer (pushed c pr) = ?b" by (simp add: pushed_def tail_index)
  have "unat (of_nat (pending pr) + 1 :: u32) = Suc (pending pr)"
    using assms(3) by (simp add: unat_word_ariths unsigned_of_nat take_bit_eq_mod)
  moreover have "word_of_int (key_tail pr) - head_of pr = of_nat (pending pr)" by (simp add: pending_def)
  ultimately have p: "pending (pushed c pr) = Suc (pending pr)"
    unfolding pending_def h by (simp add: pushed_def word_of_i32_add algebra_simps)
  have cell: "?b ! slot (head_of pr + of_nat i) = (if i = pending pr then c else key_buffer pr ! slot (head_of pr + of_nat i))"
    if "i < 1024" for i
    using that assms(3) len by (simp add: nth_list_update slot_inj eq_commute)
  have "keys_of (pushed c pr) = keys_of pr @ [c]"
    unfolding keys_of_def p h b using assms(3) by (simp add: cell)
  moreover have "keys_ok (pushed c pr)"
    unfolding keys_ok_def p h b using assms(2,3) len by (auto simp: cell set)
  ultimately show ?thesis by simp
qed

lemma popped_none: "keys_ok pr \<Longrightarrow> keys_of pr = [] \<Longrightarrow> popped pr = (0, pr)"
proof -
  assume ok: "keys_ok pr" and "keys_of pr = []"
  then have "pending pr = 0" by (metis length_keys_of list.size(3))
  then have "\<forall>i<1024. key_buffer pr ! slot (head_of pr + of_nat i) = 0" using ok by (simp add: keys_ok_def)
  from this [rule_format, of 0] have "key_buffer pr ! slot (head_of pr) = 0" by simp
  then show ?thesis by (simp add: popped_def slot_def head_of_def Let_def)
qed

lemma popped_some:
  assumes "keys_ok pr" and "keys_of pr = c # ks"
  shows "fst (popped pr) = c \<and> keys_ok (snd (popped pr)) \<and> keys_of (snd (popped pr)) = ks"
proof -
  let ?h = "head_of pr" and ?b = "(key_buffer pr)[slot (head_of pr) := 0]"
  have len: "length (key_buffer pr) = 1024" and set: "\<And>i. i < 1024 \<Longrightarrow> key_buffer pr ! slot (?h + of_nat i) = 0 \<longleftrightarrow> pending pr \<le> i"
    using assms(1) by (auto simp: keys_ok_def)
  have pos: "0 < pending pr" and le: "pending pr \<le> 1024"
    using assms by (auto simp: keys_ok_def simp flip: length_keys_of)
  have c: "key_buffer pr ! slot ?h = c" using assms(2) pos by (simp add: keys_of_def upt_conv_Cons)
  have c0: "c \<noteq> 0" using set [of 0] c pos by simp
  have pop: "popped pr = (c, pr\<lparr>key_buffer := ?b, key_head := i32 (key_head pr + 1)\<rparr>)"
    using c c0 by (simp add: popped_def slot_def head_of_def Let_def)
  let ?pr = "snd (popped pr)"
  have h: "head_of ?pr = ?h + 1" by (simp add: pop head_of_def word_of_i32_add)
  have "of_nat (pending pr) - 1 = (of_nat (pending pr - 1) :: u32)" using pos by (simp add: of_nat_diff)
  then have "unat (of_nat (pending pr) - 1 :: u32) = pending pr - 1"
    using le by (simp add: unsigned_of_nat take_bit_eq_mod)
  moreover have "word_of_int (key_tail pr) - ?h = of_nat (pending pr)" by (simp add: pending_def)
  ultimately have p: "pending ?pr = pending pr - 1"
    unfolding pending_def h by (simp add: pop algebra_simps)
  have b: "key_buffer ?pr = ?b" by (simp add: pop)
  have cell: "?b ! slot (?h + 1 + of_nat i) = (if Suc i < 1024 then key_buffer pr ! slot (?h + of_nat (Suc i)) else 0)"
    if "i < 1024" for i
  proof -
    have next_slot: "slot (?h + 1 + of_nat i) = slot (?h + of_nat (Suc i))" by (simp add: algebra_simps)
    show ?thesis
    proof (cases "Suc i < 1024")
      case True
      then have "slot (?h + of_nat (Suc i)) \<noteq> slot (?h + of_nat 0)" unfolding slot_inj [OF True zero_less_numeral] by simp
      then show ?thesis using True len unfolding next_slot by simp
    next
      case False
      then have "i = 1023" using that by simp
      then have "slot (?h + of_nat (Suc i)) = slot ?h" using slot_add [of ?h 1024] by simp
      then show ?thesis using False len unfolding next_slot by simp
    qed
  qed
  have "keys_of ?pr = map (\<lambda>i. key_buffer pr ! slot (?h + of_nat (Suc i))) [0..<pending pr - 1]"
    unfolding keys_of_def p h b using le by (intro map_cong) (auto simp: cell)
  also have "\<dots> = tl (keys_of pr)"
    by (rule nth_equalityI) (simp_all add: nth_tl, simp add: keys_of_def less_diff_conv)
  finally have "keys_of ?pr = ks" using assms(2) by simp
  moreover have "?b ! slot (?h + 1 + of_nat i) = 0 \<longleftrightarrow> pending pr - 1 \<le> i" if "i < 1024" for i
    using cell [OF that] set [of "Suc i"] that le pos by (cases "Suc i < 1024") (auto simp del: of_nat_Suc)
  then have "keys_ok ?pr"
    unfolding keys_ok_def p h b using len le by simp
  ultimately show ?thesis by (simp add: pop)
qed

interpretation keys: bounded_queue pushed popped keys_of keys_ok 1024
  by unfold_locales (simp_all add: pushed_run popped_some popped_none)

section \<open>The driver and the reader\<close>

primrec pop_keys :: "nat \<Rightarrow> (('d, 'z) process_machine_scheme, u8 list) prog" where
  "pop_keys 0 = kret []"
| "pop_keys (Suc n) = kbind keyboard_pop (\<lambda>c. kbind (pop_keys n) (\<lambda>ks. kret (c # ks)))"

lemma push_run:
  assumes "current_process s = p" and "p \<noteq> 0" and "procs s p = Some pr" and "c \<noteq> 0"
  shows "keyboard_push c s = Ret ((), s\<lparr>procs := (procs s)(p \<mapsto> pushed c pr)\<rparr>)"
  using assms by (simp add: keyboard_push_def update_process_def proc_def outcome_simps)

lemma pushes_run:
  assumes "current_process s = p" and "p \<noteq> 0" and "procs s p = Some pr" and "0 \<notin> set ks"
  shows "each keyboard_push ks s = Ret ((), s\<lparr>procs := (procs s)(p \<mapsto> fold pushed ks pr)\<rparr>)"
  using assms
proof (induction ks arbitrary: s pr)
  case Nil
  then have "(procs s)(p \<mapsto> pr) = procs s" by (simp add: map_upd_triv)
  then show ?case by (simp add: outcome_simps)
next
  case (Cons c ks)
  have "each keyboard_push ks (s\<lparr>procs := (procs s)(p \<mapsto> pushed c pr)\<rparr>)
      = Ret ((), s\<lparr>procs := (procs s)(p \<mapsto> fold pushed ks (pushed c pr))\<rparr>)"
    using Cons.IH [of "s\<lparr>procs := (procs s)(p \<mapsto> pushed c pr)\<rparr>" "pushed c pr"] Cons.prems by (simp del: fun_upd_apply add: fun_upd_same)
  then show ?case using Cons.prems by (simp add: outcome_simps push_run del: fun_upd_apply)
qed

lemma pop_run:
  assumes "current_task s = t" and "t \<noteq> 0" and "tasks s t = Some tk" and "owner tk = p" and "procs s p = Some pr"
  shows "keyboard_pop s = Ret (fst (popped pr), s\<lparr>procs := (procs s)(p \<mapsto> snd (popped pr))\<rparr>)"
  using assms by (simp add: keyboard_pop_def current_owner_def update_process_def proc_def outcome_simps)

lemma pops_run:
  assumes "current_task s = t" and "t \<noteq> 0" and "tasks s t = Some tk" and "owner tk = p" and "procs s p = Some pr"
  shows "pop_keys n s = Ret (fst (keys.pops n pr), s\<lparr>procs := (procs s)(p \<mapsto> snd (keys.pops n pr))\<rparr>)"
  using assms
proof (induction n arbitrary: s pr)
  case 0
  then have "(procs s)(p \<mapsto> pr) = procs s" by (simp add: map_upd_triv)
  then show ?case by (simp add: outcome_simps)
next
  case (Suc n)
  note ih = Suc.IH [of "s\<lparr>procs := (procs s)(p \<mapsto> snd (popped pr))\<rparr>" "snd (popped pr)"]
  obtain c q ks q' where q: "popped pr = (c, q)" "keys.pops n q = (ks, q')" by fastforce
  have "pop_keys n (s\<lparr>procs := (procs s)(p \<mapsto> q)\<rparr>) = Ret (ks, s\<lparr>procs := (procs s)(p \<mapsto> q')\<rparr>)"
    using ih Suc.prems q by (simp del: fun_upd_apply add: fun_upd_same)
  then show ?case using Suc.prems q
    by (simp add: outcome_simps pop_run del: fun_upd_apply)
qed

text \<open>
  C15: a program reads its keys in the order in which they were typed. When the process of the
  running task is the one on the screen, and the keys \<open>ks\<close> are typed while the buffer has room for
  them, then reading gives first the keys that were waiting, then \<open>ks\<close>, and then 0; the buffer is
  empty again.
\<close>

theorem keys_are_read_in_order:
  assumes "procs s p = Some pr" and "keys_ok pr" and "current_process s = p" and "p \<noteq> 0"
    and "current_task s = t" and "t \<noteq> 0" and "tasks s t = Some tk" and "owner tk = p"
    and "0 \<notin> set ks" and "length (keys_of pr) + length ks \<le> 1024"
  shows "\<exists>s' pr'. kbind (each keyboard_push ks) (\<lambda>_. pop_keys (Suc (length (keys_of pr) + length ks))) s
    = Ret (keys_of pr @ ks @ [0], s') \<and> procs s' p = Some pr' \<and> keys_of pr' = []"
proof -
  let ?s = "s\<lparr>procs := (procs s)(p \<mapsto> fold pushed ks pr)\<rparr>"
  have "kbind (each keyboard_push ks) (\<lambda>_. pop_keys (Suc (length (keys_of pr) + length ks))) s
      = pop_keys (Suc (length (keys_of pr) + length ks)) ?s"
    by (rule kbind_Ret) (rule pushes_run [OF assms(3,4,1,9)])
  also have "\<dots> = Ret (fst (keys.pops (Suc (length (keys_of pr) + length ks)) (fold pushed ks pr)),
      ?s\<lparr>procs := (procs ?s)(p \<mapsto> snd (keys.pops (Suc (length (keys_of pr) + length ks)) (fold pushed ks pr)))\<rparr>)"
    by (rule pops_run [where t = t and tk = tk]) (simp_all add: assms)
  finally show ?thesis using keys.fifo [OF assms(2,9,10)] by (simp del: keys.pops.simps)
qed

text \<open>
  The buffer has no check for overflow. When 1024 keys are waiting, the next one overwrites the
  oldest and is read before all the others.
\<close>

lemma full_buffer_reorders:
  assumes "procs s p = Some pr" and "keys_ok pr" and "current_process s = p" and "p \<noteq> 0"
    and "current_task s = t" and "t \<noteq> 0" and "tasks s t = Some tk" and "owner tk = p"
    and "length (keys_of pr) = 1024" and "c \<noteq> 0"
  shows "\<exists>s'. kbind (keyboard_push c) (\<lambda>_. keyboard_pop) s = Ret (c, s')"
proof -
  let ?s = "s\<lparr>procs := (procs s)(p \<mapsto> pushed c pr)\<rparr>"
  have "kbind (keyboard_push c) (\<lambda>_. keyboard_pop) s = keyboard_pop ?s"
    by (rule kbind_Ret) (rule push_run [OF assms(3,4,1,10)])
  also have "\<dots> = Ret (fst (popped (pushed c pr)), ?s\<lparr>procs := (procs ?s)(p \<mapsto> snd (popped (pushed c pr)))\<rparr>)"
    by (rule pop_run [where t = t and tk = tk]) (simp_all add: assms)
  finally have run: "kbind (keyboard_push c) (\<lambda>_. keyboard_pop) s = \<dots>" .
  have "slot (head_of pr + of_nat 1024) = slot (head_of pr)" using slot_add [of "head_of pr" 1024] by simp
  then have "key_buffer (pushed c pr) = (key_buffer pr)[slot (head_of pr) := c]"
    using assms(9) by (simp add: pushed_def tail_index)
  moreover have "head_of (pushed c pr) = head_of pr" by (simp add: pushed_def head_of_def)
  moreover have "length (key_buffer pr) = 1024" using assms(2) by (simp add: keys_ok_def)
  ultimately have "fst (popped (pushed c pr)) = c"
    using assms(10) by (simp add: popped_def slot_def [symmetric] head_of_def [symmetric] Let_def)
  then show ?thesis unfolding run by blast
qed

section \<open>Concrete runs\<close>

definition reader_machine :: "process \<Rightarrow> simple_drive syscall_machine" where
  "reader_machine pr = syscall_machine_0\<lparr>current_task := 0x1201000, procs := [0x1310000 \<mapsto> pr]\<rparr>"

lemma reader_machine_simps:
  "procs (reader_machine pr) 0x1310000 = Some pr" "current_process (reader_machine pr) = 0x1310000"
  "current_task (reader_machine pr) = 0x1201000"
  "tasks (reader_machine pr) 0x1201000 = Some (sample_task 0x1310000 0 0x1200000)"
  "owner (sample_task 0x1310000 0 0x1200000) = 0x1310000"
  by (simp_all add: reader_machine_def syscall_machine_0_def sample_task_def)

lemma keys_ok_empty: "keys_ok no_process" "keys_of no_process = []"
  by (simp_all add: keys_ok_def keys_of_def pending_def head_of_def no_process_def slot_def)

theorem keys_are_read_in_order_witness:
  "\<exists>s'. kbind (each keyboard_push [0x68, 0x69]) (\<lambda>_. pop_keys 3) (reader_machine no_process) = Ret ([0x68, 0x69, 0], s')"
proof -
  have "0 \<notin> set [0x68, 0x69 :: u8]" "length (keys_of no_process) + length [0x68, 0x69 :: u8] \<le> 1024"
    by (simp_all add: keys_ok_empty)
  from keys_are_read_in_order [OF reader_machine_simps(1) keys_ok_empty(1) reader_machine_simps(2) _ reader_machine_simps(3) _
      reader_machine_simps(4,5) this]
  show ?thesis by (auto simp: keys_ok_empty numeral_3_eq_3 simp del: pop_keys.simps each.simps)
qed

end
