(* ===== verification/Gdt.thy ===== *)
theory Gdt imports CMemory
begin

text \<open>
  \<open>src/src/gdt/gdt.c\<close>: segment descriptors. The processor's reading of a descriptor
  (\<open>descriptor_base\<close>, \<open>descriptor_limit\<close>) is the specification the encoder is held to.
\<close>

section \<open>Operations\<close>

record gdt_structured =
  gdt_base :: u32
  gdt_limit :: u32
  gdt_type :: u8

definition encodeGdtEntry :: "mem \<Rightarrow> u32 \<Rightarrow> gdt_structured \<Rightarrow> mem outcome" where
  "encodeGdtEntry m target source =
     (if gdt_limit source > 65536 \<and> gdt_limit source AND 0xFFF \<noteq> 0xFFF
      then Panic ''encodeGdtEntry: Invalid argument''
      else let m1 = m(target + 6 := 0x40);
               limit = (if gdt_limit source > 65536 then drop_bit 12 (gdt_limit source) else gdt_limit source);
               m2 = (if gdt_limit source > 65536 then m1(target + 6 := 0xC0) else m1);
               m3 = m2(target := ucast (limit AND 0xFF), target + 1 := ucast (drop_bit 8 limit AND 0xFF));
               m4 = m3(target + 6 := m3 (target + 6) OR ucast (drop_bit 16 limit AND 0x0F));
               base = gdt_base source;
               m5 = m4(target + 2 := ucast (base AND 0xFF), target + 3 := ucast (drop_bit 8 base AND 0xFF),
                       target + 4 := ucast (drop_bit 16 base AND 0xFF), target + 7 := ucast (drop_bit 24 base AND 0xFF))
           in Ret (m5(target + 5 := gdt_type source)))"

text \<open>The loop over the table: the entries from index \<open>i\<close> on.\<close>

fun gdt_loop :: "mem \<Rightarrow> u32 \<Rightarrow> gdt_structured list \<Rightarrow> nat \<Rightarrow> mem outcome" where
  "gdt_loop m gdt [] i = Ret m"
| "gdt_loop m gdt (source # rest) i =
     (case encodeGdtEntry m (gdt + 8 * of_nat i) source of
        Ret m' \<Rightarrow> gdt_loop m' gdt rest (i + 1)
      | Panic e \<Rightarrow> Panic e | Fault e \<Rightarrow> Fault e | Hang \<Rightarrow> Hang)"

definition gdt_structured_to_gdt :: "mem \<Rightarrow> u32 \<Rightarrow> gdt_structured list \<Rightarrow> int \<Rightarrow> mem outcome" where
  "gdt_structured_to_gdt m gdt structured_gdt total_entries =
     gdt_loop m gdt (take (nat total_entries) structured_gdt) 0"

section \<open>How the processor reads a descriptor\<close>

definition descriptor_base :: "u8 list \<Rightarrow> u32" where
  "descriptor_base b = ucast (b ! 2) OR push_bit 8 (ucast (b ! 3)) OR push_bit 16 (ucast (b ! 4))
     OR push_bit 24 (ucast (b ! 7))"

text \<open>The 20-bit limit, in bytes or, with the granularity bit, in 4 KB units.\<close>

definition descriptor_limit :: "u8 list \<Rightarrow> u32" where
  "descriptor_limit b =
     (let l = ucast (b ! 0) OR push_bit 8 (ucast (b ! 1)) OR push_bit 16 (ucast (b ! 6) AND 0x0F)
      in if bit (b ! 6) 7 then push_bit 12 l OR 0xFFF else l)"

definition descriptor_bytes :: "gdt_structured \<Rightarrow> u8 list" where
  "descriptor_bytes source =
     (let big = gdt_limit source > 65536;
          limit = (if big then drop_bit 12 (gdt_limit source) else gdt_limit source);
          base = gdt_base source
      in [ucast limit, ucast (drop_bit 8 limit), ucast base, ucast (drop_bit 8 base), ucast (drop_bit 16 base),
          gdt_type source, (if big then 0xC0 else 0x40) OR ucast (drop_bit 16 limit AND 0x0F), ucast (drop_bit 24 base)])"

section \<open>The encoding\<close>

lemma ucast_mask_8: "ucast ((x :: u32) AND 0xFF) = (ucast x :: u8)"
proof -
  have m: "(0xFF :: u32) = mask 8" by (simp add: mask_eq_exp_minus_1)
  show ?thesis unfolding m by (rule bit_word_eqI) (auto simp: bit_simps)
qed

definition encodable :: "gdt_structured \<Rightarrow> bool" where
  "encodable source \<longleftrightarrow> gdt_limit source \<le> 65536 \<or> gdt_limit source AND 0xFFF = 0xFFF"

lemma encode_bytes:
  "encodable source \<Longrightarrow> encodeGdtEntry m target source = Ret (put_bytes m target (descriptor_bytes source))"
  by (auto simp: encodeGdtEntry_def descriptor_bytes_def Let_def ucast_mask_8 fun_eq_iff encodable_def)

lemma length_descriptor_bytes [simp]: "length (descriptor_bytes source) = 8"
  by (simp add: descriptor_bytes_def Let_def)

lemma decode_base: "descriptor_base (descriptor_bytes source) = gdt_base source"
proof -
  have "ucast (ucast b :: u8) OR push_bit 8 (ucast (ucast (drop_bit 8 b) :: u8))
     OR push_bit 16 (ucast (ucast (drop_bit 16 b) :: u8))
     OR push_bit 24 (ucast (ucast (drop_bit 24 b) :: u8)) = b" for b :: u32
    using load32_store32_same [of "\<lambda>_. 0" 0 b] by (simp add: load32_def store32_def)
  then show ?thesis by (simp add: descriptor_base_def descriptor_bytes_def Let_def)
qed

text \<open>Putting the 20 bits of a limit back together.\<close>

lemma mask_15: "(0x0F :: 'a::len word) = mask 4"
  by (simp add: mask_eq_exp_minus_1)

lemma limit_20:
  fixes l :: u32 and g :: u8
  assumes "\<And>n. 20 \<le> n \<Longrightarrow> \<not> bit l n" "\<And>n. n < 4 \<Longrightarrow> \<not> bit g n"
  shows "ucast (ucast l :: u8) OR push_bit 8 (ucast (ucast (drop_bit 8 l) :: u8))
    OR push_bit 16 (ucast (g OR ucast (drop_bit 16 l AND 0x0F)) AND 0x0F) = l" (is "?w = l")
proof (rule bit_word_eqI)
  fix n assume "n < LENGTH(32)"
  then consider "n < 8" | "8 \<le> n" "n < 16" | "16 \<le> n" "n < 20" | "20 \<le> n" by linarith
  then show "bit ?w n = bit l n"
    using assms unfolding mask_15 by cases (auto simp: bit_simps)
qed

lemma small_limit_bits:
  fixes l :: u32
  assumes "l \<le> 65536" "20 \<le> n"
  shows "\<not> bit l n"
proof -
  have "unat l < 2 ^ 20" using assms(1) by (simp add: word_le_nat_alt)
  also have "(2::nat) ^ 20 \<le> 2 ^ n" using assms(2) by (rule power_increasing) simp
  finally have "\<not> bit (unat l) n" by (simp add: bit_iff_odd)
  then show ?thesis by (auto simp: bit_unsigned_iff dest: bit_imp_le_length)
qed

lemma decode_limit:
  assumes "encodable source"
  shows "descriptor_limit (descriptor_bytes source) = gdt_limit source"
proof (cases "gdt_limit source > 65536")
  case True
  let ?l = "drop_bit 12 (gdt_limit source)"
  have "\<not> bit ?l n" if "20 \<le> n" for n
    using that by (auto simp: bit_simps dest: bit_imp_le_length)
  moreover have "\<not> bit (0xC0 :: u8) n" if "n < 4" for n
    using that by (auto simp: less_Suc_eq numeral_eq_Suc)
  ultimately have l: "ucast (ucast ?l :: u8) OR push_bit 8 (ucast (ucast (drop_bit 8 ?l) :: u8))
      OR push_bit 16 (ucast ((0xC0 :: u8) OR ucast (drop_bit 16 ?l AND 0x0F)) AND 0x0F) = ?l"
    by (rule limit_20)
  have m: "(0xFFF :: u32) = mask 12" by (simp add: mask_eq_exp_minus_1)
  have "gdt_limit source AND 0xFFF = 0xFFF" using assms True by (auto simp: encodable_def)
  then have am: "gdt_limit source AND mask 12 = mask 12" unfolding m .
  have low: "bit (gdt_limit source) n" if "n < 12" for n
  proof -
    have "bit (gdt_limit source AND mask 12) n" unfolding am using that by (simp add: bit_simps)
    then show ?thesis by (simp add: bit_simps)
  qed
  have "push_bit 12 ?l OR 0xFFF = gdt_limit source"
    unfolding m by (rule bit_word_eqI) (use low in \<open>auto simp: bit_simps\<close>)
  then show ?thesis
    using True l by (simp add: descriptor_limit_def descriptor_bytes_def Let_def bit_simps)
next
  case False
  let ?l = "gdt_limit source"
  have "\<not> bit ?l n" if "20 \<le> n" for n
    using small_limit_bits that False by simp
  moreover have "\<not> bit (0x40 :: u8) n" if "n < 4" for n
    using that by (auto simp: less_Suc_eq numeral_eq_Suc)
  ultimately have l: "ucast (ucast ?l :: u8) OR push_bit 8 (ucast (ucast (drop_bit 8 ?l) :: u8))
      OR push_bit 16 (ucast ((0x40 :: u8) OR ucast (drop_bit 16 ?l AND 0x0F)) AND 0x0F) = ?l"
    by (rule limit_20)
  then show ?thesis
    using False by (simp add: descriptor_limit_def descriptor_bytes_def Let_def bit_simps)
qed

text \<open>A table of encodable entries: the loop writes the descriptors one after the other.\<close>

lemma gdt_loop_bytes:
  "\<forall>source\<in>set ss. encodable source \<Longrightarrow>
    gdt_loop m gdt ss i = Ret (put_bytes m (gdt + 8 * of_nat i) (concat (map descriptor_bytes ss)))"
proof (induction ss arbitrary: m i)
  case (Cons source ss)
  have "gdt + 8 * of_nat i + of_nat (length (descriptor_bytes source)) = gdt + 8 * of_nat (i + 1)"
    by (simp add: algebra_simps)
  with Cons show ?case by (simp add: encode_bytes put_bytes_append algebra_simps)
qed simp

lemma concat_slice:
  "\<forall>s\<in>set ss. length (f s) = 8 \<Longrightarrow> i < length ss \<Longrightarrow> take 8 (drop (8 * i) (concat (map f ss))) = f (ss ! i)"
  by (induction ss arbitrary: i) (auto simp: nth_Cons split: nat.split)

lemma length_concat_8: "\<forall>s\<in>set ss. length (f s) = 8 \<Longrightarrow> length (concat (map f ss)) = 8 * length ss"
  by (induction ss) auto

text \<open>
  C36: converting a table whose entries have limits a descriptor can hold returns, and the
  processor then reads every entry back: base, limit and access byte.
\<close>

theorem gdt_table_readback:
  assumes "\<forall>source\<in>set ss. encodable source" and "length ss \<le> 8192" and "i < length ss"
  shows "\<exists>m'. gdt_structured_to_gdt m gdt ss (int (length ss)) = Ret m'
    \<and> descriptor_base (bytes_at m' (gdt + 8 * of_nat i) 8) = gdt_base (ss ! i)
    \<and> descriptor_limit (bytes_at m' (gdt + 8 * of_nat i) 8) = gdt_limit (ss ! i)
    \<and> bytes_at m' (gdt + 8 * of_nat i) 8 ! 5 = gdt_type (ss ! i)"
proof -
  let ?bs = "concat (map descriptor_bytes ss)" and ?n = "8 * length ss"
  have n: "length ?bs = ?n" by (rule length_concat_8) simp
  have "bytes_at (put_bytes m gdt ?bs) (gdt + of_nat (8 * i)) 8
      = take 8 (drop (8 * i) (bytes_at (put_bytes m gdt ?bs) gdt ?n))"
    using assms(3) by (intro bytes_at_slice) simp
  also have "bytes_at (put_bytes m gdt ?bs) gdt ?n = ?bs"
    using bytes_at_put_bytes_same [of ?bs m gdt] n assms(2) by simp
  also have "take 8 (drop (8 * i) ?bs) = descriptor_bytes (ss ! i)"
    using assms(3) by (intro concat_slice) simp
  finally have b: "bytes_at (put_bytes m gdt ?bs) (gdt + 8 * of_nat i) 8 = descriptor_bytes (ss ! i)" by simp
  have t: "descriptor_bytes (ss ! i) ! 5 = gdt_type (ss ! i)"
    by (simp add: descriptor_bytes_def Let_def)
  have "gdt_structured_to_gdt m gdt ss (int (length ss)) = Ret (put_bytes m gdt ?bs)"
    using gdt_loop_bytes [OF assms(1), of m gdt 0] by (simp add: gdt_structured_to_gdt_def)
  moreover have "encodable (ss ! i)" using assms(1,3) by simp
  ultimately show ?thesis
    using decode_base decode_limit t by (intro exI [of _ "put_bytes m gdt ?bs"]) (simp only: b)
qed

text \<open>an entry whose limit a descriptor cannot hold makes the conversion panic.\<close>

lemma encodeGdtEntry_panics:
  "encodeGdtEntry m target source = Panic e
    \<longleftrightarrow> \<not> encodable source \<and> e = ''encodeGdtEntry: Invalid argument''"
  using encode_bytes [of source m target] by (auto simp: encodeGdtEntry_def encodable_def Let_def)

section \<open>A concrete table\<close>

text \<open>The segments of \<open>kernel.c\<close>: null, kernel and user code and data, and the TSS.\<close>

definition kernel_segments :: "u32 \<Rightarrow> gdt_structured list" where
  "kernel_segments tss =
     [\<lparr>gdt_base = 0, gdt_limit = 0, gdt_type = 0\<rparr>,
      \<lparr>gdt_base = 0, gdt_limit = 0xFFFFFFFF, gdt_type = 0x9A\<rparr>,
      \<lparr>gdt_base = 0, gdt_limit = 0xFFFFFFFF, gdt_type = 0x92\<rparr>,
      \<lparr>gdt_base = 0, gdt_limit = 0xFFFFFFFF, gdt_type = 0xF8\<rparr>,
      \<lparr>gdt_base = 0, gdt_limit = 0xFFFFFFFF, gdt_type = 0xF2\<rparr>,
      \<lparr>gdt_base = tss, gdt_limit = 100, gdt_type = 0xE9\<rparr>]"

theorem gdt_table_readback_witness:
  "\<exists>m'. gdt_structured_to_gdt (\<lambda>_. 0) 0x5000 (kernel_segments 0x12345678) 6 = Ret m'
    \<and> descriptor_base (bytes_at m' 0x5028 8) = 0x12345678 \<and> descriptor_limit (bytes_at m' 0x5028 8) = 100"
  using gdt_table_readback [of "kernel_segments 0x12345678" 5 "\<lambda>_. 0" "0x5000"]
  by (auto simp: kernel_segments_def encodable_def)

end
