(* ===== verification/Kernel.thy ===== *)
theory Kernel imports SystemCalls Gdt
begin

text \<open>
  \<open>src/src/kernel.c\<close>: the boot sequence. The data that only the processor reads (the segment
  table register, the task state segment) is a record beside memory.
\<close>

section \<open>State\<close>

text \<open>\<open>struct tss\<close> of \<open>task/tss.h\<close>, and the struct that \<open>memset\<close> has cleared.\<close>

record tss_segment =
  tss_link :: u32
  esp0 :: u32
  ss0 :: u32
  esp1 :: u32
  esp2 :: u32
  ss2 :: u32
  tss_sr3 :: u32
  tss_eip :: u32
  tss_eflags :: u32
  tss_eax :: u32
  tss_ecx :: u32
  tss_edx :: u32
  tss_ebx :: u32
  tss_esp :: u32
  tss_ebp :: u32
  tss_esi :: u32
  tss_edi :: u32
  tss_es :: u32
  tss_cs :: u32
  tss_ss :: u32
  tss_ds :: u32
  tss_fs :: u32
  tss_gs :: u32
  tss_ldtr :: u32
  tss_iopb :: u32

definition no_tss :: tss_segment where
  "no_tss = \<lparr>tss_link = 0, esp0 = 0, ss0 = 0, esp1 = 0, esp2 = 0, ss2 = 0, tss_sr3 = 0, tss_eip = 0, tss_eflags = 0,
     tss_eax = 0, tss_ecx = 0, tss_edx = 0, tss_ebx = 0, tss_esp = 0, tss_ebp = 0, tss_esi = 0, tss_edi = 0, tss_es = 0,
     tss_cs = 0, tss_ss = 0, tss_ds = 0, tss_fs = 0, tss_gs = 0, tss_ldtr = 0, tss_iopb = 0\<rparr>"

text \<open>
  \<open>gdt_loaded\<close> and \<open>tss_loaded\<close> are the registers that \<open>lgdt\<close> and \<open>ltr\<close> fill. The
  other new fields are addresses that the linker or the stack layout fixes: the descriptor table,
  the TSS, the literal \<open>"0:/blank.elf"\<close> and the two local argument structs.
\<close>

record 'd kernel_machine = "'d syscall_machine" +
  tss :: tss_segment
  gdt_loaded :: "u32 \<times> nat"
  tss_loaded :: u16
  gdt_real :: u32
  tss_addr :: u32
  blank_path :: u32
  root_argument :: u32
  root_argument_2 :: u32

text \<open>What \<open>panic\<close> leaves on the screen before it stops the machine.\<close>

definition panic_screen :: "u8 list \<Rightarrow> terminal \<Rightarrow> terminal" where
  "panic_screen msg t = println msg (println (0x0A # map of_char ''KERNEL PANIC:'') t)"

section \<open>Boot\<close>

definition load_segments :: "(('d, 'z) kernel_machine_scheme, unit) prog" where
  "load_segments s =
     (case gdt_structured_to_gdt (memset (ram s) (gdt_real s) 0x00 48) (gdt_real s) (kernel_segments (tss_addr s)) 6 of
        Ret m \<Rightarrow> Ret ((), s\<lparr>ram := m, gdt_loaded := (gdt_real s, 48)\<rparr>)
      | Panic e \<Rightarrow> Panic e | Fault e \<Rightarrow> Fault e | Hang \<Rightarrow> Hang)"

definition kernel_init :: "'d ports \<Rightarrow> (('d, 'z) kernel_machine_scheme, unit) prog" where
  "kernel_init P =
     kbind (on_screen terminal_initialize) (\<lambda>_.
     kbind load_segments (\<lambda>_.
     kbind kheap_init (\<lambda>_.
     kbind fs_init (\<lambda>_.
     kbind (disk_search_and_init (fs_resolve P MainDisk)) (\<lambda>_.
     kbind idt_init (\<lambda>_.
     kbind (kmod (\<lambda>s. s\<lparr>tss := no_tss\<lparr>esp0 := 0x600000, ss0 := KERNEL_DATA_SELECTOR\<rparr>, tss_loaded := 0x28\<rparr>)) (\<lambda>_.
     kbind (paging_new_4gb (word_of_int (PAGING_IS_WRITEABLE OR PAGING_IS_PRESENT OR PAGING_ACCESS_FROM_ALL))) (\<lambda>chunk.
     kbind (kmod (\<lambda>s. s\<lparr>kernel_chunk := chunk\<rparr>)) (\<lambda>_.
     kbind (paging_switch chunk) (\<lambda>_.
     kbind enable_paging (\<lambda>_.
     kbind isr80h_register_all_commands (\<lambda>_.
     kbind (keyboard_init P) (\<lambda>_.
     on_screen (print [0x0A]))))))))))))))"

text \<open>
  Loading \<open>blank.elf\<close> with one argument; the text of the argument is written to the local struct,
  whose link to the next argument is whatever the stack holds there.
\<close>

definition load_blank :: "'d ports \<Rightarrow> u32 \<Rightarrow> u8 list \<Rightarrow> (('d, 'z) kernel_machine_scheme, unit) prog" where
  "load_blank P arg text =
     kbind (kget blank_path) (\<lambda>path.
     kbind (process_load_switch P path) (\<lambda>(res, p).
     if res \<noteq> 0 then kpanic ''Failed to load blank''
     else kbind (kmod (\<lambda>s. s\<lparr>ram := put_bytes (ram s) arg (text @ [0])\<rparr>)) (\<lambda>_.
          kbind (process_inject_arguments p arg) (\<lambda>_. kret ()))))"

definition kernel_main :: "'d ports \<Rightarrow> (('d, 'z) kernel_machine_scheme, unit exit) prog" where
  "kernel_main P =
     kbind (kernel_init P) (\<lambda>_.
     kbind (on_screen (println (map of_char ''Booting PeachOS....'' @ [0x0A]))) (\<lambda>_.
     kbind (kbind (kget root_argument) (\<lambda>arg. load_blank P arg (map of_char ''TWO''))) (\<lambda>_.
     kbind (kbind (kget root_argument_2) (\<lambda>arg. load_blank P arg (map of_char ''ONE''))) (\<lambda>_.
     task_run_first_ever_task))))"

end
