(* ===== verification/BootTables.thy ===== *)
theory BootTables imports Kernel
begin

text \<open>
  The tables that the boot code fills and the dispatch over them: interrupt gates and callbacks,
  and the system commands.
\<close>

section \<open>Loops that fill a table\<close>

lemma each_kmod:
  assumes "\<And>x s. x \<in> set xs \<Longrightarrow> f x s = Ret ((), g x s)"
  shows "each f xs s = Ret ((), fold g xs s)"
  using assms by (induction xs arbitrary: s) (simp_all add: outcome_simps)

lemma each_snoc: "each f (xs @ [x]) = kbind (each f xs) (\<lambda>_. f x)"
proof (induction xs)
  case Nil
  show ?case by (rule ext) (simp add: kbind_def kret_def split: outcome.split prod.split)
next
  case (Cons y xs)
  then show ?case by (simp add: kbind_assoc)
qed

lemma fold_list_update:
  "n \<le> length xs \<Longrightarrow> fold (\<lambda>i xs. xs[i := v i]) [0..<n] xs = map v [0..<n] @ drop n xs"
proof (induction n)
  case (Suc n)
  then show ?case by (simp add: list_update_append Cons_nth_drop_Suc [symmetric])
qed simp

section \<open>Gates\<close>

definition gate :: "u32 \<Rightarrow> idt_desc" where
  "gate address = \<lparr>offset_1 = ucast (address AND 0x0000FFFF), selector = KERNEL_CODE_SELECTOR, always_zero = 0x00,
     type_attr = 0xEE, offset_2 = ucast (drop_bit 16 address)\<rparr>"

text \<open>The address that the processor jumps to through a gate.\<close>

definition gate_target :: "idt_desc \<Rightarrow> u32" where
  "gate_target g = push_bit 16 (ucast (offset_2 g)) OR ucast (offset_1 g)"

lemma gate_target_gate: "gate_target (gate a) = a"
proof -
  have m: "(0x0000FFFF :: u32) = mask 16" by (simp add: mask_eq_exp_minus_1)
  show ?thesis
    unfolding gate_target_def gate_def m
    by (rule bit_word_eqI) (auto simp: bit_simps not_less)
qed

lemma idt_set_run: "idt_set i a s = Ret ((), s\<lparr>idt_descriptors := (idt_descriptors s)[i := gate a]\<rparr>)"
  by (simp add: idt_set_def gate_def outcome_simps)

lemma register_callback_run:
  "0 \<le> i \<Longrightarrow> i < 512 \<Longrightarrow> idt_register_interrupt_callback i c s
    = Ret (0, s\<lparr>interrupt_callbacks := (interrupt_callbacks s)[nat i := Some c]\<rparr>)"
  by (simp add: idt_register_interrupt_callback_def outcome_simps)

lemma gates_run:
  "each (\<lambda>i. kbind (kget (\<lambda>s. interrupt_pointer_table s ! i)) (idt_set i)) [0..<n] s
    = Ret ((), s\<lparr>idt_descriptors := fold (\<lambda>i xs. xs[i := gate (interrupt_pointer_table s ! i)]) [0..<n] (idt_descriptors s)\<rparr>)"
proof (induction n)
  case 0
  then show ?case by (simp add: outcome_simps)
next
  case (Suc n)
  show ?case using Suc by (simp add: each_snoc outcome_simps idt_set_run)
qed

lemma callbacks_run:
  "n \<le> 512 \<Longrightarrow> each (\<lambda>i. kbind (idt_register_interrupt_callback (int i) c) (\<lambda>_. kret ())) [0..<n] s
    = Ret ((), s\<lparr>interrupt_callbacks := fold (\<lambda>i xs. xs[i := Some c]) [0..<n] (interrupt_callbacks s)\<rparr>)"
proof (induction n)
  case 0
  then show ?case by (simp add: outcome_simps)
next
  case (Suc n)
  show ?case using Suc by (simp add: each_snoc outcome_simps register_callback_run)
qed

text \<open>
  C28: the boot code's interrupt table. After \<open>idt_init\<close> the processor's register holds the address
  and the limit of the table of 512 gates; gate 0x80 leads to the wrapper of the system calls, every
  other gate to its own stub, all through the kernel's code segment and open to user mode. Interrupt
  0 has the divide handler, 1 to 31 the exception handler, 32 the clock, and the rest are as they
  were.
\<close>

theorem idt_init_tables:
  assumes "length (interrupt_callbacks s) = 512"
  shows "\<exists>s'. idt_init s = Ret ((), s') \<and> idt_loaded s' = \<lparr>idtr_limit = 4095, idtr_base = idt_descriptors_addr s\<rparr>
    \<and> length (idt_descriptors s') = 512
    \<and> (\<forall>i<512. gate_target (idt_descriptors s' ! i) = (if i = 0x80 then isr80h_wrapper s else interrupt_pointer_table s ! i)
          \<and> selector (idt_descriptors s' ! i) = 0x08 \<and> type_attr (idt_descriptors s' ! i) = 0xEE)
    \<and> (\<forall>i<512. interrupt_callbacks s' ! i =
          (if i = 0 then Some Idt_zero else if i < 32 then Some Idt_handle_exception else if i = 32 then Some Idt_clock
           else interrupt_callbacks s ! i))"
proof -
  let ?d = "(map (\<lambda>i. gate (interrupt_pointer_table s ! i)) [0..<512])[0x80 := gate (isr80h_wrapper s)]"
  let ?c = "(map (\<lambda>i. Some Idt_handle_exception) [0..<32] @ drop 32 (interrupt_callbacks s))[0 := Some Idt_zero, 32 := Some Idt_clock]"
  let ?r = "\<lparr>idtr_limit = 512 * 8 - 1, idtr_base = idt_descriptors_addr s\<rparr>"
  have "idt_init s = Ret ((), s\<lparr>idt_descriptors := ?d, idtr_descriptor := ?r, interrupt_callbacks := ?c, idt_loaded := ?r,
      screen := println (map of_char ''Initialised IDT'') (screen s)\<rparr>)"
    using assms
    by (simp add: idt_init_def outcome_simps gates_run callbacks_run idt_set_run fold_list_update
        register_callback_run on_screen_def del: upt_conv_Cons upt_rec)
  moreover have "selector (gate a) = 0x08" "type_attr (gate a) = 0xEE" for a by (simp_all add: gate_def)
  ultimately show ?thesis
    using assms by (simp add: gate_target_gate nth_list_update nth_append)
qed

section \<open>System commands\<close>

definition commands :: "command list" where
  "commands = [Process_exit, Print, Putchar, Getkey, Malloc, Free, Process_load_start, Invoke_system_command, Get_program_arguments]"

lemma length_commands: "length commands = 9"
  by (simp add: commands_def)

lemma register_command_run:
  assumes "0 \<le> i" and "i < 1024"
  shows "isr80h_register_command i c s =
    (if isr80h_commands s ! nat i = None then Ret ((), s\<lparr>isr80h_commands := (isr80h_commands s)[nat i := Some c]\<rparr>)
     else Panic ''isr80h_register_command(): Attempting to overwrite existing command'')"
  using assms by (simp add: isr80h_register_command_def outcome_simps)

text \<open>
  C29: the system calls. Registering all commands on an empty table puts the nine commands at the
  numbers of \<open>enum SystemCommands\<close>; afterwards a call with one of these numbers runs that command, a
  call with any other number, also a negative or a large one, returns 0 and changes nothing, and
  registering a number a second time panics.
\<close>

theorem system_call_dispatch:
  fixes P :: "'c ports"
  assumes "isr80h_commands s = replicate 1024 None"
  shows "\<exists>s'. isr80h_register_all_commands s = Ret ((), s')
    \<and> (\<forall>n (t :: ('c, 'y) syscall_machine_scheme). isr80h_commands t = isr80h_commands s' \<longrightarrow> isr80h_handle_command P n t =
          (if 0 \<le> n \<and> n < 9 then run_command P (commands ! nat n) t else Ret (Back 0, t)))
    \<and> (\<forall>n c. 0 \<le> n \<and> n < 9 \<longrightarrow> (\<exists>e. isr80h_register_command n c s' = Panic e))"
proof -
  have r: "isr80h_register_all_commands s = Ret ((), s\<lparr>isr80h_commands := map Some commands @ replicate 1015 None\<rparr>)"
    using assms
    by (simp add: isr80h_register_all_commands_def outcome_simps register_command_run commands_def numeral_eq_Suc)
  have at: "(map Some commands @ replicate 1015 None) ! nat n = (if n < 9 then Some (commands ! nat n) else None)"
    if "0 \<le> n" "n < 1024" for n
    using that by (simp add: nth_append length_commands nat_less_iff)
  have "isr80h_handle_command P n t = (if 0 \<le> n \<and> n < 9 then run_command P (commands ! nat n) t else Ret (Back 0, t))"
    if "isr80h_commands t = map Some commands @ replicate 1015 None" for n and t :: "('c, 'y) syscall_machine_scheme"
    using that at [of n] by (simp add: isr80h_handle_command_def outcome_simps eret_def)
  moreover have "\<exists>e. isr80h_register_command n c (s\<lparr>isr80h_commands := map Some commands @ replicate 1015 None\<rparr>) = Panic e"
    if "0 \<le> n" "n < 9" for n c
    using that at [of n] by (simp add: register_command_run)
  ultimately show ?thesis unfolding r by auto
qed

section \<open>The tables of a concrete machine\<close>

theorem idt_init_tables_witness:
  "\<exists>s'. idt_init syscall_machine_0 = Ret ((), s') \<and> gate_target (idt_descriptors s' ! 0x80) = 0x100000
    \<and> interrupt_callbacks s' ! 0x21 = Some Classic_keyboard_handle_interrupt"
proof -
  have c: "length (interrupt_callbacks syscall_machine_0) = 512" by (simp add: syscall_machine_0_def)
  obtain s' where "idt_init syscall_machine_0 = Ret ((), s')"
    "\<forall>i<512. gate_target (idt_descriptors s' ! i) = (if i = 0x80 then isr80h_wrapper syscall_machine_0 else interrupt_pointer_table syscall_machine_0 ! i)"
    "\<forall>i<512. interrupt_callbacks s' ! i = (if i = 0 then Some Idt_zero else if i < 32 then Some Idt_handle_exception
      else if i = 32 then Some Idt_clock else interrupt_callbacks syscall_machine_0 ! i)"
    using idt_init_tables [OF c] by blast
  then show ?thesis by (simp add: syscall_machine_0_def nth_append)
qed

theorem system_call_dispatch_witness:
  "\<exists>s'. isr80h_register_all_commands (syscall_machine_0\<lparr>isr80h_commands := replicate 1024 None\<rparr>) = Ret ((), s')
    \<and> isr80h_handle_command (simple_ports fat_image) 9 s' = Ret (Back 0, s')"
proof -
  have "isr80h_commands (syscall_machine_0\<lparr>isr80h_commands := replicate 1024 None\<rparr>) = replicate 1024 None" by simp
  from system_call_dispatch [OF this, of "simple_ports fat_image"] show ?thesis by fastforce
qed

end
