(* ===== verification/Scheduler.thy ===== *)
theory Scheduler imports Kernel
begin

text \<open>
  The scheduler as a state machine: interrupts of the timer and of the keyboard, and the steps of
  the running program between them. The list of tasks is a ring that the timer walks round, and a
  task that is resumed gets the registers that were saved when it was preempted.
\<close>

section \<open>The ring of tasks\<close>

text \<open>
  The doubly linked list from \<open>task_head\<close> to \<open>task_tail\<close> holds exactly the tasks \<open>ts\<close>.
\<close>

definition task_links :: "(u32 \<Rightarrow> task option) \<Rightarrow> u32 list \<Rightarrow> nat \<Rightarrow> bool" where
  "task_links tm ts i =
     (case tm (ts ! i) of None \<Rightarrow> False
      | Some tk \<Rightarrow> next_task tk = (if Suc i < length ts then ts ! Suc i else 0)
                 \<and> prev_task tk = (if i = 0 then 0 else ts ! (i - 1)))"

definition task_ring :: "u32 list \<Rightarrow> ('d, 'z) task_machine_scheme \<Rightarrow> bool" where
  "task_ring ts s \<longleftrightarrow>
     ts \<noteq> [] \<and> distinct ts \<and> 0 \<notin> set ts \<and> task_head s = hd ts \<and> task_tail s = last ts
     \<and> (\<forall>i<length ts. task_links (tasks s) ts i)"

lemma task_links_update:
  assumes "tm t = Some tk" and "next_task tk' = next_task tk" and "prev_task tk' = prev_task tk"
  shows "task_links (tm(t \<mapsto> tk')) ts i = task_links tm ts i"
  using assms by (auto simp: task_links_def)

lemma task_ring_update:
  assumes "task_ring ts s" and "tasks s t = Some tk" and "next_task tk' = next_task tk" and "prev_task tk' = prev_task tk"
    and "tasks s' = (tasks s)(t \<mapsto> tk')" and "task_head s' = task_head s" and "task_tail s' = task_tail s"
  shows "task_ring ts s'"
  using assms(1) by (simp add: task_ring_def assms(5-7) task_links_update [where tm = "tasks s" and t = t and tk = tk and tk' = tk', OF assms(2-4)])

lemma task_ring_at:
  assumes "task_ring ts s" and "i < length ts"
  obtains tk where "tasks s (ts ! i) = Some tk" and "next_task tk = (if Suc i < length ts then ts ! Suc i else 0)"
    and "ts ! i \<noteq> 0"
proof -
  have l: "task_links (tasks s) ts i" and nz: "0 \<notin> set ts" using assms by (simp_all add: task_ring_def)
  show thesis using l nz nth_mem [OF assms(2)] by (auto simp: task_links_def split: option.splits intro!: that)
qed

text \<open>The machine is running task number \<open>i\<close> of the ring, and the boot code has set the callbacks.\<close>

definition running :: "u32 list \<Rightarrow> nat \<Rightarrow> ('d, 'z) syscall_machine_scheme \<Rightarrow> bool" where
  "running ts i s \<longleftrightarrow>
     task_ring ts s \<and> i < length ts \<and> current_task s = ts ! i
     \<and> interrupt_callbacks s ! 0x20 = Some Idt_clock
     \<and> interrupt_callbacks s ! 0x21 = Some Classic_keyboard_handle_interrupt"

text \<open>What the scheduler knows: the part of the state that the rest of the kernel must not touch.\<close>

definition sched_data :: "('d, 'z) syscall_machine_scheme \<Rightarrow> (u32 \<Rightarrow> task option) \<times> u32 \<times> u32 \<times> u32 \<times> callback option list" where
  "sched_data s = (tasks s, task_head s, task_tail s, current_task s, interrupt_callbacks s)"

lemma running_cong: "sched_data s' = sched_data s \<Longrightarrow> running ts i s' = running ts i s"
  by (simp add: sched_data_def running_def task_ring_def)

section \<open>One interrupt of the timer\<close>

lemma save_state_run:
  assumes "current_task s = t" and "t \<noteq> 0" and "tasks s t = Some tk"
  shows "task_current_save_state f s = Ret ((), s\<lparr>tasks := (tasks s)(t \<mapsto> tk\<lparr>regs := save_frame f (regs tk)\<rparr>)\<rparr>)"
  using assms by (simp add: task_current_save_state_def task_save_frame_def update_task_def outcome_simps)

lemma task_get_next_run:
  assumes "task_ring ts s" and "i < length ts" and "current_task s = ts ! i"
  shows "task_get_next s = Ret (ts ! (Suc i mod length ts), s)"
proof -
  obtain tk where "tasks s (ts ! i) = Some tk" and nx: "next_task tk = (if Suc i < length ts then ts ! Suc i else 0)"
    using task_ring_at [OF assms(1,2)] by metis
  moreover have "hd ts = ts ! 0" "task_head s = hd ts" "0 \<notin> set ts"
    using assms(1) by (auto simp: task_ring_def hd_conv_nth)
  moreover have "Suc i < length ts \<Longrightarrow> ts ! Suc i \<noteq> 0"
    using \<open>0 \<notin> set ts\<close> by (metis nth_mem)
  ultimately show ?thesis
    using assms(2,3) by (auto simp: task_get_next_def outcome_simps mod_Suc)
qed

lemma tick_run:
  fixes f :: interrupt_frame
  assumes "running ts i s" and "tasks s (ts ! i) = Some tk"
  defines "tk' \<equiv> tk\<lparr>regs := save_frame f (regs tk)\<rparr>"
  shows "\<exists>s'. interrupt_handler P 0x20 f s = Ret (Entered, s') \<and> running ts (Suc i mod length ts) s'
    \<and> tasks s' = (tasks s)(ts ! i \<mapsto> tk')
    \<and> entered s' = (regs (the (tasks s' (current_task s'))))\<lparr>flags := eflags s OR 0x200\<rparr>"
proof -
  let ?j = "Suc i mod length ts"
  have ring: "task_ring ts s" and i: "i < length ts" and cur: "current_task s = ts ! i"
    and cb: "interrupt_callbacks s ! 32 = Some Idt_clock" "interrupt_callbacks s ! 33 = Some Classic_keyboard_handle_interrupt"
    using assms(1) by (simp_all add: running_def)
  obtain s1 where s1: "kernel_page s = Ret ((), s1)" and data: "sched_data s1 = sched_data s" and fl: "eflags s1 = eflags s"
    by (simp add: kernel_page_def paging_switch_def outcome_simps sched_data_def Let_def)
  have ring1: "task_ring ts s1" and cur1: "current_task s1 = ts ! i" and tk1: "tasks s1 (ts ! i) = Some tk"
    and tasks1: "tasks s1 = tasks s" and cb1: "interrupt_callbacks s1 = interrupt_callbacks s"
    using data ring cur assms(2) by (simp_all add: sched_data_def task_ring_def)
  have nz: "ts ! i \<noteq> 0" using task_ring_at [OF ring i] by metis
  let ?s2 = "s1\<lparr>tasks := (tasks s1)(ts ! i \<mapsto> tk')\<rparr>"
  have s2: "task_current_save_state f s1 = Ret ((), ?s2)"
    unfolding tk'_def by (rule save_state_run [OF cur1 nz tk1])
  let ?s3 = "?s2\<lparr>dev := outb P 0x20 0x20 (dev s1)\<rparr>"
  have ring3: "task_ring ts ?s3"
    by (rule task_ring_update [OF ring1 tk1, where tk' = tk']) (simp_all add: tk'_def)
  have j: "?j < length ts" using i by (cases ts) simp_all
  obtain tj where tj: "tasks ?s3 (ts ! ?j) = Some tj" and njz: "ts ! ?j \<noteq> 0"
    using task_ring_at [OF ring3 j] by metis
  have next3: "task_get_next ?s3 = Ret (ts ! ?j, ?s3)"
    by (rule task_get_next_run [OF ring3 i]) (simp add: cur1)
  obtain s4 where s4: "task_next ?s3 = Ret (Entered :: unit exit, s4)" and data4: "sched_data s4 = sched_data (?s3\<lparr>current_task := ts ! ?j\<rparr>)"
    and en: "entered s4 = (regs tj)\<lparr>flags := eflags s OR 0x200\<rparr>"
    using tj njz by (simp add: task_next_def next3 task_switch_def task_return_def paging_switch_def outcome_simps sched_data_def Let_def fl)
  have run: "interrupt_handler P 0x20 f s = Ret (Entered, s4)"
    by (simp add: interrupt_handler_def outcome_simps s1 cb1 cb s2 ebind_def idt_clock_def port_out_def s4)
  have "tasks s4 = (tasks s)(ts ! i \<mapsto> tk')" and "current_task s4 = ts ! ?j"
    using data4 by (simp_all add: sched_data_def tasks1)
  moreover have "running ts ?j s4"
    using data4 ring3 j cb by (simp add: sched_data_def running_def task_ring_def cb1)
  moreover have "entered s4 = (regs (the (tasks s4 (current_task s4))))\<lparr>flags := eflags s OR 0x200\<rparr>"
    using en tj data4 by (simp add: sched_data_def)
  ultimately show ?thesis using run by blast
qed

section \<open>The other steps\<close>

lemma keeps_sched [keeps_intros]:
  "keeps sched_data (proc p)" "keeps sched_data kernel_page" "keeps sched_data task_page"
  "keeps sched_data (port_in P port)" "keeps sched_data (port_out P port v)" "keeps sched_data (on_screen f)"
proof -
  show "keeps sched_data (proc p)" by (simp add: proc_def keeps_intros)
  show "keeps sched_data kernel_page"
    by (auto simp: keeps_def kernel_page_def paging_switch_def outcome_simps sched_data_def Let_def)
  show "keeps sched_data task_page"
    by (auto simp: keeps_def task_page_def user_registers_def task_switch_def paging_switch_def kread_def
        outcome_simps sched_data_def Let_def kbind_def split: option.splits)
  show "keeps sched_data (port_in P port)"
    by (auto simp: keeps_def port_in_def outcome_simps sched_data_def split: prod.splits)
  show "keeps sched_data (port_out P port v)" by (auto simp: keeps_def port_out_def outcome_simps sched_data_def)
  show "keeps sched_data (on_screen f)" by (auto simp: keeps_def on_screen_def outcome_simps sched_data_def)
qed

lemma keeps_sched_updates [keeps_intros]:
  "keeps sched_data (update_process p g)" "keeps sched_data (update_keyboard k h)"
  by (auto simp: update_process_def update_keyboard_def sched_data_def intro!: keeps_intros)

lemma keeps_sched_keyboard: "keeps sched_data (classic_keyboard_handle_interrupt P)"
  unfolding classic_keyboard_handle_interrupt_def keyboard_get_capslock_def keyboard_set_capslock_def
    classic_keyboard_scancode_to_char_def keyboard_push_def
  by (intro keeps_intros)

lemma key_run:
  assumes "running ts i s" and "interrupt_handler P 0x21 f s = Ret (r, s')"
  shows "running ts i s' \<and> (\<exists>tk. tasks s (ts ! i) = Some tk
    \<and> tasks s' = (tasks s)(ts ! i \<mapsto> tk\<lparr>regs := save_frame f (regs tk)\<rparr>))"
proof -
  have ring: "task_ring ts s" and i: "i < length ts" and cur: "current_task s = ts ! i"
    and cb: "interrupt_callbacks s ! 33 = Some Classic_keyboard_handle_interrupt"
    using assms(1) by (simp_all add: running_def)
  obtain tk where tk: "tasks s (ts ! i) = Some tk" and nz: "ts ! i \<noteq> 0" using task_ring_at [OF ring i] by metis
  obtain s1 where s1: "kernel_page s = Ret ((), s1)" and data: "sched_data s1 = sched_data s"
    by (simp add: kernel_page_def paging_switch_def outcome_simps sched_data_def Let_def)
  have cur1: "current_task s1 = ts ! i" and tk1: "tasks s1 (ts ! i) = Some tk" and ts1: "tasks s1 = tasks s"
    and cb1: "interrupt_callbacks s1 ! 33 = Some Classic_keyboard_handle_interrupt"
    using data cur tk cb by (simp_all add: sched_data_def)
  let ?s2 = "s1\<lparr>tasks := (tasks s1)(ts ! i \<mapsto> tk\<lparr>regs := save_frame f (regs tk)\<rparr>)\<rparr>"
  have K: "keeps sched_data (kbind (kbind (classic_keyboard_handle_interrupt P) eret)
      (\<lambda>r. case r of Back a \<Rightarrow> kbind task_page (\<lambda>_. kbind (port_out P 32 32) eret) | Entered \<Rightarrow> kret (Entered :: unit exit)))"
    by (auto simp: eret_def intro!: keeps_intros keeps_sched_keyboard split: exit.split)
  have "interrupt_handler P 0x21 f s = kbind (kbind (classic_keyboard_handle_interrupt P) eret)
      (\<lambda>r. case r of Back a \<Rightarrow> kbind task_page (\<lambda>_. kbind (port_out P 32 32) eret) | Entered \<Rightarrow> kret Entered) ?s2"
    by (simp add: interrupt_handler_def ebind_def s1 outcome_simps cb1 kbind_assoc save_state_run [OF cur1 nz tk1] returning_def)
  then have "kbind (kbind (classic_keyboard_handle_interrupt P) eret)
      (\<lambda>r. case r of Back a \<Rightarrow> kbind task_page (\<lambda>_. kbind (port_out P 32 32) eret) | Entered \<Rightarrow> kret Entered) ?s2 = Ret (r, s')"
    by (simp only: assms(2))
  then have d: "sched_data s' = sched_data ?s2" by (rule keepsD [OF K])
  have "running ts i s1" using assms(1) running_cong [OF data] by blast
  then have "running ts i ?s2"
    using task_ring_update [where t = "ts ! i" and tk = tk and s' = ?s2 and s = s1 and ts = ts] tk1 by (simp add: running_def)
  then have "running ts i s'" using running_cong [OF d] by blast
  moreover have "tasks s' = (tasks s)(ts ! i \<mapsto> tk\<lparr>regs := save_frame f (regs tk)\<rparr>)"
    using d by (simp add: sched_data_def ts1)
  ultimately show ?thesis using tk by blast
qed

section \<open>Runs\<close>

text \<open>
  An event is an interrupt with the frame that the processor pushed, or a step of the running
  program, which changes the memory it may write and the flags.
\<close>

datatype event = Tick interrupt_frame | Key interrupt_frame | Program mem u32

fun is_tick :: "event \<Rightarrow> bool" where
  "is_tick (Tick f) = True"
| "is_tick e = False"

inductive event_step :: "'d ports \<Rightarrow> ('d, 'z) syscall_machine_scheme \<Rightarrow> event \<Rightarrow> ('d, 'z) syscall_machine_scheme \<Rightarrow> bool"
  for P :: "'d ports" where
  tick: "interrupt_handler P 0x20 f s = Ret (Entered, s') \<Longrightarrow> event_step P s (Tick f) s'"
| key: "interrupt_handler P 0x21 f s = Ret (Back (), s') \<Longrightarrow> event_step P s (Key f) s'"
| prog: "event_step P s (Program m fl) (s\<lparr>ram := m, eflags := fl\<rparr>)"

inductive_cases event_stepE: "event_step P s (Tick f) s'" "event_step P s (Key f) s'" "event_step P s (Program m fl) s'"

lemma event_tick:
  assumes "running ts i s" and "tasks s (ts ! i) = Some tk" and "event_step P s (Tick f) s'"
  shows "running ts (Suc i mod length ts) s'"
    and "tasks s' = (tasks s)(ts ! i \<mapsto> tk\<lparr>regs := save_frame f (regs tk)\<rparr>)"
    and "entered s' = (regs (the (tasks s' (current_task s'))))\<lparr>flags := eflags s OR 0x200\<rparr>"
  using tick_run [OF assms(1,2), of P f] assms(3) by (auto elim!: event_stepE)

lemma running_tick:
  assumes "running ts i s"
  shows "\<exists>s'. event_step P s (Tick f) s' \<and> running ts (Suc i mod length ts) s'"
proof -
  have "task_ring ts s" and "i < length ts" using assms by (simp_all add: running_def)
  then obtain tk where "tasks s (ts ! i) = Some tk" by (rule task_ring_at)
  from tick_run [OF assms this, of P f] show ?thesis by (blast intro: event_step.tick)
qed

text \<open>A run of any machine, and a machine whose steps move round a ring of \<open>n\<close> places.\<close>

inductive runs :: "('s \<Rightarrow> 'e \<Rightarrow> 's \<Rightarrow> bool) \<Rightarrow> 's \<Rightarrow> 'e list \<Rightarrow> 's \<Rightarrow> bool" for step where
  runs_none: "runs step s [] s"
| runs_more: "step s e s' \<Longrightarrow> runs step s' es s'' \<Longrightarrow> runs step s (e # es) s''"

inductive_simps runs_simps [simp]: "runs step s [] s'" "runs step s (e # es) s'"

lemma runs_append: "runs step s (es @ es') s' \<longleftrightarrow> (\<exists>t. runs step s es t \<and> runs step t es' s')"
  by (induction es arbitrary: s) auto

locale rotation =
  fixes step :: "'s \<Rightarrow> 'e \<Rightarrow> 's \<Rightarrow> bool" and moves :: "'e \<Rightarrow> bool" and at :: "nat \<Rightarrow> 's \<Rightarrow> bool" and n :: nat
  assumes move: "at i s \<Longrightarrow> moves e \<Longrightarrow> step s e s' \<Longrightarrow> at (Suc i mod n) s'"
    and stay: "at i s \<Longrightarrow> \<not> moves e \<Longrightarrow> step s e s' \<Longrightarrow> at i s'"
    and in_ring: "at i s \<Longrightarrow> i < n"
begin

lemma runs_at: "runs step s es s' \<Longrightarrow> at i s \<Longrightarrow> at ((i + length (filter moves es)) mod n) s'"
proof (induction arbitrary: i rule: runs.induct)
  case (runs_none s)
  then show ?case using in_ring by simp
next
  case (runs_more s e s' es s'')
  show ?case
  proof (cases "moves e")
    case True
    then show ?thesis using runs_more.IH [OF move [OF runs_more.prems True runs_more.hyps(1)]] by (simp add: mod_simps)
  next
    case False
    then show ?thesis using runs_more.IH [OF stay [OF runs_more.prems False runs_more.hyps(1)]] by simp
  qed
qed

text \<open>Until the position comes to place \<open>j\<close>, what only steps at that place change stays as it is.\<close>

lemma runs_keep_other:
  assumes "runs step s es s'" and "at i s" and "(i + d) mod n = j" and "d < n" and "length (filter moves es) < d"
    and frame: "\<And>s e s' i. step s e s' \<Longrightarrow> at i s \<Longrightarrow> i \<noteq> j \<Longrightarrow> v s' = v s"
  shows "v s' = v s"
  using assms(1-5)
proof (induction arbitrary: i d rule: runs.induct)
  case (runs_none s)
  show ?case by (rule refl)
next
  case (runs_more s e s' es s'')
  have "i \<noteq> j"
  proof
    assume "i = j"
    then have "(i + d) mod n = i mod n" using runs_more.prems in_ring by simp
    then have "d = 0"
      using in_ring [OF runs_more.prems(1)] runs_more.prems(3) by (cases "i + d < n") (simp_all add: mod_if [of "i + d"])
    then show False using runs_more.prems by simp
  qed
  then have one: "v s' = v s" using frame runs_more.hyps(1) runs_more.prems(1) by blast
  show ?case
  proof (cases "moves e")
    case True
    then obtain d' where d: "d = Suc d'" using runs_more.prems(4) by (cases d) simp_all
    have "(Suc i mod n + d') mod n = j"
      using runs_more.prems(2) by (simp add: mod_simps d)
    then have "v s'' = v s'"
      by (rule runs_more.IH [OF move [OF runs_more.prems(1) True runs_more.hyps(1)]]) (use runs_more.prems True d in simp_all)
    then show ?thesis using one by simp
  next
    case False
    then have "v s'' = v s'"
      using runs_more.IH [OF stay [OF runs_more.prems(1) False runs_more.hyps(1)] runs_more.prems(2,3)] runs_more.prems by simp
    then show ?thesis using one by simp
  qed
qed

end

interpretation ring: rotation "event_step P" is_tick "running ts" "length ts" for P :: "'d ports" and ts
proof
  fix i e and s s' :: "('d, 'z) syscall_machine_scheme"
  assume r: "running ts i s"
  then have i: "i < length ts" and ring: "task_ring ts s" by (simp_all add: running_def)
  then obtain tk where tk: "tasks s (ts ! i) = Some tk" using task_ring_at by metis
  show "running ts (Suc i mod length ts) s'" if "is_tick e" "event_step P s e s'"
    using that event_tick(1) [OF r tk] by (cases e) auto
  show "running ts i s'" if "\<not> is_tick e" "event_step P s e s'"
  proof (cases e)
    case (Key f)
    then show ?thesis using that key_run [OF r] by (auto elim!: event_stepE)
  next
    case (Program m fl)
    then have "sched_data s' = sched_data s" using that by (auto elim!: event_stepE simp: sched_data_def)
    then show ?thesis using r running_cong by blast
  qed (use that in simp)
  show "i < length ts" by (rule i)
qed

lemma event_other:
  assumes "event_step P s e s'" and "running ts i s" and "i \<noteq> j" and "j < length ts"
  shows "tasks s' (ts ! j) = tasks s (ts ! j)"
proof -
  have "i < length ts" and ring: "task_ring ts s" using assms(2) by (simp_all add: running_def)
  then have ne: "ts ! j \<noteq> ts ! i" using assms(3,4) by (simp add: task_ring_def nth_eq_iff_index_eq)
  obtain tk where tk: "tasks s (ts ! i) = Some tk" using task_ring_at [OF ring \<open>i < length ts\<close>] by metis
  show ?thesis
  proof (cases e)
    case (Tick f)
    then show ?thesis using event_tick(2) [OF assms(2) tk] assms(1) ne by auto
  next
    case (Key f)
    then show ?thesis using key_run [OF assms(2), of P f "Back ()" s'] assms(1) ne by (auto elim!: event_stepE)
  next
    case (Program m fl)
    then show ?thesis using assms(1) by (auto elim!: event_stepE)
  qed
qed

section \<open>The properties\<close>

text \<open>
  C12: round robin. From any state that runs task number \<open>i\<close> of a ring, the timer reaches every task
  \<open>j\<close> of the ring: after the right number of timer interrupts, fewer than there are tasks, whatever
  the frames are, the run exists and the machine runs task \<open>j\<close>. And in every run, however keys and
  program steps are mixed in, the number of timer interrupts alone says which task runs.
\<close>

theorem round_robin:
  assumes "running ts i s" and "j < length ts"
  shows "(\<exists>k<length ts. \<forall>fs. length fs = k \<longrightarrow> (\<exists>s'. runs (event_step P) s (map Tick fs) s' \<and> running ts j s'))
    \<and> (\<forall>es s'. runs (event_step P) s es s' \<longrightarrow> current_task s' = ts ! ((i + length (filter is_tick es)) mod length ts))"
proof -
  have ex: "\<exists>s'. runs (event_step P) s (map Tick fs) s' \<and> running ts ((i + length fs) mod length ts) s'"
    if "running ts i s" for fs i and s :: "('a, 'b) syscall_machine_scheme"
    using that
  proof (induction fs arbitrary: i s)
    case Nil
    then show ?case using ring.in_ring [OF Nil.prems] by simp
  next
    case (Cons f fs)
    obtain t where t: "event_step P s (Tick f) t" and r: "running ts (Suc i mod length ts) t"
      using running_tick [OF Cons.prems] by blast
    show ?case using Cons.IH [OF r] t by (auto simp: mod_simps)
  qed
  have all: "current_task s' = ts ! ((i + length (filter is_tick es)) mod length ts)" if "runs (event_step P) s es s'" for es s'
    using ring.runs_at [OF that assms(1)] by (simp add: running_def)
  have i: "i < length ts" using assms(1) by (rule ring.in_ring)
  define k where "k = (j + (length ts - i)) mod length ts"
  have k: "k < length ts" using assms(2) by (cases ts) (simp_all add: k_def)
  have "(i + k) mod length ts = (j + length ts) mod length ts"
    using i by (simp add: k_def mod_simps add.commute add.left_commute)
  then have "(i + k) mod length ts = j" using assms(2) by simp
  then have "\<exists>k<length ts. \<forall>fs. length fs = k \<longrightarrow> (\<exists>s'. runs (event_step P) s (map Tick fs) s' \<and> running ts j s')"
    using ex [OF assms(1)] k by metis
  with all show ?thesis by blast
qed

text \<open>
  C13: a preempted task resumes where it was. When the timer interrupts a task with the frame
  \<open>f\<close>, and then, after any mix of keys and program steps, the timer comes back to it for the first
  time, the processor gets the registers of \<open>f\<close>, each from its own word of the frame. The flags are the
  exception: the task gets those of the kernel with interrupts enabled, and its own are lost.
\<close>

theorem preempted_task_resumes:
  assumes "running ts i s" and "2 \<le> length ts"
    and "runs (event_step P) s (Tick f # es @ [Tick g]) s'" and "length (filter is_tick es) = length ts - 2"
  defines "r \<equiv> entered s'"
  shows "current_task s' = ts ! i
    \<and> eax r = f_eax f \<and> ebx r = f_ebx f \<and> ecx r = f_ecx f \<and> edx r = f_edx f \<and> esi r = f_esi f \<and> edi r = f_edi f
    \<and> ebp r = f_ebp f \<and> esp r = f_esp f \<and> ip r = f_ip f \<and> cs r = f_cs f \<and> ss r = f_ss f \<and> flags r AND 0x200 = 0x200"
proof -
  obtain tk where tk: "tasks s (ts ! i) = Some tk" using assms(1) task_ring_at by (metis running_def)
  obtain s1 s2 where r1: "event_step P s (Tick f) s1" and r2: "runs (event_step P) s1 es s2" and r3: "event_step P s2 (Tick g) s'"
    using assms(3) by (auto simp: runs_append)
  have i: "i < length ts" using assms(1) by (rule ring.in_ring)
  let ?i1 = "Suc i mod length ts" and ?i2 = "(Suc i + (length ts - 2)) mod length ts"
  have at1: "running ts ?i1 s1" by (rule event_tick(1) [OF assms(1) tk r1])
  have at2: "running ts ?i2 s2"
    using ring.runs_at [OF r2 at1] assms(4) by (simp add: mod_simps)
  have "length (filter is_tick (Tick f # es @ [Tick g])) = length ts" using assms(2,4) by simp
  then have cur: "current_task s' = ts ! i"
    using ring.runs_at [OF assms(3,1)] i by (simp only: running_def) simp
  have "(?i1 + (length ts - 1)) mod length ts = (Suc i + (length ts - 1)) mod length ts" by (rule mod_add_left_eq)
  also have "Suc i + (length ts - 1) = i + length ts" using assms(2) by simp
  finally have "(?i1 + (length ts - 1)) mod length ts = i" using i by simp
  then have "tasks s2 (ts ! i) = tasks s1 (ts ! i)"
    by (rule ring.runs_keep_other [OF r2 at1]) (use assms(2,4) i event_other in \<open>auto\<close>)
  moreover have "?i2 \<noteq> i"
  proof (cases i)
    case (Suc k)
    then have "Suc i + (length ts - 2) = k + length ts" using assms(2) by simp
    then show ?thesis using Suc i by simp
  qed (use assms(2) in simp)
  then have "tasks s' (ts ! i) = tasks s2 (ts ! i)" using event_other [OF r3 at2] i by simp
  ultimately have "tasks s' (ts ! i) = Some (tk\<lparr>regs := save_frame f (regs tk)\<rparr>)"
    using event_tick(2) [OF assms(1) tk r1] by simp
  moreover obtain tk2 where "tasks s2 (ts ! ?i2) = Some tk2"
    using at2 task_ring_at by (metis running_def)
  then have "entered s' = (regs (the (tasks s' (current_task s'))))\<lparr>flags := eflags s2 OR 0x200\<rparr>"
    using event_tick(3) [OF at2 _ r3] by blast
  ultimately have "entered s' = (frame_registers f)\<lparr>flags := eflags s2 OR 0x200\<rparr>"
    using cur by (simp add: save_frame_registers)
  then show ?thesis using cur by (simp add: r_def frame_registers_def bit.conj_disj_distrib2)
qed

section \<open>A concrete ring\<close>

lemma machine_0_running: "running [0x1200000, 0x1201000] 0 syscall_machine_0"
  by (auto simp: running_def task_ring_def task_links_def syscall_machine_0_def sample_task_def less_Suc_eq nth_append)

definition sample_frame :: interrupt_frame where
  "sample_frame = \<lparr>f_edi = 1, f_esi = 2, f_ebp = 3, f_reserved = 4, f_ebx = 5, f_edx = 6, f_ecx = 7, f_eax = 8,
     f_ip = 0x400123, f_cs = 0x1B, f_flags = 0x246, f_esp = 0x3FEFF0, f_ss = 0x23\<rparr>"

theorem round_robin_witness:
  "\<exists>fs s'. runs (event_step (simple_ports fat_image)) syscall_machine_0 (map Tick fs) s' \<and> current_task s' = 0x1201000"
proof -
  have j: "1 < length [0x1200000 :: u32, 0x1201000]" by simp
  obtain k where "\<forall>fs. length fs = k \<longrightarrow> (\<exists>s'. runs (event_step (simple_ports fat_image)) syscall_machine_0 (map Tick fs) s'
      \<and> running [0x1200000, 0x1201000] 1 s')"
    using round_robin [OF machine_0_running j, of "simple_ports fat_image"] by blast
  from this [rule_format, of "replicate k sample_frame"]
  obtain s' where s': "runs (event_step (simple_ports fat_image)) syscall_machine_0 (map Tick (replicate k sample_frame)) s'"
    and "running [0x1200000, 0x1201000] 1 s'" by auto
  then have "current_task s' = 0x1201000" by (simp add: running_def)
  with s' show ?thesis by blast
qed

theorem preempted_task_resumes_witness:
  "\<exists>s'. runs (event_step (simple_ports fat_image)) syscall_machine_0 [Tick sample_frame, Program (\<lambda>_. 7) 3, Tick sample_frame] s'
    \<and> edi (entered s') = 1 \<and> esi (entered s') = 2 \<and> ebp (entered s') = 3 \<and> ebx (entered s') = 5 \<and> edx (entered s') = 6
    \<and> ecx (entered s') = 7 \<and> eax (entered s') = 8 \<and> ip (entered s') = 0x400123 \<and> esp (entered s') = 0x3FEFF0"
proof -
  let ?P = "simple_ports fat_image" and ?ts = "[0x1200000, 0x1201000] :: u32 list"
  note step = running_tick [where P = ?P and f = sample_frame]
  obtain s1 where s1: "event_step ?P syscall_machine_0 (Tick sample_frame) s1" and r1: "running ?ts (Suc 0 mod length ?ts) s1"
    using step [OF machine_0_running] by blast
  have "sched_data (s1\<lparr>ram := \<lambda>_. 7, eflags := 3\<rparr>) = sched_data s1" by (simp add: sched_data_def)
  with r1 have "running ?ts (Suc 0 mod length ?ts) (s1\<lparr>ram := \<lambda>_. 7, eflags := 3\<rparr>)" using running_cong by blast
  then obtain s3 where s3: "event_step ?P (s1\<lparr>ram := \<lambda>_. 7, eflags := 3\<rparr>) (Tick sample_frame) s3"
    using step by blast
  from s1 s3
  have r: "runs (event_step ?P) syscall_machine_0 (Tick sample_frame # [Program (\<lambda>_. 7) 3] @ [Tick sample_frame]) s3"
    by (auto intro: event_step.prog)
  have "edi (entered s3) = 1 \<and> esi (entered s3) = 2 \<and> ebp (entered s3) = 3 \<and> ebx (entered s3) = 5 \<and> edx (entered s3) = 6
    \<and> ecx (entered s3) = 7 \<and> eax (entered s3) = 8 \<and> ip (entered s3) = 0x400123 \<and> esp (entered s3) = 0x3FEFF0"
    using preempted_task_resumes [OF machine_0_running _ r] by (simp add: sample_frame_def)
  moreover from r have "runs (event_step ?P) syscall_machine_0 [Tick sample_frame, Program (\<lambda>_. 7) 3, Tick sample_frame] s3" by simp
  ultimately show ?thesis by blast
qed

end
