(* ===== verification/TaskLists.thy ===== *)
theory TaskLists imports Scheduler
begin

text \<open>
  How tasks come and go: \<open>task_new\<close> appends to the ring, \<open>task_free\<close> leaves a stale link behind,
  and no task ever runs with other segments than those of user mode.
\<close>

section \<open>The allocator and the task list\<close>

definition task_data :: "('d, 'z) task_machine_scheme \<Rightarrow> (u32 \<Rightarrow> task option) \<times> u32 \<times> u32 \<times> u32" where
  "task_data s = (tasks s, task_head s, task_tail s, current_task s)"

lemma keeps_heap:
  assumes "\<And>s m. v (s\<lparr>ram := m\<rparr>) = v s"
  shows "keeps v (kmalloc n)" "keeps v (kzalloc n)" "keeps v (kfree p)" "keeps v (new_tables d fl offs i k)"
    "keeps v (paging_new_4gb fl')" "keeps v (free_tables c i k)" "keeps v (paging_free_4gb c)"
proof -
  show m: "keeps v (kmalloc n)" for n by (auto simp: keeps_def kmalloc_def assms split: prod.splits if_splits)
  show z: "keeps v (kzalloc n)" for n
    unfolding kzalloc_def by (intro keeps_intros m) (simp_all add: assms)
  show f: "keeps v (kfree p)" for p unfolding kfree_def by (intro keeps_intros) (simp add: assms)
  show n: "keeps v (new_tables d fl offs i k)" for d offs fl k i
    by (induction k arbitrary: i offs) (auto intro!: keeps_intros z simp: assms)
  show "keeps v (paging_new_4gb fl')"
    unfolding paging_new_4gb_def by (intro keeps_intros z n) (simp_all add: assms)
  show t: "keeps v (free_tables c i k)" for i k
    by (induction k arbitrary: i) (auto intro!: keeps_intros f)
  show "keeps v (paging_free_4gb c)"
    unfolding paging_free_4gb_def by (intro keeps_intros f t)
qed

lemma keeps_heap_tasks [keeps_intros]:
  "keeps task_data (kzalloc n)" "keeps task_data (kfree p)" "keeps task_data (paging_new_4gb fl)" "keeps task_data (paging_free_4gb c)"
  by (rule keeps_heap; simp add: task_data_def)+

lemma paging_new_nonzero: "paging_new_4gb fl s = Ret (c, t) \<Longrightarrow> c \<noteq> 0"
  unfolding paging_new_4gb_def by (auto simp: outcome_simps elim!: kbind_RetE dest: kzalloc_nonzero)

lemma free_returns: "\<exists>t. paging_free_4gb c s = Ret ((), t)"
proof -
  have "\<exists>t. free_tables c i k s = Ret ((), t)" for i k s
    by (induction k arbitrary: i s) (auto simp: outcome_simps kfree_def)
  then obtain t where "free_tables c 0 1024 s = Ret ((), t)" by blast
  then show ?thesis by (simp add: paging_free_4gb_def outcome_simps kfree_def)
qed

section \<open>Creating a task\<close>

text \<open>The scheduler's list, possibly empty: then no task is current either.\<close>

definition task_list :: "u32 list \<Rightarrow> ('d, 'z) task_machine_scheme \<Rightarrow> bool" where
  "task_list ts s \<longleftrightarrow> (if ts = [] then task_head s = 0 else task_ring ts s)"

definition user_mode :: "registers \<Rightarrow> bool" where
  "user_mode r \<longleftrightarrow> cs r = USER_CODE_SEGMENT \<and> ss r = USER_DATA_SEGMENT"

text \<open>A task that has just been set up, not yet in the list.\<close>

definition fresh_task :: "u32 \<Rightarrow> task \<Rightarrow> bool" where
  "fresh_task p tk \<longleftrightarrow> user_mode (regs tk) \<and> esp (regs tk) = PROGRAM_STACK_START \<and> owner tk = p
     \<and> next_task tk = 0 \<and> prev_task tk = 0 \<and> page_directory tk \<noteq> 0"

lemma update_task_run [outcome_simps]:
  "tasks s t = Some tk \<Longrightarrow> update_task t f s = Ret ((), s\<lparr>tasks := (tasks s)(t \<mapsto> f tk)\<rparr>)"
  by (simp add: update_task_def outcome_simps)

text \<open>The entry point of a program, from the header of its file.\<close>

lemma entry_run:
  "(if b then kbind (kread e (\<lambda>s. elf_files s q)) (\<lambda>ef. kget (g ef)) else kret d) s = Ret (entry, s') \<Longrightarrow> s' = s"
  by (auto simp: kread_def kget_def kret_def kbind_def split: if_splits option.splits)

lemma task_init_run:
  assumes "task_init t p s = Ret (res, s')"
  shows "res = 0 \<and> (\<exists>tk. fresh_task p tk \<and> task_data s' = ((tasks s)(t \<mapsto> tk), task_head s, task_tail s, current_task s))"
proof -
  let ?s1 = "s\<lparr>tasks := (tasks s)(t \<mapsto> no_task)\<rparr>"
  from assms obtain dir s2 where new: "paging_new_4gb 5 ?s1 = Ret (dir, s2)"
    and rest: "kbind (update_task t (\<lambda>tk. tk\<lparr>page_directory := dir\<rparr>)) (\<lambda>_.
     if dir = 0 then kret (err EIO)
     else kbind (kread ''no process'' (\<lambda>s. procs s p)) (\<lambda>pr.
          kbind (if process_type pr = PROCESS_FILETYPE_ELF
                 then kbind (kread ''no elf file'' (\<lambda>s. elf_files s (program pr))) (\<lambda>ef.
                      kget (\<lambda>s. e_entry (elf_header_at (ram s) (elf_memory ef))))
                 else kret PEACHOS_PROGRAM_VIRTUAL_ADDRESS) (\<lambda>entry.
          kbind (update_task t (\<lambda>tk. tk\<lparr>regs := (regs tk)\<lparr>ip := entry, ss := USER_DATA_SEGMENT, cs := USER_CODE_SEGMENT,
                                            esp := PROGRAM_STACK_START\<rparr>, owner := p\<rparr>)) (\<lambda>_.
          kret 0)))) s2 = Ret (res, s')"
    unfolding task_init_def by (auto simp: outcome_simps elim!: kbind_RetE)
  have d2: "task_data s2 = task_data ?s1" using keepsD [OF keeps_heap_tasks(3) new] .
  then have t2: "tasks s2 t = Some no_task" and "tasks s2 = (tasks s)(t \<mapsto> no_task)"
    and e2: "task_head s2 = task_head s" "task_tail s2 = task_tail s" "current_task s2 = current_task s"
    by (simp_all add: task_data_def)
  note nz = paging_new_nonzero [OF new]
  let ?s3 = "s2\<lparr>tasks := (tasks s2)(t \<mapsto> no_task\<lparr>page_directory := dir\<rparr>)\<rparr>"
  from rest nz obtain entry where
    fin: "kbind (update_task t (\<lambda>tk. tk\<lparr>regs := (regs tk)\<lparr>ip := entry, ss := USER_DATA_SEGMENT, cs := USER_CODE_SEGMENT,
            esp := PROGRAM_STACK_START\<rparr>, owner := p\<rparr>)) (\<lambda>_. kret 0) ?s3 = Ret (res, s')"
    by (auto simp: outcome_simps t2 kread_def elim!: kbind_RetE dest!: entry_run split: option.splits)
  let ?tk = "no_task\<lparr>page_directory := dir, regs := no_registers\<lparr>ip := entry, ss := USER_DATA_SEGMENT, cs := USER_CODE_SEGMENT,
            esp := PROGRAM_STACK_START\<rparr>, owner := p\<rparr>"
  have "fresh_task p ?tk" using nz by (simp add: fresh_task_def user_mode_def no_task_def)
  moreover have "res = 0" and "s' = ?s3\<lparr>tasks := (tasks ?s3)(t \<mapsto> ?tk)\<rparr>"
    using fin by (simp_all add: outcome_simps no_task_def)
  moreover have "tasks s' = (tasks s)(t \<mapsto> ?tk)"
    using calculation(3) \<open>tasks s2 = (tasks s)(t \<mapsto> no_task)\<close> by simp
  ultimately show ?thesis using e2 by (auto simp: task_data_def)
qed

text \<open>Linking a fresh task behind the tail.\<close>

lemma ring_append:
  assumes "task_ring ts s" and "t \<notin> set ts" and "t \<noteq> 0" and "tasks s (last ts) = Some tt"
    and "next_task tk = 0" and "prev_task tk = last ts"
    and "tasks s' = (tasks s)(last ts \<mapsto> tt\<lparr>next_task := t\<rparr>, t \<mapsto> tk)"
    and "task_head s' = task_head s" and "task_tail s' = t"
  shows "task_ring (ts @ [t]) s'"
proof -
  have ne: "ts \<noteq> []" and dist: "distinct ts" and nz: "0 \<notin> set ts" and hh: "task_head s = hd ts"
    and links: "\<And>i. i < length ts \<Longrightarrow> task_links (tasks s) ts i"
    using assms(1) by (auto simp: task_ring_def)
  have "task_links (tasks s') (ts @ [t]) i" if "i < Suc (length ts)" for i
  proof (cases "i < length ts")
    case True
    note i = True
    then have x: "ts ! i \<noteq> t" using assms(2) nth_mem by metis
    show ?thesis
    proof (cases "Suc i < length ts")
      case True
      then have "ts ! i \<noteq> last ts" using dist by (simp add: last_conv_nth ne nth_eq_iff_index_eq)
      then show ?thesis using links [OF i] True x assms(7) by (cases i) (auto simp: task_links_def nth_append split: option.splits)
    next
      case False
      with i have l: "Suc i = length ts" by simp
      then have "ts ! i = last ts" using ne by (simp add: last_conv_nth flip: l)
      then show ?thesis using links [OF i] l x assms(4,7) by (cases i) (auto simp: task_links_def nth_append split: option.splits)
    qed
  next
    case False
    with that have "i = length ts" by simp
    moreover have "0 < length ts" "ts ! (length ts - 1) = last ts" using ne by (simp_all add: last_conv_nth)
    ultimately show ?thesis using assms(5-7) by (auto simp: task_links_def nth_append)
  qed
  then show ?thesis using ne dist nz assms(2,3,8,9) hh by (simp add: task_ring_def)
qed

text \<open>All other tasks are what they were, up to their link to the next one.\<close>

definition others_kept :: "u32 \<Rightarrow> (u32 \<Rightarrow> task option) \<Rightarrow> (u32 \<Rightarrow> task option) \<Rightarrow> bool" where
  "others_kept t tm tm' \<longleftrightarrow> (\<forall>x tk. x \<noteq> t \<and> tm x = Some tk \<longrightarrow> (\<exists>nx. tm' x = Some (tk\<lparr>next_task := nx\<rparr>)))"

lemma others_kept_upd: "others_kept t tm (tm(t \<mapsto> tk))"
proof -
  have "\<exists>nx. tk = tk\<lparr>next_task := nx\<rparr>" for tk :: task by (rule exI [of _ "next_task tk"]) simp
  then show ?thesis by (auto simp: others_kept_def)
qed

lemma others_kept_link: "tm x = Some tk \<Longrightarrow> others_kept t tm (tm(x \<mapsto> tk\<lparr>next_task := nx\<rparr>, t \<mapsto> tk'))"
  using others_kept_upd [of t tm tk'] by (auto simp: others_kept_def)

text \<open>\<open>task_new\<close> once its two calls have returned.\<close>

lemma task_new_run:
  assumes "task_list ts s" and z: "kzalloc 64 s = Ret (t, s1)" and i: "task_init t p s1 = Ret (res, s2)" and "tasks s t = None"
  shows "\<exists>s' tk pv. task_new p s = Ret (t, s')
    \<and> s' = s2\<lparr>tasks := tasks s', task_head := task_head s', task_tail := task_tail s', current_task := current_task s'\<rparr>
    \<and> task_list (ts @ [t]) s' \<and> (ts = [] \<longrightarrow> current_task s' = t)
    \<and> tasks s2 t = Some tk \<and> fresh_task p tk \<and> tasks s' t = Some (tk\<lparr>prev_task := pv\<rparr>) \<and> others_kept t (tasks s) (tasks s')"
proof -
  have t0: "t \<noteq> 0" using z by (rule kzalloc_nonzero)
  have d1: "task_data s1 = task_data s" using keepsD [OF keeps_heap_tasks(1) z] .
  from task_init_run [OF i] obtain tk where res: "res = 0" and fresh: "fresh_task p tk"
    and d2: "task_data s2 = ((tasks s1)(t \<mapsto> tk), task_head s1, task_tail s1, current_task s1)" by blast
  have t2: "tasks s2 = (tasks s)(t \<mapsto> tk)" and e2: "task_head s2 = task_head s" "task_tail s2 = task_tail s"
    using d1 d2 by (simp_all add: task_data_def)
  show ?thesis
  proof (cases "ts = []")
    case True
    then have "task_head s2 = 0" using assms(1) e2 by (simp add: task_list_def)
    then have "task_new p s = Ret (t, s2\<lparr>task_head := t, task_tail := t, current_task := t\<rparr>)"
      using z t0 i res by (simp add: task_new_def outcome_simps)
    moreover have "task_list (ts @ [t]) (s2\<lparr>task_head := t, task_tail := t, current_task := t\<rparr>)"
      using True fresh t2 t0 by (auto simp: task_list_def task_ring_def task_links_def fresh_task_def)
    moreover have "tk = tk\<lparr>prev_task := prev_task tk\<rparr>" by simp
    ultimately show ?thesis using fresh t2 others_kept_upd
      by (intro exI [of _ "s2\<lparr>task_head := t, task_tail := t, current_task := t\<rparr>"] exI [of _ tk] exI [of _ "prev_task tk"]) simp
  next
    case False
    then have ring: "task_ring ts s" using assms(1) by (simp add: task_list_def)
    then have hh: "task_head s \<noteq> 0" and tt: "task_tail s = last ts"
      using False by (metis hd_in_set task_ring_def, simp add: task_ring_def)
    obtain tlk where tlk: "tasks s (last ts) = Some tlk"
      using task_ring_at [OF ring, of "length ts - 1"] False by (auto simp: last_conv_nth)
    then have ne: "last ts \<noteq> t" using assms(4) by auto
    have tin: "t \<notin> set ts"
    proof
      assume "t \<in> set ts"
      then obtain i where "i < length ts" "ts ! i = t" by (auto simp: in_set_conv_nth)
      with task_ring_at [OF ring this(1)] assms(4) show False by auto
    qed
    let ?s' = "s2\<lparr>tasks := (tasks s)(last ts \<mapsto> tlk\<lparr>next_task := t\<rparr>, t \<mapsto> tk\<lparr>prev_task := last ts\<rparr>), task_tail := t\<rparr>"
    have run: "task_new p s = Ret (t, ?s')"
      using z t0 i res hh tt tlk ne by (simp add: task_new_def outcome_simps t2 e2 fun_upd_twist [of t])
    have "task_ring (ts @ [t]) ?s'"
      by (rule ring_append [OF ring tin t0 tlk]) (use fresh e2 in \<open>simp_all add: fresh_task_def\<close>)
    then show ?thesis using False run fresh t2 others_kept_link [of "tasks s", OF tlk, of t t]
      by (intro exI [of _ ?s'] exI [of _ tk] exI [of _ "last ts"]) (simp add: task_list_def)
  qed
qed

lemma task_init_returns:
  assumes heap: "kheap_repr s (A @ replicate 1026 FreeBlk @ B)" and A: "FreeBlk \<notin> set A"
    and pr: "procs s p = Some pr" and elf: "process_type pr = PROCESS_FILETYPE_ELF \<Longrightarrow> elf_files s (program pr) \<noteq> None"
  shows "\<exists>s'. task_init t p s = Ret (0, s') \<and> kheap_repr s' (A @ replicate 1026 (Alloc 0) @ B)"
proof -
  let ?s1 = "s\<lparr>tasks := (tasks s)(t \<mapsto> no_task)\<rparr>"
  have "kheap_repr ?s1 (A @ replicate 1026 FreeBlk @ B)" by (rule kheap_repr_cong [OF heap]) simp_all
  from paging_new_4gb_run [OF this A refl, of 5] obtain s2 where new: "paging_new_4gb 5 ?s1 = Ret (block_addr (seg_blocks A + 1025), s2)"
    and r2: "kheap_repr s2 (A @ replicate 1026 (Alloc 0) @ B)" and s2: "s2 = ?s1\<lparr>ram := ram s2\<rparr>" by auto
  have t2: "tasks s2 t = Some no_task" "procs s2 p = Some pr" "elf_files s2 = elf_files s"
    by (subst s2, simp, subst s2, simp add: pr, subst s2, simp)
  have "seg_blocks A + 1026 \<le> 25600" using kheap_repr_blocks [OF heap] by simp
  then have nz: "block_addr (seg_blocks A + 1025) \<noteq> 0" using block_addr_ne_0 [of "seg_blocks A + 1025"] by simp
  have "\<exists>s'. task_init t p s = Ret (0, s') \<and> ram s' = ram s2 \<and> kernel_heap s' = kernel_heap s2"
  proof (cases "process_type pr = PROCESS_FILETYPE_ELF")
    case True
    then obtain ef where "elf_files s2 (program pr) = Some ef" using elf t2(3) by auto
    with True show ?thesis using new nz t2(1,2) by (simp add: task_init_def outcome_simps)
  next
    case False
    then show ?thesis using new nz t2(1,2) by (simp add: task_init_def outcome_simps)
  qed
  then show ?thesis using kheap_repr_cong [OF r2] by metis
qed

text \<open>
  C25: \<open>task_new\<close> works and keeps the list of the scheduler. With 1027 free blocks in a row it
  returns, taking exactly those blocks; the new task is at the end of the list and all others are
  where they were; it starts in user mode on the user stack, and it is the current task if it is the
  only one; every other task keeps its registers, its address space and its owner. The block that the heap hands out must not be a live task, and the file of an ELF
  process must be loaded.
\<close>

theorem task_new_appends:
  assumes "kheap_repr s (A @ replicate 1027 FreeBlk @ B)" and "FreeBlk \<notin> set A"
    and "procs s p = Some pr" and "process_type pr = PROCESS_FILETYPE_ELF \<Longrightarrow> elf_files s (program pr) \<noteq> None"
    and "task_list ts s" and "tasks s (block_addr (seg_blocks A)) = None"
  shows "\<exists>t s' tk. task_new p s = Ret (t, s') \<and> kheap_repr s' (A @ replicate 1027 (Alloc 0) @ B)
    \<and> task_list (ts @ [t]) s' \<and> (ts = [] \<longrightarrow> current_task s' = t)
    \<and> tasks s' t = Some tk \<and> owner tk = p \<and> user_mode (regs tk) \<and> esp (regs tk) = PROGRAM_STACK_START
    \<and> others_kept t (tasks s) (tasks s')"
proof -
  let ?q = "block_addr (seg_blocks A)"
  have reps: "A @ replicate 1027 x @ B = A @ replicate (Suc 0) x @ (replicate 1026 x @ B)" for x
    by (simp add: numeral_eq_Suc)
  from kzalloc_run [OF assms(1) [unfolded reps] assms(2), of 64] obtain s1 where z: "kzalloc 64 s = Ret (?q, s1)"
    and r1: "kheap_repr s1 ((A @ [Alloc 0]) @ replicate 1026 FreeBlk @ B)" and s1: "s1 = s\<lparr>ram := ram s1\<rparr>" by auto
  have p1: "procs s1 p = Some pr" "elf_files s1 = elf_files s" by (subst s1, simp add: assms(3), subst s1, simp)
  obtain s2 where i: "task_init ?q p s1 = Ret (0, s2)" and r2: "kheap_repr s2 ((A @ [Alloc 0]) @ replicate 1026 (Alloc 0) @ B)"
    using task_init_returns [OF r1 _ p1(1), of ?q] assms(2,4) p1(2) by auto
  from task_new_run [OF assms(5) z i assms(6)] obtain s' tk pv where run: "task_new p s = Ret (?q, s')"
    and e: "s' = s2\<lparr>tasks := tasks s', task_head := task_head s', task_tail := task_tail s', current_task := current_task s'\<rparr>"
    and fin: "task_list (ts @ [?q]) s' \<and> (ts = [] \<longrightarrow> current_task s' = ?q)" "fresh_task p tk" "tasks s' ?q = Some (tk\<lparr>prev_task := pv\<rparr>)"
      "others_kept ?q (tasks s) (tasks s')"
    by blast
  have same: "ram s' = ram s2" "kernel_heap s' = kernel_heap s2" by (subst e, simp)+
  have "kheap_repr s' (A @ replicate 1027 (Alloc 0) @ B)"
    using kheap_repr_cong [OF r2 same(2)] same(1) unfolding reps by simp
  then show ?thesis using run fin by (intro exI [of _ ?q] exI [of _ s'] exI [of _ "tk\<lparr>prev_task := pv\<rparr>"]) (simp add: fresh_task_def)
qed

section \<open>Freeing a task\<close>

lemma advance_run:
  assumes "tasks s t = Some tk" and "tasks (f s) = tasks s" and "current_task (f s) = current_task s"
    and "tasks (g (f s)) = tasks (f s)" and "current_task (g (f s)) = current_task (f s)"
  shows "\<exists>s'. kbind (kmod f) (\<lambda>_. kbind (kmod g) (\<lambda>_. kbind (kget current_task) (\<lambda>cur.
      if t = cur then kbind task_get_next (\<lambda>n. kmod (\<lambda>s. s\<lparr>current_task := n\<rparr>)) else kret ()))) s = Ret ((), s')
    \<and> tasks s' = tasks s"
proof (cases "t = current_task s")
  case True
  then have "task_get_next (g (f s)) = Ret (if next_task tk = 0 then task_head (g (f s)) else next_task tk, g (f s))"
    using assms by (simp add: task_get_next_def outcome_simps)
  then show ?thesis using True assms by (simp add: outcome_simps)
qed (use assms in \<open>simp add: outcome_simps\<close>)

lemma list_remove_run:
  assumes "task_ring ts s" and "i < length ts"
  shows "\<exists>s'. task_list_remove (ts ! i) s = Ret ((), s')
    \<and> (\<forall>t. (\<forall>k. i = Suc k \<longrightarrow> t \<noteq> ts ! k) \<longrightarrow> tasks s' t = tasks s t)"
proof -
  obtain tk where tk: "tasks s (ts ! i) = Some tk" and pv: "prev_task tk = (if i = 0 then 0 else ts ! (i - 1))"
    using assms by (auto simp: task_ring_def task_links_def split: option.splits)
  let ?f = "\<lambda>s. if ts ! i = task_head s then s\<lparr>task_head := next_task tk\<rparr> else s"
  let ?g = "\<lambda>s. if ts ! i = task_tail s then s\<lparr>task_tail := prev_task tk\<rparr> else s"
  have adv: "\<exists>s'. kbind (kmod ?f) (\<lambda>_. kbind (kmod ?g) (\<lambda>_. kbind (kget current_task) (\<lambda>cur.
      if ts ! i = cur then kbind task_get_next (\<lambda>n. kmod (\<lambda>s. s\<lparr>current_task := n\<rparr>)) else kret ()))) u = Ret ((), s')
    \<and> tasks s' = tasks u" if "tasks u (ts ! i) = Some tk'" for u :: "('a, 'b) task_machine_scheme" and tk'
    by (rule advance_run [OF that]) simp_all
  show ?thesis
  proof (cases i)
    case 0
    then show ?thesis using adv [OF tk] tk pv unfolding task_list_remove_def by (auto simp: kread_Some kbind_Ret kret_apply)
  next
    case (Suc k)
    have "k < length ts" using Suc assms(2) by simp
    then obtain pk where pk: "tasks s (ts ! k) = Some pk" and kz: "ts ! k \<noteq> 0" using task_ring_at [OF assms(1)] by metis
    have ki: "ts ! i \<noteq> ts ! k" using assms Suc by (simp add: task_ring_def nth_eq_iff_index_eq)
    let ?s1 = "s\<lparr>tasks := (tasks s)(ts ! k \<mapsto> pk\<lparr>next_task := next_task tk\<rparr>)\<rparr>"
    have "tasks ?s1 (ts ! i) = Some tk" using tk ki by simp
    from adv [OF this] obtain s' where s': "kbind (kmod ?f) (\<lambda>_. kbind (kmod ?g) (\<lambda>_. kbind (kget current_task) (\<lambda>cur.
      if ts ! i = cur then kbind task_get_next (\<lambda>n. kmod (\<lambda>s. s\<lparr>current_task := n\<rparr>)) else kret ()))) ?s1 = Ret ((), s')"
      and t': "tasks s' = tasks ?s1" by blast
    have r: "kread ''no task'' (\<lambda>s. tasks s (ts ! i)) s = Ret (tk, s)" using tk by (simp add: outcome_simps)
    have "task_list_remove (ts ! i) s = Ret ((), s')"
      unfolding task_list_remove_def
      by (subst kbind_Ret, rule r) (use s' pv Suc kz in \<open>simp add: kbind_Ret [where f = "update_task (ts ! k) h" for h, OF update_task_run, OF pk]\<close>)
    then show ?thesis using t' Suc by auto
  qed
qed

text \<open>
  C31: \<open>task_list_remove\<close> does not repair the link of the next task back to the removed one. Freeing
  a task of the ring returns; freeing its successor afterwards follows the stale link into the
  freed struct.
\<close>

theorem freed_task_leaves_stale_link:
  assumes "task_ring ts s" and "Suc i < length ts"
  shows "\<exists>s'. task_free (ts ! i) s = Ret (0, s') \<and> (\<exists>e. task_free (ts ! Suc i) s' = Fault e)"
proof -
  have i: "i < length ts" using assms(2) by simp
  let ?b = "ts ! i" and ?c = "ts ! Suc i"
  have dist: "?c \<noteq> ?b" "\<And>k. i = Suc k \<Longrightarrow> ?c \<noteq> ts ! k" using assms by (auto simp: task_ring_def nth_eq_iff_index_eq)
  obtain bk where bk: "tasks s ?b = Some bk" and bz: "?b \<noteq> 0" using task_ring_at [OF assms(1) i] by metis
  obtain ck where ck: "tasks s ?c = Some ck" and cp: "prev_task ck = ?b"
    using assms by (auto simp: task_ring_def task_links_def split: option.splits)
  obtain s1 where f1: "paging_free_4gb (page_directory bk) s = Ret ((), s1)" using free_returns by blast
  have d1: "task_data s1 = task_data s" using keepsD [OF keeps_heap_tasks(4) f1] .
  then have "task_ring ts s1" using assms(1) by (simp add: task_data_def task_ring_def)
  from list_remove_run [OF this i] obtain s2 where r: "task_list_remove ?b s1 = Ret ((), s2)"
    and keep: "\<And>t. (\<forall>k. i = Suc k \<longrightarrow> t \<noteq> ts ! k) \<Longrightarrow> tasks s2 t = tasks s1 t" by blast
  let ?s3 = "s2\<lparr>ram := heap_free (ram s2) (kernel_heap s2) ?b, tasks := (tasks s2)(?b := None)\<rparr>"
  have free: "task_free ?b s = Ret (0, ?s3)"
    using bk f1 r by (simp add: task_free_def outcome_simps kfree_def)
  have c3: "tasks ?s3 ?c = Some ck" using keep [of ?c] dist d1 ck by (simp add: task_data_def)
  obtain s4 where f4: "paging_free_4gb (page_directory ck) ?s3 = Ret ((), s4)" using free_returns by blast
  have "task_data s4 = task_data ?s3" using keepsD [OF keeps_heap_tasks(4) f4] .
  then have t4: "tasks s4 = (tasks s2)(?b := None)" by (simp add: task_data_def)
  then have "tasks s4 ?c = Some ck" "tasks s4 ?b = None" using c3 by simp_all
  then have "task_list_remove ?c s4 = Fault ''no task''"
    using cp bz by (simp add: task_list_remove_def update_task_def outcome_simps)
  then have "task_free ?c ?s3 = Fault ''no task''"
    using c3 f4 by (simp add: task_free_def outcome_simps)
  with free show ?thesis by blast
qed

section \<open>User mode\<close>

definition all_user :: "u32 list \<Rightarrow> ('d, 'z) task_machine_scheme \<Rightarrow> bool" where
  "all_user ts s \<longleftrightarrow> list_all (\<lambda>t. case tasks s t of None \<Rightarrow> False | Some tk \<Rightarrow> user_mode (regs tk)) ts"

fun from_user :: "event \<Rightarrow> bool" where
  "from_user (Tick f) \<longleftrightarrow> f_cs f = USER_CODE_SEGMENT \<and> f_ss f = USER_DATA_SEGMENT"
| "from_user (Key f) \<longleftrightarrow> f_cs f = USER_CODE_SEGMENT \<and> f_ss f = USER_DATA_SEGMENT"
| "from_user (Program m fl) \<longleftrightarrow> True"

lemma user_mode_save: "f_cs f = USER_CODE_SEGMENT \<and> f_ss f = USER_DATA_SEGMENT \<Longrightarrow> user_mode (save_frame f r)"
  by (simp add: user_mode_def save_frame_def)

lemma all_user_update:
  assumes "all_user ts s" and "user_mode (regs tk)" and "tasks s' = (tasks s)(t \<mapsto> tk)"
  shows "all_user ts s'"
  using assms by (auto simp: all_user_def list_all_iff)

lemma event_user:
  assumes "running ts i s" and "all_user ts s" and "from_user e" and "event_step P s e s'"
  shows "all_user ts s' \<and> (\<exists>j. running ts j s') \<and> (is_tick e \<longrightarrow> user_mode (entered s'))"
proof (cases e)
  case (Tick f)
  obtain tk where tk: "tasks s (ts ! i) = Some tk" using assms(1) task_ring_at unfolding running_def by blast
  note t = event_tick [OF assms(1) tk, of P f s']
  have step: "event_step P s (Tick f) s'" using assms(4) Tick by simp
  have all: "all_user ts s'"
    by (rule all_user_update [OF assms(2) _ t(2) [OF step]]) (use assms(3) Tick user_mode_save in simp)
  have at: "running ts (Suc i mod length ts) s'" using t(1) [OF step] .
  then have "current_task s' \<in> set ts" by (auto simp: running_def)
  then have "user_mode (regs (the (tasks s' (current_task s'))))"
    using all by (auto simp: all_user_def list_all_iff split: option.splits)
  then have "user_mode (entered s')" using t(3) [OF step] by (simp add: user_mode_def)
  then show ?thesis using all at by blast
next
  case (Key f)
  then have "interrupt_handler P 33 f s = Ret (Back (), s')" using assms(4) by (auto elim: event_stepE)
  from key_run [OF assms(1) this] obtain tk where "running ts i s'"
    and "tasks s' = (tasks s)(ts ! i \<mapsto> tk\<lparr>regs := save_frame f (regs tk)\<rparr>)" by blast
  moreover from this have "all_user ts s'"
    by (intro all_user_update [OF assms(2) _ calculation(2)]) (use assms(3) Key user_mode_save in simp)
  ultimately show ?thesis using Key by auto
next
  case (Program m fl)
  then have s': "s' = s\<lparr>ram := m, eflags := fl\<rparr>" using assms(4) by (auto elim: event_stepE)
  have "running ts i s'" unfolding s' using assms(1) running_cong [of "s\<lparr>ram := m, eflags := fl\<rparr>" s] by (simp add: sched_data_def)
  then show ?thesis using Program assms(2) s' by (auto simp: all_user_def)
qed

text \<open>
  C27: the scheduler never gives a program other privileges than those of user mode. If all tasks
  of the ring hold the user segments, and interrupts only come from user mode, then in every run all
  tasks still hold them, and so do the registers that each timer interrupt loads.
\<close>

theorem only_user_mode:
  assumes "running ts i s" and "all_user ts s" and "list_all from_user es" and "runs (event_step P) s es s'"
  shows "all_user ts s' \<and> (es \<noteq> [] \<and> is_tick (last es) \<longrightarrow> user_mode (entered s'))"
  using assms(4,1-3)
proof (induction arbitrary: i rule: runs.induct)
  case (runs_none s)
  then show ?case by simp
next
  case (runs_more s e s1 es s2)
  have one: "all_user ts s1 \<and> (\<exists>j. running ts j s1) \<and> (is_tick e \<longrightarrow> user_mode (entered s1))"
    by (rule event_user [OF runs_more.prems(1,2) _ runs_more.hyps(1)]) (use runs_more.prems(3) in simp)
  then obtain j where "running ts j s1" by blast
  then show ?case
    using runs_more.IH one runs_more.prems(3) runs_more.hyps(2) by (cases "es = []") auto
qed

section \<open>Concrete tasks\<close>

definition task_machine_0 :: "simple_drive syscall_machine" where
  "task_machine_0 = syscall_machine_0\<lparr>procs := [0x1310000 \<mapsto> no_process\<lparr>process_type := 1\<rparr>]\<rparr>"

theorem task_new_appends_witness:
  "\<exists>t s'. task_new 0x1310000 task_machine_0 = Ret (t, s') \<and> task_list ([0x1200000, 0x1201000] @ [t]) s'"
proof -
  have "kheap_repr task_machine_0 (replicate 25600 FreeBlk)"
  proof -
    have "kernel_heap task_machine_0 = kheap" "ram task_machine_0 = ram zero_machine"
      by (simp_all add: task_machine_0_def syscall_machine_0_def zero_machine_def)
    then show ?thesis using zero_machine_repr by (simp add: kheap_repr_def)
  qed
  moreover have "replicate 25600 FreeBlk = [] @ replicate 1027 FreeBlk @ replicate 24573 FreeBlk"
    by (simp only: append_Nil replicate_add [symmetric]) simp
  ultimately have heap: "kheap_repr task_machine_0 ([] @ replicate 1027 FreeBlk @ replicate 24573 FreeBlk)" by simp
  have ring: "task_list [0x1200000, 0x1201000] task_machine_0"
    using machine_0_running by (simp add: task_list_def running_def task_machine_0_def task_ring_def)
  have "procs task_machine_0 0x1310000 = Some (no_process\<lparr>process_type := 1\<rparr>)" by (simp add: task_machine_0_def)
  from task_new_appends [OF heap _ this _ ring] show ?thesis
    by (auto simp: task_machine_0_def syscall_machine_0_def block_addr_def simp del: append.simps)
qed

theorem freed_task_leaves_stale_link_witness:
  "\<exists>s'. task_free 0x1200000 syscall_machine_0 = Ret (0, s') \<and> (\<exists>e. task_free 0x1201000 s' = Fault e)"
proof -
  have "task_ring [0x1200000, 0x1201000] syscall_machine_0" using machine_0_running by (simp add: running_def)
  from freed_task_leaves_stale_link [OF this, of 0] show ?thesis by simp
qed

theorem only_user_mode_witness:
  "\<exists>s'. runs (event_step (simple_ports fat_image)) (syscall_machine_0\<lparr>tasks := [0x1200000 \<mapsto>
      (sample_task 0x1300000 0x1201000 0)\<lparr>regs := save_frame sample_frame no_registers\<rparr>, 0x1201000 \<mapsto>
      (sample_task 0x1310000 0 0x1200000)\<lparr>regs := save_frame sample_frame no_registers\<rparr>]\<rparr>) [Tick sample_frame] s'
    \<and> user_mode (entered s')"
proof -
  let ?s = "syscall_machine_0\<lparr>tasks := [0x1200000 \<mapsto> (sample_task 0x1300000 0x1201000 0)\<lparr>regs := save_frame sample_frame no_registers\<rparr>,
      0x1201000 \<mapsto> (sample_task 0x1310000 0 0x1200000)\<lparr>regs := save_frame sample_frame no_registers\<rparr>]\<rparr>"
  have r: "running [0x1200000, 0x1201000] 0 ?s"
    by (auto simp: running_def task_ring_def task_links_def syscall_machine_0_def sample_task_def less_Suc_eq nth_append)
  have u: "all_user [0x1200000, 0x1201000] ?s"
    by (simp add: all_user_def user_mode_def save_frame_def sample_frame_def)
  obtain s' where s': "event_step (simple_ports fat_image) ?s (Tick sample_frame) s'" using running_tick [OF r] by blast
  then have "runs (event_step (simple_ports fat_image)) ?s [Tick sample_frame] s'" by simp
  moreover have "list_all from_user [Tick sample_frame]" by (simp add: sample_frame_def)
  ultimately show ?thesis using only_user_mode [OF r u] by fastforce
qed

end
