(* ===== verification/ProcessMemory.thy ===== *)
theory ProcessMemory imports TaskLists
begin

text \<open>
  The memory of a process: the table of allocations that \<open>process_malloc\<close> and \<open>process_free\<close>
  keep, and the count of the arguments that a program is started with.
\<close>

section \<open>The result of a mapping\<close>

text \<open>Whether a mapping succeeds depends on the addresses only, not on the directory or the flags.\<close>

lemma paging_map_result: "fst (paging_map m d v p fl) = fst (paging_map m' d' v p fl')"
  by (simp add: paging_map_def paging_set_def Let_def split: prod.split)

lemma map_range_loop_result:
  "fst (paging_map_range_loop m d v p n fl res) = fst (paging_map_range_loop m' d' v p n fl' res)"
proof (induction n arbitrary: m m' v p res)
  case (Suc n)
  have "fst (paging_map m d v p fl) = fst (paging_map m' d' v p fl')" by (rule paging_map_result)
  then show ?case using Suc.IH by (auto split: prod.split)
qed simp

lemma map_to_result: "fst (paging_map_to m d v p e fl) = fst (paging_map_to m' d' v p e fl')"
  unfolding paging_map_to_def paging_map_range_def Let_def by (simp add: map_range_loop_result [of m d v p _ fl 0 m' d' fl'])

lemma map_range_loop_aligned:
  "page_aligned v \<Longrightarrow> page_aligned p \<Longrightarrow> fst (paging_map_range_loop m d v p n fl 0) = 0"
  by (induction n arbitrary: m v p)
    (simp_all add: paging_map_def mod_4096_iff paging_set_word split_beta)

lemma map_to_aligned:
  assumes "page_aligned v" and "page_aligned p" and "page_aligned e" and "p \<le> e"
  shows "fst (paging_map_to m d v p e fl) = 0"
  using assms map_range_loop_aligned
  by (simp add: paging_map_to_def paging_map_range_def Let_def mod_4096_iff not_less)

lemma unat_align_address:
  assumes "unat x + 4096 < 4294967296"
  shows "unat (paging_align_address x) = (unat x + 4095) div 4096 * 4096"
proof (cases "unat x mod 4096 = 0")
  case True
  then have "unat x = unat x div 4096 * 4096" by (metis add.right_neutral div_mult_mod_eq)
  then show ?thesis using True by (simp add: paging_align_address_def mod_4096_iff round_up_div_0)
next
  case False
  have "unat x mod 4096 \<le> unat x + 4096" by (meson le_add1 mod_less_eq_dividend order_trans)
  then have "paging_align_address x = of_nat (unat x + 4096 - unat x mod 4096)"
    using False by (simp add: paging_align_address_def mod_4096_iff of_nat_diff unat_mod [of x 4096, simplified, symmetric])
  then have "unat (paging_align_address x) = unat x + 4096 - unat x mod 4096"
    by (simp only:) (rule unat_of_nat_u32, use assms in linarith)
  also have "\<dots> = (unat x div 4096 + 1) * 4096"
  proof -
    have "n + 4096 - r = (q + 1) * 4096" if "q * 4096 + r = n" for n q r :: nat using that [symmetric] by simp
    from this [OF div_mult_mod_eq] show ?thesis .
  qed
  also have "\<dots> = (unat x + 4095) div 4096 * 4096" by (simp only: round_up_div(1) [OF False])
  finally show ?thesis .
qed

section \<open>The table of allocations\<close>

text \<open>An entry with a null pointer is empty.\<close>

definition table_ok :: "process \<Rightarrow> bool" where
  "table_ok pr \<longleftrightarrow> list_all (\<lambda>a. fst a = 0 \<longrightarrow> snd a = 0) (allocations pr)"

lemma find_allocation_Some:
  "find_allocation test as k = Some i \<Longrightarrow>
    k \<le> i \<and> i - k < length as \<and> test (fst (as ! (i - k))) \<and> (\<forall>j < i - k. \<not> test (fst (as ! j)))"
proof (induction as arbitrary: k)
  case (Cons a as)
  show ?case
  proof (cases "test (fst a)")
    case False
    then have "find_allocation test as (Suc k) = Some i" using Cons.prems by simp
    from Cons.IH [OF this] False show ?thesis by (auto simp: nth_Cons' less_diff_conv Suc_diff_Suc split: if_splits)
  qed (use Cons.prems in simp)
qed simp

lemma find_allocation_None: "find_allocation test as k = None \<Longrightarrow> a \<in> set as \<Longrightarrow> \<not> test (fst a)"
  by (induction as arbitrary: k) (auto split: if_splits)

lemma find_allocation_at:
  assumes "i < length as" and "test (fst (as ! i))" and "\<forall>j < i. \<not> test (fst (as ! j))"
  shows "find_allocation test as k = Some (k + i)"
  using assms
proof (induction as arbitrary: i k)
  case (Cons a as)
  show ?case
  proof (cases i)
    case 0
    then show ?thesis using Cons.prems by simp
  next
    case (Suc j)
    have "\<not> test (fst a)" using Cons.prems(3) Suc by force
    moreover have "find_allocation test as (Suc k) = Some (Suc k + j)"
      by (rule Cons.IH) (use Cons.prems Suc in auto)
    ultimately show ?thesis using Suc by simp
  qed
qed simp

text \<open>What a successful \<open>process_malloc\<close> did to the struct.\<close>

definition recorded :: "nat \<Rightarrow> u32 \<Rightarrow> u32 \<Rightarrow> process \<Rightarrow> process" where
  "recorded i ptr sz pr =
     pr\<lparr>allocations := (allocations pr)[i := (ptr, sz)], active_allocations := active_allocations pr + 1\<rparr>"

definition proc_data :: "('d, 'z) task_machine_scheme \<Rightarrow> (u32 \<Rightarrow> process option) \<times> (u32 \<Rightarrow> task option)" where
  "proc_data s = (procs s, tasks s)"

text \<open>With memory and a free entry, \<open>process_malloc\<close> succeeds.\<close>

lemma process_malloc_returns:
  assumes heap: "kheap_repr s (A @ replicate (Suc k) FreeBlk @ B)" and A: "FreeBlk \<notin> set A"
    and sz: "4096 * k < unat sz" "unat sz \<le> 4096 * Suc k"
    and pr: "procs s p = Some pr" and tk: "tasks s (main_task pr) \<noteq> None"
    and slot: "find_allocation (\<lambda>q. q = 0) (allocations pr) 0 = Some i"
  shows "\<exists>s'. process_malloc p sz s = Ret (block_addr (seg_blocks A), s')"
proof -
  let ?q = "block_addr (seg_blocks A)"
  have b: "seg_blocks A + Suc k \<le> 25600" using kheap_repr_blocks [OF heap] by simp
  then have q0: "?q \<noteq> 0" and al: "page_aligned ?q" using block_addr_ne_0 [of "seg_blocks A"] by simp_all
  have uq: "unat ?q = 16777216 + 4096 * seg_blocks A" using b unat_block_addr by simp
  have sum: "unat (?q + sz) = unat ?q + unat sz" using b uq sz(2) by (intro unat_add_lem [THEN iffD1]) simp
  then have e: "unat (paging_align_address (?q + sz)) = (unat (?q + sz) + 4095) div 4096 * 4096"
    using b uq sz(2) by (intro unat_align_address) simp
  have "unat ?q div 4096 * 4096 = unat ?q" using al by (metis add.right_neutral div_mult_mod_eq)
  moreover have "unat ?q div 4096 \<le> (unat (?q + sz) + 4095) div 4096" unfolding sum by (intro div_le_mono) simp
  ultimately have le: "?q \<le> paging_align_address (?q + sz)"
    unfolding word_le_nat_alt e by (metis mult_le_mono1)
  obtain s1 where z: "kzalloc sz s = Ret (?q, s1)" and s1: "s1 = s\<lparr>ram := ram s1\<rparr>"
    using kzalloc_run [OF heap A sz] by blast
  have p1: "procs s1 p = Some pr" "tasks s1 = tasks s" by (subst s1, simp add: pr, subst s1, simp)
  obtain t where t: "tasks s (main_task pr) = Some t" using tk by blast
  have "fst (paging_map_to (ram s1) (page_directory t) ?q ?q (paging_align_address (?q + sz)) fl) = 0" for fl
    by (rule map_to_aligned [OF al al _ le]) (simp add: e)
  then obtain m where "paging_map_to (ram s1) (page_directory t) ?q ?q (paging_align_address (?q + sz))
      (PAGING_IS_WRITEABLE OR PAGING_IS_PRESENT OR PAGING_ACCESS_FROM_ALL) = (0, m)"
    by (metis prod.collapse)
  then show ?thesis
    using z q0 p1 slot t
    by (simp add: process_malloc_def outcome_simps process_find_free_allocation_index_def proc_def update_process_def)
qed

lemma process_malloc_run:
  assumes "process_malloc p sz s = Ret (ptr, s')" and "ptr \<noteq> 0" and "procs s p = Some pr"
  obtains i where "find_allocation (\<lambda>q. q = 0) (allocations pr) 0 = Some i"
    and "procs s' = (procs s)(p \<mapsto> recorded i ptr sz pr)" and "tasks s' = tasks s"
    and "0 \<le> fst (paging_map_to m d ptr ptr (paging_align_address (ptr + sz)) fl)"
proof -
  obtain q s1 where z: "kzalloc sz s = Ret (q, s1)" using assms(1) unfolding process_malloc_def by (rule kbind_RetE)
  have "proc_data s1 = proc_data s" using keeps_heap(2) [of proc_data sz] z by (auto simp: proc_data_def dest: keepsD)
  then have d1: "procs s1 = procs s" "tasks s1 = tasks s" by (simp_all add: proc_data_def)
  have q0: "q \<noteq> 0" using z by (rule kzalloc_nonzero)
  have pr1: "procs s1 p = Some pr" using d1 assms(3) by simp
  show thesis
  proof (cases "find_allocation (\<lambda>q. q = 0) (allocations pr) 0")
    case None
    then have "process_malloc p sz s = Panic ''process_malloc: Allocation not successful''"
      using z q0 pr1 by (simp add: process_malloc_def outcome_simps process_find_free_allocation_index_def proc_def on_screen_def)
    then show ?thesis using assms(1) by simp
  next
    case (Some i)
    have mid: "process_malloc p sz s = kbind (kread ''no task'' (\<lambda>s. tasks s (main_task pr))) (\<lambda>tk.
        kbind (kget (\<lambda>s. paging_map_to (ram s) (page_directory tk) q q (paging_align_address (q + sz))
              (PAGING_IS_WRITEABLE OR PAGING_IS_PRESENT OR PAGING_ACCESS_FROM_ALL))) (\<lambda>(res, m).
        kbind (kmod (\<lambda>s. s\<lparr>ram := m\<rparr>)) (\<lambda>_.
        if res < 0 then kbind (kfree q) (\<lambda>_. kret 0)
        else kbind (update_process p (\<lambda>pr. pr\<lparr>allocations := (allocations pr)[nat (int i) := (q, sz)],
                                            active_allocations := active_allocations pr + 1\<rparr>)) (\<lambda>_.
             kret q)))) s1"
      using z q0 pr1 Some by (simp add: process_malloc_def outcome_simps process_find_free_allocation_index_def proc_def)
    have "tasks s1 (main_task pr) \<noteq> None"
    proof
      assume "tasks s1 (main_task pr) = None"
      then have "process_malloc p sz s = Fault ''no task''" unfolding mid by (simp add: outcome_simps)
      then show False using assms(1) by simp
    qed
    then obtain tk where tk: "tasks s1 (main_task pr) = Some tk" by blast
    let ?r = "paging_map_to (ram s1) (page_directory tk) q q (paging_align_address (q + sz))
              (PAGING_IS_WRITEABLE OR PAGING_IS_PRESENT OR PAGING_ACCESS_FROM_ALL)"
    have ok: "\<not> fst ?r < 0" and ptr: "ptr = q"
      and s': "s' = s1\<lparr>ram := snd ?r, procs := (procs s1)(p \<mapsto> recorded i q sz pr)\<rparr>"
      using assms(1,2) tk pr1 unfolding mid
      by (auto simp: outcome_simps update_process_def proc_def recorded_def split_beta kfree_def simp del: fun_upd_apply split: if_splits)
    have "fst (paging_map_to m d q q (paging_align_address (q + sz)) fl) = fst ?r" by (rule map_to_result)
    then show ?thesis
      by (intro that [OF Some]) (use s' ptr d1 ok in \<open>auto simp: not_less\<close>)
  qed
qed

text \<open>The allocations of a process go back to what they were.\<close>

lemma unjoin_recorded:
  assumes "table_ok pr" and i: "find_allocation (\<lambda>q. q = 0) (allocations pr) 0 = Some i"
    and fresh: "list_all (\<lambda>a. fst a \<noteq> ptr) (allocations pr)" and "ptr \<noteq> 0"
  shows "(process_allocation_unjoin ptr (recorded i ptr sz pr))\<lparr>active_allocations := active_allocations pr\<rparr> = pr"
    and "process_get_allocation_by_addr (recorded i ptr sz pr) ptr = Some (ptr, sz)"
proof -
  have l: "i < length (allocations pr)" and "fst (allocations pr ! i) = 0" using find_allocation_Some [OF i] by simp_all
  then have old: "allocations pr ! i = (0, 0)"
    using assms(1) by (auto simp: table_ok_def list_all_length prod_eq_iff)
  have "map (\<lambda>a. if fst a = ptr then (0, 0) else a) ((allocations pr)[i := (ptr, sz)]) = allocations pr"
    using l old fresh by (auto simp: list_eq_iff_nth_eq nth_list_update list_all_length)
  then show "(process_allocation_unjoin ptr (recorded i ptr sz pr))\<lparr>active_allocations := active_allocations pr\<rparr> = pr"
    by (simp add: process_allocation_unjoin_def recorded_def)
  have "find_allocation (\<lambda>q. q = ptr) ((allocations pr)[i := (ptr, sz)]) 0 = Some (0 + i)"
    by (rule find_allocation_at) (use l fresh in \<open>auto simp: list_all_length\<close>)
  then show "process_get_allocation_by_addr (recorded i ptr sz pr) ptr = Some (ptr, sz)"
    using l by (simp add: process_get_allocation_by_addr_def recorded_def)
qed

lemma process_free_run:
  assumes "process_malloc p sz s = Ret (ptr, s1)" and "ptr \<noteq> 0" and "procs s p = Some pr" and "table_ok pr"
    and "tasks s (main_task pr) \<noteq> None" and "list_all (\<lambda>a. fst a \<noteq> ptr) (allocations pr)"
  shows "\<exists>pr1 s2. procs s1 p = Some pr1 \<and> process_get_allocation_by_addr pr1 ptr = Some (ptr, sz)
    \<and> active_allocations pr1 = active_allocations pr + 1
    \<and> process_free p ptr s1 = Ret ((), s2) \<and> procs s2 = procs s"
proof -
  obtain tk where tk: "tasks s (main_task pr) = Some tk" using assms(5) by blast
  define dir where "dir = page_directory tk"
  let ?pe = "paging_align_address (ptr + sz)"
  from process_malloc_run [OF assms(1-3), where m = "ram s1" and d = dir and fl = 0] obtain i where
    i: "find_allocation (\<lambda>q. q = 0) (allocations pr) 0 = Some i"
    and pr1: "procs s1 = (procs s)(p \<mapsto> recorded i ptr sz pr)" and t1: "tasks s1 = tasks s"
    and ok: "0 \<le> fst (paging_map_to (ram s1) dir ptr ptr ?pe 0)" by blast
  note undo = unjoin_recorded [OF assms(4) i assms(6,2), of sz]
  have here: "procs s1 p = Some (recorded i ptr sz pr)" using pr1 by simp
  obtain r m where rm: "paging_map_to (ram s1) dir ptr ptr ?pe 0 = (r, m)" and r: "\<not> r < 0"
    using ok by (cases "paging_map_to (ram s1) dir ptr ptr ?pe 0") auto
  have mt: "main_task (recorded i ptr sz pr) = main_task pr" and ac: "active_allocations (recorded i ptr sz pr) = active_allocations pr + 1"
    by (simp_all add: recorded_def)
  let ?q = "process_allocation_unjoin ptr (recorded i ptr sz pr)"
  have aq: "active_allocations ?q = active_allocations pr + 1" by (simp add: process_allocation_unjoin_def recorded_def)
  have "process_free p ptr s1 = Ret ((), s1\<lparr>procs := (procs s1)(p \<mapsto> ?q\<lparr>active_allocations := active_allocations ?q - 1\<rparr>),
      ram := heap_free m (kernel_heap s1) ptr\<rparr>)"
    using here undo(2) rm r tk t1 mt
    by (simp add: process_free_def proc_def update_process_def outcome_simps kfree_def dir_def fun_upd_same del: fun_upd_apply)
  moreover have "(procs s1)(p \<mapsto> ?q\<lparr>active_allocations := active_allocations ?q - 1\<rparr>) = procs s"
    using undo(1) assms(3) by (simp add: aq pr1 map_upd_triv del: fun_upd_apply)
  ultimately show ?thesis using here undo(2) ac by auto
qed

text \<open>
  C26: \<open>process_malloc\<close> and \<open>process_free\<close> keep the books of a process. When the heap has room, the
  table of the process a free entry and its task exists, \<open>process_malloc\<close> returns the first free
  run; the block is then found in the table with its size and counted. \<open>process_free\<close> of it returns
  and leaves the table and the count exactly as they were, and touches no other process. The heap
  must not hand out a block that the table already lists.
\<close>

theorem process_malloc_free_roundtrip:
  assumes "kheap_repr s (A @ replicate (Suc k) FreeBlk @ B)" and "FreeBlk \<notin> set A"
    and "4096 * k < unat sz" and "unat sz \<le> 4096 * Suc k"
    and "procs s p = Some pr" and "tasks s (main_task pr) \<noteq> None" and "table_ok pr"
    and "list_ex (\<lambda>a. fst a = 0) (allocations pr)"
    and "list_all (\<lambda>a. fst a \<noteq> block_addr (seg_blocks A)) (allocations pr)"
  shows "\<exists>ptr s1 pr1 s2. process_malloc p sz s = Ret (ptr, s1) \<and> ptr = block_addr (seg_blocks A)
    \<and> procs s1 p = Some pr1 \<and> process_get_allocation_by_addr pr1 ptr = Some (ptr, sz)
    \<and> active_allocations pr1 = active_allocations pr + 1
    \<and> process_free p ptr s1 = Ret ((), s2) \<and> procs s2 = procs s"
proof -
  obtain i where "find_allocation (\<lambda>q. q = 0) (allocations pr) 0 = Some i"
    using find_allocation_None [where test = "\<lambda>q. q = 0"] assms(8) by (cases "find_allocation (\<lambda>q. q = 0) (allocations pr) 0") (auto simp: list_ex_iff)
  then obtain s1 where run: "process_malloc p sz s = Ret (block_addr (seg_blocks A), s1)"
    using process_malloc_returns [OF assms(1-6)] by blast
  have "block_addr (seg_blocks A) \<noteq> 0" using kheap_repr_blocks [OF assms(1)] block_addr_ne_0 [of "seg_blocks A"] by simp
  from process_free_run [OF run this assms(5,7,6,9)] run show ?thesis by blast
qed

section \<open>A concrete process\<close>

lemma task_machine_0_heap: "kheap_repr task_machine_0 (replicate 25600 FreeBlk)"
proof -
  have "kernel_heap task_machine_0 = kheap" "ram task_machine_0 = ram zero_machine"
    by (simp_all add: task_machine_0_def syscall_machine_0_def zero_machine_def)
  then show ?thesis using zero_machine_repr by (simp add: kheap_repr_def)
qed

theorem process_malloc_free_roundtrip_witness:
  "\<exists>ptr s1 s2. process_malloc 0x1310000 100 (task_machine_0\<lparr>tasks := [0 \<mapsto> no_task]\<rparr>) = Ret (ptr, s1) \<and> ptr = 0x1000000
    \<and> process_free 0x1310000 ptr s1 = Ret ((), s2) \<and> procs s2 = procs task_machine_0"
proof -
  let ?s = "task_machine_0\<lparr>tasks := [0 \<mapsto> no_task]\<rparr>"
  have "replicate 25600 FreeBlk = [] @ replicate (Suc 0) FreeBlk @ replicate 25599 FreeBlk"
    by (simp only: append_Nil replicate_add [symmetric]) simp
  moreover have "kheap_repr ?s (replicate 25600 FreeBlk)" by (rule kheap_repr_cong [OF task_machine_0_heap]) simp_all
  ultimately have heap: "kheap_repr ?s ([] @ replicate (Suc 0) FreeBlk @ replicate 25599 FreeBlk)" by simp
  have p: "procs ?s 0x1310000 = Some (no_process\<lparr>process_type := 1\<rparr>)" by (simp add: task_machine_0_def)
  have t: "tasks ?s (main_task (no_process\<lparr>process_type := 1\<rparr>)) \<noteq> None" by (simp add: no_process_def)
  have al: "allocations (no_process\<lparr>process_type := 1\<rparr>) = replicate 1024 (0, 0)" by (simp add: no_process_def)
  have a: "table_ok (no_process\<lparr>process_type := 1\<rparr>)" "list_ex (\<lambda>a. fst a = 0) (allocations (no_process\<lparr>process_type := 1\<rparr>))"
    "list_all (\<lambda>a. fst a \<noteq> block_addr (seg_blocks [])) (allocations (no_process\<lparr>process_type := 1\<rparr>))"
    unfolding table_ok_def al by (simp_all add: list_all_iff list_ex_iff block_addr_def)
  from process_malloc_free_roundtrip [OF heap _ _ _ p t a, of 100] show ?thesis
    by (auto simp: block_addr_def)
qed

end
