(* ===== verification/AddressSpace.thy ===== *)
theory AddressSpace imports ProcessMemory
begin

text \<open>
  The address space of a loaded program, \<open>process_map_memory\<close> of \<open>src/src/task/process.c\<close>: the
  segments of an ELF file and the stack are where the program expects them, with the rights the
  file asks for, and nothing but the page tables of the task has changed.
\<close>

section \<open>Changes to the tables only\<close>

definition table_byte :: "u32 \<Rightarrow> mem \<Rightarrow> u32 \<Rightarrow> bool" where
  "table_byte chunk m a \<longleftrightarrow> (\<exists>d<1024. in_range a (page_table m (load32 m chunk) d) 4096)"

definition same_space :: "u32 \<Rightarrow> mem \<Rightarrow> mem \<Rightarrow> bool" where
  "same_space chunk m m' \<longleftrightarrow> load32 m' chunk = load32 m chunk
     \<and> (\<forall>d<1024. page_table m' (load32 m chunk) d = page_table m (load32 m chunk) d)
     \<and> (\<forall>a. \<not> table_byte chunk m a \<longrightarrow> m' a = m a)"

lemma same_space_refl: "same_space chunk m m"
  by (simp add: same_space_def)

lemma same_space_table: "same_space chunk m m' \<Longrightarrow> table_byte chunk m' a \<longleftrightarrow> table_byte chunk m a"
  by (auto simp: same_space_def table_byte_def)

lemma same_space_trans: "same_space chunk m m' \<Longrightarrow> same_space chunk m' m'' \<Longrightarrow> same_space chunk m m''"
  using same_space_table [of chunk m m'] by (simp add: same_space_def)

lemma word_in_page: "page_aligned p \<Longrightarrow> i < 1024 \<Longrightarrow> in_range a (page_word p i) 4 \<Longrightarrow> in_range a p 4096"
proof -
  assume p: "page_aligned p" and i: "i < 1024" and a: "in_range a (page_word p i) 4"
  have "unat p + 4096 \<le> 4294967296"
    using unat_aligned_add [of p 12 4095] p unsigned_less [of "p + of_nat 4095", where 'a = nat] by simp
  moreover have "unat (page_word p i) = unat p + 4 * i" by (rule unat_page_word [OF p i])
  ultimately show ?thesis using i a by (simp add: in_range_forward)
qed

lemma same_space_set:
  assumes "wf_chunk chunk m" and "page_aligned v"
  shows "same_space chunk m (snd (paging_set m (load32 m chunk) v x))"
proof -
  let ?t = "page_table m (load32 m chunk)"
  have "store32 m (page_word (?t (dir_index v)) (tbl_index v)) x a = m a" if "\<not> table_byte chunk m a" for a
    using that word_in_page [of "?t (dir_index v)" "tbl_index v" a] by (intro store32_outside) (auto simp: table_byte_def)
  moreover have "page_table (store32 m (page_word (?t (dir_index v)) (tbl_index v)) x) (load32 m chunk) d = ?t d" if "d < 1024" for d
    using assms(1) that by (simp add: page_table_store wf_chunk_def)
  ultimately show ?thesis
    using load_chunk_set [OF assms] by (simp add: same_space_def paging_set_word [OF assms(2)])
qed

lemma same_space_sets:
  "wf_chunk chunk m \<Longrightarrow> \<forall>(v, x)\<in>set vxs. page_aligned v \<Longrightarrow>
    same_space chunk m (foldl (\<lambda>m (v, x). snd (paging_set m (load32 m chunk) v x)) m vxs)"
proof (induction vxs arbitrary: m)
  case Nil
  then show ?case by (simp add: same_space_refl)
next
  case (Cons vx vxs)
  obtain v x where vx: "vx = (v, x)" by fastforce
  with Cons.prems have v: "page_aligned v" by simp
  from Cons.IH [OF wf_chunk_set [OF Cons.prems(1) v, of x]] Cons.prems(2)
    same_space_trans [OF same_space_set [OF Cons.prems(1) v, of x]] show ?case
    by (simp add: vx)
qed

section \<open>Mapping an extent\<close>

text \<open>
  \<open>n\<close> bytes at the virtual address \<open>v\<close> shown at the physical address \<open>p\<close>, with the offset in the
  page that both share: what the entries of its pages are, and which pages those are.
\<close>

definition mapped :: "mem \<Rightarrow> u32 \<Rightarrow> u32 \<Rightarrow> u32 \<Rightarrow> nat \<Rightarrow> int \<Rightarrow> bool" where
  "mapped m directory v p n fl \<longleftrightarrow> (\<forall>k<n. paging_get m directory ((v + of_nat k) AND 0xFFFFF000)
     = ((p + of_nat k) AND 0xFFFFF000) OR word_of_int fl)"

definition page_span :: "u32 \<Rightarrow> nat \<Rightarrow> u32 set" where
  "page_span v n = {w. page_aligned w \<and> unat v div 4096 * 4096 \<le> unat w \<and> unat w < (unat v + n + 4095) div 4096 * 4096}"

definition extent_ok :: "u32 \<Rightarrow> u32 \<Rightarrow> nat \<Rightarrow> bool" where
  "extent_ok v p n \<longleftrightarrow> unat v mod 4096 = unat p mod 4096 \<and> unat v + n + 4096 < 4294967296 \<and> unat p + n + 4096 < 4294967296"

lemma page_in_span:
  assumes "extent_ok v p n" and "k < n"
  shows "(v + of_nat k) AND 0xFFFFF000 \<in> page_span v n"
proof -
  have "unat (v + of_nat k) = unat v + k" using assms by (intro unat_forward) (simp add: extent_ok_def)
  moreover have "unat v div 4096 * 4096 \<le> (unat v + k) div 4096 * 4096" by (simp add: div_le_mono)
  moreover have "(unat v + k) div 4096 * 4096 < (unat v + n + 4095) div 4096 * 4096"
  proof -
    have "(unat v + k) div 4096 < (unat v + n + 4095) div 4096"
      using assms(2) div_le_mono [of "unat v + k + 4096" "unat v + n + 4095" 4096] by simp
    then show ?thesis by simp
  qed
  ultimately show ?thesis by (simp add: page_span_def unat_page_mask)
qed

lemma mapped_cong:
  assumes "mapped m directory v p n fl" and "extent_ok v p n"
    and "\<And>w. w \<in> page_span v n \<Longrightarrow> paging_get m' directory w = paging_get m directory w"
  shows "mapped m' directory v p n fl"
  using assms page_in_span [OF assms(2)] by (simp add: mapped_def)

text \<open>The pages of an extent, counted from its first one.\<close>

lemma extent_pages:
  assumes "extent_ok v p n"
  defines "N \<equiv> (unat v mod 4096 + n + 4095) div 4096"
  shows "unat (p + of_nat n) = unat p + n"
    and "unat (paging_align_address (p + of_nat n)) = unat (p AND 0xFFFFF000) + 4096 * N"
    and "unat (v AND 0xFFFFF000) + 4096 * N = (unat v + n + 4095) div 4096 * 4096"
    and "k < n \<Longrightarrow> (unat v mod 4096 + k) div 4096 < N"
    and "k < n \<Longrightarrow> (v + of_nat k) AND 0xFFFFF000 = (v AND 0xFFFFF000) + 4096 * of_nat ((unat v mod 4096 + k) div 4096)"
    and "k < n \<Longrightarrow> (p + of_nat k) AND 0xFFFFF000 = (p AND 0xFFFFF000) + 4096 * of_nat ((unat v mod 4096 + k) div 4096)"
    and "unat (v AND 0xFFFFF000) + 4096 * N < 4294967296" and "N \<le> 1048576"
proof -
  define r where "r = unat v mod 4096"
  obtain a b where a: "unat v = 4096 * a + r" and b: "unat p = 4096 * b + r" and r: "r < 4096"
    using assms(1) by (metis extent_ok_def mult_div_mod_eq mod_less_divisor r_def zero_less_numeral)
  have N: "N = (r + n + 4095) div 4096" by (simp add: N_def r_def)
  have bounds: "4096 * a + r + n + 4096 < 4294967296" "4096 * b + r + n + 4096 < 4294967296"
    using assms(1) a b by (simp_all add: extent_ok_def)
  have V: "unat (v AND 0xFFFFF000) = 4096 * a" and P: "unat (p AND 0xFFFFF000) = 4096 * b"
    using a b r by (simp_all add: unat_page_mask)
  have div_a: "(4096 * a + r + j) div 4096 = a + (r + j) div 4096" and div_b: "(4096 * b + r + j) div 4096 = b + (r + j) div 4096" for j
    using div_mult_self1 [of 4096 "r + j" a] div_mult_self1 [of 4096 "r + j" b] by (simp_all add: ac_simps)
  show pn: "unat (p + of_nat n) = unat p + n" using b bounds by (intro unat_forward) simp
  then show "unat (paging_align_address (p + of_nat n)) = unat (p AND 0xFFFFF000) + 4096 * N"
    using b bounds div_b [of "n + 4095"] by (simp add: unat_align_address P N ac_simps)
  show "unat (v AND 0xFFFFF000) + 4096 * N = (unat v + n + 4095) div 4096 * 4096"
    using a div_a [of "n + 4095"] by (simp add: V N ac_simps)
  have "4096 * N \<le> r + n + 4095" unfolding N by (rule times_div_less_eq_dividend)
  then show vN: "unat (v AND 0xFFFFF000) + 4096 * N < 4294967296" using bounds by (simp add: V)
  then show "N \<le> 1048576" by simp
  assume k: "k < n"
  then have "r + k + 4096 \<le> r + n + 4095" by simp
  then have "(r + k + 4096) div 4096 \<le> N" unfolding N by (rule div_le_mono)
  then show i: "(unat v mod 4096 + k) div 4096 < N" by (simp add: r_def [symmetric])
  define i where "i = (r + k) div 4096"
  have pos: "x AND 0xFFFFF000 = y + 4096 * of_nat i" if "unat x = 4096 * c + r + k" "unat y = 4096 * c"
    "4096 * c + r + n + 4096 < 4294967296" for x y :: u32 and c
  proof -
    have "4096 * i \<le> r + k" unfolding i_def by (rule times_div_less_eq_dividend)
    then have "unat (y + of_nat (4096 * i)) = 4096 * c + 4096 * i"
      using that k by (subst unat_forward) simp_all
    moreover have "(4096 * c + r + k) div 4096 = c + i"
      unfolding i_def using div_mult_self1 [of 4096 "r + k" c] by (simp add: ac_simps)
    ultimately have "unat (x AND 0xFFFFF000) = unat (y + of_nat (4096 * i))" using that(1) by (simp add: unat_page_mask)
    then show ?thesis by (simp add: word_unat_eq_iff)
  qed
  have "unat (v + of_nat k) = 4096 * a + r + k" "unat (p + of_nat k) = 4096 * b + r + k"
    using a b bounds k by (simp_all add: unat_forward)
  with pos V P bounds show "(v + of_nat k) AND 0xFFFFF000 = (v AND 0xFFFFF000) + 4096 * of_nat ((unat v mod 4096 + k) div 4096)"
    "(p + of_nat k) AND 0xFFFFF000 = (p AND 0xFFFFF000) + 4096 * of_nat ((unat v mod 4096 + k) div 4096)"
    by (simp_all add: i_def r_def [symmetric])
qed

lemma map_to_extent:
  fixes fl :: int
  assumes "wf_chunk chunk m" and ok: "extent_ok v p n"
  defines "mt \<equiv> paging_map_to m chunk (paging_align_to_lower_page v) (paging_align_to_lower_page p)
      (paging_align_address (p + of_nat n)) fl"
  shows "fst mt = 0" and "wf_chunk chunk (snd mt)" and "same_space chunk m (snd mt)"
    and "mapped (snd mt) (load32 m chunk) v p n fl"
    and "page_aligned w \<Longrightarrow> w \<notin> page_span v n \<Longrightarrow> paging_get (snd mt) (load32 m chunk) w = paging_get m (load32 m chunk) w"
proof -
  define N where "N = (unat v mod 4096 + n + 4095) div 4096"
  let ?V = "v AND 0xFFFFF000" and ?P = "p AND 0xFFFFF000" and ?E = "paging_align_address (p + of_nat n)"
  note pages = extent_pages [OF ok, folded N_def]
  have al: "page_aligned ?V" "page_aligned ?P" by (simp_all add: page_mask_aligned)
  have E: "page_aligned ?E" using pages(2) al(2) by (metis mod_mult_self2)
  have le: "?P \<le> ?E" using pages(2) by (simp add: word_le_nat_alt)
  then have "unat (?E - ?P) = 4096 * N" using pages(2) by (simp add: unat_sub word_le_nat_alt)
  then have "sint ((?E - ?P) div 4096) = int N" using map_to_pages(1) [OF al(2) E le] by simp
  then have mt: "mt = paging_map_range m chunk ?V ?P (int N) fl"
    using al E le by (simp add: mt_def lower_page paging_map_to_def mod_4096_iff not_less [symmetric])
  note gets = paging_map_range_gets [where flags = fl, OF assms(1) al pages(8)]
  show "fst mt = 0" "wf_chunk chunk (snd mt)" unfolding mt by (rule gets)+
  have "\<forall>(v, x)\<in>set (range_entries ?V ?P fl N). page_aligned v"
    using al(1) page_aligned_add_mult by (auto simp: range_entries_def)
  then show "same_space chunk m (snd mt)"
    using same_space_sets [OF assms(1)] map_range_loop_sets [OF assms(1) al, of N fl]
    by (simp add: mt paging_map_range_def)
  show "mapped (snd mt) (load32 m chunk) v p n fl"
    unfolding mapped_def
  proof (intro allI impI)
    fix k assume k: "k < n"
    let ?w = "?V + 4096 * of_nat ((unat v mod 4096 + k) div 4096)"
    have "paging_get (snd mt) (load32 m chunk) ?w
        = (?P + 4096 * of_nat ((unat v mod 4096 + k) div 4096)) OR word_of_int fl"
      unfolding mt using gets(4) [of ?w] range_entries_lookup [OF pages(4) [OF k] pages(8)] al(1)
      by (simp add: page_aligned_add_mult)
    then show "paging_get (snd mt) (load32 m chunk) ((v + of_nat k) AND 0xFFFFF000) = ((p + of_nat k) AND 0xFFFFF000) OR word_of_int fl"
      using pages(5,6) [OF k] by simp
  qed
  assume w: "page_aligned w" "w \<notin> page_span v n"
  have "\<not> in_range w ?V (4096 * N)"
    using w pages(3,7) by (simp add: in_range_forward page_span_def unat_page_mask)
  then show "paging_get (snd mt) (load32 m chunk) w = paging_get m (load32 m chunk) w"
    unfolding mt using gets(4) [OF w(1)] range_entries_outside [OF _ pages(8)] by simp
qed

text \<open>What a mapped extent means for the processor.\<close>

lemma mapped_translates:
  assumes "mapped m directory v p n fl" and "extent_ok v p n" and "k < n" and "0 \<le> fl" "fl < 4096"
  shows "paging_get_physical_address m directory (v + of_nat k) = p + of_nat k"
proof -
  have "unat (v + of_nat k) = unat v + k" "unat (p + of_nat k) = unat p + k"
    using assms(2,3) by (simp_all add: unat_forward extent_ok_def)
  then have "unat ((v + of_nat k) mod 4096) = unat ((p + of_nat k) mod 4096)"
    using assms(2) by (simp add: unat_mod extent_ok_def) (metis mod_add_left_eq)
  then have off: "(v + of_nat k) mod 4096 = (p + of_nat k) mod 4096" by (simp add: word_unat_eq_iff)
  have fl: "unat (word_of_int fl :: u32) < 4096"
    using assms(4,5) by (simp add: unsigned_of_int take_bit_int_eq_self nat_less_iff)
  have split: "x = (x AND 0xFFFFF000) + x mod 4096" for x :: u32
    using lower_page [of x] unfolding paging_align_to_lower_page_def by (metis diff_add_cancel)
  have "paging_get_physical_address m directory (v + of_nat k)
      = ((p + of_nat k) AND 0xFFFFF000) + ((v + of_nat k) - ((v + of_nat k) AND 0xFFFFF000))"
    using assms(1,3) fl by (simp add: mapped_def paging_get_physical_address_def lower_page page_mask_flags page_mask_aligned)
  also have "(v + of_nat k) - ((v + of_nat k) AND 0xFFFFF000) = (p + of_nat k) mod 4096"
    using split [of "v + of_nat k"] off by (metis add_diff_cancel_left')
  also have "((p + of_nat k) AND 0xFFFFF000) + (p + of_nat k) mod 4096 = p + of_nat k" using split by metis
  finally show ?thesis .
qed

section \<open>The segments of an ELF file\<close>

text \<open>The headers that memory holds, and that no page table covers them.\<close>

definition headers_at :: "mem \<Rightarrow> elf_file \<Rightarrow> u32 \<Rightarrow> elf32_phdr list \<Rightarrow> bool" where
  "headers_at m ef phdrs hs \<longleftrightarrow> length hs = unat (e_phnum (elf_header_at m (elf_memory ef)))
     \<and> (\<forall>i<length hs. elf32_phdr_at m (phdrs + 32 * of_nat i) = hs ! i)"

definition headers_apart :: "u32 \<Rightarrow> mem \<Rightarrow> elf_file \<Rightarrow> u32 \<Rightarrow> nat \<Rightarrow> bool" where
  "headers_apart chunk m ef phdrs n \<longleftrightarrow>
     (\<forall>a. in_range a (elf_memory ef) 52 \<or> in_range a phdrs (32 * n) \<longrightarrow> \<not> table_byte chunk m a)"

lemma headers_at_same:
  assumes "headers_at m ef phdrs hs" and "headers_apart chunk m ef phdrs (length hs)" and "same_space chunk m m'"
  shows "headers_at m' ef phdrs hs" and "headers_apart chunk m' ef phdrs (length hs)"
proof -
  have eq: "m' a = m a" if "in_range a (elf_memory ef) 52 \<or> in_range a phdrs (32 * length hs)" for a
    using assms(2,3) that unfolding headers_apart_def same_space_def by blast
  show "headers_apart chunk m' ef phdrs (length hs)"
    using assms(2) same_space_table [OF assms(3)] by (simp add: headers_apart_def)
  have "m' (elf_memory ef + 44) = m (elf_memory ef + 44)" "m' (elf_memory ef + 44 + 1) = m (elf_memory ef + 44 + 1)"
    using eq in_range_add [of 52 44 "elf_memory ef"] in_range_add [of 52 45 "elf_memory ef"] by (simp_all add: add.assoc)
  then have n: "e_phnum (elf_header_at m' (elf_memory ef)) = e_phnum (elf_header_at m (elf_memory ef))"
    by (simp add: elf_header_at_def load16_def)
  have len: "32 * length hs \<le> 4294967296"
    using assms(1) less_unat_u16 [of "length hs - 1" "e_phnum (elf_header_at m (elf_memory ef))"]
    by (cases hs) (auto simp: headers_at_def)
  have "elf32_phdr_at m' (phdrs + 32 * of_nat i) = elf32_phdr_at m (phdrs + 32 * of_nat i)" if i: "i < length hs" for i
  proof -
    have w: "load32 m' (phdrs + of_nat (32 * i + 4 * j)) = load32 m (phdrs + of_nat (32 * i + 4 * j))" if "j < 8" for j
    proof (rule load32_range)
      fix x assume x: "in_range x (phdrs + of_nat (32 * i + 4 * j)) 4"
      have "32 * i + 4 * j + 4 \<le> 32 * length hs" using i that by simp
      from in_range_part [OF this len x] show "m' x = m x" by (intro eq disjI2)
    qed
    show ?thesis
      using w [of 0] w [of 1] w [of 2] w [of 3] w [of 4] w [of 5] w [of 6] w [of 7]
      by (simp add: elf32_phdr_at_def add.assoc)
  qed
  with assms(1) n show "headers_at m' ef phdrs hs" by (simp add: headers_at_def)
qed

definition seg_span :: "elf32_phdr \<Rightarrow> u32 set" where
  "seg_span h = page_span (p_vaddr h) (unat (p_memsz h))"

definition seg_ok :: "elf_file \<Rightarrow> elf32_phdr \<Rightarrow> bool" where
  "seg_ok ef h \<longleftrightarrow> extent_ok (p_vaddr h) (elf_phdr_phys_address ef h) (unat (p_memsz h))"

definition seg_mapped :: "mem \<Rightarrow> u32 \<Rightarrow> elf_file \<Rightarrow> elf32_phdr \<Rightarrow> bool" where
  "seg_mapped m directory ef h \<longleftrightarrow>
     mapped m directory (p_vaddr h) (elf_phdr_phys_address ef h) (unat (p_memsz h)) (segment_flags h)"

lemma map_segments_run:
  assumes "wf_chunk chunk m" and "headers_at m ef phdrs hs" and "headers_apart chunk m ef phdrs (length hs)"
    and ok: "\<And>h. h \<in> set hs \<Longrightarrow> seg_ok ef h"
    and apart: "\<And>j k. j < k \<Longrightarrow> k < length hs \<Longrightarrow> seg_span (hs ! j) \<inter> seg_span (hs ! k) = {}"
    and "map_segments chunk ef phdrs i res m = (res', m')" and "n = length hs - i"
  shows "res' = (if i < length hs then 0 else res) \<and> wf_chunk chunk m' \<and> same_space chunk m m'
    \<and> (\<forall>j. i \<le> j \<and> j < length hs \<longrightarrow> seg_mapped m' (load32 m chunk) ef (hs ! j))
    \<and> (\<forall>w. page_aligned w \<and> (\<forall>j. i \<le> j \<and> j < length hs \<longrightarrow> w \<notin> seg_span (hs ! j))
        \<longrightarrow> paging_get m' (load32 m chunk) w = paging_get m (load32 m chunk) w)"
  using assms(1-3,6,7)
proof (induction n arbitrary: i m res)
  case 0
  then have "\<not> i < length hs" by simp
  moreover from this have "m' = m" "res' = res"
    using 0 by (auto simp: map_segments.simps [of chunk ef phdrs i] headers_at_def)
  ultimately show ?case using 0(1) by (auto simp: same_space_refl)
next
  case (Suc n)
  then have i: "i < length hs" by simp
  define h where "h = hs ! i"
  have h: "elf32_phdr_at m (phdrs + 32 * of_nat i) = h" "seg_ok ef h"
    using Suc.prems(2) ok i by (simp_all add: headers_at_def h_def)
  define mt where "mt = paging_map_to m chunk (paging_align_to_lower_page (p_vaddr h))
      (paging_align_to_lower_page (elf_phdr_phys_address ef h))
      (paging_align_address (elf_phdr_phys_address ef h + p_memsz h)) (segment_flags h)"
  define m1 where "m1 = snd mt"
  note ext = map_to_extent [OF Suc.prems(1) h(2) [unfolded seg_ok_def], where fl = "segment_flags h",
      simplified, folded mt_def, folded m1_def]
  have D: "load32 m1 chunk = load32 m chunk" using ext(3) by (simp add: same_space_def)
  have "map_segments chunk ef phdrs (Suc i) 0 m1 = (res', m')"
    using Suc.prems(2,4) i h(1) ext(1)
    by (simp add: map_segments.simps [of chunk ef phdrs i] headers_at_def mt_def [symmetric] m1_def split_beta Let_def)
  from Suc.IH [OF ext(2) headers_at_same [OF Suc.prems(2,3) ext(3)] this] Suc.prems(5)
  have rest: "res' = 0" "wf_chunk chunk m'" "same_space chunk m1 m'"
    and later: "\<And>j. i < j \<Longrightarrow> j < length hs \<Longrightarrow> seg_mapped m' (load32 m chunk) ef (hs ! j)"
    and other: "\<And>w. page_aligned w \<Longrightarrow> \<forall>j. i < j \<and> j < length hs \<longrightarrow> w \<notin> seg_span (hs ! j)
        \<Longrightarrow> paging_get m' (load32 m chunk) w = paging_get m1 (load32 m chunk) w"
    by (auto simp: D Suc_le_eq split: if_splits)
  have same: "paging_get m' (load32 m chunk) w = paging_get m1 (load32 m chunk) w" if "w \<in> seg_span h" for w
  proof (rule other)
    show "page_aligned w" using that by (simp add: seg_span_def page_span_def)
    show "\<forall>j. i < j \<and> j < length hs \<longrightarrow> w \<notin> seg_span (hs ! j)" using that apart [of i] by (auto simp: h_def)
  qed
  have "seg_mapped m' (load32 m chunk) ef h"
    unfolding seg_mapped_def
    by (rule mapped_cong [OF ext(4) h(2) [unfolded seg_ok_def] same [unfolded seg_span_def]])
  then have all: "seg_mapped m' (load32 m chunk) ef (hs ! j)" if "i \<le> j" "j < length hs" for j
    using that later [of j] by (cases "i = j") (auto simp: h_def)
  have out: "paging_get m' (load32 m chunk) w = paging_get m (load32 m chunk) w"
    if "page_aligned w" "\<forall>j. i \<le> j \<and> j < length hs \<longrightarrow> w \<notin> seg_span (hs ! j)" for w
  proof -
    have "w \<notin> seg_span (hs ! i)" using that(2) i by blast
    then have "w \<notin> page_span (p_vaddr h) (unat (p_memsz h))" by (simp add: h_def seg_span_def)
    moreover have "\<forall>j. i < j \<and> j < length hs \<longrightarrow> w \<notin> seg_span (hs ! j)" using that(2) less_imp_le by blast
    ultimately show ?thesis using other [OF that(1)] ext(5) [OF that(1)] by simp
  qed
  have "res' = (if i < length hs then 0 else res)" using i rest(1) by simp
  moreover have "same_space chunk m m'" by (rule same_space_trans [OF ext(3) rest(3)])
  ultimately show ?case using rest(2) all out by (intro conjI allI impI; (elim conjE)?; assumption?) simp_all
qed

section \<open>The whole address space\<close>

text \<open>The rights of a mapped page: present and open to the program, writeable if the header says so.\<close>

lemma page_rights:
  assumes "page_aligned p"
  shows "(p OR word_of_int (segment_flags h)) AND 7 = (if p_flags h AND 2 \<noteq> 0 then 7 else 5)"
proof -
  have "p AND 7 = (p AND 0xFFFFF000) AND 7" using assms by (simp add: page_mask_id)
  then have "p AND 7 = 0" by (simp add: and.assoc)
  then have "(p OR word_of_int (segment_flags h)) AND 7 = word_of_int (segment_flags h) AND 7"
    by (simp add: bit.conj_disj_distrib2)
  then show ?thesis by (simp add: segment_flags_def)
qed

text \<open>Mapping the segments and the stack of a process.\<close>

lemma map_memory_run:
  assumes "procs s p = Some pr" and "process_type pr = 0" and "elf_files s (program pr) = Some ef"
    and "tasks s (main_task pr) = Some tk" and wf: "wf_chunk (page_directory tk) (ram s)"
    and hs: "headers_at (ram s) ef (elf_pheader (ram s) (elf_memory ef)) hs"
      "headers_apart (page_directory tk) (ram s) ef (elf_pheader (ram s) (elf_memory ef)) (length hs)"
    and ok: "\<And>h. h \<in> set hs \<Longrightarrow> seg_ok ef h" "extent_ok 0x3FB000 (stack pr) 16384"
    and apart: "\<And>j k. j < k \<Longrightarrow> k < length hs \<Longrightarrow> seg_span (hs ! j) \<inter> seg_span (hs ! k) = {}"
      "\<And>h. h \<in> set hs \<Longrightarrow> seg_span h \<inter> page_span 0x3FB000 16384 = {}"
  defines "D \<equiv> load32 (ram s) (page_directory tk)"
  shows "\<exists>s'. process_map_memory p s = Ret (0, s') \<and> s' = s\<lparr>ram := ram s'\<rparr>
    \<and> (\<forall>a. \<not> table_byte (page_directory tk) (ram s) a \<longrightarrow> ram s' a = ram s a)
    \<and> (\<forall>h\<in>set hs. \<forall>k<unat (p_memsz h).
        paging_get_physical_address (ram s') D (p_vaddr h + of_nat k) = elf_memory ef + p_offset h + of_nat k
        \<and> (paging_get (ram s') D ((p_vaddr h + of_nat k) AND 0xFFFFF000) AND 7 = (if p_flags h AND 2 \<noteq> 0 then 7 else 5)))
    \<and> (\<forall>k<16384. paging_get_physical_address (ram s') D (0x3FB000 + of_nat k) = stack pr + of_nat k)"
proof -
  define dir where "dir = page_directory tk"
  obtain res1 m1 where ms: "map_segments dir ef (elf_pheader (ram s) (elf_memory ef)) 0 0 (ram s) = (res1, m1)" by fastforce
  from map_segments_run [OF wf hs ok(1) apart(1) ms [unfolded dir_def] refl]
  have r1: "res1 = 0" "wf_chunk dir m1" "same_space dir (ram s) m1"
    and seg1: "\<And>h. h \<in> set hs \<Longrightarrow> seg_mapped m1 D ef h"
    by (auto simp: dir_def D_def in_set_conv_nth split: if_splits)
  have D1: "load32 m1 dir = D" using r1(3) by (simp add: same_space_def D_def dir_def)
  define fl :: int where "fl = 7"
  define mt where "mt = paging_map_to m1 dir 0x3FB000 (stack pr) (paging_align_address (stack pr + 16384)) fl"
  have lower: "paging_align_to_lower_page 0x3FB000 = 0x3FB000" "paging_align_to_lower_page (stack pr) = stack pr"
    using ok(2) by (simp_all add: lower_page page_mask_id extent_ok_def)
  note ext = map_to_extent [OF r1(2) ok(2), where fl = fl, simplified lower, simplified, folded mt_def, unfolded D1]
  let ?m = "snd mt"
  have run: "process_map_memory p s = Ret (0, s\<lparr>ram := ?m\<rparr>)"
    using assms(1-4) ms r1(1) ext(1)
    by (simp add: process_map_memory_def process_map_elf_def proc_def directory_of_def map_to_def outcome_simps
        dir_def [symmetric] mt_def [simplified fl_def, symmetric] split_beta del: map_segments.simps)
  have tables: "\<forall>a. \<not> table_byte dir (ram s) a \<longrightarrow> ?m a = ram s a"
    using same_space_trans [OF r1(3) ext(3)] by (simp add: same_space_def)
  have seg: "seg_mapped ?m D ef h" if "h \<in> set hs" for h
    unfolding seg_mapped_def
  proof (rule mapped_cong [OF seg1 [OF that, unfolded seg_mapped_def] ok(1) [OF that, unfolded seg_ok_def]])
    fix w assume w: "w \<in> page_span (p_vaddr h) (unat (p_memsz h))"
    then have "page_aligned w" by (simp add: page_span_def)
    moreover have "w \<notin> page_span 0x3FB000 16384" using w apart(2) [OF that] by (auto simp: seg_span_def)
    ultimately show "paging_get ?m D w = paging_get m1 D w" by (rule ext(5))
  qed
  have phys: "paging_get_physical_address ?m D (p_vaddr h + of_nat k) = elf_memory ef + p_offset h + of_nat k
      \<and> (paging_get ?m D ((p_vaddr h + of_nat k) AND 0xFFFFF000) AND 7 = (if p_flags h AND 2 \<noteq> 0 then 7 else 5))"
    if h: "h \<in> set hs" and k: "k < unat (p_memsz h)" for h k
  proof -
    have "0 \<le> segment_flags h" "segment_flags h < 4096" by (simp_all add: segment_flags_def)
    with mapped_translates [OF seg [OF h, unfolded seg_mapped_def] ok(1) [OF h, unfolded seg_ok_def] k]
    have "paging_get_physical_address ?m D (p_vaddr h + of_nat k) = elf_memory ef + p_offset h + of_nat k"
      by (simp add: elf_phdr_phys_address_def)
    moreover have "paging_get ?m D ((p_vaddr h + of_nat k) AND 0xFFFFF000)
        = ((elf_phdr_phys_address ef h + of_nat k) AND 0xFFFFF000) OR word_of_int (segment_flags h)"
      using seg [OF h] k by (simp add: seg_mapped_def mapped_def)
    ultimately show ?thesis by (simp add: page_rights page_mask_aligned)
  qed
  have st: "paging_get_physical_address ?m D (0x3FB000 + of_nat k) = stack pr + of_nat k" if "k < 16384" for k
    using mapped_translates [OF ext(4) ok(2) that] by (simp add: fl_def)
  show ?thesis
    by (intro exI [of _ "s\<lparr>ram := ?m\<rparr>"]) (use run tables phys st in \<open>simp add: dir_def\<close>)
qed

text \<open>
  C8: mapping the memory of a process that was loaded from an ELF file, when the segments keep their
  offset in the page and share no page with each other or with the stack: it succeeds and writes
  page tables only; every byte of every segment is then where its header says, backed by the
  contents of the file, open to the program and writeable exactly if the header asks for it, and the stack lies below
  0x3FF000.
\<close>

theorem elf_address_space:
  assumes "procs s p = Some pr" and "process_type pr = 0" and "elf_files s (program pr) = Some ef"
    and "tasks s (main_task pr) = Some tk" and wf: "wf_chunk (page_directory tk) (ram s)"
    and hs: "headers_at (ram s) ef (elf_pheader (ram s) (elf_memory ef)) hs"
      "headers_apart (page_directory tk) (ram s) ef (elf_pheader (ram s) (elf_memory ef)) (length hs)"
    and ok: "\<And>h. h \<in> set hs \<Longrightarrow> seg_ok ef h" "extent_ok 0x3FB000 (stack pr) 16384"
    and apart: "\<And>j k. j < k \<Longrightarrow> k < length hs \<Longrightarrow> seg_span (hs ! j) \<inter> seg_span (hs ! k) = {}"
      "\<And>h. h \<in> set hs \<Longrightarrow> seg_span h \<inter> page_span 0x3FB000 16384 = {}"
  defines "D \<equiv> load32 (ram s) (page_directory tk)"
  shows "\<exists>s'. process_map_memory p s = Ret (0, s') \<and> s' = s\<lparr>ram := ram s'\<rparr>
    \<and> (\<forall>a. \<not> table_byte (page_directory tk) (ram s) a \<longrightarrow> ram s' a = ram s a)
    \<and> (\<forall>h\<in>set hs. \<forall>k<unat (p_memsz h).
        paging_get_physical_address (ram s') D (p_vaddr h + of_nat k) = elf_memory ef + p_offset h + of_nat k
        \<and> (paging_get (ram s') D ((p_vaddr h + of_nat k) AND 0xFFFFF000) AND 7 = (if p_flags h AND 2 \<noteq> 0 then 7 else 5)))
    \<and> (\<forall>k<16384. paging_get_physical_address (ram s') D (0x3FB000 + of_nat k) = stack pr + of_nat k)"
  using map_memory_run [OF assms(1-11)] unfolding D_def .

section \<open>A concrete program\<close>

text \<open>
  Memory by its aligned words: the chunk at 0x1000 and at 0xF000, the directory at 0x100000 with its tables from
  0x200000, and at 0x700000 an ELF file with one segment of 5000 bytes for 0x400000.
\<close>

definition space_word :: "nat \<Rightarrow> u32" where
  "space_word n =
     (if n = 0x400 \<or> n = 0x3C00 then 0x100000
      else if 0x40000 \<le> n \<and> n < 0x40400 then of_nat (0x200007 + 4096 * (n - 0x40000))
      else if n = 0x1C0007 then 52 else if n = 0x1C000B then 1
      else if n = 0x1C000D then 1 else if n = 0x1C000E then 0x1000 else if n = 0x1C000F then 0x400000
      else if n = 0x80400 then 0x700007 else if n = 0x1C0100 then 0x6948 else if n = 0x1C0102 then 0x400400
      else if n = 0x240000 then 0x61 else if n = 0x240080 then 0x900400 else if n = 0x240100 then 0x6362
      else if n = 0x1C0110 then 0x612F3A30 else if n = 0x1C0112 then 0x400440
      else if n = 0x1C0011 then 5000 else if n = 0x1C0012 then 5000 else if n = 0x1C0013 then 6 else 0)"

definition space_memory :: mem where
  "space_memory a = ucast (drop_bit (8 * (unat a mod 4)) (space_word (unat a div 4)))"

definition space_header :: elf32_phdr where
  "space_header = \<lparr>p_type = 1, p_offset = 0x1000, p_vaddr = 0x400000, p_paddr = 0, p_filesz = 5000, p_memsz = 5000,
     p_flags = 6, p_align = 0\<rparr>"

lemma load32_space: "unat a mod 4 = 0 \<Longrightarrow> load32 space_memory a = space_word (unat a div 4)"
proof -
  assume a: "unat a mod 4 = 0"
  have "space_memory (a + of_nat k) = ucast (drop_bit (8 * k) (space_word (unat a div 4)))" if "k < 4" for k
  proof -
    have u: "unat (a + of_nat k) = unat a + k" using unat_aligned_add [of a 2 k] a that by simp
    have "(unat a + k) mod 4 = k" "(unat a + k) div 4 = unat a div 4"
      using a that by (simp_all add: mod_add_left_eq [symmetric] div_add1_eq)
    then show ?thesis by (simp add: space_memory_def u)
  qed
  from this [of 0] this [of 1] this [of 2] this [of 3]
  have "load32 space_memory a = load32 (store32 (\<lambda>_. 0) a (space_word (unat a div 4))) a"
    by (intro load32_cong) (simp_all add: store32_def)
  then show ?thesis by (simp add: load32_store32_same)
qed

lemma space_table: "d < 1024 \<Longrightarrow> page_table space_memory 0x100000 d = of_nat (0x200000 + 4096 * d)"
proof -
  assume d: "d < 1024"
  define n where "n = 0x200007 + 4096 * d"
  have u: "unat (page_word 0x100000 d) = 0x100000 + 4 * d" using d unat_page_word [of "0x100000" d] by simp
  have "(0x100000 + 4 * d) mod 4 = 0" "(0x100000 + 4 * d) div 4 = 0x40000 + d" by simp_all
  then have "load32 space_memory (page_word 0x100000 d) = space_word (0x40000 + d)"
    using load32_space [of "page_word 0x100000 d"] u by metis
  also have "\<dots> = of_nat n" using d by (simp add: space_word_def n_def del: of_nat_add of_nat_mult)
  finally have l: "load32 space_memory (page_word 0x100000 d) = of_nat n" .
  have lt: "n < 4294967296" "0x200000 + 4096 * d < 4294967296" using d by (simp_all add: n_def)
  have "n = 7 + (512 + d) * 4096" by (simp add: n_def)
  then have "n div 4096 * 4096 = 0x200000 + 4096 * d" by simp
  then have "unat (page_table space_memory 0x100000 d) = 0x200000 + 4096 * d"
    by (simp only: page_table_def l unat_page_mask unat_of_nat_u32 [OF lt(1)])
  then show ?thesis by (simp only: word_unat_eq_iff unat_of_nat_u32 [OF lt(2)])
qed

lemma unat_space_table: "d < 1024 \<Longrightarrow> unat (page_table space_memory 0x100000 d) = 0x200000 + 4096 * d"
  by (simp only: space_table) (rule unat_of_nat_u32, simp)

lemma space_directory: "load32 space_memory 0x1000 = 0x100000"
  by (subst load32_space) (simp_all add: space_word_def)

lemma space_chunk: "wf_chunk 0x1000 space_memory"
proof -
  have "page_table space_memory 0x100000 d \<noteq> w" if "d < 1024" "unat w < 0x200000" for d w
    using unat_space_table [OF that(1)] that(2) by auto
  moreover have "d = e" if "d < 1024" "e < 1024" "page_table space_memory 0x100000 d = page_table space_memory 0x100000 e" for d e
    using unat_space_table that by (metis add_left_cancel mult_left_cancel zero_neq_numeral)
  ultimately show ?thesis by (simp add: wf_chunk_def space_directory wf_dir_def)
qed

lemma space_no_table:
  assumes "unat a < 0x200000 \<or> 0x600000 \<le> unat a"
  shows "\<not> table_byte 0x1000 space_memory a"
proof
  assume "table_byte 0x1000 space_memory a"
  then obtain d where d: "d < 1024" "in_range a (page_table space_memory 0x100000 d) 4096"
    by (auto simp: table_byte_def space_directory)
  then have "0x200000 + 4096 * d \<le> unat a \<and> unat a < 0x200000 + 4096 * d + 4096"
    by (simp add: in_range_forward unat_space_table)
  with d(1) assms show False by simp
qed

lemma space_headers:
  defines "ef \<equiv> no_elf_file\<lparr>elf_memory := 0x700000\<rparr>"
  shows "elf_pheader space_memory 0x700000 = 0x700034"
    and "headers_at space_memory ef 0x700034 [space_header]"
    and "headers_apart 0x1000 space_memory ef 0x700034 1"
proof -
  have ph: "e_phoff (elf_header_at space_memory 0x700000) = 52"
    by (simp add: elf_header_at_def load32_space space_word_def)
  then show "elf_pheader space_memory 0x700000 = 0x700034" by (simp add: elf_pheader_def)
  have n: "e_phnum (elf_header_at space_memory 0x700000) = 1"
    by (simp add: elf_header_at_def load16_def space_memory_def space_word_def)
  have "elf32_phdr_at space_memory 0x700034 = space_header"
    by (simp add: elf32_phdr_at_def space_header_def load32_space space_word_def)
  with n show "headers_at space_memory ef 0x700034 [space_header]" by (simp add: headers_at_def ef_def)
  show "headers_apart 0x1000 space_memory ef 0x700034 1"
    by (auto simp: headers_apart_def ef_def in_range_forward intro!: space_no_table)
qed

text \<open>A machine whose only process, at 0x1310000, runs that file with its stack at 0x800000.\<close>

definition space_machine :: "simple_drive syscall_machine" where
  "space_machine = task_machine_0\<lparr>ram := space_memory,
     procs := [0x1310000 \<mapsto> no_process\<lparr>program := 0x1320000, stack := 0x800000\<rparr>],
     elf_files := [0x1320000 \<mapsto> no_elf_file\<lparr>elf_memory := 0x700000\<rparr>],
     tasks := [0 \<mapsto> no_task\<lparr>page_directory := 0x1000\<rparr>]\<rparr>"

theorem elf_address_space_witness:
  "\<exists>s'. process_map_memory 0x1310000 space_machine = Ret (0, s')
    \<and> paging_get_physical_address (ram s') 0x100000 (0x400000 + 4999) = 0x701000 + 4999
    \<and> paging_get_physical_address (ram s') 0x100000 0x3FB001 = 0x800001"
proof -
  have s: "procs space_machine 0x1310000 = Some (no_process\<lparr>program := 0x1320000, stack := 0x800000\<rparr>)"
    "elf_files space_machine 0x1320000 = Some (no_elf_file\<lparr>elf_memory := 0x700000\<rparr>)"
    "tasks space_machine 0 = Some (no_task\<lparr>page_directory := 0x1000\<rparr>)" "ram space_machine = space_memory"
    by (simp_all add: space_machine_def)
  have apart: "seg_span space_header \<inter> page_span 0x3FB000 16384 = {}"
    by (auto simp: seg_span_def page_span_def space_header_def)
  have "seg_ok (no_elf_file\<lparr>elf_memory := 0x700000\<rparr>) space_header" "extent_ok 0x3FB000 0x800000 16384"
    by (simp_all add: seg_ok_def extent_ok_def space_header_def elf_phdr_phys_address_def)
  with apart space_headers space_chunk
  obtain s' where run: "process_map_memory 0x1310000 space_machine = Ret (0, s')"
    and seg: "\<forall>k<5000. paging_get_physical_address (ram s') 0x100000 (0x400000 + of_nat k) = 0x701000 + of_nat k"
    and st: "\<forall>k<16384. paging_get_physical_address (ram s') 0x100000 (0x3FB000 + of_nat k) = 0x800000 + of_nat k"
    using elf_address_space [of space_machine "0x1310000" _ "no_elf_file\<lparr>elf_memory := 0x700000\<rparr>"
        "no_task\<lparr>page_directory := 0x1000\<rparr>" "[space_header]", OF s(1)]
    by (auto simp: s space_directory no_process_def space_header_def)
  show ?thesis using run seg [rule_format, of 4999] st [rule_format, of 1] by auto
qed

end
