(* ===== verification/TaskMemory.thy ===== *)
theory TaskMemory imports AddressSpace
begin

text \<open>
  The memory of a task as the kernel reaches it: \<open>copy_string_from_task\<close> of
  \<open>src/src/task/task.c\<close> copies a string out of the address space of a task through a block
  that it maps there for a moment, and leaves everything else as it was.
\<close>

section \<open>The bytes of an address space\<close>

text \<open>The bytes that decide how the addresses of a chunk are translated.\<close>

definition space_byte :: "u32 \<Rightarrow> mem \<Rightarrow> u32 \<Rightarrow> bool" where
  "space_byte chunk m a \<longleftrightarrow> table_byte chunk m a \<or> in_range a (load32 m chunk) 4096 \<or> in_range a chunk 4"

lemma space_unchanged:
  assumes "wf_chunk chunk m" and eq: "\<And>a. space_byte chunk m a \<Longrightarrow> m' a = m a"
  shows "load32 m' chunk = load32 m chunk"
    and "\<And>d. d < 1024 \<Longrightarrow> page_table m' (load32 m chunk) d = page_table m (load32 m chunk) d"
    and "wf_chunk chunk m'"
    and "\<And>w. page_aligned w \<Longrightarrow> paging_get m' (load32 m chunk) w = paging_get m (load32 m chunk) w"
proof -
  have dir: "page_aligned (load32 m chunk)" using assms(1) by (simp add: wf_chunk_def wf_dir_def)
  show l: "load32 m' chunk = load32 m chunk" by (intro load32_range eq) (simp add: space_byte_def)
  show t: "page_table m' (load32 m chunk) d = page_table m (load32 m chunk) d" if "d < 1024" for d
  proof -
    have "load32 m' (page_word (load32 m chunk) d) = load32 m (page_word (load32 m chunk) d)"
      using word_in_page [OF dir that] by (intro load32_range eq) (auto simp: space_byte_def)
    then show ?thesis by (simp add: page_table_def)
  qed
  show "wf_chunk chunk m'" using assms(1) by (simp add: wf_chunk_def wf_dir_def l t)
  show "paging_get m' (load32 m chunk) w = paging_get m (load32 m chunk) w" if w: "page_aligned w" for w
  proof -
    have "load32 m' (page_word (page_table m (load32 m chunk) (dir_index w)) (tbl_index w))
        = load32 m (page_word (page_table m (load32 m chunk) (dir_index w)) (tbl_index w))"
    proof (rule load32_range)
      fix x assume "in_range x (page_word (page_table m (load32 m chunk) (dir_index w)) (tbl_index w)) 4"
      then have "table_byte chunk m x"
        using word_in_page [OF page_table_aligned tbl_index_less] dir_index_less unfolding table_byte_def by blast
      then show "m' x = m x" by (intro eq) (simp add: space_byte_def)
    qed
    then show ?thesis by (simp add: paging_get_word [OF w] t [OF dir_index_less])
  qed
qed

lemma space_byte_same:
  assumes "wf_chunk chunk m" and eq: "\<And>a. space_byte chunk m a \<Longrightarrow> m' a = m a"
  shows "space_byte chunk m' a \<longleftrightarrow> space_byte chunk m a" and "table_byte chunk m' a \<longleftrightarrow> table_byte chunk m a"
  using space_unchanged(1,2) [OF assms] by (auto simp: space_byte_def table_byte_def)

lemma same_space_byte: "same_space chunk m m' \<Longrightarrow> space_byte chunk m' a \<longleftrightarrow> space_byte chunk m a"
  by (simp add: space_byte_def same_space_table) (simp add: same_space_def)

text \<open>Writing a word of an older memory back.\<close>

lemma store32_back: "in_range a e 4 \<Longrightarrow> store32 m e (load32 m' e) a = m' a"
proof -
  assume "in_range a e 4"
  then obtain k where "k < 4" "a = e + of_nat k" by (rule in_rangeE)
  then consider "a = e" | "a = e + 1" | "a = e + 2" | "a = e + 3" by (auto simp: numeral_eq_Suc less_Suc_eq)
  moreover have "ucast (drop_bit 8 (load32 m' e)) = m' (e + 1)" "ucast (drop_bit 16 (load32 m' e)) = m' (e + 2)"
    "ucast (drop_bit 24 (load32 m' e)) = m' (e + 3)" "ucast (load32 m' e) = m' e"
    by (rule bit_word_eqI; auto simp: load32_def bit_simps dest: bit_imp_le_length)+
  ultimately show ?thesis by cases (simp_all add: store32_def)
qed

section \<open>A string seen through a directory\<close>

definition task_text :: "mem \<Rightarrow> u32 \<Rightarrow> u32 \<Rightarrow> u8 list \<Rightarrow> bool" where
  "task_text m directory v xs \<longleftrightarrow> cstr (\<lambda>a. m (paging_get_physical_address m directory a)) v xs
     \<and> (\<forall>k\<le>length xs. translate m directory (v + of_nat k) \<noteq> None)"

lemma strncpy_in_copies:
  assumes "\<And>m' i. \<forall>a. a \<notin> T \<longrightarrow> m' a = m a \<Longrightarrow> i \<le> c \<Longrightarrow> translate m' directory (p + of_nat i) = Some (p + of_nat i)"
    and "\<And>i. i \<le> c \<Longrightarrow> p + of_nat i \<in> T"
    and "\<And>m' i. \<forall>a. a \<notin> T \<longrightarrow> m' a = m a \<Longrightarrow> i \<le> length xs \<Longrightarrow> translate m' directory (q + of_nat i) = Some (f i)"
    and "\<And>i. i \<le> length xs \<Longrightarrow> f i \<notin> T" and "\<And>i. i < length xs \<Longrightarrow> m (f i) = xs ! i" and "m (f (length xs)) = 0"
    and "0 \<notin> set xs"
  shows "strncpy_in directory m p q c = Some (put_bytes m p (take c xs @ [0]))"
  using assms
proof (induction c arbitrary: m p q xs f)
  case 0
  show ?case using 0(1) [of m 0] by (simp del: fun_upd_apply)
next
  case (Suc c)
  have p: "translate m directory p = Some p" and q: "translate m directory q = Some (f 0)"
    using Suc.prems(1) [of m 0] Suc.prems(3) [of m 0] by simp_all
  show ?case
  proof (cases xs)
    case Nil
    then show ?thesis using p q Suc.prems(6) by (simp del: fun_upd_apply)
  next
    case (Cons x ys)
    let ?m = "m(p := x)"
    have x: "m (f 0) = x" "x \<noteq> 0" using Suc.prems(5) [of 0] Suc.prems(7) Cons by auto
    have pT: "p \<in> T" using Suc.prems(2) [of 0] by simp
    have agree: "\<forall>a. a \<notin> T \<longrightarrow> m' a = m a" if "\<forall>a. a \<notin> T \<longrightarrow> m' a = ?m a" for m'
      using that pT by auto
    have keep: "?m (f i) = m (f i)" if "i \<le> length xs" for i using Suc.prems(4) [OF that] pT by auto
    have "strncpy_in directory ?m (p + 1) (q + 1) c = Some (put_bytes ?m (p + 1) (take c ys @ [0]))"
    proof (rule Suc.IH [where f = "\<lambda>i. f (Suc i)"])
      show "translate m' directory (p + 1 + of_nat i) = Some (p + 1 + of_nat i)" if "\<forall>a. a \<notin> T \<longrightarrow> m' a = ?m a" "i \<le> c" for m' i
        using Suc.prems(1) [OF agree [OF that(1)], of "Suc i"] that(2) by (simp add: add.assoc)
      show "p + 1 + of_nat i \<in> T" if "i \<le> c" for i using Suc.prems(2) [of "Suc i"] that by (simp add: add.assoc)
      show "translate m' directory (q + 1 + of_nat i) = Some (f (Suc i))" if "\<forall>a. a \<notin> T \<longrightarrow> m' a = ?m a" "i \<le> length ys" for m' i
        using Suc.prems(3) [OF agree [OF that(1)], of "Suc i"] that(2) Cons by (simp add: add.assoc)
      show "f (Suc i) \<notin> T" if "i \<le> length ys" for i using Suc.prems(4) [of "Suc i"] that Cons by simp
      show "?m (f (Suc i)) = ys ! i" if "i < length ys" for i
        using keep [of "Suc i"] Suc.prems(5) [of "Suc i"] that Cons by simp
      show "?m (f (Suc (length ys))) = 0" using keep [of "length xs"] Suc.prems(6) Cons by simp
      show "0 \<notin> set ys" using Suc.prems(7) Cons by simp
    qed
    then show ?thesis using p q x Cons by simp
  qed
qed

section \<open>The page of the copy\<close>

text \<open>
  The directory of a task with the page \<open>tmp\<close> mapped to itself: it translates that page to
  itself and every other one as before, whatever the page holds.
\<close>

lemma translate_cong:
  "paging_get m' directory (a AND 0xFFFFF000) = paging_get m directory (a AND 0xFFFFF000)
    \<Longrightarrow> translate m' directory a = translate m directory a"
  by (simp add: translate_def paging_get_physical_address_def lower_page Let_def)

lemma translate_identity:
  assumes "paging_get m directory p = p OR 7" and "page_aligned p" and "i < 4096"
  shows "translate m directory (p + of_nat i) = Some (p + of_nat i)"
proof -
  have low: "unat (of_nat i :: u32) < 4096" using assms(3) by (simp add: unat_of_nat_u32)
  have "(p OR 7) AND 1 \<noteq> (0 :: u32)" by (simp add: bit.conj_disj_distrib2)
  then show ?thesis
    using assms(1) page_mask_add [OF assms(2) low] page_mask_flags [OF assms(2), of 7]
    by (simp add: translate_def paging_get_physical_address_def lower_page Let_def)
qed

lemma translate_Some: "translate m directory a \<noteq> None \<Longrightarrow> translate m directory a = Some (paging_get_physical_address m directory a)"
  by (simp add: translate_def split: if_splits)

lemma cstr_nth: "cstr m p xs \<longleftrightarrow> 0 \<notin> set xs \<and> (\<forall>i<length xs. m (p + of_nat i) = xs ! i) \<and> m (p + of_nat (length xs)) = 0"
proof (induction xs arbitrary: p)
  case Nil
  then show ?case by simp
next
  case (Cons x xs)
  have "(\<forall>i<length (x # xs). m (p + of_nat i) = (x # xs) ! i)
      \<longleftrightarrow> m p = x \<and> (\<forall>i<length xs. m (p + 1 + of_nat i) = xs ! i)"
    by (simp add: All_less_Suc2 add.assoc)
  with Cons.IH [of "p + 1"] show ?case by (auto simp: add.assoc)
qed

lemma strncpy_in_page:
  assumes wf: "wf_chunk chunk m0" and D: "D = load32 m0 chunk" and p: "page_aligned p" and c: "c < 4096"
    and m: "m = snd (paging_set m0 D p (p OR 7))"
    and seen: "task_text m0 D v xs"
    and apart: "\<And>k. k \<le> length xs \<Longrightarrow> (v + of_nat k) AND 0xFFFFF000 \<noteq> p
        \<and> \<not> in_range (paging_get_physical_address m0 D (v + of_nat k)) p 4096
        \<and> \<not> table_byte chunk m0 (paging_get_physical_address m0 D (v + of_nat k))"
    and page: "\<And>a. in_range a p 4096 \<Longrightarrow> \<not> space_byte chunk m0 a"
  shows "strncpy_in D m p v c = Some (put_bytes m p (take c xs @ [0]))"
proof (rule strncpy_in_copies [where T = "{a. in_range a p 4096}" and f = "\<lambda>i. paging_get_physical_address m0 D (v + of_nat i)"])
  have same: "same_space chunk m0 m" unfolding m D by (rule same_space_set [OF wf p])
  have wfm: "wf_chunk chunk m" unfolding m D by (rule wf_chunk_set [OF wf p])
  have Dm: "load32 m chunk = D" using same by (simp add: same_space_def D)
  have get: "paging_get m' D w = (if w = p then p OR 7 else paging_get m0 D w)"
    if ag: "\<forall>a. a \<notin> {a. in_range a p 4096} \<longrightarrow> m' a = m a" and w: "page_aligned w" for m' w
  proof -
    have "m' a = m a" if "space_byte chunk m a" for a
      using ag page [of a] that same_space_byte [OF same] by auto
    then have "paging_get m' D w = paging_get m D w" using space_unchanged(4) [OF wfm _ w, of m'] by (simp add: Dm)
    also have "\<dots> = (if w = p then p OR 7 else paging_get m0 D w)"
      using paging_get_set [OF _ p w, of D m0 "p OR 7"] wf unfolding m by (simp add: D wf_chunk_def)
    finally show ?thesis .
  qed
  show "translate m' D (p + of_nat i) = Some (p + of_nat i)"
    if "\<forall>a. a \<notin> {a. in_range a p 4096} \<longrightarrow> m' a = m a" "i \<le> c" for m' i
    using get [OF that(1) p] that(2) c by (intro translate_identity [OF _ p]) simp_all
  show "p + of_nat i \<in> {a. in_range a p 4096}" if "i \<le> c" for i using that c by simp
  show "translate m' D (v + of_nat i) = Some (paging_get_physical_address m0 D (v + of_nat i))"
    if "\<forall>a. a \<notin> {a. in_range a p 4096} \<longrightarrow> m' a = m a" "i \<le> length xs" for m' i
  proof -
    have "translate m' D (v + of_nat i) = translate m0 D (v + of_nat i)"
      using get [OF that(1) page_mask_aligned] apart [OF that(2)] by (intro translate_cong) simp
    then show ?thesis using seen that(2) translate_Some by (simp add: task_text_def)
  qed
  have eq: "m (paging_get_physical_address m0 D (v + of_nat i)) = m0 (paging_get_physical_address m0 D (v + of_nat i))" if "i \<le> length xs" for i
    using same apart [OF that] by (simp add: same_space_def)
  show "paging_get_physical_address m0 D (v + of_nat i) \<notin> {a. in_range a p 4096}" if "i \<le> length xs" for i
    using apart [OF that] by simp
  show "m (paging_get_physical_address m0 D (v + of_nat i)) = xs ! i" if "i < length xs" for i
    using seen eq [of i] that by (simp add: task_text_def cstr_nth)
  show "m (paging_get_physical_address m0 D (v + of_nat (length xs))) = 0" "0 \<notin> set xs"
    using seen eq [of "length xs"] by (simp_all add: task_text_def cstr_nth)
qed

text \<open>Putting the old entry back restores every byte outside the page.\<close>

lemma entry_restored:
  assumes wf: "wf_chunk chunk m0" and D: "D = load32 m0 chunk" and p: "page_aligned p"
    and m: "m = snd (paging_set m0 D p x)" and ag: "\<And>a. \<not> in_range a p 4096 \<Longrightarrow> m' a = m a"
    and page: "\<And>a. in_range a p 4096 \<Longrightarrow> \<not> space_byte chunk m0 a"
  shows "fst (paging_set m' D p (paging_get m0 D p)) = 0"
    and "\<not> in_range a p 4096 \<Longrightarrow> snd (paging_set m' D p (paging_get m0 D p)) a = m0 a"
    and "in_range a p 4096 \<Longrightarrow> snd (paging_set m' D p (paging_get m0 D p)) a = m' a"
proof -
  define e where "e = page_word (page_table m0 D (dir_index p)) (tbl_index p)"
  have same: "same_space chunk m0 m" unfolding m D by (rule same_space_set [OF wf p])
  have wfm: "wf_chunk chunk m" unfolding m D by (rule wf_chunk_set [OF wf p])
  have "m' a = m a" if "space_byte chunk m a" for a
    using ag page [of a] that same_space_byte [OF same] by blast
  then have t: "page_table m' D (dir_index p) = page_table m0 D (dir_index p)"
    using space_unchanged(2) [OF wfm, of m' "dir_index p"] same dir_index_less by (simp add: same_space_def D)
  have set: "paging_set m' D p (paging_get m0 D p) = (0, store32 m' e (load32 m0 e))"
    by (simp add: paging_set_word [OF p] paging_get_word [OF p] t e_def)
  then show "fst (paging_set m' D p (paging_get m0 D p)) = 0" by simp
  have e: "\<not> in_range a p 4096" if "in_range a e 4" for a
    using page [of a] word_in_page [OF page_table_aligned tbl_index_less that [unfolded e_def]] dir_index_less [of p]
    unfolding space_byte_def table_byte_def D [symmetric] by blast
  show "snd (paging_set m' D p (paging_get m0 D p)) a = m' a" if "in_range a p 4096"
  proof -
    have "\<not> in_range a e 4" using e that by blast
    then show ?thesis by (simp add: set store32_outside)
  qed
  show "snd (paging_set m' D p (paging_get m0 D p)) a = m0 a" if a: "\<not> in_range a p 4096"
  proof (cases "in_range a e 4")
    case True
    then show ?thesis by (simp add: set store32_back)
  next
    case False
    then have "m a = m0 a" by (simp add: m paging_set_word [OF p] e_def store32_outside)
    with False ag [OF a] show ?thesis by (simp add: set store32_outside)
  qed
qed

text \<open>
  Both together: the string arrives in the page, whose bytes alone have changed once the old
  entry is back.
\<close>

lemma copy_through_page:
  assumes wf: "wf_chunk chunk m0" and D: "D = load32 m0 chunk" and p: "page_aligned p" and n: "0 < n" "n < 4096"
    and seen: "task_text m0 D v xs"
    and apart: "\<And>k. k \<le> length xs \<Longrightarrow> (v + of_nat k) AND 0xFFFFF000 \<noteq> p
        \<and> \<not> in_range (paging_get_physical_address m0 D (v + of_nat k)) p 4096
        \<and> \<not> table_byte chunk m0 (paging_get_physical_address m0 D (v + of_nat k))"
    and page: "\<And>a. in_range a p 4096 \<Longrightarrow> \<not> space_byte chunk m0 a"
  defines "m \<equiv> snd (paging_set m0 D p (p OR 7))"
  defines "m' \<equiv> put_bytes m p (take (n - 1) xs @ [0])"
  defines "r \<equiv> paging_set m' D p (paging_get m0 D p)"
  shows "strncpy_in D m p v (n - 1) = Some m'" and "load32 m chunk = D" and "fst r = 0"
    and "\<And>a. \<not> in_range a p 4096 \<Longrightarrow> snd r a = m0 a" and "cstr (snd r) p (take (n - 1) xs)"
    and "(\<And>a. in_range a c 4 \<Longrightarrow> \<not> in_range a p 4096 \<and> \<not> table_byte chunk m0 a) \<Longrightarrow> load32 m' c = load32 m0 c"
proof -
  have m: "m = snd (paging_set m0 D p (p OR 7))" by (simp add: m_def)
  have same: "same_space chunk m0 m" unfolding m D by (rule same_space_set [OF wf p])
  then show "load32 m chunk = D" by (simp add: same_space_def D)
  have "n - 1 < 4096" using n by simp
  from strncpy_in_page [OF wf D p this m seen] apart page
  show "strncpy_in D m p v (n - 1) = Some m'" unfolding m'_def by blast
  let ?ys = "take (n - 1) xs"
  have le: "length (?ys @ [0]) \<le> 4096" and len: "length ?ys < n" using n by auto
  have out: "m' a = m a" if "\<not> in_range a p 4096" for a
    unfolding m'_def using in_range_mono [OF _ le] that le by (intro put_bytes_outside) auto
  show "fst r = 0" "\<And>a. \<not> in_range a p 4096 \<Longrightarrow> snd r a = m0 a"
    unfolding r_def by (rule entry_restored [OF wf D p m]; simp add: out page)+
  have r: "snd r a = m' a" if "in_range a p 4096" for a
    unfolding r_def using that by (intro entry_restored(3) [OF wf D p m]) (simp_all add: out page)
  have "0 \<notin> set ?ys" using seen by (auto simp: task_text_def cstr_nth dest: in_set_takeD)
  then have "cstr m' p ?ys" unfolding m'_def using len n(2) by (intro cstr_put_bytes) simp_all
  moreover have "snd r a = m' a" if "in_range a p (Suc (length ?ys))" for a
    using in_range_mono [OF that, of 4096] len n(2) by (intro r) simp
  ultimately show "cstr (snd r) p ?ys"
    using cstr_cong [of p ?ys "snd r" m'] len n(2) by simp
  show "load32 m' c = load32 m0 c" if c: "\<And>a. in_range a c 4 \<Longrightarrow> \<not> in_range a p 4096 \<and> \<not> table_byte chunk m0 a"
  proof (rule load32_range)
    fix x assume "in_range x c 4"
    with c have "\<not> in_range x p 4096" "\<not> table_byte chunk m0 x" by blast+
    then show "m' x = m0 x" using same by (simp add: out same_space_def)
  qed
qed

section \<open>Copying a string out of a task\<close>

text \<open>What a task sees does not change with bytes that are neither its own nor part of its tables.\<close>

lemma task_text_same:
  assumes "wf_chunk chunk m" and D: "D = load32 m chunk" and eq: "\<And>a. space_byte chunk m a \<Longrightarrow> m' a = m a"
    and same: "\<And>k. k \<le> length xs \<Longrightarrow> m' (paging_get_physical_address m D (v + of_nat k)) = m (paging_get_physical_address m D (v + of_nat k))"
    and "task_text m D v xs"
  shows "paging_get_physical_address m' D a = paging_get_physical_address m D a" and "task_text m' D v xs"
proof -
  have get: "paging_get m' D w = paging_get m D w" if "page_aligned w" for w
    unfolding D using that by (intro space_unchanged(4) [OF assms(1)] eq)
  show phys: "paging_get_physical_address m' D a = paging_get_physical_address m D a" for a
    by (simp add: paging_get_physical_address_def lower_page get page_mask_aligned)
  have "translate m' D a = translate m D a" for a by (intro translate_cong get page_mask_aligned)
  with assms(5) same show "task_text m' D v xs" by (simp add: task_text_def cstr_nth phys)
qed

text \<open>Delivering the string from the block that carried it, which is freed.\<close>

lemma carried_and_freed:
  assumes r: "kheap_repr s (A @ FreeBlk # B)" and r1: "kheap_repr s1 (A @ Alloc 0 # B)"
  defines "tmp \<equiv> block_addr (seg_blocks A)"
  assumes f1: "\<And>a. \<not> in_range a tmp 4096 \<Longrightarrow> \<not> in_range a 0x7E00 25600 \<Longrightarrow> ram s1 a = ram s a"
    and f4: "\<And>a. \<not> in_range a tmp 4096 \<Longrightarrow> m4 a = ram s1 a"
    and table: "\<And>a. in_range a tmp 4096 \<Longrightarrow> \<not> in_range a 0x7E00 25600"
    and str: "cstr m4 tmp ys" "length ys < n" "n < 4096"
    and dst: "disjoint_ranges dst n tmp 4096" "disjoint_ranges dst n 0x7E00 25600"
    and s5: "kernel_heap s5 = kernel_heap s1" "ram s5 = strncpy m4 dst tmp (int n)"
  shows "\<exists>s6. kfree tmp s5 = Ret ((), s6) \<and> s6 = s5\<lparr>ram := ram s6\<rparr> \<and> cstr (ram s6) dst ys
    \<and> (\<forall>a. in_range a dst n \<or> in_range a tmp 4096 \<or> ram s6 a = ram s a)"
proof -
  have "disjoint_ranges dst n tmp (Suc (length ys))"
    using dst(1) str in_range_mono [of _ tmp "Suc (length ys)" 4096] by (auto simp: disjoint_ranges_def)
  then have m5: "cstr (ram s5) dst ys" "\<And>a. in_range a dst n \<or> ram s5 a = m4 a"
    using strncpy_prefix [OF str(1), of n dst] str unfolding s5 by auto
  have "kheap_repr s5 (A @ Alloc 0 # B)"
  proof (rule kheap_repr_cong [OF r1 s5(1)])
    fix a assume a: "in_range a 0x7E00 25600"
    then have "\<not> in_range a dst n" using dst(2) by (auto simp: disjoint_ranges_def)
    moreover have "m4 a = ram s1 a" using a table by (intro f4) blast
    ultimately show "ram s5 a = ram s1 a" using m5(2) [of a] by simp
  qed
  from kfree_run [OF this] obtain s6 where free: "kfree tmp s5 = Ret ((), s6)" and r6: "kheap_repr s6 (A @ FreeBlk # B)"
    and s6: "s6 = s5\<lparr>ram := ram s6\<rparr>" and f6: "\<And>a. \<not> in_range a 0x7E00 25600 \<Longrightarrow> ram s6 a = ram s5 a"
    by (auto simp: tmp_def)
  have "cstr (ram s6) dst ys"
  proof -
    have "ram s6 a = ram s5 a" if "in_range a dst (Suc (length ys))" for a
      using f6 dst(2) in_range_mono [OF that, of n] str(2) by (auto simp: disjoint_ranges_def)
    then show ?thesis using m5(1) cstr_cong [of dst ys "ram s6" "ram s5"] str by simp
  qed
  moreover have "in_range a dst n \<or> in_range a tmp 4096 \<or> ram s6 a = ram s a" for a
  proof (cases "in_range a 0x7E00 25600 \<or> in_range a tmp 4096")
    case True
    then show ?thesis using table_of_repr [OF r r6] by blast
  next
    case False
    then have "ram s6 a = ram s5 a" "m4 a = ram s1 a" "ram s1 a = ram s a" using f4 f1 f6 by blast+
    then show ?thesis using m5(2) [of a] by auto
  qed
  ultimately show ?thesis using free s6 by blast
qed

text \<open>
  A string that the task with the chunk \<open>chunk\<close> sees at \<open>v\<close>, and that neither the heap table nor the
  page \<open>tmp\<close> touches, nor the address space of the task; and a word the kernel finds again.
\<close>

definition task_string :: "mem \<Rightarrow> u32 \<Rightarrow> u32 \<Rightarrow> u32 \<Rightarrow> u8 list \<Rightarrow> bool" where
  "task_string m chunk tmp v xs \<longleftrightarrow> wf_chunk chunk m \<and> task_text m (load32 m chunk) v xs
     \<and> (\<forall>k\<le>length xs. (v + of_nat k) AND 0xFFFFF000 \<noteq> tmp
          \<and> \<not> in_range (paging_get_physical_address m (load32 m chunk) (v + of_nat k)) tmp 4096
          \<and> \<not> in_range (paging_get_physical_address m (load32 m chunk) (v + of_nat k)) 0x7E00 25600
          \<and> \<not> table_byte chunk m (paging_get_physical_address m (load32 m chunk) (v + of_nat k)))
     \<and> (\<forall>a. in_range a tmp 4096 \<or> in_range a 0x7E00 25600 \<longrightarrow> \<not> space_byte chunk m a)"

definition kernel_word :: "mem \<Rightarrow> u32 \<Rightarrow> u32 \<Rightarrow> u32 \<Rightarrow> bool" where
  "kernel_word m chunk tmp c \<longleftrightarrow>
     (\<forall>a. in_range a c 4 \<longrightarrow> \<not> in_range a tmp 4096 \<and> \<not> in_range a 0x7E00 25600 \<and> \<not> table_byte chunk m a)"

lemma copy_string_run:
  assumes heap: "kheap_repr s (A @ FreeBlk # B)" "FreeBlk \<notin> set A"
    and n: "0 < n" "n < 4096" and tk: "tasks s t = Some tk"
  defines "tmp \<equiv> block_addr (seg_blocks A)" and "K \<equiv> load32 (ram s) (kernel_chunk s)"
  assumes str: "task_string (ram s) (page_directory tk) tmp v xs"
    and kw: "kernel_word (ram s) (page_directory tk) tmp (kernel_chunk s)"
    and dst: "disjoint_ranges dst n tmp 4096" "disjoint_ranges dst n 0x7E00 25600"
  shows "\<exists>s'. copy_string_from_task t v dst (int n) s = Ret (0, s')
    \<and> cstr (ram s') dst (take (n - 1) xs)
    \<and> (\<forall>a. in_range a dst n \<or> in_range a tmp 4096 \<or> ram s' a = ram s a)
    \<and> s' = s\<lparr>ram := ram s', cr3 := K, current_directory := K, data_selector := 0x10\<rparr>"
proof -
  define D where "D = load32 (ram s) (page_directory tk)"
  from str have wf: "wf_chunk (page_directory tk) (ram s)" and seen: "task_text (ram s) D v xs"
    and apart: "\<And>k. k \<le> length xs \<Longrightarrow> (v + of_nat k) AND 0xFFFFF000 \<noteq> tmp
        \<and> \<not> in_range (paging_get_physical_address (ram s) D (v + of_nat k)) tmp 4096
        \<and> \<not> in_range (paging_get_physical_address (ram s) D (v + of_nat k)) 0x7E00 25600
        \<and> \<not> table_byte (page_directory tk) (ram s) (paging_get_physical_address (ram s) D (v + of_nat k))"
    and page: "\<And>a. in_range a tmp 4096 \<or> in_range a 0x7E00 25600 \<Longrightarrow> \<not> space_byte (page_directory tk) (ram s) a"
    unfolding task_string_def D_def by blast+
  from kw have kernel: "\<And>a. in_range a (kernel_chunk s) 4 \<Longrightarrow> \<not> in_range a tmp 4096 \<and> \<not> in_range a 0x7E00 25600
        \<and> \<not> table_byte (page_directory tk) (ram s) a" by (simp add: kernel_word_def)
  define dir where "dir = page_directory tk"
  note block = zeroed_block [OF heap n(1,2), folded tmp_def]
  from block(4) obtain s1 where z: "kzalloc (word_of_int (int n)) s = Ret (tmp, s1)" and r1: "kheap_repr s1 (A @ Alloc 0 # B)"
    and s1: "s1 = s\<lparr>ram := ram s1\<rparr>"
    and f1: "\<And>a. \<not> in_range a tmp 4096 \<Longrightarrow> \<not> in_range a 0x7E00 25600 \<Longrightarrow> ram s1 a = ram s a" by blast
  define m0 where "m0 = ram s1"
  have eq0: "m0 a = ram s a" if "space_byte dir (ram s) a" for a
    using f1 page that unfolding dir_def m0_def by blast
  have wf0: "wf_chunk dir m0" and D: "D = load32 m0 dir"
    using space_unchanged(1,3) [OF wf [folded dir_def], of m0] eq0 by (simp_all add: D_def dir_def)
  have byte0: "space_byte dir m0 a \<longleftrightarrow> space_byte dir (ram s) a" and table0: "table_byte dir m0 a \<longleftrightarrow> table_byte dir (ram s) a" for a
    using space_byte_same [OF wf [folded dir_def], of m0] eq0 by simp_all
  have "m0 (paging_get_physical_address (ram s) D (v + of_nat k)) = ram s (paging_get_physical_address (ram s) D (v + of_nat k))"
    if "k \<le> length xs" for k using apart [OF that] f1 unfolding m0_def by blast
  note transport = task_text_same [OF wf [folded dir_def], of D, OF _ eq0 this seen]
  have phys: "paging_get_physical_address m0 D a = paging_get_physical_address (ram s) D a" and seen0: "task_text m0 D v xs" for a
    by (rule transport; simp add: D_def dir_def)+
  have apart0: "(v + of_nat k) AND 0xFFFFF000 \<noteq> tmp \<and> \<not> in_range (paging_get_physical_address m0 D (v + of_nat k)) tmp 4096
      \<and> \<not> table_byte dir m0 (paging_get_physical_address m0 D (v + of_nat k))" if "k \<le> length xs" for k
    using apart [OF that] by (simp add: phys table0) (simp add: dir_def)
  have page0: "\<not> space_byte dir m0 a" if "in_range a tmp 4096" for a
    using page [of a] that by (simp add: byte0) (simp add: dir_def)
  define m where "m = snd (paging_set m0 D tmp (tmp OR 7))"
  define m' where "m' = put_bytes m tmp (take (n - 1) xs @ [0])"
  define old where "old = paging_get m0 D tmp"
  define m4 where "m4 = snd (paging_set m' D tmp old)"
  have through: "strncpy_in D m tmp v (n - 1) = Some m'" "load32 m dir = D" "fst (paging_set m' D tmp old) = 0"
    "\<And>a. \<not> in_range a tmp 4096 \<Longrightarrow> m4 a = m0 a" "cstr m4 tmp (take (n - 1) xs)"
    "(\<And>a. in_range a c 4 \<Longrightarrow> \<not> in_range a tmp 4096 \<and> \<not> table_byte dir m0 a) \<Longrightarrow> load32 m' c = load32 m0 c" for c
    unfolding m4_def m'_def m_def old_def
    by (rule copy_through_page [OF wf0 D block(1) n(1,2) seen0 apart0 page0]; assumption)+
  have "load32 m' (kernel_chunk s) = load32 m0 (kernel_chunk s)"
    using kernel unfolding dir_def [symmetric] by (intro through(6)) (simp add: table0)
  also have "\<dots> = K" unfolding K_def m0_def using kernel f1 by (intro load32_range) blast
  finally have K: "load32 m' (kernel_chunk s) = K" .
  define s5 where "s5 = s1\<lparr>data_selector := 0x10, cr3 := K, current_directory := K, ram := strncpy m4 dst tmp (int n)\<rparr>"
  have s5: "kernel_heap s5 = kernel_heap s1" "ram s5 = strncpy m4 dst (block_addr (seg_blocks A)) (int n)"
    by (simp_all add: s5_def tmp_def)
  have len: "length (take (n - 1) xs) < n" using n(1) by auto
  from carried_and_freed [OF heap(1) r1 _ _ _ _ len n(2) _ dst(2) s5, folded tmp_def, OF f1 through(4) [unfolded m0_def] block(3) through(5) dst(1)]
  obtain s6 where free: "kfree tmp s5 = Ret ((), s6)" and s6: "s6 = s5\<lparr>ram := ram s6\<rparr>"
    and result: "cstr (ram s6) dst (take (n - 1) xs)" "\<forall>a. in_range a dst n \<or> in_range a tmp 4096 \<or> ram s6 a = ram s a"
    by blast
  have s1_eq: "kernel_chunk s1 = kernel_chunk s" "tasks s1 = tasks s" by (subst s1, simp)+
  have cnt: "nat (i32 (int n - 1)) = n - 1" using n(1,2) by (simp add: i32_id nat_diff_distrib)
  have "copy_string_from_task t v dst (int n) s = Ret (0, s6)"
    using z block(1,2) n(2) tk s1_eq through(1-3) K free cnt
    by (simp add: copy_string_from_task_def outcome_simps kernel_page_def paging_switch_def Let_def
        paging_4gb_chunk_get_directory_def paging_map_def mod_4096_iff dir_def [symmetric] m0_def [symmetric] D [symmetric]
        old_def [symmetric] m_def [symmetric] m4_def [symmetric] s5_def)
  moreover have "s6 = s\<lparr>ram := ram s6, cr3 := K, current_directory := K, data_selector := 0x10\<rparr>"
    by (subst s6, simp add: s5_def, subst s1, simp)
  ultimately show ?thesis using result by blast
qed

text \<open>
  C14: a string that a task sees at a virtual address, on pages that are present, arrives at the
  physical destination of the kernel, cut to the longest prefix that fits with its terminator. The
  copy returns, the directory of the kernel is active again, the table of the heap and the page
  tables of the task are what they were, and besides the destination only the block that carried
  the string may hold other bytes.
\<close>

theorem copy_string_from_task_copies:
  assumes "kheap_repr s (A @ FreeBlk # B)" and "FreeBlk \<notin> set A"
    and "0 < n" and "n < 4096" and "tasks s t = Some tk"
    and "task_string (ram s) (page_directory tk) (block_addr (seg_blocks A)) v xs"
    and "kernel_word (ram s) (page_directory tk) (block_addr (seg_blocks A)) (kernel_chunk s)"
    and "disjoint_ranges dst n (block_addr (seg_blocks A)) 4096" and "disjoint_ranges dst n 0x7E00 25600"
  shows "\<exists>s'. copy_string_from_task t v dst (int n) s = Ret (0, s')
    \<and> cstr (ram s') dst (take (n - 1) xs)
    \<and> (\<forall>a. in_range a dst n \<or> in_range a (block_addr (seg_blocks A)) 4096 \<or> ram s' a = ram s a)
    \<and> s' = s\<lparr>ram := ram s', cr3 := load32 (ram s) (kernel_chunk s),
        current_directory := load32 (ram s) (kernel_chunk s), data_selector := 0x10\<rparr>"
  using copy_string_run [OF assms] .

section \<open>A concrete task\<close>

lemma space_heap: "kheap_repr space_machine (replicate 25600 FreeBlk)"
proof (rule kheap_repr_cong [OF task_machine_0_heap])
  fix a assume "in_range a 0x7E00 25600"
  then have "0x7E00 \<le> unat a" "unat a < 0xE200" by (simp_all add: in_range_forward)
  then have "0x1F80 \<le> unat a div 4" "unat a div 4 < 0x3880" by linarith+
  then show "ram space_machine a = ram task_machine_0 a"
    by (simp add: space_machine_def space_memory_def space_word_def task_machine_0_def syscall_machine_0_def)
qed (simp add: space_machine_def)

lemma space_machine_heap: "kheap_repr (space_machine\<lparr>kernel_chunk := 0x2000\<rparr>) ([] @ FreeBlk # replicate 25599 FreeBlk)"
proof -
  have "replicate 25600 FreeBlk = [] @ FreeBlk # replicate 25599 FreeBlk"
    by (simp only: append_Nil replicate_Suc [symmetric]) simp
  moreover have "kheap_repr (space_machine\<lparr>kernel_chunk := 0x2000\<rparr>) (replicate 25600 FreeBlk)"
    by (rule kheap_repr_cong [OF space_heap]) simp_all
  ultimately show ?thesis by simp
qed

lemma space_low_page: "unat a div 4096 = 0x400 \<Longrightarrow> paging_get_physical_address space_memory 0x100000 a = a + 0x300000
    \<and> translate space_memory 0x100000 a \<noteq> None"
proof -
  assume a: "unat a div 4096 = 0x400"
  then have m: "a AND 0xFFFFF000 = 0x400000" by (simp add: word_unat_eq_iff unat_page_mask)
  have i: "dir_index 0x400000 = 1" "tbl_index 0x400000 = 0" by (simp_all add: dir_index_def tbl_index_def)
  have "paging_get space_memory 0x100000 0x400000 = 0x700007"
    by (simp add: paging_get_word i space_table page_word_def load32_space space_word_def)
  then show ?thesis
    by (simp add: paging_get_physical_address_def translate_def lower_page m)
qed

text \<open>The string that a task of that machine sees at 0x400400.\<close>

lemma space_task_string: "task_string space_memory 0x1000 0x1000000 0x400400 [0x48, 0x69]"
proof -
  have pages: "unat (0x400400 + of_nat k :: u32) div 4096 = 0x400" if "k \<le> 2" for k
  proof -
    from that consider "k = 0" | "k = 1" | "k = 2" by linarith
    then show ?thesis by cases simp_all
  qed
  note low = space_low_page [OF pages]
  have seen: "task_text space_memory 0x100000 0x400400 [0x48, 0x69]"
    unfolding task_text_def
  proof
    show "cstr (\<lambda>a. space_memory (paging_get_physical_address space_memory 0x100000 a)) 0x400400 [0x48, 0x69]"
      using low [of 0] low [of 1] low [of 2] by (simp add: space_memory_def space_word_def)
    show "\<forall>k\<le>length [0x48, 0x69 :: u8]. translate space_memory 0x100000 (0x400400 + of_nat k) \<noteq> None"
      using low by simp
  qed
  have apart: "(0x400400 + of_nat k) AND 0xFFFFF000 \<noteq> (0x1000000 :: u32)
      \<and> \<not> in_range (paging_get_physical_address space_memory 0x100000 (0x400400 + of_nat k)) 0x1000000 4096
      \<and> \<not> in_range (paging_get_physical_address space_memory 0x100000 (0x400400 + of_nat k)) 0x7E00 25600
      \<and> \<not> table_byte 0x1000 space_memory (paging_get_physical_address space_memory 0x100000 (0x400400 + of_nat k))"
    if "k \<le> length [0x48, 0x69 :: u8]" for k
  proof -
    from that consider "k = 0" | "k = 1" | "k = 2" by fastforce
    then show ?thesis
      using low [of 0] low [of 1] low [of 2]
      by cases (simp_all add: in_range_forward space_no_table)
  qed
  have page: "\<not> space_byte 0x1000 space_memory a" if "in_range a 0x1000000 4096 \<or> in_range a 0x7E00 25600" for a
    using that by (auto simp: space_byte_def space_directory in_range_forward space_no_table)
  show ?thesis using space_chunk seen apart page by (simp only: task_string_def space_directory) blast
qed

lemma space_kernel_word: "kernel_word space_memory 0x1000 0x1000000 0x2000"
  by (auto simp: kernel_word_def in_range_forward space_no_table)

lemma space_buffer: "disjoint_ranges 0x900000 n 0x1000000 4096" "disjoint_ranges 0x900000 n 0x7E00 25600" if "n \<le> 1024"
  by (rule disjoint_rangesI, use that in simp_all) (rule disjoint_ranges_sym, rule disjoint_rangesI, use that in simp_all)

theorem copy_string_from_task_copies_witness:
  "\<exists>s'. copy_string_from_task 0 0x400400 0x900000 16 (space_machine\<lparr>kernel_chunk := 0x2000\<rparr>) = Ret (0, s') \<and> cstr (ram s') 0x900000 [0x48, 0x69]"
proof -
  let ?s = "space_machine\<lparr>kernel_chunk := 0x2000\<rparr>"
  have t: "tasks ?s 0 = Some (no_task\<lparr>page_directory := 0x1000\<rparr>)" and r: "ram ?s = space_memory"
    by (simp_all add: space_machine_def)
  have tmp: "block_addr (seg_blocks []) = 0x1000000" by (simp add: block_addr_def)
  obtain s' where "copy_string_from_task 0 0x400400 0x900000 (int 16) ?s = Ret (0, s')"
    and "cstr (ram s') 0x900000 (take (16 - 1) [0x48, 0x69])"
    using copy_string_from_task_copies [OF space_machine_heap _ _ _ t, of 16 "0x400400" "[0x48, 0x69]" "0x900000", unfolded r tmp]
      space_task_string space_kernel_word space_buffer [of 16]
    by simp blast
  then show ?thesis by auto
qed

end
