(* ===== verification/SystemPrint.thy ===== *)
theory SystemPrint imports TaskMemory
begin

text \<open>
  A system call from the interrupt to the return: \<open>int 0x80\<close> with the command of \<open>print\<close>, through
  \<open>isr80h_handler\<close> of \<open>src/src/idt/idt.c\<close>, the stack of the task, its address space and the
  terminal.
\<close>

section \<open>Steps of the handler\<close>

lemma stack_item_run:
  assumes "current_task s = t" and "tasks s t = Some tk"
    and "load32_in (ram s) (load32 (ram s) (page_directory tk)) (esp (regs tk) + 4 * word_of_int i) = Some v"
  shows "stack_item i s = Ret (v, s\<lparr>data_selector := 0x10, cr3 := load32 (ram s) (kernel_chunk s),
    current_directory := load32 (ram s) (kernel_chunk s)\<rparr>)"
  using assms
  by (simp add: stack_item_def task_get_stack_item_def task_page_task_def user_registers_def kernel_page_def
      paging_switch_def eret_def outcome_simps Let_def)

text \<open>The way into the kernel: its page directory and segments, and the registers of the task saved.\<close>

definition in_kernel :: "interrupt_frame \<Rightarrow> u32 \<Rightarrow> task \<Rightarrow> ('d, 'z) syscall_machine_scheme \<Rightarrow> ('d, 'z) syscall_machine_scheme" where
  "in_kernel frame t tk s = s\<lparr>data_selector := 0x10, cr3 := load32 (ram s) (kernel_chunk s), current_directory := load32 (ram s) (kernel_chunk s),
     tasks := (tasks s)(t \<mapsto> tk\<lparr>regs := save_frame frame (regs tk)\<rparr>)\<rparr>"

lemma handler_enters:
  assumes "current_task s = t" and "t \<noteq> 0" and "tasks s t = Some tk"
  shows "isr80h_handler P c frame s
    = ebind (isr80h_handle_command P c) (\<lambda>res. kbind task_page (\<lambda>_. eret res)) (in_kernel frame t tk s)"
proof -
  have "kbind kernel_page (\<lambda>_. task_current_save_state frame) s = Ret ((), in_kernel frame t tk s)"
    using assms by (simp add: kernel_page_def paging_switch_def task_current_save_state_def task_save_frame_def
        update_task_def outcome_simps Let_def in_kernel_def del: fun_upd_apply)
  then show ?thesis by (simp add: isr80h_handler_def kbind_assoc [symmetric] outcome_simps)
qed

lemma string_at_cstr:
  assumes "cstr (ram s) p xs" and "length xs < 4294967296"
  shows "string_at p s = Ret (xs, s)"
proof -
  have "bytes_at (ram s) p (length xs) = xs"
    using assms(1) by (intro nth_equalityI) (simp_all add: cstr_nth)
  then show ?thesis
    using assms(2) by (simp add: string_at_def strlen_cstr [OF assms(1)] unat_of_nat_u32)
qed

section \<open>Printing\<close>

text \<open>
  C7: the system call of \<open>print\<close>, from the interrupt of a task to its return. When the word on top of
  the stack of the task points to a string of its address space, the handler saves the registers
  of the interrupt, shows the first 1023 characters of the string on the screen, and returns 0 with
  the segments and the directory of the task back in place; of memory only the buffer of the command
  and the block that carried the string may have changed.
\<close>

theorem print_system_call:
  fixes P :: "'c ports" and s :: "('c, 'y) syscall_machine_scheme"
  assumes "isr80h_commands s ! 1 = Some Print" and "current_task s = t" and "t \<noteq> 0" and "tasks s t = Some tk"
    and "load32_in (ram s) (load32 (ram s) (page_directory tk)) (f_esp frame) = Some v"
    and "kheap_repr s (A @ FreeBlk # B)" and "FreeBlk \<notin> set A"
    and "task_string (ram s) (page_directory tk) (block_addr (seg_blocks A)) v xs"
    and "kernel_word (ram s) (page_directory tk) (block_addr (seg_blocks A)) (kernel_chunk s)"
    and "disjoint_ranges (message_real_buffer s) 1024 (block_addr (seg_blocks A)) 4096"
    and "disjoint_ranges (message_real_buffer s) 1024 0x7E00 25600"
    and "disjoint_ranges (message_real_buffer s) 1024 (page_directory tk) 4"
  shows "\<exists>s'. isr80h_handler P 1 frame s = Ret (Back 0, s')
    \<and> screen s' = print (take 1023 xs) (screen s)
    \<and> tasks s' = (tasks s)(t \<mapsto> tk\<lparr>regs := frame_registers frame\<rparr>)
    \<and> cr3 s' = load32 (ram s) (page_directory tk) \<and> data_selector s' = 0x23
    \<and> (\<forall>a. in_range a (message_real_buffer s) 1024 \<or> in_range a (block_addr (seg_blocks A)) 4096 \<or> ram s' a = ram s a)"
proof -
  define K where "K = load32 (ram s) (kernel_chunk s)"
  define tk' where "tk' = tk\<lparr>regs := save_frame frame (regs tk)\<rparr>"
  define s0 where "s0 = in_kernel frame t tk s"
  have s0_eq: "s0 = s\<lparr>data_selector := 0x10, cr3 := K, current_directory := K, tasks := (tasks s)(t \<mapsto> tk')\<rparr>"
    by (simp add: s0_def in_kernel_def K_def tk'_def del: fun_upd_apply)
  have s0: "current_task s0 = t" "tasks s0 t = Some tk'" "ram s0 = ram s" "kernel_chunk s0 = kernel_chunk s"
    "isr80h_commands s0 = isr80h_commands s" "message_real_buffer s0 = message_real_buffer s"
    and tk': "page_directory tk' = page_directory tk" "esp (regs tk') = f_esp frame"
    by (simp_all add: s0_eq tk'_def save_frame_def assms(2))
  have "stack_item 0 s0 = Ret (v, s0\<lparr>data_selector := 0x10, cr3 := K, current_directory := K\<rparr>)"
    using stack_item_run [OF s0(1,2), of 0 v] assms(5) by (simp add: s0 tk' K_def)
  then have item: "stack_item 0 s0 = Ret (v, s0)" by (simp add: s0_eq)
  have "kheap_repr s0 (A @ FreeBlk # B)" by (rule kheap_repr_cong [OF assms(6)]) (simp_all add: s0_eq)
  from copy_string_run [OF this assms(7) _ _ s0(2), of 1024 v xs "message_real_buffer s"] assms(8-11)
  obtain s1 where copy: "copy_string_from_task t v (message_real_buffer s) 1024 s0 = Ret (0, s1)"
    and str: "cstr (ram s1) (message_real_buffer s) (take 1023 xs)"
    and frame: "\<forall>a. in_range a (message_real_buffer s) 1024 \<or> in_range a (block_addr (seg_blocks A)) 4096 \<or> ram s1 a = ram s a"
    and s1: "s1 = s0\<lparr>ram := ram s1, cr3 := K, current_directory := K, data_selector := 0x10\<rparr>"
    by (simp add: s0 tk' K_def) blast
  have shown: "string_at (message_real_buffer s) s1 = Ret (take 1023 xs, s1)"
    by (rule string_at_cstr [OF str]) simp
  have s1': "current_task s1 = t" "tasks s1 = (tasks s)(t \<mapsto> tk')" "screen s1 = screen s"
    by (subst s1, simp add: s0_eq assms(2) del: fun_upd_apply)+
  define s2 where "s2 = s1\<lparr>screen := print (take 1023 xs) (screen s)\<rparr>"
  have run: "isr80h_handle_command P 1 s0 = Ret (Back 0, s2)"
    using assms(1) item copy shown s0 s1'
    by (simp add: isr80h_handle_command_def returning_def isr80h_command1_print_def on_screen_def eret_def outcome_simps s2_def)
  have D: "load32 (ram s2) (page_directory tk) = load32 (ram s) (page_directory tk)"
  proof (rule load32_range)
    fix x assume "in_range x (page_directory tk) 4"
    then have "\<not> in_range x (message_real_buffer s) 1024" "\<not> in_range x (block_addr (seg_blocks A)) 4096"
      using assms(8,12) by (auto simp: disjoint_ranges_def task_string_def space_byte_def)
    then show "ram s2 x = ram s x" using frame by (auto simp: s2_def)
  qed
  have s2: "current_task s2 = t" "tasks s2 = (tasks s)(t \<mapsto> tk')" "screen s2 = print (take 1023 xs) (screen s)" "ram s2 = ram s1"
    using s1' by (simp_all add: s2_def)
  have "kbind task_page (\<lambda>_. eret 0) s2 = Ret (Back 0, s2\<lparr>data_selector := 0x23,
      cr3 := load32 (ram s) (page_directory tk), current_directory := load32 (ram s) (page_directory tk)\<rparr>)"
    using s2 D tk' by (simp add: task_page_def task_switch_def user_registers_def paging_switch_def eret_def outcome_simps Let_def)
  then have "isr80h_handler P 1 frame s = Ret (Back 0, s2\<lparr>data_selector := 0x23,
      cr3 := load32 (ram s) (page_directory tk), current_directory := load32 (ram s) (page_directory tk)\<rparr>)"
    using run by (simp add: handler_enters [OF assms(2-4)] s0_def [symmetric] ebind_def outcome_simps)
  then show ?thesis using s2 frame by (simp add: tk'_def save_frame_registers del: fun_upd_apply)
qed

text \<open>A task that calls \<open>print\<close> with the address of its string on its stack.\<close>

definition print_machine :: "simple_drive syscall_machine" where
  "print_machine = space_machine\<lparr>kernel_chunk := 0x2000, message_real_buffer := 0x900000,
     tasks := [0x1200000 \<mapsto> no_task\<lparr>page_directory := 0x1000\<rparr>]\<rparr>"

lemma print_machine_stack: "load32_in space_memory 0x100000 0x400408 = Some 0x400400"
  using space_low_page [of "0x400408"] space_low_page [of "0x400409"] space_low_page [of "0x40040A"] space_low_page [of "0x40040B"]
  by (auto simp: load32_in_def translate_Some space_memory_def space_word_def)

theorem print_system_call_witness:
  "\<exists>s'. isr80h_handler (simple_ports fat_image) 1 (sample_frame\<lparr>f_esp := 0x400408\<rparr>) print_machine = Ret (Back 0, s')
    \<and> screen s' = print [0x48, 0x69] home"
proof -
  have r: "ram print_machine = space_memory" "kernel_chunk print_machine = 0x2000" "message_real_buffer print_machine = 0x900000"
    by (simp_all add: print_machine_def space_machine_def)
  have s: "isr80h_commands print_machine ! 1 = Some Print" "current_task print_machine = 0x1200000"
    "tasks print_machine 0x1200000 = Some (no_task\<lparr>page_directory := 0x1000\<rparr>)" "screen print_machine = home"
    by (simp_all add: print_machine_def space_machine_def task_machine_0_def syscall_machine_0_def)
  have heap: "kheap_repr print_machine ([] @ FreeBlk # replicate 25599 FreeBlk)"
    by (rule kheap_repr_cong [OF space_machine_heap]) (simp_all add: print_machine_def)
  have "disjoint_ranges 0x900000 1024 0x1000 4" by (rule disjoint_ranges_sym, rule disjoint_rangesI) simp_all
  with print_system_call [OF s(1,2) _ s(3), where frame = "sample_frame\<lparr>f_esp := 0x400408\<rparr>" and P = "simple_ports fat_image",
      OF _ _ heap, of "0x400400" "[0x48, 0x69]"]
  show ?thesis
    using print_machine_stack space_task_string space_kernel_word space_buffer [of 1024]
    by (simp add: r block_addr_def space_directory s) blast
qed

end
