(* ===== verification/ArgumentCopy.thy ===== *)
theory ArgumentCopy imports SystemPrint
begin

text \<open>
  The arguments of a program, \<open>process_inject_arguments\<close> of \<open>src/src/task/process.c\<close>: the list that
  the caller passes arrives as \<open>argc\<close> and \<open>argv\<close> in the address space of the new process.
\<close>

section \<open>What an allocation of a process does\<close>

text \<open>The entries of the table of allocations that are free.\<close>

definition free_slots :: "process \<Rightarrow> nat" where
  "free_slots pr = length (filter (\<lambda>a. fst a = 0) (allocations pr))"

lemma free_slot_found:
  assumes "0 < free_slots pr"
  obtains i where "find_allocation (\<lambda>q. q = 0) (allocations pr) 0 = Some i"
  using assms find_allocation_None [where test = "\<lambda>q. q = 0" and as = "allocations pr" and k = 0]
  by (cases "find_allocation (\<lambda>q. q = 0) (allocations pr) 0") (auto simp: free_slots_def filter_empty_conv)

lemma free_slots_recorded:
  assumes "find_allocation (\<lambda>q. q = 0) (allocations pr) 0 = Some i" and "ptr \<noteq> 0"
  shows "free_slots (recorded i ptr sz pr) = free_slots pr - 1"
proof -
  have i: "i < length (allocations pr)" "fst (allocations pr ! i) = 0"
    using find_allocation_Some [OF assms(1)] by simp_all
  have "filter (\<lambda>a. fst a = 0) (allocations pr)
      = filter (\<lambda>a. fst a = 0) (take i (allocations pr) @ allocations pr ! i # drop (Suc i) (allocations pr))"
    by (subst id_take_nth_drop [OF i(1), symmetric]) (rule refl)
  then show ?thesis
    using i(2) assms(2) by (simp add: free_slots_def recorded_def upd_conv_take_nth_drop [OF i(1)])
qed

text \<open>One page for a process: it is mapped to itself, writeable, and nothing else in its space changes.\<close>

lemma process_malloc_page:
  assumes heap: "kheap_repr s (A @ FreeBlk # B)" "FreeBlk \<notin> set A" and sz: "0 < n" "n < 4096"
    and pr: "procs s p = Some pr" and tk: "tasks s (main_task pr) = Some tk"
    and slot: "find_allocation (\<lambda>q. q = 0) (allocations pr) 0 = Some i"
    and wf: "wf_chunk (page_directory tk) (ram s)"
  defines "q \<equiv> block_addr (seg_blocks A)" and "dir \<equiv> page_directory tk" and "D \<equiv> load32 (ram s) (page_directory tk)"
  assumes page: "\<And>a. in_range a q 4096 \<or> in_range a 0x7E00 25600 \<Longrightarrow> \<not> space_byte dir (ram s) a"
  shows "\<exists>s'. process_malloc p (word_of_int (int n)) s = Ret (q, s') \<and> kheap_repr s' (A @ Alloc 0 # B)
    \<and> s' = s\<lparr>ram := ram s', procs := (procs s)(p \<mapsto> recorded i q (word_of_int (int n)) pr)\<rparr>
    \<and> wf_chunk dir (ram s') \<and> load32 (ram s') dir = D
    \<and> (\<forall>a. space_byte dir (ram s') a \<longleftrightarrow> space_byte dir (ram s) a) \<and> (\<forall>a. table_byte dir (ram s') a \<longleftrightarrow> table_byte dir (ram s) a)
    \<and> (\<forall>a. \<not> in_range a 0x7E00 25600 \<and> \<not> in_range a q 4096 \<and> \<not> table_byte dir (ram s) a \<longrightarrow> ram s' a = ram s a)
    \<and> (\<forall>w. page_aligned w \<longrightarrow> paging_get (ram s') D w = (if w = q then q OR 7 else paging_get (ram s) D w))"
proof -
  note block = zeroed_block [OF heap sz, folded q_def]
  from block(4) obtain s1 where z: "kzalloc (word_of_int (int n)) s = Ret (q, s1)" and r1: "kheap_repr s1 (A @ Alloc 0 # B)"
    and s1: "s1 = s\<lparr>ram := ram s1\<rparr>"
    and f1: "\<And>a. \<not> in_range a q 4096 \<Longrightarrow> \<not> in_range a 0x7E00 25600 \<Longrightarrow> ram s1 a = ram s a" by blast
  have wf: "wf_chunk dir (ram s)" using wf by (simp add: dir_def)
  have eq1: "ram s1 a = ram s a" if "space_byte dir (ram s) a" for a using f1 page that by blast
  note space1 = space_unchanged [OF wf, of "ram s1"] space_byte_same [OF wf, of "ram s1"]
  have D1: "load32 (ram s1) dir = D" and wf1: "wf_chunk dir (ram s1)"
    using space1(1,3) eq1 by (simp_all add: D_def dir_def)
  have uq: "unat q = 16777216 + 4096 * seg_blocks A" "seg_blocks A < 25600"
    using kheap_repr_blocks [OF heap(1)] by (simp_all add: q_def unat_block_addr)
  have byte1: "space_byte dir (ram s1) a \<longleftrightarrow> space_byte dir (ram s) a" and table1: "table_byte dir (ram s1) a \<longleftrightarrow> table_byte dir (ram s) a" for a
    using space1(5,6) eq1 by simp_all
  have ok: "extent_ok q q n" using uq sz by (simp add: extent_ok_def)
  have un: "unat (word_of_int (int n) :: u32) = n" using sz(2) by (simp add: unat_of_nat_u32)
  have al: "q AND 0xFFFFF000 = q" using block(1) by (rule page_mask_id)
  define mt where "mt = paging_map_to (ram s1) dir q q (paging_align_address (q + word_of_int (int n))) 7"
  have ext: "fst mt = 0" "wf_chunk dir (snd mt)" "same_space dir (ram s1) (snd mt)" "mapped (snd mt) D q q n 7"
    "page_aligned w \<Longrightarrow> w \<notin> page_span q n \<Longrightarrow> paging_get (snd mt) D w = paging_get (ram s1) D w" for w
    using map_to_extent(1-4) [OF wf1 ok, where fl = 7] map_to_extent(5) [OF wf1 ok, where fl = 7 and w = w] by (simp_all add: lower_page al D1 mt_def)
  have span: "w = q" if "w \<in> page_span q n" for w
  proof -
    obtain c where c: "unat q = 4096 * c" using block(1) by fastforce
    have "(unat q + n + 4095) div 4096 = Suc c" unfolding c using sz by (intro div_nat_eqI) simp_all
    then have "(unat q + n + 4095) div 4096 * 4096 = unat q + 4096" and "unat q div 4096 * 4096 = unat q"
      using c by simp_all
    with that have "unat q \<le> unat w" "unat w < unat q + 4096" "unat w mod 4096 = 0" by (simp_all add: page_span_def)
    moreover from this(3) obtain d where "unat w = 4096 * d" by fastforce
    ultimately have "unat w = unat q" using c by simp
    then show ?thesis by (simp add: word_unat_eq_iff)
  qed
  have get: "paging_get (snd mt) D w = (if w = q then q OR 7 else paging_get (ram s) D w)" if w: "page_aligned w" for w
  proof (cases "w = q")
    case True
    then show ?thesis using ext(4) sz(1) al by (auto simp: mapped_def)
  next
    case False
    then show ?thesis using ext(5) [OF w] span space1(4) [OF _ w] eq1 by (auto simp: D_def dir_def)
  qed
  define s2 where "s2 = s1\<lparr>ram := snd mt, procs := (procs s)(p \<mapsto> recorded i q (word_of_int (int n)) pr)\<rparr>"
  have s1_eq: "procs s1 = procs s" "tasks s1 = tasks s" by (subst s1, simp)+
  have "process_malloc p (word_of_int (int n)) s = Ret (q, s2)"
    using z block(2) slot pr tk s1_eq ext(1)
    by (simp add: process_malloc_def outcome_simps process_find_free_allocation_index_def proc_def update_process_def
        recorded_def dir_def [symmetric] mt_def [simplified, symmetric] s2_def split_beta del: fun_upd_apply)
  moreover have "kheap_repr s2 (A @ Alloc 0 # B)"
  proof (rule kheap_repr_cong [OF r1])
    fix a assume "in_range a 0x7E00 25600"
    then have "\<not> table_byte dir (ram s1) a" using page by (auto simp: table1 space_byte_def)
    then show "ram s2 a = ram s1 a" using ext(3) by (simp add: same_space_def s2_def)
  qed (simp add: s2_def)
  moreover have "s2 = s\<lparr>ram := ram s2, procs := (procs s)(p \<mapsto> recorded i q (word_of_int (int n)) pr)\<rparr>"
    unfolding s2_def by (subst s1) (simp del: fun_upd_apply)
  moreover have "wf_chunk dir (ram s2)" "load32 (ram s2) dir = D" "\<forall>a. space_byte dir (ram s2) a \<longleftrightarrow> space_byte dir (ram s) a"
    "\<forall>a. table_byte dir (ram s2) a \<longleftrightarrow> table_byte dir (ram s) a"
    using ext(2,3) D1 by (simp_all add: s2_def same_space_byte [OF ext(3)] same_space_table [OF ext(3)] byte1 table1)
      (simp add: same_space_def)
  moreover have "\<forall>a. \<not> in_range a 0x7E00 25600 \<and> \<not> in_range a q 4096 \<and> \<not> table_byte dir (ram s) a \<longrightarrow> ram s2 a = ram s a"
    using ext(3) f1 by (simp add: same_space_def table1 s2_def)
  moreover have "\<forall>w. page_aligned w \<longrightarrow> paging_get (ram s2) D w = (if w = q then q OR 7 else paging_get (ram s) D w)"
    using get by (simp add: s2_def)
  ultimately show ?thesis by blast
qed

section \<open>The list of arguments\<close>

text \<open>The addresses of the structs of a list.\<close>

primrec arg_nodes :: "mem \<Rightarrow> u32 \<Rightarrow> nat \<Rightarrow> u32 list" where
  "arg_nodes m a 0 = []"
| "arg_nodes m a (Suc n) = a # arg_nodes m (load32 m (a + 512)) n"

lemma in_range_sub: "k + n \<le> 516 \<Longrightarrow> in_range a (q + of_nat k) n \<Longrightarrow> in_range a q 516"
  by (rule in_range_part) simp_all

lemma arg_nodes_cong:
  assumes "\<forall>q\<in>set (arg_nodes m cur n). \<forall>a. in_range a q 516 \<longrightarrow> m' a = m a"
  shows "arg_nodes m' cur n = arg_nodes m cur n"
  using assms
proof (induction n arbitrary: cur)
  case (Suc n)
  have "load32 m' (cur + 512) = load32 m (cur + 512)"
    using Suc.prems in_range_sub [of 512 4 _ cur] by (intro load32_range) simp
  with Suc show ?case by simp
qed simp

lemma arg_list_cong:
  assumes "\<forall>q\<in>set (arg_nodes m cur (length ts)). \<forall>a. in_range a q 516 \<longrightarrow> m' a = m a"
    and "\<forall>t\<in>set ts. length t < 512" and "arg_list m cur ts"
  shows "arg_list m' cur ts"
  using assms
proof (induction ts arbitrary: cur)
  case (Cons t ts)
  have "load32 m' (cur + 512) = load32 m (cur + 512)"
    using Cons.prems(1) in_range_sub [of 512 4 _ cur] by (intro load32_range) simp
  moreover have "cstr m' cur t \<longleftrightarrow> cstr m cur t"
    using Cons.prems(1,2) in_range_mono [of _ cur "Suc (length t)" 516] by (intro cstr_cong) auto
  ultimately show ?case using Cons by simp
qed simp

text \<open>
  The state in front of the loop over the arguments \<open>ts\<close> that are left, the list from \<open>cur\<close>: enough
  free blocks after \<open>A\<close>, with \<open>argv\<close> in block \<open>c\<close>, and neither the address space of the process
  nor the list in these blocks or in the heap table.
\<close>

definition inject_ready :: "u32 \<Rightarrow> nat \<Rightarrow> ('d, 'z) process_machine_scheme \<Rightarrow> seg list \<Rightarrow> seg list \<Rightarrow> u32 \<Rightarrow> u8 list list \<Rightarrow> bool" where
  "inject_ready dir c s A B cur ts \<longleftrightarrow> wf_chunk dir (ram s)
     \<and> kheap_repr s (A @ replicate (length ts) FreeBlk @ B) \<and> FreeBlk \<notin> set A \<and> c < seg_blocks A
     \<and> (\<forall>a. in_range a 0x7E00 25600 \<or> in_blocks (seg_blocks A) (length ts) a \<or> in_blocks c 1 a \<longrightarrow> \<not> space_byte dir (ram s) a)
     \<and> arg_list (ram s) cur ts \<and> (\<forall>t\<in>set ts. length t < 512)
     \<and> (\<forall>q\<in>set (arg_nodes (ram s) cur (length ts)). \<forall>a. in_range a q 516 \<longrightarrow> \<not> in_range a 0x7E00 25600
          \<and> \<not> in_blocks (seg_blocks A) (length ts) a \<and> \<not> in_blocks c 1 a \<and> \<not> table_byte dir (ram s) a)"

lemma inject_ready_next:
  assumes ready: "inject_ready dir c s A B cur (t # us)"
    and "kheap_repr s' (A @ Alloc 0 # replicate (length us) FreeBlk @ B)" and "wf_chunk dir (ram s')"
    and "\<And>a. space_byte dir (ram s') a \<longleftrightarrow> space_byte dir (ram s) a" and tab: "\<And>a. table_byte dir (ram s') a \<longleftrightarrow> table_byte dir (ram s) a"
    and frame: "\<And>a. \<not> in_range a 0x7E00 25600 \<Longrightarrow> \<not> in_blocks (seg_blocks A) 1 a \<Longrightarrow> \<not> in_blocks c 1 a
      \<Longrightarrow> \<not> table_byte dir (ram s) a \<Longrightarrow> ram s' a = ram s a"
  shows "inject_ready dir c s' (A @ [Alloc 0]) B (load32 (ram s) (cur + 512)) us"
proof -
  let ?nodes = "arg_nodes (ram s) (load32 (ram s) (cur + 512)) (length us)"
  have sub: "in_blocks (seg_blocks A) 1 a \<Longrightarrow> in_blocks (seg_blocks A) (Suc n) a"
    "in_blocks (Suc (seg_blocks A)) n a \<Longrightarrow> in_blocks (seg_blocks A) (Suc n) a" for a n
    by (simp_all add: in_blocks_def)
  have nodes: "\<forall>q\<in>set ?nodes. \<forall>a. in_range a q 516 \<longrightarrow> \<not> in_range a 0x7E00 25600
      \<and> \<not> in_blocks (seg_blocks A) (Suc (length us)) a \<and> \<not> in_blocks c 1 a \<and> \<not> table_byte dir (ram s) a"
    using ready by (simp add: inject_ready_def)
  then have eq: "\<forall>q\<in>set ?nodes. \<forall>a. in_range a q 516 \<longrightarrow> ram s' a = ram s a"
    using frame sub(1) by blast
  have "arg_list (ram s') (load32 (ram s) (cur + 512)) us"
    using ready by (intro arg_list_cong [OF eq]) (simp_all add: inject_ready_def)
  moreover have "arg_nodes (ram s') (load32 (ram s) (cur + 512)) (length us) = ?nodes" by (rule arg_nodes_cong [OF eq])
  moreover have "\<forall>q\<in>set ?nodes. \<forall>a. in_range a q 516 \<longrightarrow> \<not> in_range a 0x7E00 25600
      \<and> \<not> in_blocks (Suc (seg_blocks A)) (length us) a \<and> \<not> in_blocks c 1 a \<and> \<not> table_byte dir (ram s) a"
    using nodes sub(2) by blast
  moreover have "\<forall>a. in_range a 0x7E00 25600 \<or> in_blocks (Suc (seg_blocks A)) (length us) a \<or> in_blocks c 1 a
      \<longrightarrow> \<not> space_byte dir (ram s) a"
    using ready sub(2) unfolding inject_ready_def length_Cons by blast
  ultimately show ?thesis
    using ready assms(2,3) unfolding inject_ready_def by (simp add: tab assms(4))
qed

section \<open>One round of the loop\<close>

text \<open>The words \<open>i\<close> to \<open>i + n - 1\<close> of block \<open>c\<close>, and what storing an argument changes.\<close>

definition in_words :: "nat \<Rightarrow> nat \<Rightarrow> nat \<Rightarrow> u32 \<Rightarrow> bool" where
  "in_words c i n a \<longleftrightarrow> 16777216 + 4096 * c + 4 * i \<le> unat a \<and> unat a < 16777216 + 4096 * c + 4 * (i + n)"

lemma unat_word_in_block: "c < 25600 \<Longrightarrow> i < 1024 \<Longrightarrow> unat (block_addr c + 4 * of_nat i) = 16777216 + 4096 * c + 4 * i"
  using unat_forward [of "block_addr c" "4 * i"] by (simp add: unat_block_addr)

lemma argument_stored:
  assumes wf: "wf_chunk dir m" and b: "b < 25600" "c < b" and i: "i < 1024" and t: "cstr m cur t" "length t < 512"
    and node: "\<And>a. in_range a cur 516 \<Longrightarrow> \<not> in_blocks b 1 a"
    and page: "\<And>a. in_blocks b 1 a \<or> in_blocks c 1 a \<Longrightarrow> \<not> space_byte dir m a"
  defines "q \<equiv> block_addr b" and "w \<equiv> block_addr c + 4 * of_nat i"
  defines "m' \<equiv> store32 (strncpy m q cur 512) w q"
  shows "\<not> in_blocks b 1 a \<Longrightarrow> \<not> in_words c i 1 a \<Longrightarrow> m' a = m a" and "load32 m' w = q" and "cstr m' q t"
    and "load32 m' dir = load32 m dir" and "wf_chunk dir m'" and "space_byte dir m' a \<longleftrightarrow> space_byte dir m a"
    and "table_byte dir m' a \<longleftrightarrow> table_byte dir m a"
    and "page_aligned v \<Longrightarrow> paging_get m' (load32 m dir) v = paging_get m (load32 m dir) v"
proof -
  have qsub: "in_range a q 512 \<Longrightarrow> in_blocks b 1 a" for a
    using in_range_mono [of a q 512 4096] by (simp add: in_block [OF b(1)] q_def)
  have tsub: "in_range a cur (Suc (length t)) \<Longrightarrow> in_range a cur 516" for a
    using in_range_mono [of a cur "Suc (length t)" 516] t(2) by simp
  have word: "in_range a w 4 \<longleftrightarrow> in_words c i 1 a" for a
    using unat_word_in_block [of c i] b i by (simp add: in_range_forward in_words_def w_def)
  have wsub: "in_words c i 1 a \<Longrightarrow> in_blocks c 1 a \<and> \<not> in_blocks b 1 a" for a
    using b i by (simp add: in_words_def in_blocks_def)
  have "disjoint_ranges q 512 cur (Suc (length t))"
    unfolding disjoint_ranges_def using node qsub tsub by blast
  then have copy: "cstr (strncpy m q cur 512) q t" "\<And>a. in_range a q 512 \<or> strncpy m q cur 512 a = m a"
    using strncpy_prefix [OF t(1), of 512 q] t(2) by auto
  show frame: "m' a = m a" if "\<not> in_blocks b 1 a" "\<not> in_words c i 1 a" for a
    using copy(2) [of a] qsub [of a] that by (auto simp: m'_def word store32_outside)
  have space: "m' a = m a" if "space_byte dir m a" for a
    using that page wsub by (intro frame) blast+
  show "load32 m' dir = load32 m dir" "wf_chunk dir m'" "space_byte dir m' a \<longleftrightarrow> space_byte dir m a"
    "table_byte dir m' a \<longleftrightarrow> table_byte dir m a"
    "page_aligned v \<Longrightarrow> paging_get m' (load32 m dir) v = paging_get m (load32 m dir) v"
    using space_unchanged [OF wf, of m'] space_byte_same [OF wf, of m'] space by simp_all
  show "load32 m' w = q" by (simp add: m'_def load32_store32_same)
  have "m' a = strncpy m q cur 512 a" if "in_range a q (Suc (length t))" for a
  proof -
    have "in_range a q 512" using in_range_mono [OF that, of 512] t(2) by simp
    then have "\<not> in_range a w 4" using qsub wsub word by blast
    then show ?thesis by (simp add: m'_def store32_outside)
  qed
  then show "cstr m' q t" using copy(1) cstr_cong [of q t m' "strncpy m q cur 512"] t(2) by simp
qed

lemma inject_step:
  assumes ready: "inject_ready dir c s A B cur (t # us)" and pr: "procs s p = Some pr"
    and tk: "tasks s (main_task pr) = Some tk" "dir = page_directory tk" and slots: "0 < free_slots pr" and i: "i < 1024"
  defines "q \<equiv> block_addr (seg_blocks A)" and "D \<equiv> load32 (ram s) dir"
  shows "\<exists>s' j. kbind (process_malloc p 512) (\<lambda>argument_string.
        if argument_string = 0 then kret (0, 0)
        else kbind (kmod (\<lambda>s. s\<lparr>ram := strncpy (ram s) argument_string cur 512\<rparr>)) (\<lambda>_.
             kbind (poke (block_addr c + 4 * word_of_int (int i)) argument_string) (\<lambda>_.
             kget (\<lambda>s. (argument_string, next_argument (ram s) cur))))) s = Ret ((q, load32 (ram s) (cur + 512)), s')
    \<and> q \<noteq> 0 \<and> s' = s\<lparr>ram := ram s', procs := (procs s)(p \<mapsto> recorded j q 512 pr)\<rparr>
    \<and> free_slots (recorded j q 512 pr) = free_slots pr - 1
    \<and> inject_ready dir c s' (A @ [Alloc 0]) B (load32 (ram s) (cur + 512)) us \<and> load32 (ram s') dir = D
    \<and> (\<forall>a. table_byte dir (ram s') a \<longleftrightarrow> table_byte dir (ram s) a)
    \<and> (\<forall>a. \<not> in_range a 0x7E00 25600 \<and> \<not> in_blocks (seg_blocks A) 1 a \<and> \<not> in_words c i 1 a \<and> \<not> table_byte dir (ram s) a
        \<longrightarrow> ram s' a = ram s a)
    \<and> load32 (ram s') (block_addr c + 4 * of_nat i) = q \<and> cstr (ram s') q t
    \<and> (\<forall>v. page_aligned v \<longrightarrow> paging_get (ram s') D v = (if v = q then q OR 7 else paging_get (ram s) D v))"
proof -
  let ?b = "seg_blocks A"
  have wf: "wf_chunk dir (ram s)" and heap: "kheap_repr s (A @ FreeBlk # replicate (length us) FreeBlk @ B)" "FreeBlk \<notin> set A"
    and c: "c < ?b" and t: "cstr (ram s) cur t" "length t < 512"
    and page: "\<And>a. in_range a 0x7E00 25600 \<or> in_blocks ?b (Suc (length us)) a \<or> in_blocks c 1 a \<Longrightarrow> \<not> space_byte dir (ram s) a"
    and node: "\<And>a. in_range a cur 516 \<Longrightarrow> \<not> in_range a 0x7E00 25600 \<and> \<not> in_blocks ?b (Suc (length us)) a
        \<and> \<not> in_blocks c 1 a \<and> \<not> table_byte dir (ram s) a"
    using ready unfolding inject_ready_def by auto
  have b: "?b < 25600" using kheap_repr_blocks [OF heap(1)] by simp
  note block = in_block [OF b, folded q_def]
  have bsub: "in_blocks ?b 1 a \<Longrightarrow> in_blocks ?b (Suc (length us)) a" for a by (simp add: in_blocks_def)
  obtain j where j: "find_allocation (\<lambda>q. q = 0) (allocations pr) 0 = Some j" using free_slot_found [OF slots] .
  have "\<not> space_byte (page_directory tk) (ram s) a" if "in_range a q 4096 \<or> in_range a 0x7E00 25600" for a
    using that page bsub by (auto simp: block tk(2))
  from process_malloc_page [OF heap _ _ pr tk(1) j wf [unfolded tk(2)], folded q_def, of 512, folded tk(2), folded D_def, OF _ _ this [folded tk(2)]]
  obtain s1 where run: "process_malloc p 512 s = Ret (q, s1)" and r1: "kheap_repr s1 (A @ Alloc 0 # replicate (length us) FreeBlk @ B)"
    and s1: "s1 = s\<lparr>ram := ram s1, procs := (procs s)(p \<mapsto> recorded j q 512 pr)\<rparr>"
    and wf1: "wf_chunk dir (ram s1)" and D1: "load32 (ram s1) dir = D"
    and byte1: "\<And>a. space_byte dir (ram s1) a \<longleftrightarrow> space_byte dir (ram s) a" and table1: "\<And>a. table_byte dir (ram s1) a \<longleftrightarrow> table_byte dir (ram s) a"
    and f1: "\<And>a. \<not> in_range a 0x7E00 25600 \<Longrightarrow> \<not> in_range a q 4096 \<Longrightarrow> \<not> table_byte dir (ram s) a \<Longrightarrow> ram s1 a = ram s a"
    and get1: "\<And>v. page_aligned v \<Longrightarrow> paging_get (ram s1) D v = (if v = q then q OR 7 else paging_get (ram s) D v)"
    by auto
  have q: "q \<noteq> 0" using b block_addr_ne_0 [of ?b] by (simp add: q_def)
  have node1: "ram s1 a = ram s a" if "in_range a cur 516" for a
    using f1 node [OF that] bsub by (auto simp: block)
  have "cstr (ram s1) cur t"
    using t cstr_cong [of cur t "ram s1" "ram s"] node1 in_range_mono [of _ cur "Suc (length t)" 516] by simp
  moreover have "\<not> in_blocks ?b 1 a" if "in_range a cur 516" for a using node [OF that] bsub by blast
  moreover have "\<not> space_byte dir (ram s1) a" if "in_blocks ?b 1 a \<or> in_blocks c 1 a" for a
    using that page bsub byte1 by blast
  moreover define m3 where "m3 = store32 (strncpy (ram s1) q cur 512) (block_addr c + 4 * of_nat i) q"
  ultimately have stored: "\<And>a. \<not> in_blocks ?b 1 a \<Longrightarrow> \<not> in_words c i 1 a \<Longrightarrow> m3 a = ram s1 a"
    "load32 m3 (block_addr c + 4 * of_nat i) = q" "cstr m3 q t" "load32 m3 dir = D" "wf_chunk dir m3"
    "\<And>a. space_byte dir m3 a \<longleftrightarrow> space_byte dir (ram s) a" "\<And>a. table_byte dir m3 a \<longleftrightarrow> table_byte dir (ram s) a"
    "\<And>v. page_aligned v \<Longrightarrow> paging_get m3 D v = paging_get (ram s1) D v"
    using argument_stored [OF wf1 b c i _ t(2), of cur] by (simp_all add: q_def D1 byte1 table1)
  have wsub: "in_words c i 1 a \<Longrightarrow> in_blocks c 1 a" for a using i by (simp add: in_words_def in_blocks_def)
  have frame: "m3 a = ram s a" if "\<not> in_range a 0x7E00 25600" "\<not> in_blocks ?b 1 a" "\<not> in_words c i 1 a" "\<not> table_byte dir (ram s) a" for a
    using stored(1) f1 that block by simp
  define s3 where "s3 = s1\<lparr>ram := m3\<rparr>"
  have r3: "kheap_repr s3 (A @ Alloc 0 # replicate (length us) FreeBlk @ B)"
  proof (rule kheap_repr_cong [OF r1])
    fix a assume "in_range a 0x7E00 25600"
    then have "\<not> in_blocks ?b 1 a" "\<not> in_words c i 1 a"
      using in_range_forward [of "0x7E00" 25600 a] by (simp_all add: in_blocks_def in_words_def)
    then show "ram s3 a = ram s1 a" using stored(1) by (simp add: s3_def)
  qed (simp add: s3_def)
  have "inject_ready dir c s3 (A @ [Alloc 0]) B (load32 (ram s) (cur + 512)) us"
    using frame wsub stored(5-7) by (intro inject_ready_next [OF ready r3]) (auto simp: s3_def)
  moreover have "next_argument m3 cur = load32 (ram s) (cur + 512)"
    unfolding next_argument_def
  proof (rule load32_range)
    fix x assume "in_range x (cur + 512) 4"
    then have "in_range x cur 516" using in_range_sub [of 512 4 x cur] by simp
    then show "m3 x = ram s x" using node [of x] bsub wsub by (intro frame) auto
  qed
  moreover have "s3 = s\<lparr>ram := ram s3, procs := (procs s)(p \<mapsto> recorded j q 512 pr)\<rparr>"
    unfolding s3_def by (subst s1) (simp del: fun_upd_apply)
  moreover have "paging_get m3 D v = (if v = q then q OR 7 else paging_get (ram s) D v)" if "page_aligned v" for v
    using stored(8) get1 that by simp
  moreover note run q free_slots_recorded [OF j q] stored(2-4,7) frame
  ultimately show ?thesis
    by (intro exI [of _ s3] exI [of _ j])
      (simp add: outcome_simps poke_def m3_def [symmetric] s3_def del: fun_upd_apply)
qed

section \<open>The whole loop\<close>

text \<open>Argument \<open>j\<close> of the list \<open>ts\<close> in block \<open>b + j\<close>, on a page the program may use, with its address in \<open>argv\<close>.\<close>

definition argument_ok :: "mem \<Rightarrow> u32 \<Rightarrow> nat \<Rightarrow> nat \<Rightarrow> nat \<Rightarrow> u8 list \<Rightarrow> bool" where
  "argument_ok m D c i b t \<longleftrightarrow> load32 m (block_addr c + 4 * of_nat i) = block_addr b \<and> cstr m (block_addr b) t
     \<and> paging_get m D (block_addr b) = block_addr b OR 7"

lemma argument_ok_cong:
  assumes "argument_ok m D c i b t" and "c < b" and "b < 25600" and "i < 1024" and "length t < 512"
    and "paging_get m' D (block_addr b) = paging_get m D (block_addr b)"
    and eq: "\<And>a. in_words c i 1 a \<or> in_blocks b 1 a \<Longrightarrow> m' a = m a"
  shows "argument_ok m' D c i b t"
proof -
  have "unat (block_addr c + 4 * of_nat i) = 16777216 + 4096 * c + 4 * i"
    using assms(2-4) by (intro unat_word_in_block) simp_all
  then have "load32 m' (block_addr c + 4 * of_nat i) = load32 m (block_addr c + 4 * of_nat i)"
    using assms(2-4) by (intro load32_range eq) (simp add: in_range_forward in_words_def)
  moreover have "cstr m' (block_addr b) t \<longleftrightarrow> cstr m (block_addr b) t"
    using in_range_mono [of _ "block_addr b" "Suc (length t)" 4096] in_block [OF assms(3)] assms(5)
    by (intro cstr_cong eq) auto
  ultimately show ?thesis using assms(1,6) by (simp add: argument_ok_def)
qed

lemma inject_loop_run:
  assumes "inject_ready dir c s A B cur ts" and "procs s p = Some pr" and "tasks s (main_task pr) = Some tk"
    and "dir = page_directory tk" and "length ts \<le> free_slots pr" and "i + length ts \<le> 1024"
  defines "D \<equiv> load32 (ram s) dir"
  shows "\<exists>s' pr'. inject_loop p (block_addr c) cur (int i) s = Some (Ret (0, s'))
    \<and> s' = s\<lparr>ram := ram s', procs := (procs s)(p \<mapsto> pr')\<rparr> \<and> main_task pr' = main_task pr \<and> load32 (ram s') dir = D
    \<and> (\<forall>j<length ts. argument_ok (ram s') D c (i + j) (seg_blocks A + j) (ts ! j))
    \<and> (\<forall>a. \<not> in_range a 0x7E00 25600 \<and> \<not> in_blocks (seg_blocks A) (length ts) a \<and> \<not> in_words c i (length ts) a
        \<and> \<not> table_byte dir (ram s) a \<longrightarrow> ram s' a = ram s a)
    \<and> (\<forall>v. page_aligned v \<and> \<not> in_blocks (seg_blocks A) (length ts) v \<longrightarrow> paging_get (ram s') D v = paging_get (ram s) D v)"
  using assms(1-6) unfolding D_def
proof (induction ts arbitrary: s A cur pr i)
  case Nil
  have "cur = 0" using Nil.prems(1) by (simp add: inject_ready_def)
  then have "inject_loop p (block_addr c) cur (int i) s = Some (Ret (0, s))" by (subst inject_loop.simps) simp
  moreover have "s = s\<lparr>ram := ram s, procs := (procs s)(p \<mapsto> pr)\<rparr>" using Nil.prems(2) by (simp add: fun_upd_idem)
  ultimately show ?case by (intro exI [of _ s] exI [of _ pr]) (simp del: fun_upd_apply)
next
  case (Cons t us)
  let ?b = "seg_blocks A" and ?q = "block_addr (seg_blocks A)"
  have cur: "cur \<noteq> 0" and cb: "c < ?b" "?b < 25600" and len: "length t < 512"
    using Cons.prems(1) kheap_repr_blocks [of s "A @ replicate (length (t # us)) FreeBlk @ B"]
    by (auto simp: inject_ready_def)
  have i: "i < 1024" "0 < free_slots pr" using Cons.prems(5,6) by simp_all
  from inject_step [OF Cons.prems(1-4) i(2,1)] obtain s1 j where
    body: "kbind (process_malloc p 512) (\<lambda>argument_string.
        if argument_string = 0 then kret (0, 0)
        else kbind (kmod (\<lambda>s. s\<lparr>ram := strncpy (ram s) argument_string cur 512\<rparr>)) (\<lambda>_.
             kbind (poke (block_addr c + 4 * word_of_int (int i)) argument_string) (\<lambda>_.
             kget (\<lambda>s. (argument_string, next_argument (ram s) cur))))) s = Ret ((?q, load32 (ram s) (cur + 512)), s1)"
    and q: "?q \<noteq> 0" and s1: "s1 = s\<lparr>ram := ram s1, procs := (procs s)(p \<mapsto> recorded j ?q 512 pr)\<rparr>"
    and slots1: "free_slots (recorded j ?q 512 pr) = free_slots pr - 1"
    and ready1: "inject_ready dir c s1 (A @ [Alloc 0]) B (load32 (ram s) (cur + 512)) us"
    and D1: "load32 (ram s1) dir = load32 (ram s) dir" and table1: "\<forall>a. table_byte dir (ram s1) a \<longleftrightarrow> table_byte dir (ram s) a"
    and f1: "\<forall>a. \<not> in_range a 0x7E00 25600 \<and> \<not> in_blocks ?b 1 a \<and> \<not> in_words c i 1 a
        \<and> \<not> table_byte dir (ram s) a \<longrightarrow> ram s1 a = ram s a"
    and arg1: "load32 (ram s1) (block_addr c + 4 * of_nat i) = ?q" "cstr (ram s1) ?q t"
    and get1: "\<forall>v. page_aligned v \<longrightarrow> paging_get (ram s1) (load32 (ram s) dir) v
        = (if v = ?q then ?q OR 7 else paging_get (ram s) (load32 (ram s) dir) v)"
    by blast
  have p1: "procs s1 p = Some (recorded j ?q 512 pr)" "tasks s1 (main_task (recorded j ?q 512 pr)) = Some tk"
    by (subst s1, simp add: Cons.prems(3) recorded_def)+
  have "length us \<le> free_slots (recorded j ?q 512 pr)" "Suc i + length us \<le> 1024"
    using slots1 Cons.prems(5,6) by simp_all
  from Cons.IH [OF ready1 p1 Cons.prems(4) this] D1 obtain s2 pr2 where
    rest: "inject_loop p (block_addr c) (load32 (ram s) (cur + 512)) (int (Suc i)) s1 = Some (Ret (0, s2))"
    and s2: "s2 = s1\<lparr>ram := ram s2, procs := (procs s1)(p \<mapsto> pr2)\<rparr>" and mt: "main_task pr2 = main_task (recorded j ?q 512 pr)"
    and D2: "load32 (ram s2) dir = load32 (ram s) dir"
    and args2: "\<forall>k<length us. argument_ok (ram s2) (load32 (ram s) dir) c (Suc i + k) (Suc ?b + k) (us ! k)"
    and f2: "\<forall>a. \<not> in_range a 0x7E00 25600 \<and> \<not> in_blocks (Suc ?b) (length us) a \<and> \<not> in_words c (Suc i) (length us) a
        \<and> \<not> table_byte dir (ram s1) a \<longrightarrow> ram s2 a = ram s1 a"
    and get2: "\<forall>v. page_aligned v \<and> \<not> in_blocks (Suc ?b) (length us) v
        \<longrightarrow> paging_get (ram s2) (load32 (ram s) dir) v = paging_get (ram s1) (load32 (ram s) dir) v"
    by (auto simp del: fun_upd_apply)
  have q_page: "page_aligned ?q" "\<not> in_blocks (Suc ?b) (length us) ?q" "in_blocks ?b 1 ?q"
    using cb(2) by (simp_all add: in_blocks_def unat_block_addr)
  have first: "argument_ok (ram s2) (load32 (ram s) dir) c i ?b t"
  proof (rule argument_ok_cong [OF _ cb i(1) len])
    show "argument_ok (ram s1) (load32 (ram s) dir) c i ?b t" using arg1 get1 q_page(1) by (simp add: argument_ok_def)
    show "paging_get (ram s2) (load32 (ram s) dir) ?q = paging_get (ram s1) (load32 (ram s) dir) ?q" using get2 [rule_format, of ?q] q_page by simp
    show "ram s2 a = ram s1 a" if a: "in_words c i 1 a \<or> in_blocks ?b 1 a" for a
    proof -
      have "in_blocks c 1 a \<or> in_blocks ?b (length (t # us)) a" using a i(1) by (auto simp: in_words_def in_blocks_def)
      then have "\<not> table_byte dir (ram s1) a"
        using Cons.prems(1) table1 unfolding inject_ready_def space_byte_def by blast
      moreover have "\<not> in_range a 0x7E00 25600" "\<not> in_blocks (Suc ?b) (length us) a" "\<not> in_words c (Suc i) (length us) a"
        using a cb i(1) Cons.prems(6) by (auto simp: in_words_def in_blocks_def in_range_forward)
      ultimately show ?thesis using f2 by blast
    qed
  qed
  have "inject_loop p (block_addr c) cur (int i) s = Some (Ret (0, s2))"
    using body rest q cur i(1) by (subst inject_loop.simps) (simp add: i32_id add.commute)
  moreover have "s2 = s\<lparr>ram := ram s2, procs := (procs s)(p \<mapsto> pr2)\<rparr>"
  proof -
    have "s1\<lparr>ram := m, procs := (procs s1)(p \<mapsto> pr2)\<rparr> = s\<lparr>ram := m, procs := (procs s)(p \<mapsto> pr2)\<rparr>" for m
      by (subst (1 2) s1) (simp del: fun_upd_apply)
    with s2 show ?thesis by simp
  qed
  moreover have "argument_ok (ram s2) (load32 (ram s) dir) c (i + k) (?b + k) ((t # us) ! k)" if "k < length (t # us)" for k
    using first args2 that by (cases k) auto
  moreover have "ram s2 a = ram s a" if "\<not> in_range a 0x7E00 25600" "\<not> in_blocks ?b (length (t # us)) a"
    "\<not> in_words c i (length (t # us)) a" "\<not> table_byte dir (ram s) a" for a
  proof -
    have "\<not> in_blocks (Suc ?b) (length us) a" "\<not> in_blocks ?b 1 a" "\<not> in_words c (Suc i) (length us) a" "\<not> in_words c i 1 a"
      using that(2,3) by (auto simp: in_blocks_def in_words_def)
    then show ?thesis using that f1 f2 table1 by auto
  qed
  moreover have "paging_get (ram s2) (load32 (ram s) dir) v = paging_get (ram s) (load32 (ram s) dir) v"
    if "page_aligned v" "\<not> in_blocks ?b (length (t # us)) v" for v
  proof -
    have "\<not> in_blocks (Suc ?b) (length us) v" "v \<noteq> ?q" using that(2) q_page(3) by (auto simp: in_blocks_def)
    then show ?thesis using that(1) get1 get2 by simp
  qed
  ultimately show ?case
    using mt D2 by (intro exI [of _ s2] exI [of _ pr2]) (simp add: recorded_def del: fun_upd_apply)
qed

section \<open>The arguments of a process\<close>

lemma count_commands_list:
  "arg_list m cur ts \<Longrightarrow> k + length ts < 2147483648 \<Longrightarrow> count_commands m cur (int k) = Some (int (k + length ts))"
proof (induction ts arbitrary: cur k)
  case Nil
  then show ?case by (subst count_commands.simps) simp
next
  case (Cons t ts)
  then have "count_commands m (load32 m (cur + 512)) (int (Suc k)) = Some (int (Suc k + length ts))"
    by (intro Cons.IH) simp_all
  with Cons.prems show ?case
    by (subst count_commands.simps) (simp add: next_argument_def i32_id add.commute)
qed

text \<open>What a program reads on a page that is mapped to itself.\<close>

lemma translate_identity_phys:
  assumes "paging_get m D p = p OR 7" and "page_aligned p" and "i < 4096"
  shows "translate m D (p + of_nat i) = Some (p + of_nat i)" and "paging_get_physical_address m D (p + of_nat i) = p + of_nat i"
  using translate_identity [OF assms] translate_Some [of m D "p + of_nat i"] by simp_all

lemma load32_in_page:
  assumes "paging_get m D p = p OR 7" and "page_aligned p" and "k + 4 \<le> 4096"
  shows "load32_in m D (p + of_nat k) = Some (load32 m (p + of_nat k))"
proof -
  have "translate m D (p + of_nat k + of_nat j) = Some (p + of_nat k + of_nat j)" if "j < 4" for j
    using translate_identity [OF assms(1,2), of "k + j"] assms(3) that by (simp add: add.assoc)
  from this [of 0] this [of 1] this [of 2] this [of 3] show ?thesis by (simp add: load32_in_def load32_def)
qed

lemma task_text_page:
  assumes "paging_get m D p = p OR 7" and "page_aligned p" and "cstr m p t" and "length t < 4096"
  shows "task_text m D p t"
  using assms(3,4) by (auto simp: task_text_def cstr_nth translate_identity_phys [OF assms(1,2)])

text \<open>
  C10: a new process gets its arguments. When the caller's list holds the texts \<open>ts\<close>, each shorter
  than 512 characters, and memory and the table of allocations have room for them, the call returns 0;
  \<open>argc\<close> is then their number, and what the program reads through its own page directory in \<open>argv\<close>
  are addresses where it sees these texts, in order. Only the new blocks, the heap table and the page
  tables of the process have changed.
\<close>

theorem inject_arguments_arrive:
  assumes lst: "arg_list (ram s) root ts" "ts \<noteq> []" "length ts < 1024" "\<forall>t\<in>set ts. length t < 512"
    and pr: "procs s p = Some pr" and tk: "tasks s (main_task pr) = Some tk" and slots: "length ts < free_slots pr"
    and wf: "wf_chunk (page_directory tk) (ram s)"
    and heap: "kheap_repr s (A @ replicate (Suc (length ts)) FreeBlk @ B)" "FreeBlk \<notin> set A"
    and page: "\<forall>a. in_range a 0x7E00 25600 \<or> in_blocks (seg_blocks A) (Suc (length ts)) a \<longrightarrow> \<not> space_byte (page_directory tk) (ram s) a"
    and nodes: "\<forall>q\<in>set (arg_nodes (ram s) root (length ts)). \<forall>a. in_range a q 516 \<longrightarrow> \<not> in_range a 0x7E00 25600
        \<and> \<not> in_blocks (seg_blocks A) (Suc (length ts)) a \<and> \<not> table_byte (page_directory tk) (ram s) a"
  defines "D \<equiv> load32 (ram s) (page_directory tk)"
  shows "\<exists>s' pr'. process_inject_arguments p root s = Ret (0, s') \<and> procs s' p = Some pr'
    \<and> argc pr' = int (length ts) \<and> load32 (ram s') (page_directory tk) = D
    \<and> (\<forall>j<length ts. \<exists>q. load32_in (ram s') D (argv pr' + 4 * of_nat j) = Some q \<and> task_text (ram s') D q (ts ! j))
    \<and> (\<forall>a. \<not> in_range a 0x7E00 25600 \<and> \<not> in_blocks (seg_blocks A) (Suc (length ts)) a
        \<and> \<not> table_byte (page_directory tk) (ram s) a \<longrightarrow> ram s' a = ram s a)"
proof -
  define dir where "dir = page_directory tk"
  let ?b = "seg_blocks A" and ?n = "length ts"
  define av where "av = block_addr ?b"
  have b: "?b + Suc ?n \<le> 25600" using kheap_repr_blocks [OF heap(1)] by simp
  then have block: "in_range a av 4096 \<longleftrightarrow> in_blocks ?b 1 a" for a by (simp add: in_block av_def)
  have bsub: "in_blocks ?b 1 a \<Longrightarrow> in_blocks ?b (Suc ?n) a" "in_blocks (Suc ?b) ?n a \<Longrightarrow> in_blocks ?b (Suc ?n) a" for a
    by (simp_all add: in_blocks_def)
  have av: "page_aligned av" "av \<noteq> 0" using b block_addr_ne_0 [of ?b] by (simp_all add: av_def unat_block_addr)
  have "0 < free_slots pr" using slots by simp
  then obtain i where i: "find_allocation (\<lambda>q. q = 0) (allocations pr) 0 = Some i" by (rule free_slot_found)
  have n: "0 < 4 * ?n" "4 * ?n < 4096" using lst(2,3) by simp_all
  have heap': "kheap_repr s (A @ FreeBlk # replicate ?n FreeBlk @ B)" using heap(1) by simp
  have apart: "\<not> space_byte dir (ram s) a" if "in_range a av 4096 \<or> in_range a 0x7E00 25600" for a
    using that page bsub(1) unfolding dir_def block by blast
  define pr1 where "pr1 = recorded i av (word_of_int (int (4 * ?n))) pr"
  from process_malloc_page [OF heap' heap(2) n pr tk i wf, folded av_def dir_def D_def, OF apart]
  obtain s1 where run1: "process_malloc p (word_of_int (int (4 * ?n))) s = Ret (av, s1)"
    and r1: "kheap_repr s1 (A @ Alloc 0 # replicate ?n FreeBlk @ B)"
    and s1: "s1 = s\<lparr>ram := ram s1, procs := (procs s)(p \<mapsto> pr1)\<rparr>" and wf1: "wf_chunk dir (ram s1)" and D1: "load32 (ram s1) dir = D"
    and byte1: "\<forall>a. space_byte dir (ram s1) a \<longleftrightarrow> space_byte dir (ram s) a" and table1: "\<forall>a. table_byte dir (ram s1) a \<longleftrightarrow> table_byte dir (ram s) a"
    and f1: "\<forall>a. \<not> in_range a 0x7E00 25600 \<and> \<not> in_range a av 4096 \<and> \<not> table_byte dir (ram s) a \<longrightarrow> ram s1 a = ram s a"
    and get1: "\<forall>v. page_aligned v \<longrightarrow> paging_get (ram s1) D v = (if v = av then av OR 7 else paging_get (ram s) D v)"
    unfolding pr1_def by blast
  have nodes': "\<forall>q\<in>set (arg_nodes (ram s) root ?n). \<forall>a. in_range a q 516 \<longrightarrow> \<not> in_range a 0x7E00 25600
        \<and> \<not> in_blocks ?b (Suc ?n) a \<and> \<not> table_byte dir (ram s) a" using nodes by (simp only: dir_def)
  then have eq: "\<forall>q\<in>set (arg_nodes (ram s) root ?n). \<forall>a. in_range a q 516 \<longrightarrow> ram s1 a = ram s a"
    using f1 bsub(1) block by blast
  have ready: "inject_ready dir ?b s1 (A @ [Alloc 0]) B root ts"
    unfolding inject_ready_def
  proof (intro conjI)
    show "wf_chunk dir (ram s1)" by (rule wf1)
    show "kheap_repr s1 ((A @ [Alloc 0]) @ replicate ?n FreeBlk @ B)" using r1 by simp
    show "FreeBlk \<notin> set (A @ [Alloc 0])" "?b < seg_blocks (A @ [Alloc 0])" using heap(2) by simp_all
    show "\<forall>a. in_range a 0x7E00 25600 \<or> in_blocks (seg_blocks (A @ [Alloc 0])) ?n a \<or> in_blocks ?b 1 a \<longrightarrow> \<not> space_byte dir (ram s1) a"
      using page bsub byte1 by (simp add: dir_def)
    show "arg_list (ram s1) root ts" by (rule arg_list_cong [OF eq lst(4,1)])
    show "\<forall>t\<in>set ts. length t < 512" by (rule lst(4))
    show "\<forall>q\<in>set (arg_nodes (ram s1) root ?n). \<forall>a. in_range a q 516 \<longrightarrow> \<not> in_range a 0x7E00 25600
        \<and> \<not> in_blocks (seg_blocks (A @ [Alloc 0])) ?n a \<and> \<not> in_blocks ?b 1 a \<and> \<not> table_byte dir (ram s1) a"
      using nodes' bsub table1 unfolding arg_nodes_cong [OF eq] by simp blast
  qed
  have p1: "procs s1 p = Some pr1" "tasks s1 (main_task pr1) = Some tk"
    by (subst s1, simp add: tk pr1_def recorded_def)+
  have "?n \<le> free_slots pr1" "0 + ?n \<le> 1024" using slots lst(3) free_slots_recorded [OF i av(2)] by (simp_all add: pr1_def)
  from inject_loop_run [OF ready p1 dir_def this, folded av_def] obtain s2 pr2 where
    loop: "inject_loop p av root (int 0) s1 = Some (Ret (0, s2))" and s2: "s2 = s1\<lparr>ram := ram s2, procs := (procs s1)(p \<mapsto> pr2)\<rparr>"
    and D2: "load32 (ram s2) dir = D"
    and args: "\<forall>j<?n. argument_ok (ram s2) D ?b (0 + j) (Suc ?b + j) (ts ! j)"
    and f2: "\<forall>a. \<not> in_range a 0x7E00 25600 \<and> \<not> in_blocks (Suc ?b) ?n a \<and> \<not> in_words ?b 0 ?n a
        \<and> \<not> table_byte dir (ram s1) a \<longrightarrow> ram s2 a = ram s1 a"
    and get2: "\<forall>v. page_aligned v \<and> \<not> in_blocks (Suc ?b) ?n v \<longrightarrow> paging_get (ram s2) D v = paging_get (ram s1) D v"
    by (auto simp: D1 simp del: fun_upd_apply)
  define pr' where "pr' = pr2\<lparr>argc := int ?n, argv := av\<rparr>"
  define s' where "s' = s2\<lparr>procs := (procs s2)(p \<mapsto> pr')\<rparr>"
  have count: "process_count_commands root s = Ret (int ?n, s)"
    using count_commands_list [OF lst(1), of 0] lst(3) by (simp add: process_count_commands_def)
  have "procs s2 p = Some pr2" by (subst s2) simp
  then have run: "process_inject_arguments p root s = Ret (0, s')"
    using count run1 av(2) loop lst(2)
    by (simp add: process_inject_arguments_def outcome_simps update_process_def proc_def s'_def pr'_def mult.commute del: fun_upd_apply)
  have "load32_in (ram s2) D (av + 4 * of_nat j) = Some (block_addr (Suc ?b + j)) \<and> task_text (ram s2) D (block_addr (Suc ?b + j)) (ts ! j)"
    if j: "j < ?n" for j
  proof -
    have ok: "load32 (ram s2) (av + 4 * of_nat j) = block_addr (Suc ?b + j)" "cstr (ram s2) (block_addr (Suc ?b + j)) (ts ! j)"
      "paging_get (ram s2) D (block_addr (Suc ?b + j)) = block_addr (Suc ?b + j) OR 7"
      using args j by (simp_all add: argument_ok_def av_def)
    have "\<not> in_blocks (Suc ?b) ?n av" using b by (simp add: in_blocks_def av_def unat_block_addr)
    then have "paging_get (ram s2) D av = av OR 7" using get1 get2 av(1) by simp
    then have "load32_in (ram s2) D (av + 4 * of_nat j) = Some (block_addr (Suc ?b + j))"
      using load32_in_page [OF _ av(1), of "ram s2" D "4 * j"] ok(1) j lst(3) by simp
    moreover have "task_text (ram s2) D (block_addr (Suc ?b + j)) (ts ! j)"
    proof (rule task_text_page [OF ok(3) _ ok(2)])
      show "page_aligned (block_addr (Suc ?b + j))" using b j by (simp add: unat_block_addr)
      have "length (ts ! j) < 512" using lst(4) j by simp
      then show "length (ts ! j) < 4096" by simp
    qed
    ultimately show ?thesis ..
  qed
  moreover have "ram s2 a = ram s a" if "\<not> in_range a 0x7E00 25600" "\<not> in_blocks ?b (Suc ?n) a" "\<not> table_byte dir (ram s) a" for a
  proof -
    have "\<not> in_blocks ?b 1 a" "\<not> in_blocks (Suc ?b) ?n a" using that(2) bsub by blast+
    moreover from this(1) have "\<not> in_words ?b 0 ?n a" using lst(3) by (auto simp: in_words_def in_blocks_def)
    ultimately show ?thesis using that f1 f2 table1 block by simp
  qed
  ultimately show ?thesis
    using run D2 by (intro exI [of _ s'] exI [of _ pr']) (auto simp: s'_def pr'_def dir_def)
qed

text \<open>A list of two arguments for the process of the concrete machine.\<close>

theorem inject_arguments_arrive_witness:
  "\<exists>s' pr'. process_inject_arguments 0x1310000 0x900000 space_machine = Ret (0, s') \<and> procs s' 0x1310000 = Some pr' \<and> argc pr' = 2"
proof -
  let ?pr = "no_process\<lparr>program := 0x1320000, stack := 0x800000\<rparr>" and ?tk = "no_task\<lparr>page_directory := 0x1000\<rparr>"
  let ?ts = "[[0x61], [0x62, 0x63]] :: u8 list list"
  have s: "procs space_machine 0x1310000 = Some ?pr" "tasks space_machine (main_task ?pr) = Some ?tk"
    "ram space_machine = space_memory" "page_directory ?tk = 0x1000"
    by (simp_all add: space_machine_def no_process_def)
  have words: "load32 space_memory 0x900200 = 0x900400" "load32 space_memory 0x900600 = 0"
    by (simp_all add: load32_space space_word_def)
  have lst: "arg_list (ram space_machine) 0x900000 ?ts"
    unfolding s(3) by (simp add: words) (simp add: space_memory_def space_word_def)
  have slots: "length ?ts < free_slots ?pr" by (simp add: free_slots_def no_process_def)
  have "replicate 25600 FreeBlk = [] @ replicate (Suc (length ?ts)) FreeBlk @ replicate 25597 FreeBlk"
    by (simp only: append_Nil replicate_add [symmetric]) simp
  with space_heap have heap: "kheap_repr space_machine ([] @ replicate (Suc (length ?ts)) FreeBlk @ replicate 25597 FreeBlk)" by simp
  have page: "\<forall>a. in_range a 0x7E00 25600 \<or> in_blocks (seg_blocks []) (Suc (length ?ts)) a
      \<longrightarrow> \<not> space_byte (page_directory ?tk) (ram space_machine) a"
    by (auto simp: s space_byte_def space_directory in_range_forward space_no_table in_blocks_def)
  have nodes: "\<forall>q\<in>set (arg_nodes (ram space_machine) 0x900000 (length ?ts)). \<forall>a. in_range a q 516 \<longrightarrow>
      \<not> in_range a 0x7E00 25600 \<and> \<not> in_blocks (seg_blocks []) (Suc (length ?ts)) a \<and> \<not> table_byte (page_directory ?tk) (ram space_machine) a"
    by (auto simp: s words in_range_forward space_no_table in_blocks_def)
  have wf: "wf_chunk (page_directory ?tk) (ram space_machine)" using space_chunk by (simp add: s)
  have small: "?ts \<noteq> []" "length ?ts < 1024" "\<forall>t\<in>set ?ts. length t < 512" by simp_all
  from inject_arguments_arrive [OF lst small s(1,2) slots wf heap _ page nodes]
  show ?thesis by simp blast
qed

end
