(* ===== verification/FatMount.thy ===== *)
theory FatMount imports FatRuns
begin

text \<open>
  Mounting a volume, \<open>fat16_resolve\<close> of \<open>src/src/fs/fat/fat16.c\<close>: on a drive whose first sector is
  the header of a FAT16 volume it sets up the private data that every other operation relies on.
\<close>

section \<open>Streams\<close>

definition fresh_stream :: disk_stream where
  "fresh_stream = \<lparr>stream_pos = 0, stream_disk = MainDisk\<rparr>"

lemma streamer_new_run:
  assumes "kheap_repr s (A @ FreeBlk # B)" and "FreeBlk \<notin> set A"
  defines "q \<equiv> block_addr (seg_blocks A)"
  shows "\<exists>s'. disk_streamer_new 0 s = Ret (q, s') \<and> kheap_repr s' (A @ Alloc 0 # B) \<and> q \<noteq> 0
    \<and> s' = s\<lparr>ram := ram s', streams := (streams s)(q \<mapsto> fresh_stream)\<rparr>
    \<and> (\<forall>a. \<not> in_blocks (seg_blocks A) 1 a \<and> \<not> in_range a 0x7E00 25600 \<longrightarrow> ram s' a = ram s a)"
proof -
  have b: "seg_blocks A < 25600" using kheap_repr_blocks [OF assms(1)] by simp
  from zeroed_block [OF assms(1,2), of 4, folded q_def] obtain s1 where
    z: "kzalloc 4 s = Ret (q, s1)" and r: "kheap_repr s1 (A @ Alloc 0 # B)" and s1: "s1 = s\<lparr>ram := ram s1\<rparr>" and q: "q \<noteq> 0"
    and f: "\<forall>a. \<not> in_range a q 4096 \<and> \<not> in_range a 0x7E00 25600 \<longrightarrow> ram s1 a = ram s a" by auto
  define s' where "s' = s1\<lparr>streams := (streams s)(q \<mapsto> fresh_stream)\<rparr>"
  have st: "streams s1 = streams s" by (subst s1) simp
  have "disk_streamer_new 0 s = Ret (q, s')"
    using z st by (simp add: disk_streamer_new_def disk_get_def outcome_simps s'_def fresh_stream_def del: fun_upd_apply)
  moreover have "kheap_repr s' (A @ Alloc 0 # B)" by (rule kheap_repr_cong [OF r]) (simp_all add: s'_def)
  moreover have "s' = s\<lparr>ram := ram s', streams := (streams s)(q \<mapsto> fresh_stream)\<rparr>"
    unfolding s'_def by (subst s1) (simp del: fun_upd_apply)
  moreover have "\<forall>a. \<not> in_blocks (seg_blocks A) 1 a \<and> \<not> in_range a 0x7E00 25600 \<longrightarrow> ram s' a = ram s a"
    using f in_block [OF b] by (simp add: s'_def q_def)
  ultimately show ?thesis using q by blast
qed

text \<open>One of the three streams of the private data, with its address stored at \<open>w\<close> inside block \<open>c\<close>.\<close>

lemma stored_stream_run:
  assumes "kheap_repr s (A @ FreeBlk # B)" and "FreeBlk \<notin> set A" and "c < seg_blocks A"
    and w: "\<And>a. in_range a w 4 \<Longrightarrow> in_blocks c 1 a"
  defines "q \<equiv> block_addr (seg_blocks A)"
  shows "\<exists>s'. kbind (disk_streamer_new 0) (poke w) s = Ret ((), s') \<and> kheap_repr s' (A @ Alloc 0 # B)
    \<and> s' = s\<lparr>ram := ram s', streams := (streams s)(q \<mapsto> fresh_stream)\<rparr> \<and> load32 (ram s') w = q \<and> q \<noteq> 0
    \<and> (\<forall>a. \<not> in_blocks (seg_blocks A) 1 a \<and> \<not> in_range a 0x7E00 25600 \<and> \<not> in_range a w 4 \<longrightarrow> ram s' a = ram s a)"
proof -
  from streamer_new_run [OF assms(1,2), folded q_def] obtain s1 where
    n: "disk_streamer_new 0 s = Ret (q, s1)" and r: "kheap_repr s1 (A @ Alloc 0 # B)" and q: "q \<noteq> 0"
    and s1: "s1 = s\<lparr>ram := ram s1, streams := (streams s)(q \<mapsto> fresh_stream)\<rparr>"
    and f: "\<forall>a. \<not> in_blocks (seg_blocks A) 1 a \<and> \<not> in_range a 0x7E00 25600 \<longrightarrow> ram s1 a = ram s a" by blast
  define s' where "s' = s1\<lparr>ram := store32 (ram s1) w q\<rparr>"
  have "kbind (disk_streamer_new 0) (poke w) s = Ret ((), s')"
    using n by (simp add: outcome_simps poke_def s'_def)
  moreover have "kheap_repr s' (A @ Alloc 0 # B)"
  proof (rule kheap_repr_cong [OF r])
    fix a assume "in_range a 0x7E00 25600"
    then have "\<not> in_blocks c 1 a" by (simp add: in_blocks_def in_range_forward)
    then have "\<not> in_range a w 4" using w by blast
    then show "ram s' a = ram s1 a" by (simp add: s'_def store32_outside)
  qed (simp add: s'_def)
  moreover have "s' = s\<lparr>ram := ram s', streams := (streams s)(q \<mapsto> fresh_stream)\<rparr>"
    unfolding s'_def by (subst s1) (simp del: fun_upd_apply)
  moreover have "load32 (ram s') w = q" by (simp add: s'_def load32_store32_same)
  moreover have "\<forall>a. \<not> in_blocks (seg_blocks A) 1 a \<and> \<not> in_range a 0x7E00 25600 \<and> \<not> in_range a w 4 \<longrightarrow> ram s' a = ram s a"
    using f by (simp add: s'_def store32_outside)
  ultimately show ?thesis using q by blast
qed

section \<open>The private data\<close>

lemma in_block_part: "c < 25600 \<Longrightarrow> k + n \<le> 4096 \<Longrightarrow> in_range a (block_addr c + of_nat k) n \<Longrightarrow> in_blocks c 1 a"
  using in_range_part [of k n 4096 a "block_addr c"] in_block [of c a] by simp

lemma init_private_run:
  fixes s :: "('d, 'z) fat_machine_scheme"
  assumes heap: "kheap_repr s (A @ FreeBlk # FreeBlk # FreeBlk # B)" "FreeBlk \<notin> set A" and c: "c < seg_blocks A"
    and disk: "dk_id (the_disk s) = 0"
  defines "fp \<equiv> block_addr c" and "b \<equiv> seg_blocks A"
  shows "\<exists>s'. fat16_init_private MainDisk fp s = Ret ((), s') \<and> kheap_repr s' (A @ Alloc 0 # Alloc 0 # Alloc 0 # B)
    \<and> s' = s\<lparr>ram := ram s', streams := (streams s)(block_addr b \<mapsto> fresh_stream, block_addr (b + 1) \<mapsto> fresh_stream, block_addr (b + 2) \<mapsto> fresh_stream)\<rparr>
    \<and> load32 (ram s') (fp + 80) = block_addr b \<and> load32 (ram s') (fp + 84) = block_addr (b + 1) \<and> load32 (ram s') (fp + 88) = block_addr (b + 2)
    \<and> (\<forall>a. \<not> in_blocks b 3 a \<and> \<not> in_range a 0x7E00 25600 \<and> \<not> in_blocks c 1 a \<longrightarrow> ram s' a = ram s a)"
proof -
  have blocks: "b + 3 \<le> 25600" using kheap_repr_blocks [OF heap(1)] by (simp add: b_def)
  have word: "in_range a (fp + 80) 4 \<Longrightarrow> in_blocks c 1 a" "in_range a (fp + 84) 4 \<Longrightarrow> in_blocks c 1 a"
    "in_range a (fp + 88) 4 \<Longrightarrow> in_blocks c 1 a" "in_range a fp 92 \<Longrightarrow> in_blocks c 1 a" for a
    using in_block_part [of c 80 4 a] in_block_part [of c 84 4 a] in_block_part [of c 88 4 a] in_block_part [of c 0 92 a] c blocks
    by (simp_all add: fp_def b_def)
  define s0 where "s0 = s\<lparr>ram := memset (ram s) fp 0 92\<rparr>"
  have f0: "ram s0 a = ram s a" if "\<not> in_blocks c 1 a" for a
    using word(4) that by (auto simp: s0_def memset_apply)
  have r0: "kheap_repr s0 (A @ FreeBlk # FreeBlk # FreeBlk # B)"
  proof (rule kheap_repr_cong [OF heap(1)])
    fix a assume "in_range a 0x7E00 25600"
    then show "ram s0 a = ram s a" by (intro f0) (simp add: in_blocks_def in_range_forward)
  qed (simp add: s0_def)
  from stored_stream_run [OF r0 heap(2) c word(1), folded b_def] obtain s1 where
    n1: "kbind (disk_streamer_new 0) (poke (fp + 80)) s0 = Ret ((), s1)" and r1: "kheap_repr s1 (A @ Alloc 0 # FreeBlk # FreeBlk # B)"
    and e1: "s1 = s0\<lparr>ram := ram s1, streams := (streams s0)(block_addr b \<mapsto> fresh_stream)\<rparr>" and l1: "load32 (ram s1) (fp + 80) = block_addr b"
    and f1: "\<forall>a. \<not> in_blocks b 1 a \<and> \<not> in_range a 0x7E00 25600 \<and> \<not> in_range a (fp + 80) 4 \<longrightarrow> ram s1 a = ram s0 a" by auto
  have r1: "kheap_repr s1 ((A @ [Alloc 0]) @ FreeBlk # FreeBlk # B)" "FreeBlk \<notin> set (A @ [Alloc 0])" "c < seg_blocks (A @ [Alloc 0])"
    using r1 heap(2) c by simp_all
  from stored_stream_run [OF r1 word(2)] obtain s2 where
    n2: "kbind (disk_streamer_new 0) (poke (fp + 84)) s1 = Ret ((), s2)" and r2: "kheap_repr s2 (A @ Alloc 0 # Alloc 0 # FreeBlk # B)"
    and e2: "s2 = s1\<lparr>ram := ram s2, streams := (streams s1)(block_addr (b + 1) \<mapsto> fresh_stream)\<rparr>" and l2: "load32 (ram s2) (fp + 84) = block_addr (b + 1)"
    and f2: "\<forall>a. \<not> in_blocks (b + 1) 1 a \<and> \<not> in_range a 0x7E00 25600 \<and> \<not> in_range a (fp + 84) 4 \<longrightarrow> ram s2 a = ram s1 a"
    by (auto simp: b_def)
  have r2: "kheap_repr s2 ((A @ [Alloc 0, Alloc 0]) @ FreeBlk # B)" "FreeBlk \<notin> set (A @ [Alloc 0, Alloc 0])" "c < seg_blocks (A @ [Alloc 0, Alloc 0])"
    using r2 heap(2) c by simp_all
  from stored_stream_run [OF r2 word(3)] obtain s3 where
    n3: "kbind (disk_streamer_new 0) (poke (fp + 88)) s2 = Ret ((), s3)" and r3: "kheap_repr s3 (A @ Alloc 0 # Alloc 0 # Alloc 0 # B)"
    and e3: "s3 = s2\<lparr>ram := ram s3, streams := (streams s2)(block_addr (b + 2) \<mapsto> fresh_stream)\<rparr>" and l3: "load32 (ram s3) (fp + 88) = block_addr (b + 2)"
    and f3: "\<forall>a. \<not> in_blocks (b + 2) 1 a \<and> \<not> in_range a 0x7E00 25600 \<and> \<not> in_range a (fp + 88) 4 \<longrightarrow> ram s3 a = ram s2 a"
    by (auto simp: b_def)
  have run: "fat16_init_private MainDisk fp s = Ret ((), s3)"
  proof -
    have "the_disk s1 = the_disk s0" "the_disk s2 = the_disk s1" by (subst e1, simp) (subst e2, simp)
    then have d: "dk_id (the_disk s0) = 0" "dk_id (the_disk s1) = 0" "dk_id (the_disk s2) = 0" using disk by (simp_all add: s0_def)
    obtain q1 t1 q2 t2 q3 t3 where "disk_streamer_new 0 s0 = Ret (q1, t1)" "poke (fp + 80) q1 t1 = Ret ((), s1)"
      "disk_streamer_new 0 s1 = Ret (q2, t2)" "poke (fp + 84) q2 t2 = Ret ((), s2)"
      "disk_streamer_new 0 s2 = Ret (q3, t3)" "poke (fp + 88) q3 t3 = Ret ((), s3)"
      using n1 n2 n3 by (auto elim!: kbind_RetE)
    then show ?thesis
      using d(1) by (simp add: fat16_init_private_def outcome_simps s0_def [symmetric])
  qed
  have ufp: "unat fp = 16777216 + 4096 * c" "unat (fp + 80) = unat fp + 80" "unat (fp + 84) = unat fp + 84" "unat (fp + 88) = unat fp + 88"
    using c blocks unat_forward [of fp 80] unat_forward [of fp 84] unat_forward [of fp 88] by (simp_all add: fp_def b_def unat_block_addr)
  have inw: "in_range a (fp + 80) 4 \<longleftrightarrow> unat fp + 80 \<le> unat a \<and> unat a < unat fp + 84"
    "in_range a (fp + 84) 4 \<longleftrightarrow> unat fp + 84 \<le> unat a \<and> unat a < unat fp + 88"
    "in_range a (fp + 88) 4 \<longleftrightarrow> unat fp + 88 \<le> unat a \<and> unat a < unat fp + 92" for a
    using ufp c blocks by (simp_all add: in_range_forward b_def)
  have tab: "in_range a 0x7E00 25600 \<longleftrightarrow> 0x7E00 \<le> unat a \<and> unat a < 0xE200" for a by (simp add: in_range_forward)
  have cb: "c < b" using c by (simp add: b_def)
  have "load32 (ram s3) (fp + 80) = block_addr b" "load32 (ram s3) (fp + 84) = block_addr (b + 1)"
  proof -
    have "load32 (ram s3) (fp + 80) = load32 (ram s1) (fp + 80)" "load32 (ram s3) (fp + 84) = load32 (ram s2) (fp + 84)"
    proof (rule_tac [!] load32_range)
      show "ram s3 a = ram s1 a" if "in_range a (fp + 80) 4" for a
        using f2 [rule_format, of a] f3 [rule_format, of a] that cb ufp(1) by (simp add: inw tab in_blocks_def)
      show "ram s3 a = ram s2 a" if "in_range a (fp + 84) 4" for a
        using f3 [rule_format, of a] that cb ufp(1) by (simp add: inw tab in_blocks_def)
    qed
    then show "load32 (ram s3) (fp + 80) = block_addr b" "load32 (ram s3) (fp + 84) = block_addr (b + 1)" using l1 l2 by simp_all
  qed
  moreover have "s3 = s\<lparr>ram := ram s3, streams := (streams s)(block_addr b \<mapsto> fresh_stream, block_addr (b + 1) \<mapsto> fresh_stream, block_addr (b + 2) \<mapsto> fresh_stream)\<rparr>"
  proof -
    have st: "streams s1 = (streams s)(block_addr b \<mapsto> fresh_stream)" by (subst e1) (simp add: s0_def)
    then have st2: "streams s2 = (streams s)(block_addr b \<mapsto> fresh_stream, block_addr (b + 1) \<mapsto> fresh_stream)" by (subst e2) simp
    have "s1\<lparr>ram := x, streams := y\<rparr> = s\<lparr>ram := x, streams := y\<rparr>" for x y by (subst e1) (simp add: s0_def)
    moreover have "s2\<lparr>ram := x, streams := y\<rparr> = s1\<lparr>ram := x, streams := y\<rparr>" for x y by (subst e2) simp
    ultimately show ?thesis using e3 st2 by simp
  qed
  moreover have "ram s3 a = ram s a" if "\<not> in_blocks b 3 a" "\<not> in_range a 0x7E00 25600" "\<not> in_blocks c 1 a" for a
  proof -
    have "\<not> in_blocks b 1 a" "\<not> in_blocks (b + 1) 1 a" "\<not> in_blocks (b + 2) 1 a" using that(1) by (auto simp: in_blocks_def)
    then show ?thesis using that f0 f1 f2 f3 word by metis
  qed
  ultimately show ?thesis using run r3 l3 by blast
qed

section \<open>The root directory\<close>

text \<open>A header depends on its 62 bytes only, wherever they lie.\<close>

lemma fat_h_at_reloc:
  assumes eq: "\<And>k. k < 62 \<Longrightarrow> m' (p' + of_nat k) = m (p + of_nat k)"
  shows "fat_h_at m' p' = fat_h_at m p"
proof -
  have bs: "bytes_at m' (p' + of_nat k) j = bytes_at m (p + of_nat k) j" if "k + j \<le> 62" for k j
    unfolding bytes_at_def using eq [of "k + i" for i] that by (simp add: add.assoc)
  have w: "load16 m' (p' + of_nat k) = load16 m (p + of_nat k)" if "Suc k < 62" for k
    using eq [of k] eq [of "k + 1"] that by (simp add: load16_def add.assoc add.commute [of 1])
  have d: "load32 m' (p' + of_nat k) = load32 m (p + of_nat k)" if "k + 3 < 62" for k
    using eq [of k] eq [of "k + 1"] eq [of "k + 2"] eq [of "k + 3"] that
    by (simp add: load32_def ac_simps)
  show ?thesis
    unfolding fat_h_at_def
    using bs [of 0 3] bs [of 3 8] w [of 11] eq [of 13] w [of 14] eq [of 16] w [of 17] w [of 19] eq [of 21]
      w [of 22] w [of 24] w [of 26] d [of 28] d [of 32] eq [of 36] eq [of 37] eq [of 38] d [of 39]
      bs [of 43 11] bs [of 54 8] by simp
qed

definition root_sector :: "fat_header \<Rightarrow> nat" where
  "root_sector h = unat (fat_copies h) * unat (sectors_per_fat h) + unat (reserved_sectors h)"

definition root_bytes :: "fat_header \<Rightarrow> nat" where
  "root_bytes h = 32 * unat (root_directory_entries h)"

text \<open>The four words of the directory, stored one after the other behind the header.\<close>

lemma directory_words:
  fixes m :: mem and a x y z :: u32
  assumes c: "c < 25600"
  defines "fp \<equiv> block_addr c"
  defines "m' \<equiv> store32 (store32 (store32 (store32 m (fp + 64) a) (fp + 64 + 4) x) (fp + 64 + 8) y) (fp + 64 + 12) z"
  shows "fat_private_at m' fp = (fat_private_at m fp)\<lparr>root_directory := \<lparr>dir_item = a, dir_total = sint x, dir_sector_pos = sint y, dir_ending_sector_pos = sint z\<rparr>\<rparr>"
    and "\<not> in_blocks c 1 i \<Longrightarrow> m' i = m i"
proof -
  have u: "unat (fp + of_nat k) = unat fp + k" if "k < 4096" for k
    using c that by (intro unat_forward) (simp add: fp_def unat_block_addr)
  have al: "unat (fp + of_nat (4 * k)) mod 4 = 0" if "k < 1024" for k
    using u [of "4 * k"] that c by (simp add: fp_def unat_block_addr)
  note al' = al [of 16] al [of 17] al [of 18] al [of 19] al [of 20] al [of 21] al [of 22]
  have d: "fat_directory_at m' (fp + 64) = \<lparr>dir_item = a, dir_total = sint x, dir_sector_pos = sint y, dir_ending_sector_pos = sint z\<rparr>"
    "load32 m' (fp + 80) = load32 m (fp + 80)" "load32 m' (fp + 84) = load32 m (fp + 84)" "load32 m' (fp + 88) = load32 m (fp + 88)"
    using al' by (simp_all add: fat_directory_at_def m'_def load32_store32_same load32_store32_other add.assoc)
  have out: "m' i = m i" if "unat i < unat fp + 64 \<or> unat fp + 80 \<le> unat i" for i
  proof -
    have "\<not> in_range i (fp + of_nat j) 4" if j: "64 \<le> j" "j \<le> 76" for j
      using \<open>unat i < unat fp + 64 \<or> unat fp + 80 \<le> unat i\<close> j c u [of j]
      by (subst in_range_forward) (auto simp: fp_def unat_block_addr)
    from this [of 64] this [of 68] this [of 72] this [of 76] show ?thesis
      by (simp add: m'_def store32_outside add.assoc)
  qed
  have "fat_h_at m' fp = fat_h_at m fp" by (rule fat_h_at_reloc, rule out) (simp add: u)
  then show "fat_private_at m' fp = (fat_private_at m fp)\<lparr>root_directory := \<lparr>dir_item = a, dir_total = sint x, dir_sector_pos = sint y, dir_ending_sector_pos = sint z\<rparr>\<rparr>"
    using d by (simp add: fat_private_at_def)
  show "m' i = m i" if "\<not> in_blocks c 1 i"
    using that c by (intro out) (auto simp: in_blocks_def fp_def unat_block_addr)
qed

text \<open>The buffers of the routines on the stack lie outside the heap table and the \<open>n\<close> blocks from block \<open>b\<close>.\<close>

definition locals_apart :: "fat_addresses \<Rightarrow> nat \<Rightarrow> nat \<Rightarrow> bool" where
  "locals_apart vars b n \<longleftrightarrow> (\<forall>a. in_range a (item_local vars) 32 \<or> in_range a (empty_item_local vars) 32 \<or> in_range a (entry_local vars) 2
     \<longrightarrow> \<not> in_range a 0x7E00 25600 \<and> \<not> in_blocks b n a)"

text \<open>The image holds a root directory of \<open>j\<close> entries before the first free one.\<close>

definition root_on_image :: "nat \<Rightarrow> (nat \<Rightarrow> u8 list) \<Rightarrow> fat_header \<Rightarrow> nat \<Rightarrow> bool" where
  "root_on_image n img h j \<longleftrightarrow> entry_byte img (512 * root_sector h) j = 0 \<and> (\<forall>i<j. entry_byte img (512 * root_sector h) i \<noteq> 0)
     \<and> 512 * root_sector h + 32 * j + 32 < min (512 * n) 2147483136
     \<and> 512 * root_sector h + root_bytes h < min (512 * n) 2147483136"

lemma reads_into_ram: "t = s\<lparr>ram := m\<rparr> \<Longrightarrow> (\<And>a. a \<notin> X \<Longrightarrow> m a = ram s a) \<Longrightarrow> reads_into X s t"
  by (simp add: reads_into_def stream_ok_def)

lemma root_directory_run:
  fixes s :: "('d, 'z) fat_machine_scheme"
  assumes mounted: "fat_mounted P n img s" and addr: "mount_addr s = block_addr c" "c < seg_blocks A"
    and heap: "kheap_repr s (A @ replicate (Suc k) FreeBlk @ B)" "FreeBlk \<notin> set A"
    and h: "h = primary_header (header (mount s))" and size: "4096 * k < root_bytes h" "root_bytes h \<le> 4096 * Suc k"
    and img: "root_on_image n img h j" and locals: "locals_apart (fat_vars s) (seg_blocks A) (Suc k)"
  defines "q \<equiv> block_addr (seg_blocks A)" and "fp \<equiv> block_addr c"
  shows "\<exists>s'. fat16_get_root_directory P MainDisk fp (fp + 64) s = Ret (0, s') \<and> kheap_repr s' (A @ Alloc k # B)
    \<and> fat_mounted P n img s' \<and> s' = s\<lparr>ram := ram s', dev := dev s', streams := streams s'\<rparr>
    \<and> mount s' = (mount s)\<lparr>root_directory :=
        \<lparr>dir_item = q, dir_total = int (length (filter (\<lambda>i. entry_byte img (512 * root_sector h) i \<noteq> 0xE5) [0..<j])),
         dir_sector_pos = int (root_sector h), dir_ending_sector_pos = int (root_sector h + root_bytes h div 512)\<rparr>\<rparr>
    \<and> bytes_at (ram s') q (root_bytes h) = stream_bytes img (512 * root_sector h) (root_bytes h)"
proof -
  let ?R = "root_sector h" and ?Z = "root_bytes h" and ?b = "seg_blocks A"
  let ?C = "length (filter (\<lambda>i. entry_byte img (512 * ?R) i \<noteq> 0xE5) [0..<j])"
  define L where "L = range_of (item_local (fat_vars s)) 32 \<union> range_of (empty_item_local (fat_vars s)) 32"
  have blocks: "?b + Suc k \<le> 25600" using kheap_repr_blocks [OF heap(1)] by simp
  have R: "uint (fat_copies h) * uint (sectors_per_fat h) + uint (reserved_sectors h) = int ?R"
    and Z: "uint (root_directory_entries h) * 32 = int ?Z"
    by (simp_all add: root_sector_def root_bytes_def)
  have bounds: "512 * ?R + 32 * j + 32 < 512 * n" "512 * ?R + 32 * j + 32 < 2147483136" "512 * ?R + ?Z < 512 * n" "512 * ?R + ?Z < 2147483136"
    using img by (simp_all add: root_on_image_def)
  from total_items_run [OF mounted bounds(1,2)] img obtain s1 where
    t1: "fat16_get_total_items_for_directory P MainDisk (of_nat ?R) s = Ret (int ?C, s1)"
    and m1: "fat_mounted P n img s1" and ri1: "reads_into L s s1"
    by (auto simp: root_on_image_def L_def)
  have L: "\<not> in_range a 0x7E00 25600 \<and> \<not> in_blocks ?b (Suc k) a" if "a \<in> L" for a
    using that locals by (auto simp: L_def locals_apart_def)
  have Lm: "L \<inter> range_of (mount_addr s) 92 = {}"
    using mounted by (auto simp: L_def fat_mounted_def disjoint_ranges_def)
  note same1 = mount_reads_into [OF ri1 Lm] reads_into_fields [OF ri1]
  have heap1: "kheap_repr s1 (A @ replicate (Suc k) FreeBlk @ B)"
    using L ri1 by (intro kheap_repr_cong [OF heap(1)] same1) (auto simp: reads_into_def)
  have uZ: "unat (word_of_int (int ?Z) :: u32) = ?Z" using bounds(4) by (simp add: unat_of_nat_u32)
  from kzalloc_run [OF heap1 heap(2), of "word_of_int (int ?Z)"] size uZ obtain s2 where
    z2: "kzalloc (word_of_int (int ?Z)) s1 = Ret (q, s2)" and heap2: "kheap_repr s2 (A @ Alloc k # B)" and e2: "s2 = s1\<lparr>ram := ram s2\<rparr>"
    and f2: "\<forall>a. \<not> in_range a q ?Z \<and> \<not> in_range a 0x7E00 25600 \<longrightarrow> ram s2 a = ram s1 a"
    unfolding q_def by auto
  have q: "q \<noteq> 0" using blocks block_addr_ne_0 [of ?b] by (simp add: q_def)
  have uq: "unat q = 16777216 + 4096 * ?b" using blocks by (simp add: q_def unat_block_addr)
  have qin: "in_range a q ?Z \<longleftrightarrow> unat q \<le> unat a \<and> unat a < unat q + ?Z" for a
    using uq blocks size by (intro in_range_forward) simp
  have ufp: "unat fp = 16777216 + 4096 * c" using addr(2) blocks by (simp add: fp_def unat_block_addr)
  have fpq: "\<not> in_range a q ?Z \<and> \<not> in_range a 0x7E00 25600" if "in_range a fp 92" for a
    using that ufp uq addr(2) blocks by (simp add: qin in_range_forward)
  have tq: "\<not> in_range a q ?Z" if "in_range a 0x7E00 25600" for a using that uq by (simp add: qin in_range_forward)
  have ri2: "reads_into (range_of 0x7E00 25600 \<union> range_of q ?Z) s1 s2"
    by (rule reads_into_ram [OF e2]) (use f2 in simp)
  have "(range_of 0x7E00 25600 \<union> range_of q ?Z) \<inter> range_of (mount_addr s1) 92 = {}"
    using fpq same1(1) addr(1) by (auto simp: fp_def)
  note same2 = mount_reads_into [OF ri2 this] reads_into_fields [OF ri2]
  let ?st = "directory_stream (mount s)"
  have "stream_ok s2 ?st" using m1 ri2 same1 by (simp add: fat_mounted_def reads_into_def)
  from seek_run [OF this, of "int (512 * ?R)"] obtain s3 where
    k3: "diskstreamer_seek ?st (int (512 * ?R)) s2 = Ret (0, s3)" and d3: "dev s3 = dev s2" "ram s3 = ram s2"
    and ri3: "reads_into {} s2 s3" and p3: "streams s3 ?st = Some \<lparr>stream_pos = int (512 * ?R), stream_disk = MainDisk\<rparr>" by blast
  have "dev s2 = dev s1" by (subst e2) simp
  then have "drive_ok P n img (dev s3)" using m1 d3(1) by (simp add: fat_mounted_def)
  from read_run [OF p3 this bounds(3,4), of q] obtain s4 where
    k4: "diskstreamer_read P ?st q (int ?Z) s3 = Ret (0, s4)" and d4: "drive_ok P n img (dev s4)"
    and m4: "ram s4 = put_bytes (ram s3) q (stream_bytes img (512 * ?R) ?Z)" and ri4: "reads_into (range_of q ?Z) s3 s4" by blast
  note ri = reads_into_trans [OF reads_into_trans [OF reads_into_trans [OF ri1 ri2] ri3] ri4]
  have "(L \<union> (range_of 0x7E00 25600 \<union> range_of q ?Z) \<union> {} \<union> range_of q ?Z) \<inter> range_of (mount_addr s) 92 = {}"
    using Lm fpq addr(1) by (auto simp: fp_def)
  note same4 = mount_reads_into [OF ri this] reads_into_fields [OF ri]
  define m5 where "m5 = store32 (store32 (store32 (store32 (ram s4) (fp + 64) q) (fp + 64 + 4) (word_of_int (int ?C)))
      (fp + 64 + 8) (word_of_int (int ?R))) (fp + 64 + 12) (word_of_int (int (?R + ?Z div 512)))"
  define s5 where "s5 = s4\<lparr>ram := m5\<rparr>"
  have c: "c < 25600" using addr(2) blocks by simp
  note words = directory_words [OF c, where m = "ram s4" and a = q and x = "word_of_int (int ?C)" and y = "word_of_int (int ?R)"
      and z = "word_of_int (int (?R + ?Z div 512))", folded fp_def, folded m5_def]
  have sector: "dk_sector_size (the_disk s) = 512" using mounted by (simp add: fat_mounted_def)
  have at: "fat_private_at (ram s) fp = mount s" "fat_private_at (ram s2) fp = mount s" "fat_private_at (ram s4) fp = mount s"
    using same1(1,2) same2(1,2) same4(1,2) addr(1) by (simp_all add: mount_def fp_def)
  have "i32 (int ?R * 512) = int (512 * ?R)" using bounds(2) by (simp add: i32_id)
  then have run: "fat16_get_root_directory P MainDisk fp (fp + 64) s = Ret (0, s5)"
    using t1 z2 q k3 k4 h [symmetric] sector
    by (simp add: fat16_get_root_directory_def outcome_simps Let_def at R Z fat16_sector_to_absolute_def poke_def
        cdiv_nonneg zdiv_int s5_def m5_def)
  have small: "sint (word_of_int (int x) :: u32) = int x" if "x < 2147483648" for x
    using that by (subst sint_small) (simp_all add: unat_of_nat_u32)
  have "?C \<le> j" using length_filter_le [of _ "[0..<j]"] by simp
  moreover have "?R + ?Z div 512 < 2147483648" using bounds(4) by linarith
  ultimately have m5: "mount s5 = (mount s)\<lparr>root_directory := \<lparr>dir_item = q, dir_total = int ?C, dir_sector_pos = int ?R,
      dir_ending_sector_pos = int (?R + ?Z div 512)\<rparr>\<rparr>" "mount_addr s5 = mount_addr s"
    using words(1) at(3) small [of ?C] small [of ?R] small [of "?R + ?Z div 512"] bounds(2,4) same4(1) addr(1)
    by (simp_all add: mount_def mount_addr_def s5_def fp_def)
  have out: "ram s5 a = ram s4 a" if "\<not> in_blocks c 1 a" for a using words(2) [OF that] by (simp add: s5_def)
  have ri5: "reads_into {a. in_blocks c 1 a} s4 s5"
    by (rule reads_into_ram [where m = m5]) (use out in \<open>simp_all add: s5_def\<close>)
  note ri6 = reads_into_trans [OF ri ri5]
  have all: "s5 = s\<lparr>ram := ram s5, dev := dev s5, streams := streams s5\<rparr>"
    and st5: "\<And>p. stream_ok s p \<Longrightarrow> stream_ok s5 p" and vars: "fat_vars s5 = fat_vars s" "the_disk s5 = the_disk s"
    using ri6 reads_into_fields [OF ri6] unfolding reads_into_def by blast+
  have "fat_mounted P n img s5"
    using mounted m5 vars st5 d4 by (simp add: fat_mounted_def s5_def)
  moreover have "kheap_repr s5 (A @ Alloc k # B)"
  proof (rule kheap_repr_cong [OF heap2])
    show "kernel_heap s5 = kernel_heap s2"
      using reads_into_fields [OF reads_into_trans [OF ri3 ri4]] by (simp add: s5_def)
    fix a assume a: "in_range a 0x7E00 25600"
    then have "\<not> in_blocks c 1 a" by (simp add: in_blocks_def in_range_forward)
    then show "ram s5 a = ram s2 a" using out tq [OF a] reads_into_trans [OF ri3 ri4] by (simp add: reads_into_def)
  qed
  moreover have "bytes_at (ram s5) q ?Z = stream_bytes img (512 * ?R) ?Z"
  proof -
    have "bytes_at (ram s5) q ?Z = bytes_at (ram s4) q ?Z"
    proof (rule bytes_at_cong)
      fix x assume "in_range x q ?Z"
      then show "ram s5 x = ram s4 x" using uq addr(2) by (intro out) (simp add: in_blocks_def qin)
    qed (use bounds(4) in simp)
    also have "\<dots> = stream_bytes img (512 * ?R) ?Z"
      using bytes_at_put_bytes_same [of "stream_bytes img (512 * ?R) ?Z" "ram s3" q] bounds(4) by (simp add: m4)
    finally show ?thesis .
  qed
  ultimately show ?thesis using run m5(1) all by blast
qed

section \<open>The header\<close>

text \<open>The header that the first 62 bytes of an image hold.\<close>

definition image_header :: "(nat \<Rightarrow> u8 list) \<Rightarrow> fat_h" where
  "image_header img = fat_h_at (put_bytes (\<lambda>_. 0) 0 (stream_bytes img 0 62)) 0"

lemma header_stored:
  fixes m :: mem and img :: "nat \<Rightarrow> u8 list"
  assumes c: "c < 25600"
  defines "fp \<equiv> block_addr c"
  defines "m' \<equiv> put_bytes m fp (stream_bytes img 0 62)"
  shows "fat_private_at m' fp = (fat_private_at m fp)\<lparr>header := image_header img\<rparr>" and "\<not> in_blocks c 1 a \<Longrightarrow> m' a = m a"
proof -
  have h: "fat_h_at m' fp = image_header img"
    unfolding image_header_def by (rule fat_h_at_reloc) (simp add: m'_def put_bytes_apply in_range_def unat_of_nat_u32)
  have b: "m' (fp + of_nat k) = m (fp + of_nat k)" if "62 \<le> k" "k < 4096" for k
    using that by (simp add: m'_def put_bytes_apply in_range_def unat_of_nat_u32)
  have d: "load32 m' (fp + of_nat k) = load32 m (fp + of_nat k)" if "62 \<le> k" "k < 92" for k
    using b [of k] b [of "k + 1"] b [of "k + 2"] b [of "k + 3"] that by (intro load32_cong) (simp_all add: ac_simps)
  show "fat_private_at m' fp = (fat_private_at m fp)\<lparr>header := image_header img\<rparr>"
    using h d [of 64] d [of 68] d [of 72] d [of 76] d [of 80] d [of 84] d [of 88]
    by (simp add: fat_private_at_def fat_directory_at_def add.assoc)
  show "m' a = m a" if "\<not> in_blocks c 1 a"
    using that in_block_part [OF c, of 0 62 a] by (auto simp: m'_def put_bytes_apply fp_def)
qed

text \<open>What is known of the root directory once it is loaded at block \<open>b\<close>.\<close>

definition root_loaded :: "(nat \<Rightarrow> u8 list) \<Rightarrow> nat \<Rightarrow> nat \<Rightarrow> mem \<Rightarrow> fat_private \<Rightarrow> bool" where
  "root_loaded img j b m p \<longleftrightarrow>
     (let h = primary_header (image_header img); r = root_sector h; z = root_bytes h in
        header p = image_header img
        \<and> root_directory p = \<lparr>dir_item = block_addr b,
             dir_total = int (length (filter (\<lambda>i. entry_byte img (512 * r) i \<noteq> 0xE5) [0..<j])),
             dir_sector_pos = int r, dir_ending_sector_pos = int (r + z div 512)\<rparr>
        \<and> bytes_at m (block_addr b) z = stream_bytes img (512 * r) z)"

lemma root_loaded_cong:
  assumes "\<And>a. in_blocks b (Suc k) a \<Longrightarrow> m' a = m a" "b + Suc k \<le> 25600" "root_bytes (primary_header (image_header img)) \<le> 4096 * Suc k"
  shows "root_loaded img j b m' p = root_loaded img j b m p"
proof -
  let ?z = "root_bytes (primary_header (image_header img))"
  have "bytes_at m' (block_addr b) ?z = bytes_at m (block_addr b) ?z"
  proof (rule bytes_at_cong)
    fix x assume "in_range x (block_addr b) ?z"
    then show "m' x = m x"
      using assms unat_block_addr [of b] by (intro assms(1)) (simp add: in_range_forward in_blocks_def)
  qed (use assms in simp)
  then show ?thesis by (simp add: root_loaded_def Let_def)
qed

lemma resolve_checks_run:
  fixes s :: "('d, 'z) fat_machine_scheme"
  assumes mounted: "fat_mounted P n img s" and addr: "mount_addr s = block_addr c" "c < seg_blocks A"
    and heap: "kheap_repr s (A @ replicate (Suc k) FreeBlk @ B)" "FreeBlk \<notin> set A"
    and stream: "streams s st = Some fresh_stream" "st \<noteq> 0" and sig: "signature (extended_header (image_header img)) = 0x29"
    and size: "62 < 512 * n" "4096 * k < root_bytes (primary_header (image_header img))" "root_bytes (primary_header (image_header img)) \<le> 4096 * Suc k"
    and img: "root_on_image n img (primary_header (image_header img)) j" and locals: "locals_apart (fat_vars s) (seg_blocks A) (Suc k)"
  shows "\<exists>s'. resolve_checks P MainDisk (block_addr c) st s = Ret (0, s') \<and> kheap_repr s' (A @ Alloc k # B)
    \<and> fat_mounted P n img s' \<and> s' = s\<lparr>ram := ram s', dev := dev s', streams := streams s'\<rparr>
    \<and> root_loaded img j (seg_blocks A) (ram s') (mount s')"
proof -
  have c: "c < 25600" using kheap_repr_blocks [OF heap(1)] addr(2) by simp
  have pos: "streams s st = Some \<lparr>stream_pos = int 0, stream_disk = MainDisk\<rparr>" and ok: "drive_ok P n img (dev s)"
    using stream mounted by (simp_all add: fresh_stream_def fat_mounted_def)
  from read_run [OF pos ok, of 62 "block_addr c"] size(1) obtain s1 where
    r1: "diskstreamer_read P st (block_addr c) 62 s = Ret (0, s1)" and d1: "drive_ok P n img (dev s1)"
    and m1: "ram s1 = put_bytes (ram s) (block_addr c) (stream_bytes img 0 62)" and ri: "reads_into (range_of (block_addr c) 62) s s1"
    by auto
  note h1 = header_stored [OF c, where m = "ram s" and img = img, folded m1]
  note same = reads_into_fields [OF ri]
  have ma: "mount_addr s1 = block_addr c" "mount s1 = (mount s)\<lparr>header := image_header img\<rparr>"
    using h1(1) same(1) addr(1) by (simp_all add: mount_def mount_addr_def)
  have "fat_mounted P n img s1"
    using mounted d1 ma addr(1) same ri by (simp add: fat_mounted_def reads_into_def)
  moreover have "kheap_repr s1 (A @ replicate (Suc k) FreeBlk @ B)"
  proof (rule kheap_repr_cong [OF heap(1) same(5)])
    fix a assume "in_range a 0x7E00 25600"
    then show "ram s1 a = ram s a" by (intro h1(2)) (simp add: in_blocks_def in_range_forward)
  qed
  ultimately obtain s2 where
    g2: "fat16_get_root_directory P MainDisk (block_addr c) (block_addr c + 64) s1 = Ret (0, s2)" and heap2: "kheap_repr s2 (A @ Alloc k # B)"
    and mt2: "fat_mounted P n img s2" and e2: "s2 = s1\<lparr>ram := ram s2, dev := dev s2, streams := streams s2\<rparr>"
    and rest: "root_loaded img j (seg_blocks A) (ram s2) (mount s2)"
    using root_directory_run [of P n img s1 c A k B "primary_header (image_header img)" j] ma addr heap size img locals same
    by (auto simp: root_loaded_def Let_def)
  have "fat_h_at (ram s1) (block_addr c) = image_header img"
    using ma by (simp add: mount_def fat_private_at_def)
  then have "resolve_checks P MainDisk (block_addr c) st s = Ret (0, s2)"
    using r1 g2 stream(2) sig by (simp add: resolve_checks_def outcome_simps)
  moreover have "s1 = s\<lparr>ram := ram s1, dev := dev s1, streams := streams s1\<rparr>" using ri by (simp add: reads_into_def)
  from three_updates [OF this e2] have "s2 = s\<lparr>ram := ram s2, dev := dev s2, streams := streams s2\<rparr>" .
  ultimately show ?thesis using heap2 mt2 rest by blast
qed

section \<open>Mounting\<close>

lemma updates_fold: "t = s\<lparr>ram := x\<rparr> \<Longrightarrow> u = t\<lparr>ram := y, streams := z\<rparr> \<Longrightarrow> v = u\<lparr>the_disk := d\<rparr>
    \<Longrightarrow> w = v\<lparr>ram := y', streams := z'\<rparr> \<Longrightarrow> w = s\<lparr>ram := ram w, the_disk := d, streams := streams w\<rparr>"
  by simp

text \<open>The state in which \<open>resolve_checks\<close> runs: private data at block \<open>b\<close>, four streams behind it.\<close>

lemma resolve_prepared:
  fixes s :: "('d, 'z) fat_machine_scheme"
  assumes heap: "kheap_repr s (A @ replicate 5 FreeBlk @ B)" "FreeBlk \<notin> set A"
    and disk: "dk_id (the_disk s) = 0" "dk_sector_size (the_disk s) = 512" and drive: "drive_ok P n img (dev s)"
    and locals: "locals_apart (fat_vars s) (seg_blocks A) 1"
  defines "b \<equiv> seg_blocks A"
  shows "\<exists>s1 s2 s4. kzalloc 92 s = Ret (block_addr b, s1) \<and> fat16_init_private MainDisk (block_addr b) s1 = Ret ((), s2)
    \<and> disk_streamer_new 0 (s2\<lparr>the_disk := (the_disk s2)\<lparr>dk_fs_private := block_addr b, dk_filesystem := fat16_fs (fat_vars s2)\<rparr>\<rparr>) = Ret (block_addr (b + 4), s4)
    \<and> the_disk s2 = the_disk s \<and> kheap_repr s4 (A @ replicate 5 (Alloc 0) @ B) \<and> fat_mounted P n img s4
    \<and> mount_addr s4 = block_addr b \<and> streams s4 (block_addr (b + 4)) = Some fresh_stream
    \<and> s4 = s\<lparr>ram := ram s4, the_disk := (the_disk s)\<lparr>dk_fs_private := block_addr b, dk_filesystem := fat16_fs (fat_vars s)\<rparr>, streams := streams s4\<rparr>"
proof -
  have heap0: "kheap_repr s (A @ FreeBlk # replicate 4 FreeBlk @ B)" using heap(1) by (simp add: eval_nat_numeral)
  from zeroed_block(4) [OF heap0 heap(2), of 92] obtain s1 where
    z: "kzalloc 92 s = Ret (block_addr b, s1)" and r1: "kheap_repr s1 (A @ Alloc 0 # replicate 4 FreeBlk @ B)" and e1: "s1 = s\<lparr>ram := ram s1\<rparr>"
    by (auto simp: b_def)
  have blocks: "b + 5 \<le> 25600" using kheap_repr_blocks [OF heap(1)] by (simp add: b_def)
  have heap1: "kheap_repr s1 ((A @ [Alloc 0]) @ FreeBlk # FreeBlk # FreeBlk # FreeBlk # B)" "FreeBlk \<notin> set (A @ [Alloc 0])" "b < seg_blocks (A @ [Alloc 0])"
    using r1 heap(2) by (simp_all add: eval_nat_numeral b_def)
  have d1: "dk_id (the_disk s1) = 0" by (subst e1) (simp add: disk(1))
  from init_private_run [OF heap1 d1] obtain s2 where
    i: "fat16_init_private MainDisk (block_addr b) s1 = Ret ((), s2)" and r2: "kheap_repr s2 (A @ Alloc 0 # Alloc 0 # Alloc 0 # Alloc 0 # FreeBlk # B)"
    and e2: "s2 = s1\<lparr>ram := ram s2, streams := (streams s1)(block_addr (b + 1) \<mapsto> fresh_stream, block_addr (b + 2) \<mapsto> fresh_stream, block_addr (b + 3) \<mapsto> fresh_stream)\<rparr>"
    and l2: "load32 (ram s2) (block_addr b + 80) = block_addr (b + 1)" "load32 (ram s2) (block_addr b + 84) = block_addr (b + 2)"
      "load32 (ram s2) (block_addr b + 88) = block_addr (b + 3)"
    by (auto simp: b_def numeral_2_eq_2 numeral_3_eq_3)
  define s3 where "s3 = s2\<lparr>the_disk := (the_disk s2)\<lparr>dk_fs_private := block_addr b, dk_filesystem := fat16_fs (fat_vars s2)\<rparr>\<rparr>"
  have heap3: "kheap_repr s3 ((A @ [Alloc 0, Alloc 0, Alloc 0, Alloc 0]) @ FreeBlk # B)" "FreeBlk \<notin> set (A @ [Alloc 0, Alloc 0, Alloc 0, Alloc 0])"
    using heap(2) by (auto intro: kheap_repr_cong [OF r2] simp: s3_def)
  have sb: "seg_blocks (A @ [Alloc 0, Alloc 0, Alloc 0, Alloc 0]) = b + 4"
    and l5: "(A @ [Alloc 0, Alloc 0, Alloc 0, Alloc 0]) @ Alloc 0 # B = A @ replicate 5 (Alloc 0) @ B"
    by (simp_all add: b_def eval_nat_numeral)
  from streamer_new_run [OF heap3, unfolded sb l5] obtain s4 where
    n4: "disk_streamer_new 0 s3 = Ret (block_addr (b + 4), s4)" and r4: "kheap_repr s4 (A @ replicate 5 (Alloc 0) @ B)"
    and e4: "s4 = s3\<lparr>ram := ram s4, streams := (streams s3)(block_addr (b + 4) \<mapsto> fresh_stream)\<rparr>"
    and f4: "\<forall>a. \<not> in_blocks (b + 4) 1 a \<and> \<not> in_range a 0x7E00 25600 \<longrightarrow> ram s4 a = ram s3 a"
    by blast
  have td: "the_disk s2 = the_disk s" "fat_vars s2 = fat_vars s" "dev s2 = dev s"
    by (subst e2, simp, subst e1, simp)+
  have e: "s4 = s\<lparr>ram := ram s4, the_disk := (the_disk s)\<lparr>dk_fs_private := block_addr b, dk_filesystem := fat16_fs (fat_vars s)\<rparr>, streams := streams s4\<rparr>"
    by (rule updates_fold [OF e1 e2 _ e4]) (simp add: s3_def td)
  have fields: "the_disk s4 = (the_disk s)\<lparr>dk_fs_private := block_addr b, dk_filesystem := fat16_fs (fat_vars s)\<rparr>" "fat_vars s4 = fat_vars s" "dev s4 = dev s"
    by (subst e, simp)+
  have st4: "streams s4 = (streams s1)(block_addr (b + 1) \<mapsto> fresh_stream, block_addr (b + 2) \<mapsto> fresh_stream, block_addr (b + 3) \<mapsto> fresh_stream, block_addr (b + 4) \<mapsto> fresh_stream)"
    by (subst e4, simp add: s3_def, subst e2, simp)
  have ub: "unat (block_addr b) = 16777216 + 4096 * b" using blocks by (simp add: unat_block_addr)
  have keep: "load32 (ram s4) (block_addr b + of_nat k) = load32 (ram s2) (block_addr b + of_nat k)" if k: "k \<le> 88" for k
  proof (rule load32_range)
    fix a assume "in_range a (block_addr b + of_nat k) 4"
    then have "in_blocks b 1 a" using in_block_part [of b k 4 a] blocks k by simp
    then show "ram s4 a = ram s2 a" using f4 [rule_format, of a] by (simp add: s3_def in_blocks_def in_range_forward)
  qed
  have ma: "mount_addr s4 = block_addr b" using fields(1) by (simp add: mount_addr_def)
  have ms: "cluster_read_stream (mount s4) = block_addr (b + 1)" "fat_read_stream (mount s4) = block_addr (b + 2)" "directory_stream (mount s4) = block_addr (b + 3)"
    using keep [of 80] keep [of 84] keep [of 88] l2 by (simp_all add: mount_def ma fat_private_at_def)
  have "stream_ok s4 (block_addr (b + i))" if "1 \<le> i" "i \<le> 4" for i
    using that by (auto simp: stream_ok_def st4 fresh_stream_def eval_nat_numeral le_Suc_eq)
  from this [of 1] this [of 2] this [of 3] have so: "stream_ok s4 (block_addr (b + 1))" "stream_ok s4 (block_addr (b + 2))" "stream_ok s4 (block_addr (b + 3))"
    by simp_all
  have "\<not> in_range a (block_addr b) 92" if "\<not> in_blocks b 1 a" for a
    using that in_block_part [of b 0 92 a] blocks by auto
  then have "disjoint_ranges (item_local (fat_vars s)) 32 (block_addr b) 92" "disjoint_ranges (empty_item_local (fat_vars s)) 32 (block_addr b) 92"
    "disjoint_ranges (entry_local (fat_vars s)) 2 (block_addr b) 92"
    using locals by (auto simp: locals_apart_def disjoint_ranges_def b_def)
  then have "fat_mounted P n img s4"
    using so drive disk(2) block_addr_ne_0 [of "b + 2"] blocks by (simp add: fat_mounted_def ms ma fields)
  moreover have "streams s4 (block_addr (b + 4)) = Some fresh_stream" by (simp add: st4)
  ultimately show ?thesis using z i n4 [unfolded s3_def] td r4 ma e by blast
qed

text \<open>
  C6: mounting a FAT16 volume. On a drive whose first 62 bytes are a header with the signature
  0x29 and whose root directory region holds \<open>j\<close> entries before the first free one, \<open>fat16_resolve\<close>
  answers 0. The private data then holds the header of the image, three open streams and the root
  directory: its position, its entry count without the deleted entries, the bytes of the region.
  The disk points to the private data and to the file system. The heap gains four blocks (private
  data and streams) and the blocks of the directory; the block of the temporary stream is free again.
\<close>

theorem fat16_resolve_mounts:
  fixes s :: "('d, 'z) fat_machine_scheme"
  assumes heap: "kheap_repr s (A @ replicate (6 + k) FreeBlk @ B)" "FreeBlk \<notin> set A"
    and disk: "dk_id (the_disk s) = 0" "dk_sector_size (the_disk s) = 512" and drive: "drive_ok P n img (dev s)" "62 < 512 * n"
    and sig: "signature (extended_header (image_header img)) = 0x29"
    and size: "4096 * k < root_bytes (primary_header (image_header img))" "root_bytes (primary_header (image_header img)) \<le> 4096 * Suc k"
    and img: "root_on_image n img (primary_header (image_header img)) j" and locals: "locals_apart (fat_vars s) (seg_blocks A) (6 + k)"
  shows "\<exists>s'. fat16_resolve P MainDisk s = Ret (0, s')
    \<and> kheap_repr s' (A @ replicate 4 (Alloc 0) @ FreeBlk # Alloc k # B)
    \<and> fat_mounted P n img s' \<and> mount_addr s' = block_addr (seg_blocks A)
    \<and> dk_filesystem (the_disk s') = fat16_fs (fat_vars s)
    \<and> root_loaded img j (seg_blocks A + 5) (ram s') (mount s')"
proof -
  let ?b = "seg_blocks A" and ?D = "replicate 5 (Alloc 0)"
  have apart: "locals_apart (fat_vars s) ?b 1" "locals_apart (fat_vars s) (?b + 5) (Suc k)"
    using locals by (auto simp: locals_apart_def in_blocks_def)
  have "kheap_repr s (A @ replicate 5 FreeBlk @ replicate (Suc k) FreeBlk @ B)"
    using heap(1) replicate_add [of 5 "Suc k" FreeBlk] by simp
  from resolve_prepared [OF this heap(2) disk drive(1) apart(1)] obtain s1 s2 s4 where
    run4: "kzalloc 92 s = Ret (block_addr ?b, s1)" "fat16_init_private MainDisk (block_addr ?b) s1 = Ret ((), s2)" "the_disk s2 = the_disk s"
      "disk_streamer_new 0 (s2\<lparr>the_disk := (the_disk s2)\<lparr>dk_fs_private := block_addr ?b, dk_filesystem := fat16_fs (fat_vars s2)\<rparr>\<rparr>) = Ret (block_addr (?b + 4), s4)"
    and heap4: "kheap_repr s4 (A @ ?D @ replicate (Suc k) FreeBlk @ B)" and mt4: "fat_mounted P n img s4" "mount_addr s4 = block_addr ?b"
    and st4: "streams s4 (block_addr (?b + 4)) = Some fresh_stream"
    and e4: "s4 = s\<lparr>ram := ram s4, the_disk := (the_disk s)\<lparr>dk_fs_private := block_addr ?b, dk_filesystem := fat16_fs (fat_vars s)\<rparr>, streams := streams s4\<rparr>"
    by blast
  have vars4: "fat_vars s4 = fat_vars s" "dk_filesystem (the_disk s4) = fat16_fs (fat_vars s)" by (subst e4, simp)+
  have blocks: "?b + 6 + k \<le> 25600" using kheap_repr_blocks [OF heap(1)] by simp
  then have st: "block_addr (?b + 4) \<noteq> 0" by (intro block_addr_ne_0) simp
  have A5: "seg_blocks (A @ ?D) = ?b + 5" "FreeBlk \<notin> set (A @ ?D)" using heap(2) by (simp_all add: eval_nat_numeral)
  have heap4: "kheap_repr s4 ((A @ ?D) @ replicate (Suc k) FreeBlk @ B)" using heap4 by simp
  have "?b < seg_blocks (A @ ?D)" "locals_apart (fat_vars s4) (seg_blocks (A @ ?D)) (Suc k)"
    using apart(2) by (simp_all only: vars4 A5(1))
  from resolve_checks_run [OF mt4 this(1) heap4 A5(2) st4 st sig drive(2) size img this(2)] obtain s5 where
    r5: "resolve_checks P MainDisk (block_addr ?b) (block_addr (?b + 4)) s4 = Ret (0, s5)" and heap5: "kheap_repr s5 ((A @ ?D) @ Alloc k # B)"
    and mt5: "fat_mounted P n img s5" and e5: "s5 = s4\<lparr>ram := ram s5, dev := dev s5, streams := streams s5\<rparr>"
    and root5: "root_loaded img j (?b + 5) (ram s5) (mount s5)"
    unfolding A5(1) by blast
  have l4: "(A @ ?D) @ Alloc k # B = (A @ replicate 4 (Alloc 0)) @ Alloc 0 # Alloc k # B" "seg_blocks (A @ replicate 4 (Alloc 0)) = ?b + 4"
    by (simp_all add: eval_nat_numeral)
  from kfree_run [OF heap5 [unfolded l4(1)], unfolded l4(2)] obtain s6 where
    f6: "kfree (block_addr (?b + 4)) s5 = Ret ((), s6)" and heap6: "kheap_repr s6 (A @ replicate 4 (Alloc 0) @ FreeBlk # Alloc k # B)"
    and e6: "s6 = s5\<lparr>ram := ram s6\<rparr>" and m6: "\<forall>a. \<not> in_range a 0x7E00 25600 \<longrightarrow> ram s6 a = ram s5 a"
    by auto
  have ri6: "reads_into (range_of 0x7E00 25600) s5 s6" by (rule reads_into_ram [OF e6]) (use m6 in simp)
  have td: "the_disk s5 = the_disk s4" "mount_addr s5 = block_addr ?b" using mt4(2) by (subst e5, simp add: mount_addr_def)+
  have out: "ram s6 a = ram s5 a" if "in_blocks ?b (6 + k) a" for a
    using m6 that by (auto simp: in_blocks_def in_range_forward)
  have clear: "range_of 0x7E00 25600 \<inter> range_of (mount_addr s5) 92 = {}"
    using blocks in_block_part [of ?b 0 92] by (auto simp: td in_range_forward in_blocks_def unat_block_addr)
  note same6 = mount_reads_into [OF ri6 clear] reads_into_fields [OF ri6]
  have "dev s6 = dev s5" by (subst e6) simp
  with mt5 have "drive_ok P n img (dev s6)" by (simp add: fat_mounted_def)
  with fat_mounted_reads_into [OF mt5 ri6 clear] have "fat_mounted P n img s6" by blast
  moreover have "root_loaded img j (?b + 5) (ram s6) (mount s6)"
    using root_loaded_cong [OF _ _ size(2), of "?b + 5" "ram s6" "ram s5"] root5 out blocks by (simp add: same6 in_blocks_def)
  moreover have "fat16_resolve P MainDisk s = Ret (0, s6)"
    using run4 r5 f6 st disk(1) by (simp add: fat16_resolve_def outcome_simps diskstreamer_close_def)
  ultimately show ?thesis using heap6 same6 td vars4 by auto
qed

text \<open>A volume of one table sector with two files and a deleted one in its root directory.\<close>

definition boot_image :: "nat \<Rightarrow> u8 list" where
  "boot_image k =
     (if k = 0 then (replicate 512 0)[13 := 1, 14 := 1, 16 := 1, 17 := 16, 22 := 1, 38 := 0x29]
      else if k = 2 then dir_entry 0x41 @ dir_entry 0xE5 @ dir_entry 0x42 @ replicate 416 0
      else replicate 512 0)"

definition boot_machine :: "simple_drive fat_machine" where
  "boot_machine = fat_machine_0\<lparr>ram := (\<lambda>_. 0), streams := (\<lambda>_. None)\<rparr>"

lemma boot_header:
  "signature (extended_header (image_header boot_image)) = 0x29"
  "root_sector (primary_header (image_header boot_image)) = 2"
  "root_bytes (primary_header (image_header boot_image)) = 512"
proof -
  have b: "put_bytes (\<lambda>_. 0) 0 (stream_bytes boot_image 0 62) (of_nat k) = boot_image 0 ! k" if "k < 62" for k
    using that by (simp add: put_bytes_apply in_range_def unat_of_nat_u32 nth_stream_bytes)
  note bs = b [of 14] b [of 15] b [of 16] b [of 17] b [of 18] b [of 22] b [of 23] b [of 38]
  show "signature (extended_header (image_header boot_image)) = 0x29"
    "root_sector (primary_header (image_header boot_image)) = 2"
    "root_bytes (primary_header (image_header boot_image)) = 512"
    using bs by (simp_all add: image_header_def fat_h_at_def root_sector_def root_bytes_def load16_def boot_image_def nth_list_update)
qed

lemma boot_root: "root_on_image 65536 boot_image (primary_header (image_header boot_image)) 3"
proof -
  have e: "entry_byte boot_image (512 * 2) 0 = 0x41" "entry_byte boot_image (512 * 2) 1 = 0xE5"
    "entry_byte boot_image (512 * 2) 2 = 0x42" "entry_byte boot_image (512 * 2) 3 = 0"
    by (simp_all add: entry_byte_image [where k = 2] boot_image_def dir_entry_def nth_append)
  have "entry_byte boot_image (512 * 2) i \<noteq> 0" if "i < 3" for i
  proof -
    from that consider "i = 0" | "i = 1" | "i = 2" by linarith
    then show ?thesis using e by cases simp_all
  qed
  then show ?thesis using e by (simp add: root_on_image_def boot_header)
qed

theorem fat16_resolve_mounts_witness:
  "\<exists>s'. fat16_resolve (simple_ports boot_image) MainDisk boot_machine = Ret (0, s')
    \<and> fat_mounted (simple_ports boot_image) 65536 boot_image s' \<and> dir_sector_pos (root_directory (mount s')) = 2"
proof -
  have "kheap_repr boot_machine (replicate 25600 FreeBlk)"
    by (rule kheap_repr_cong [OF zero_machine_repr]) (simp_all add: boot_machine_def fat_machine_0_def zero_machine_def)
  moreover have "(25600 :: nat) = (6 + 0) + 25594" by simp
  ultimately have heap: "kheap_repr boot_machine ([] @ replicate (6 + 0) FreeBlk @ replicate 25594 FreeBlk)"
    by (simp only: replicate_add append_Nil)
  have drive: "drive_ok (simple_ports boot_image) 65536 boot_image (dev boot_machine)"
    unfolding drive_ok_def
    by (intro exI conjI, rule simple_drive_ata) (simp_all add: boot_image_def dir_entry_def boot_machine_def fat_machine_0_def)
  have locals: "locals_apart (fat_vars boot_machine) (seg_blocks []) (6 + 0)"
    by (auto simp: locals_apart_def boot_machine_def fat_machine_0_def in_range_forward in_blocks_def)
  from fat16_resolve_mounts [OF heap _ _ _ drive _ boot_header(1) _ _ boot_root locals] show ?thesis
    by (simp add: boot_header boot_machine_def fat_machine_0_def root_loaded_def Let_def) auto
qed

end
