(* ===== verification/FatOpen.thy ===== *)
theory FatOpen imports FatMount
begin

text \<open>
  Opening a file of the root directory, \<open>fat16_open\<close> of \<open>src/src/fs/fat/fat16.c\<close>: the search through
  the entries of the directory, the copy of the entry, and the open file.
\<close>

section \<open>Entries\<close>

text \<open>A directory entry as its 32 bytes: the name that a search compares, and the struct.\<close>

definition entry_name :: "u8 list \<Rightarrow> u8 list" where
  "entry_name e = (let n = unpadded (take 8 e); x = unpadded (take 3 (drop 8 e)) in if x = [] then n else n @ 0x2E # x)"

definition entry_item :: "u8 list \<Rightarrow> fat_directory_item" where
  "entry_item e = fat_directory_item_at (put_bytes (\<lambda>_. 0) 0 e) 0"

lemma entry_name_props: "0 \<notin> set (entry_name e)" "length (entry_name e) < 108"
proof -
  have "length (unpadded (take 8 e)) \<le> 8" "length (unpadded (take 3 (drop 8 e))) \<le> 3"
    using unpadded_props(2) [of "take 8 e"] unpadded_props(2) [of "take 3 (drop 8 e)"] by simp_all
  then show "length (entry_name e) < 108" by (simp add: entry_name_def Let_def)
  show "0 \<notin> set (entry_name e)" by (simp add: entry_name_def Let_def unpadded_props(1))
qed

lemma item_reloc:
  assumes eq: "\<And>k. k < 32 \<Longrightarrow> m' (p' + of_nat k) = m (p + of_nat k)"
  shows "fat_directory_item_at m' p' = fat_directory_item_at m p"
proof -
  have bs: "bytes_at m' (p' + of_nat k) j = bytes_at m (p + of_nat k) j" if "k + j \<le> 32" for k j
    unfolding bytes_at_def using eq [of "k + i" for i] that by (simp add: add.assoc)
  have w: "load16 m' (p' + of_nat k) = load16 m (p + of_nat k)" if "Suc k < 32" for k
    using eq [of k] eq [of "k + 1"] that by (simp add: load16_def add.assoc add.commute [of 1])
  have d: "load32 m' (p' + of_nat 28) = load32 m (p + of_nat 28)"
    using eq [of 28] eq [of 29] eq [of 30] eq [of 31] by (simp add: load32_def ac_simps)
  show ?thesis
    unfolding fat_directory_item_at_def
    using bs [of 0 8] bs [of 8 3] eq [of 11] eq [of 12] eq [of 13] w [of 14] w [of 16] w [of 18] w [of 20] w [of 22] w [of 24] w [of 26] d
    by simp
qed

lemma item_of_bytes: "fat_directory_item_at m p = entry_item (bytes_at m p 32)"
  unfolding entry_item_def by (rule item_reloc) (simp add: put_bytes_apply in_range_def unat_of_nat_u32)

section \<open>What a search sees\<close>

text \<open>The directory \<open>d\<close> at \<open>dir\<close> with the entries \<open>es\<close>, and the wanted name \<open>xs\<close>.\<close>

definition searching :: "mem \<Rightarrow> u32 \<Rightarrow> u32 \<Rightarrow> fat_directory \<Rightarrow> u8 list list \<Rightarrow> u8 list \<Rightarrow> bool" where
  "searching m dir name d es xs \<longleftrightarrow> fat_directory_at m dir = d \<and> dir_total d = int (length es) \<and> 32 * length es < 2147483648
     \<and> (\<forall>i<length es. bytes_at m (dir_item d + 32 * of_nat i) 32 = es ! i) \<and> cstr m name xs \<and> length xs < 108"

definition view_bytes :: "u32 \<Rightarrow> u32 \<Rightarrow> fat_directory \<Rightarrow> u8 list list \<Rightarrow> u8 list \<Rightarrow> u32 set" where
  "view_bytes dir name d es xs = range_of dir 16 \<union> range_of (dir_item d) (32 * length es) \<union> range_of name (Suc (length xs))"

lemma view_entry:
  assumes "i < length es" "32 * length es < 2147483648" "in_range a (dir_item d + 32 * of_nat i) 32"
  shows "a \<in> view_bytes dir name d es xs"
proof -
  have "in_range a (dir_item d) (32 * length es)"
    by (rule in_range_part [of "32 * i" 32]) (use assms in auto)
  then show ?thesis by (simp add: view_bytes_def)
qed

lemma searching_cong:
  assumes "searching m dir name d es xs" and eq: "\<And>a. a \<in> view_bytes dir name d es xs \<Longrightarrow> m' a = m a"
  shows "searching m' dir name d es xs"
proof -
  have "load32 m' (dir + of_nat k) = load32 m (dir + of_nat k)" if "k \<le> 12" for k
    by (rule load32_range, rule eq, simp add: view_bytes_def, rule disjI1, rule in_range_part [of k 4 16]) (use that in auto)
  from this [of 0] this [of 4] this [of 8] this [of 12] have "fat_directory_at m' dir = fat_directory_at m dir"
    by (simp add: fat_directory_at_def)
  moreover have "bytes_at m' (dir_item d + 32 * of_nat i) 32 = bytes_at m (dir_item d + 32 * of_nat i) 32" if "i < length es" for i
    by (rule bytes_at_cong, rule eq, rule view_entry [OF that]) (use assms(1) in \<open>simp_all add: searching_def\<close>)
  moreover have "cstr m' name xs = cstr m name xs"
    by (rule cstr_cong, rule eq) (use assms(1) in \<open>simp_all add: view_bytes_def searching_def\<close>)
  ultimately show ?thesis using assms(1) by (simp add: searching_def)
qed

definition same_name :: "u8 list \<Rightarrow> u8 list \<Rightarrow> bool" where
  "same_name e xs \<longleftrightarrow> map tolower (entry_name e) = map tolower xs"

text \<open>One round builds the name of the entry in the buffer and compares.\<close>

lemma round_name:
  assumes se: "searching m dir name d es xs" and i: "i < length es" and clear: "view_bytes dir name d es xs \<inter> range_of out 108 = {}"
  shows "\<exists>m'. fat16_get_full_relative_filename m (dir_item d + 32 * of_nat i) out 108 = Some m'
    \<and> (strncmp_insensitive m' out name 108 = 0 \<longleftrightarrow> same_name (es ! i) xs)
    \<and> (\<forall>a. \<not> in_range a out 108 \<longrightarrow> m' a = m a) \<and> searching m' dir name d es xs"
proof -
  let ?p = "dir_item d + 32 * of_nat i"
  have e: "bytes_at m ?p 32 = es ! i" and len: "32 * length es < 2147483648" "length xs < 108" using se i by (simp_all add: searching_def)
  have "disjoint_ranges out 108 ?p 11"
    unfolding disjoint_ranges_def
  proof (intro allI notI)
    fix a assume a: "in_range a out 108 \<and> in_range a ?p 11"
    then have "in_range a ?p 32" using in_range_mono [of a ?p 11 32] by simp
    then have "a \<in> view_bytes dir name d es xs" by (rule view_entry [OF i len(1)])
    with a clear show False by auto
  qed
  note run = full_filename_run [OF this, of m]
  have "take 8 (es ! i) = bytes_at m ?p 8" "take 3 (drop 8 (es ! i)) = bytes_at m (?p + 8) 3"
    using bytes_at_slice [of 0 8 32 m ?p] bytes_at_slice [of 8 3 32 m ?p] by (simp_all add: e)
  then have nm: "(if unpadded (bytes_at m (?p + 8) 3) = [] then unpadded (bytes_at m ?p 8) @ [0]
      else unpadded (bytes_at m ?p 8) @ 0x2E # unpadded (bytes_at m (?p + 8) 3) @ [0]) = entry_name (es ! i) @ [0]"
    by (simp add: entry_name_def Let_def)
  define m' where "m' = put_bytes (memset m out 0 108) out (entry_name (es ! i) @ [0])"
  note pr = entry_name_props [of "es ! i"]
  have frame: "m' a = m a" if "\<not> in_range a out 108" for a
  proof -
    have "\<not> in_range a out (length (entry_name (es ! i) @ [0]))" using that pr in_range_mono [of a out "length (entry_name (es ! i) @ [0])" 108] by auto
    then show ?thesis using that pr unfolding m'_def by (subst put_bytes_outside) (simp_all add: memset_apply)
  qed
  have se': "searching m' dir name d es xs"
    by (rule searching_cong [OF se], rule frame) (use clear in auto)
  have "cstr m' out (entry_name (es ! i))" using cstr_put_bytes [OF pr(1)] pr(2) by (simp add: m'_def)
  moreover have "cstr m' name xs" using se' by (simp add: searching_def)
  ultimately have "strncmp_insensitive m' out name 108 = 0 \<longleftrightarrow> same_name (es ! i) xs"
    using strncmp_insensitive_eq [of m' out "entry_name (es ! i)" name xs 108] pr(2) len(2) by (simp add: same_name_def)
  then show ?thesis using run frame se' unfolding nm m'_def by blast
qed

section \<open>The search\<close>

text \<open>Entries with other names are passed over; only the buffer of the name changes.\<close>

lemma find_skip:
  fixes s :: "('d, 'z) fat_machine_scheme"
  assumes se: "searching (ram s) dir name d es xs" and clear: "view_bytes dir name d es xs \<inter> range_of (tmp_filename (fat_vars s)) 108 = {}"
    and "i \<le> k" "k \<le> length es" and "\<And>j. i \<le> j \<Longrightarrow> j < k \<Longrightarrow> \<not> same_name (es ! j) xs"
  shows "\<exists>m. find_item P disk dir name (int i) f s = find_item P disk dir name (int k) f (s\<lparr>ram := m\<rparr>)
    \<and> (\<forall>a. \<not> in_range a (tmp_filename (fat_vars s)) 108 \<longrightarrow> m a = ram s a) \<and> searching m dir name d es xs"
  using assms
proof (induction "k - i" arbitrary: s i)
  case 0
  then have "i = k" by simp
  then show ?case using "0.prems"(1) by (intro exI [of _ "ram s"]) simp
next
  case (Suc n)
  let ?T = "tmp_filename (fat_vars s)"
  have i: "i < length es" "i < k" using Suc.hyps(2) Suc.prems(4) by simp_all
  from round_name [OF Suc.prems(1) i(1) Suc.prems(2)] obtain m1 where
    m1: "fat16_get_full_relative_filename (ram s) (dir_item d + 32 * of_nat i) ?T 108 = Some m1"
      "strncmp_insensitive m1 ?T name 108 \<noteq> 0" and f1: "\<forall>a. \<not> in_range a ?T 108 \<longrightarrow> m1 a = ram s a" and se1: "searching m1 dir name d es xs"
    using Suc.prems(5) [of i] i by auto
  have d: "fat_directory_at (ram s) dir = d" "dir_total d = int (length es)" "32 * length es < 2147483648"
    using Suc.prems(1) by (simp_all add: searching_def)
  have "i32 (int i + 1) = int (Suc i)" using i(1) d(3) by (subst i32_id) simp_all
  then have step: "find_item P disk dir name (int i) f s = find_item P disk dir name (int (Suc i)) f (s\<lparr>ram := m1\<rparr>)"
    using i(1) m1 d(2) by (subst find_item.simps) (simp add: d(1))
  have "n = k - Suc i" using Suc.hyps(2) by simp
  from Suc.hyps(1) [OF this, of "s\<lparr>ram := m1\<rparr>"] obtain m where
    "find_item P disk dir name (int (Suc i)) f (s\<lparr>ram := m1\<rparr>) = find_item P disk dir name (int k) f (s\<lparr>ram := m\<rparr>)"
    "\<forall>a. \<not> in_range a ?T 108 \<longrightarrow> m a = m1 a" "searching m dir name d es xs"
    using se1 Suc.prems(2,4,5) i by auto
  then show ?case using step f1 by auto
qed

text \<open>The copy of a file's entry takes two blocks.\<close>

lemma new_file_item_run:
  fixes s :: "('d, 'z) fat_machine_scheme"
  assumes heap: "kheap_repr s (A @ FreeBlk # FreeBlk # B)" "FreeBlk \<notin> set A"
    and file_attr: "attribute (fat_directory_item_at (ram s) item) AND 0x10 = 0"
    and item: "\<And>a. in_range a item 32 \<Longrightarrow> \<not> in_range a 0x7E00 25600 \<and> \<not> in_blocks (seg_blocks A) 2 a"
  defines "b \<equiv> seg_blocks A"
  shows "\<exists>s'. fat16_new_fat_item_for_directory_item P disk item s = Ret (block_addr b, s')
    \<and> kheap_repr s' (A @ Alloc 0 # Alloc 0 # B) \<and> s' = s\<lparr>ram := ram s'\<rparr>
    \<and> fat_item_at (ram s') (block_addr b) = \<lparr>item_ptr = block_addr (b + 1), item_type = 1\<rparr>
    \<and> bytes_at (ram s') (block_addr (b + 1)) 32 = bytes_at (ram s) item 32
    \<and> (\<forall>a. \<not> in_blocks b 2 a \<and> \<not> in_range a 0x7E00 25600 \<longrightarrow> ram s' a = ram s a)"
proof -
  let ?p = "block_addr b" and ?q = "block_addr (b + 1)"
  have blocks: "b + 2 \<le> 25600" using kheap_repr_blocks [OF heap(1)] by (simp add: b_def)
  have pq: "?p \<noteq> 0" "?q \<noteq> 0" using blocks block_addr_ne_0 [of b] block_addr_ne_0 [of "b + 1"] by simp_all
  have up: "unat ?p = 16777216 + 4096 * b" "unat (?p + 4) = 16777216 + 4096 * b + 4" "unat ?q = 16777216 + 4096 * b + 4096"
    using blocks unat_forward [of ?p 4] unat_block_addr [of b] unat_block_addr [of "b + 1"] by simp_all
  have inb: "in_range a ?p 8 \<Longrightarrow> in_blocks b 2 a" "in_range a (?p + 4) 4 \<Longrightarrow> in_blocks b 2 a" "in_range a ?p 4 \<Longrightarrow> in_blocks b 2 a"
    "in_range a ?q 32 \<Longrightarrow> in_blocks b 2 a" for a
    using up blocks by (simp_all add: in_range_forward in_blocks_def)
  from zeroed_block(4) [OF heap, of 8] obtain s1 where
    z1: "kzalloc 8 s = Ret (?p, s1)" and r1: "kheap_repr s1 (A @ Alloc 0 # FreeBlk # B)" and e1: "s1 = s\<lparr>ram := ram s1\<rparr>"
    and f1: "\<forall>a. \<not> in_range a ?p 4096 \<and> \<not> in_range a 0x7E00 25600 \<longrightarrow> ram s1 a = ram s a" by (auto simp: b_def)
  have k1: "ram s1 a = ram s a" if "\<not> in_blocks b 2 a" "\<not> in_range a 0x7E00 25600" for a
    using f1 that in_block [of b a] blocks by (auto simp: in_blocks_def)
  define s2 where "s2 = s1\<lparr>ram := store32 (ram s1) (?p + 4) 1\<rparr>"
  have tab: "in_range a 0x7E00 25600 \<Longrightarrow> \<not> in_blocks b 2 a" for a by (simp add: in_range_forward in_blocks_def)
  have r2: "kheap_repr s2 ((A @ [Alloc 0]) @ FreeBlk # B)"
  proof (rule kheap_repr_cong)
    show "kheap_repr s1 ((A @ [Alloc 0]) @ FreeBlk # B)" using r1 by simp
    fix a assume "in_range a 0x7E00 25600"
    then have "\<not> in_range a (?p + 4) 4" using tab inb(2) by blast
    then show "ram s2 a = ram s1 a" by (simp add: s2_def store32_outside)
  qed (simp add: s2_def)
  have A2: "FreeBlk \<notin> set (A @ [Alloc 0])" "seg_blocks (A @ [Alloc 0]) = b + 1" using heap(2) by (simp_all add: b_def)
  from zeroed_block(4) [OF r2 A2(1), of 32, unfolded A2(2)] obtain s3 where
    z3: "kzalloc 32 s2 = Ret (?q, s3)" and r3: "kheap_repr s3 (A @ Alloc 0 # Alloc 0 # B)" and e3: "s3 = s2\<lparr>ram := ram s3\<rparr>"
    and f3: "\<forall>a. \<not> in_range a ?q 4096 \<and> \<not> in_range a 0x7E00 25600 \<longrightarrow> ram s3 a = ram s2 a" by auto
  have k3: "ram s3 a = ram s a" if "\<not> in_blocks b 2 a" "\<not> in_range a 0x7E00 25600" for a
  proof -
    have "\<not> in_range a ?q 4096" using that(1) in_block [of "b + 1" a] blocks by (auto simp: in_blocks_def)
    moreover have "\<not> in_range a (?p + 4) 4" using that(1) inb(2) by blast
    ultimately show ?thesis using f3 that(2) k1 [OF that] by (simp add: s2_def store32_outside)
  qed
  define m4 where "m4 = memcpy (ram s3) ?q item 32"
  define s' where "s' = s3\<lparr>ram := store32 m4 ?p ?q\<rparr>"
  have attr1: "fat_directory_item_at (ram s1) item = fat_directory_item_at (ram s) item"
  proof (rule item_reloc)
    fix k :: nat assume "k < 32"
    then show "ram s1 (item + of_nat k) = ram s (item + of_nat k)"
      using item [of "item + of_nat k"] by (intro k1) (simp_all add: b_def)
  qed
  have run: "fat16_new_fat_item_for_directory_item P disk item s = Ret (?p, s')"
    using z1 z3 pq file_attr
    by (simp add: fat16_new_fat_item_for_directory_item_def fat_16_clone_directory_item_def outcome_simps poke_def attr1
        s2_def [symmetric] s'_def m4_def)
  have src: "bytes_at (ram s3) item 32 = bytes_at (ram s) item 32"
    using item by (intro bytes_at_cong) (simp_all add: k3 b_def)
  have disj: "disjoint_ranges ?q 32 item 32" using inb(4) item by (auto simp: disjoint_ranges_def b_def)
  have cp: "bytes_at m4 ?q 32 = bytes_at (ram s) item 32"
    using memcpy_loop_bytes [of 32 ?q item "ram s3"] disj src by (simp add: m4_def memcpy_def)
  have m4o: "m4 a = ram s3 a" if "\<not> in_range a ?q 32" for a
    using memcpy_loop_outside [of 32 a ?q "ram s3" item] that by (simp add: m4_def memcpy_def)
  have out: "ram s' a = ram s3 a" if "\<not> in_blocks b 2 a" for a
  proof -
    have "\<not> in_range a ?p 4" "\<not> in_range a ?q 32" using that inb(3,4) by blast+
    then show ?thesis by (simp add: s'_def store32_outside m4o)
  qed
  have "kheap_repr s' (A @ Alloc 0 # Alloc 0 # B)"
    by (rule kheap_repr_cong [OF r3]) (use tab out in \<open>auto simp: s'_def\<close>)
  moreover have "s' = s\<lparr>ram := ram s'\<rparr>" unfolding s'_def by (subst e3, simp add: s2_def, subst e1, simp)
  moreover have "fat_item_at (ram s') ?p = \<lparr>item_ptr = ?q, item_type = 1\<rparr>"
  proof -
    have "load32 m4 (?p + 4) = load32 (ram s2) (?p + 4)"
      using up blocks f3 m4o by (intro load32_range) (auto simp: in_range_forward)
    also have "\<dots> = 1" by (simp add: s2_def load32_store32_same)
    finally have "load32 (ram s') (?p + 4) = 1" using up by (simp add: s'_def load32_store32_other)
    then show ?thesis by (simp add: fat_item_at_def s'_def load32_store32_same)
  qed
  moreover have "bytes_at (ram s') ?q 32 = bytes_at (ram s) item 32"
    unfolding cp [symmetric] s'_def using up blocks by (intro bytes_at_cong) (auto simp: in_range_forward store32_outside)
  ultimately show ?thesis using run k3 out by (intro exI [of _ s']) simp
qed

text \<open>What a search may change: the buffer, the heap table and \<open>n\<close> new blocks from block \<open>b\<close>.\<close>

definition search_bytes :: "fat_addresses \<Rightarrow> nat \<Rightarrow> nat \<Rightarrow> u32 set" where
  "search_bytes vars b n = range_of (tmp_filename vars) 108 \<union> range_of 0x7E00 25600 \<union> {a. in_blocks b n a}"

definition buffer_apart :: "fat_addresses \<Rightarrow> nat \<Rightarrow> nat \<Rightarrow> bool" where
  "buffer_apart vars b n \<longleftrightarrow> (\<forall>a. in_range a (tmp_filename vars) 108 \<longrightarrow> \<not> in_range a 0x7E00 25600 \<and> \<not> in_blocks b n a)"

lemma find_file_run:
  fixes s :: "('d, 'z) fat_machine_scheme"
  assumes se: "searching (ram s) dir name d es xs" and heap: "kheap_repr s (A @ FreeBlk # FreeBlk # B)" "FreeBlk \<notin> set A"
    and j: "j < length es" "\<And>i. i < length es \<Longrightarrow> same_name (es ! i) xs \<longleftrightarrow> i = j" and file_attr: "attribute (entry_item (es ! j)) AND 0x10 = 0"
    and clear: "view_bytes dir name d es xs \<inter> search_bytes (fat_vars s) (seg_blocks A) 2 = {}" and buf: "buffer_apart (fat_vars s) (seg_blocks A) 2"
  defines "b \<equiv> seg_blocks A"
  shows "\<exists>s'. fat16_find_item_in_directory P disk dir name s = Ret (block_addr b, s')
    \<and> kheap_repr s' (A @ Alloc 0 # Alloc 0 # B) \<and> s' = s\<lparr>ram := ram s'\<rparr>
    \<and> fat_item_at (ram s') (block_addr b) = \<lparr>item_ptr = block_addr (b + 1), item_type = 1\<rparr>
    \<and> bytes_at (ram s') (block_addr (b + 1)) 32 = es ! j
    \<and> (\<forall>a. a \<notin> search_bytes (fat_vars s) b 2 \<longrightarrow> ram s' a = ram s a)"
proof -
  let ?T = "tmp_filename (fat_vars s)" and ?V = "view_bytes dir name d es xs" and ?L = "length es"
  have VT: "?V \<inter> range_of ?T 108 = {}" using clear by (auto simp: search_bytes_def)
  have VX: "\<not> in_range a 0x7E00 25600 \<and> \<not> in_blocks b 2 a" if "a \<in> ?V" for a
    using that clear by (auto simp: search_bytes_def b_def)
  have d: "dir_total d = int ?L" "32 * ?L < 2147483648" using se by (simp_all add: searching_def)
  have TX: "\<not> in_range a ?T 108" if "in_range a 0x7E00 25600 \<or> in_blocks b 2 a" for a
    using buf that by (auto simp: buffer_apart_def b_def)
  from find_skip [OF se VT, of 0 j P disk 0] j obtain m0 where
    k0: "find_item P disk dir name 0 0 s = find_item P disk dir name (int j) 0 (s\<lparr>ram := m0\<rparr>)"
    and f0: "\<forall>a. \<not> in_range a ?T 108 \<longrightarrow> m0 a = ram s a" and se0: "searching m0 dir name d es xs"
    by auto
  from round_name [OF se0 j(1) VT] j obtain m1 where
    m1: "fat16_get_full_relative_filename m0 (dir_item d + 32 * of_nat j) ?T 108 = Some m1" "strncmp_insensitive m1 ?T name 108 = 0"
    and f1: "\<forall>a. \<not> in_range a ?T 108 \<longrightarrow> m1 a = m0 a" and se1: "searching m1 dir name d es xs"
    by auto
  define s1 where "s1 = s\<lparr>ram := m1\<rparr>"
  have entry: "bytes_at m1 (dir_item d + 32 * of_nat j) 32 = es ! j" using se1 j(1) by (simp add: searching_def)
  have heap1: "kheap_repr s1 (A @ FreeBlk # FreeBlk # B)"
    by (rule kheap_repr_cong [OF heap(1)]) (simp_all add: s1_def f0 f1 TX)
  have at1: "attribute (fat_directory_item_at (ram s1) (dir_item d + 32 * of_nat j)) AND 0x10 = 0"
    using file_attr entry by (simp add: s1_def item_of_bytes)
  have at2: "\<not> in_range a 0x7E00 25600 \<and> \<not> in_blocks (seg_blocks A) 2 a" if "in_range a (dir_item d + 32 * of_nat j) 32" for a
    using VX [OF view_entry [OF j(1) d(2) that]] by (simp add: b_def)
  from new_file_item_run [where P = P and disk = disk, OF heap1 heap(2) at1 at2, folded b_def] obtain s2 where
    n2: "fat16_new_fat_item_for_directory_item P disk (dir_item d + 32 * of_nat j) s1 = Ret (block_addr b, s2)"
    and r2: "kheap_repr s2 (A @ Alloc 0 # Alloc 0 # B)" and e2: "s2 = s1\<lparr>ram := ram s2\<rparr>"
    and it2: "fat_item_at (ram s2) (block_addr b) = \<lparr>item_ptr = block_addr (b + 1), item_type = 1\<rparr>"
    and cp2: "bytes_at (ram s2) (block_addr (b + 1)) 32 = es ! j"
    and f2: "\<forall>a. \<not> in_blocks b 2 a \<and> \<not> in_range a 0x7E00 25600 \<longrightarrow> ram s2 a = ram s1 a"
    using entry by (auto simp: s1_def)
  have vars2: "fat_vars s2 = fat_vars s" by (subst e2) (simp add: s1_def)
  have se2: "searching (ram s2) dir name d es xs"
    by (rule searching_cong [OF se1]) (use VX f2 in \<open>simp add: s1_def\<close>)
  have ji: "i32 (int j + 1) = int (Suc j)" using j(1) d(2) by (subst i32_id) simp_all
  have dd: "fat_directory_at m0 dir = d" "fat_directory_at m1 dir = d" using se0 se1 by (simp_all add: searching_def)
  have step: "find_item P disk dir name (int j) 0 (s\<lparr>ram := m0\<rparr>) = find_item P disk dir name (int (Suc j)) (block_addr b) s2"
    using j(1) m1 n2 d(1) by (subst find_item.simps) (simp add: dd ji s1_def)
  from find_skip [OF se2, of "Suc j" ?L P disk "block_addr b"] VT j obtain m3 where
    k3: "find_item P disk dir name (int (Suc j)) (block_addr b) s2 = find_item P disk dir name (int ?L) (block_addr b) (s2\<lparr>ram := m3\<rparr>)"
    and f3: "\<forall>a. \<not> in_range a ?T 108 \<longrightarrow> m3 a = ram s2 a" and se3: "searching m3 dir name d es xs"
    by (auto simp: vars2)
  define s' where "s' = s2\<lparr>ram := m3\<rparr>"
  have "find_item P disk dir name (int ?L) (block_addr b) s' = Some (Ret (block_addr b, s'))"
    using se3 by (subst find_item.simps) (simp add: s'_def searching_def)
  then have run: "fat16_find_item_in_directory P disk dir name s = Ret (block_addr b, s')"
    using k0 step k3 by (simp add: fat16_find_item_in_directory_def s'_def)
  have out: "ram s' a = ram s2 a" if "in_range a 0x7E00 25600 \<or> in_blocks b 2 a" for a
    using f3 TX [OF that] by (simp add: s'_def)
  have blocks: "b + 2 \<le> 25600" using kheap_repr_blocks [OF heap(1)] by (simp add: b_def)
  have u: "unat (block_addr b) = 16777216 + 4096 * b" "unat (block_addr (b + 1)) = 16777216 + 4096 * b + 4096"
    using blocks unat_block_addr [of b] unat_block_addr [of "b + 1"] by simp_all
  have "load32 (ram s') (block_addr b + of_nat k) = load32 (ram s2) (block_addr b + of_nat k)" if "k \<le> 4" for k
    using u that unat_forward [of "block_addr b" k] blocks
    by (intro load32_range out) (simp add: in_range_forward in_blocks_def)
  from this [of 0] this [of 4] have "fat_item_at (ram s') (block_addr b) = fat_item_at (ram s2) (block_addr b)" by (simp add: fat_item_at_def)
  moreover have "bytes_at (ram s') (block_addr (b + 1)) 32 = bytes_at (ram s2) (block_addr (b + 1)) 32"
    using u blocks by (intro bytes_at_cong out) (simp_all add: in_range_forward in_blocks_def)
  moreover have "kheap_repr s' (A @ Alloc 0 # Alloc 0 # B)"
    by (rule kheap_repr_cong [OF r2]) (use out in \<open>simp_all add: s'_def\<close>)
  moreover have "s' = s\<lparr>ram := ram s'\<rparr>" unfolding s'_def by (subst e2) (simp add: s1_def)
  moreover have "ram s' a = ram s a" if "a \<notin> search_bytes (fat_vars s) b 2" for a
    using that f0 f1 f2 f3 by (simp add: search_bytes_def s'_def s1_def)
  ultimately show ?thesis using run it2 cp2 by metis
qed

section \<open>Opening\<close>

lemma open_file_run:
  fixes s :: "('d, 'z) fat_machine_scheme"
  assumes heap: "kheap_repr s (A @ FreeBlk # FreeBlk # FreeBlk # B)" "FreeBlk \<notin> set A"
    and pp: "path_parts s path = Some \<lparr>part = name, next_part = 0\<rparr>"
    and se: "searching (ram s) (mount_addr s + 64) name d es xs"
    and j: "j < length es" "\<And>i. i < length es \<Longrightarrow> same_name (es ! i) xs \<longleftrightarrow> i = j" and file_attr: "attribute (entry_item (es ! j)) AND 0x10 = 0"
    and clear: "view_bytes (mount_addr s + 64) name d es xs \<inter> search_bytes (fat_vars s) (seg_blocks A) 3 = {}"
    and buf: "buffer_apart (fat_vars s) (seg_blocks A) 3"
  defines "b \<equiv> seg_blocks A"
  shows "\<exists>s'. fat16_open P MainDisk path 0 s = Ret (block_addr b, s')
    \<and> kheap_repr s' (A @ Alloc 0 # Alloc 0 # Alloc 0 # B) \<and> s' = s\<lparr>ram := ram s'\<rparr>
    \<and> fat_file_descriptor_at (ram s') (block_addr b) = \<lparr>desc_item = block_addr (b + 1), desc_pos = 0\<rparr>
    \<and> fat_item_at (ram s') (block_addr (b + 1)) = \<lparr>item_ptr = block_addr (b + 2), item_type = 1\<rparr>
    \<and> fat_directory_item_at (ram s') (block_addr (b + 2)) = entry_item (es ! j)
    \<and> (\<forall>a. a \<notin> search_bytes (fat_vars s) b 3 \<longrightarrow> ram s' a = ram s a)"
proof -
  let ?V = "view_bytes (mount_addr s + 64) name d es xs"
  have blocks: "b + 3 \<le> 25600" using kheap_repr_blocks [OF heap(1)] by (simp add: b_def)
  from zeroed_block(4) [OF heap, of 8] obtain s1 where
    z1: "kzalloc 8 s = Ret (block_addr b, s1)" and r1: "kheap_repr s1 (A @ Alloc 0 # FreeBlk # FreeBlk # B)" and e1: "s1 = s\<lparr>ram := ram s1\<rparr>"
    and f1: "\<forall>a. \<not> in_range a (block_addr b) 4096 \<and> \<not> in_range a 0x7E00 25600 \<longrightarrow> ram s1 a = ram s a" by (auto simp: b_def)
  have k1: "ram s1 a = ram s a" if "a \<notin> search_bytes (fat_vars s) b 3" for a
    using f1 that in_block [of b a] blocks by (auto simp: search_bytes_def in_blocks_def)
  have same: "fat_vars s1 = fat_vars s" "path_parts s1 = path_parts s" "the_disk s1 = the_disk s" "mount_addr s1 = mount_addr s"
    by (subst e1, simp add: mount_addr_def)+
  have r1: "kheap_repr s1 ((A @ [Alloc 0]) @ FreeBlk # FreeBlk # B)" and A1: "FreeBlk \<notin> set (A @ [Alloc 0])" "seg_blocks (A @ [Alloc 0]) = b + 1"
    using r1 heap(2) by (simp_all add: b_def)
  have sub: "search_bytes (fat_vars s) (b + 1) 2 \<subseteq> search_bytes (fat_vars s) b 3" by (auto simp: search_bytes_def in_blocks_def)
  have se1: "searching (ram s1) (mount_addr s + 64) name d es xs"
    by (rule searching_cong [OF se], rule k1) (use clear in \<open>auto simp: b_def\<close>)
  have clear1: "?V \<inter> search_bytes (fat_vars s1) (b + 1) 2 = {}" using clear sub by (auto simp: same b_def)
  have buf1: "buffer_apart (fat_vars s1) (b + 1) 2" using buf by (auto simp: buffer_apart_def same in_blocks_def b_def)
  from find_file_run [where P = P and disk = MainDisk, OF se1 r1 A1(1) j file_attr, unfolded A1(2), OF _ clear1 buf1] obtain s2 where
    n2: "fat16_find_item_in_directory P MainDisk (mount_addr s + 64) name s1 = Ret (block_addr (b + 1), s2)"
    and r2: "kheap_repr s2 (A @ Alloc 0 # Alloc 0 # Alloc 0 # B)" and e2: "s2 = s1\<lparr>ram := ram s2\<rparr>"
    and it2: "fat_item_at (ram s2) (block_addr (b + 1)) = \<lparr>item_ptr = block_addr (b + 2), item_type = 1\<rparr>"
    and cp2: "bytes_at (ram s2) (block_addr (b + 2)) 32 = es ! j"
    and f2: "\<forall>a. a \<notin> search_bytes (fat_vars s) (b + 1) 2 \<longrightarrow> ram s2 a = ram s1 a"
    by (auto simp: same)
  let ?p = "block_addr b" and ?i = "block_addr (b + 1)"
  have up: "unat ?p = 16777216 + 4096 * b" "unat (?p + 4) = 16777216 + 4096 * b + 4"
    "unat ?i = 16777216 + 4096 * b + 4096" "unat (block_addr (b + 2)) = 16777216 + 4096 * b + 8192"
    using blocks unat_forward [of ?p 4] unat_block_addr [of b] unat_block_addr [of "b + 1"] unat_block_addr [of "b + 2"] by simp_all
  define m3 where "m3 = store32 (store32 (ram s2) ?p ?i) (?p + 4) 0"
  define s3 where "s3 = s2\<lparr>ram := m3\<rparr>"
  have out: "m3 a = ram s2 a" if "\<not> in_blocks b 1 a" for a
  proof -
    have "\<not> in_range a ?p 4" "\<not> in_range a (?p + 4) 4" using that up blocks by (auto simp: in_range_forward in_blocks_def)
    then show ?thesis by (simp add: m3_def store32_outside)
  qed
  have nz: "?p \<noteq> 0" "?i \<noteq> 0" using block_addr_ne_0 [of b] block_addr_ne_0 [of "b + 1"] blocks by simp_all
  have same2: "path_parts s2 = path_parts s" by (subst e2) (simp add: same)
  have "fat16_get_directory_entry P MainDisk path s1 = Ret (?i, s2)"
    using pp n2 nz
    by (simp add: fat16_get_directory_entry_def outcome_simps same same2 mount_addr_def [symmetric] entry_loop.simps [of P MainDisk _ 0])
  then have run: "fat16_open P MainDisk path 0 s = Ret (?p, s3)"
    using z1 nz by (simp add: fat16_open_def outcome_simps poke_def m3_def s3_def)
  have tab: "in_range a 0x7E00 25600 \<Longrightarrow> \<not> in_blocks b 1 a" for a by (simp add: in_range_forward in_blocks_def)
  have "kheap_repr s3 (A @ Alloc 0 # Alloc 0 # Alloc 0 # B)"
    by (rule kheap_repr_cong [OF r2]) (use tab out in \<open>simp_all add: s3_def\<close>)
  moreover have "s3 = s\<lparr>ram := ram s3\<rparr>" unfolding s3_def by (subst e2, simp, subst e1, simp)
  moreover have "fat_file_descriptor_at (ram s3) ?p = \<lparr>desc_item = ?i, desc_pos = 0\<rparr>"
    using up by (simp add: fat_file_descriptor_at_def s3_def m3_def load32_store32_same load32_store32_other)
  moreover have "fat_item_at (ram s3) ?i = \<lparr>item_ptr = block_addr (b + 2), item_type = 1\<rparr>"
  proof -
    have "load32 m3 (?i + of_nat k) = load32 (ram s2) (?i + of_nat k)" if "k \<le> 4" for k
      using up that unat_forward [of ?i k] blocks by (intro load32_range out) (simp add: in_range_forward in_blocks_def)
    from this [of 0] this [of 4] show ?thesis using it2 by (simp add: fat_item_at_def s3_def)
  qed
  moreover have "bytes_at (ram s3) (block_addr (b + 2)) 32 = bytes_at (ram s2) (block_addr (b + 2)) 32"
    using up blocks by (intro bytes_at_cong) (auto simp: s3_def in_range_forward in_blocks_def intro!: out)
  then have "fat_directory_item_at (ram s3) (block_addr (b + 2)) = entry_item (es ! j)"
    using cp2 by (simp add: item_of_bytes)
  moreover have "ram s3 a = ram s a" if "a \<notin> search_bytes (fat_vars s) b 3" for a
    using that k1 [OF that] f2 sub out [of a] by (auto simp: s3_def search_bytes_def in_blocks_def)
  ultimately show ?thesis using run by blast
qed

end
