(* ===== verification/FileOpen.thy ===== *)
theory FileOpen imports FileSystem FatOpen
begin

text \<open>
  Opening a file of a mounted volume by its path and reading it: \<open>fopen\<close> of \<open>src/src/fs/file.c\<close>
  through the path parser, the search of the root directory and the table of open files.
\<close>

text \<open>The root directory of the mounted volume holds the entries \<open>es\<close>.\<close>

definition root_entries :: "('d, 'z) disk_machine_scheme \<Rightarrow> u8 list list \<Rightarrow> bool" where
  "root_entries s es \<longleftrightarrow> (let d = root_directory (mount s) in dir_total d = int (length es) \<and> 32 * length es < 2147483648
     \<and> (\<forall>i<length es. bytes_at (ram s) (dir_item d + 32 * of_nat i) 32 = es ! i))"

text \<open>The private data and the entries of the root directory.\<close>

definition volume_bytes :: "('d, 'z) disk_machine_scheme \<Rightarrow> u8 list list \<Rightarrow> u32 set" where
  "volume_bytes s es = range_of (mount_addr s) 92 \<union> range_of (dir_item (root_directory (mount s))) (32 * length es)"

lemma parts_of_single: "xs \<noteq> [] \<Longrightarrow> 0x2F \<notin> set xs \<Longrightarrow> parts_of xs = [xs]"
proof -
  assume xs: "xs \<noteq> []" "0x2F \<notin> set xs"
  have t: "takeWhile ((\<noteq>) 0x2F) xs = xs" using xs(2) by (auto simp: takeWhile_eq_all_conv)
  have "parts_of [] = []" by (rule parts_of_Nil) simp
  then show ?thesis using parts_of_Cons [of xs, unfolded t] xs(1) by simp
qed

lemma memory_change:
  fixes s :: "('d, 'z) fat_machine_scheme"
  assumes "t = s\<lparr>ram := ram t, path_parts := x, path_roots := y\<rparr>" "\<And>a. in_range a (mount_addr s) 92 \<Longrightarrow> ram t a = ram s a"
  shows "mount t = mount s" "mount_addr t = mount_addr s" "fat_vars t = fat_vars s" "the_disk t = the_disk s" "beyond t = beyond s"
    and "fat_mounted P n img s \<Longrightarrow> fat_mounted P n img t"
proof -
  show ma: "mount_addr t = mount_addr s" and vars: "fat_vars t = fat_vars s" "the_disk t = the_disk s" "beyond t = beyond s"
    by (subst assms(1), simp add: mount_addr_def)+
  have st: "streams t = streams s" "dev t = dev s" by (subst assms(1), simp)+
  show m: "mount t = mount s" unfolding mount_def ma by (rule fat_private_at_cong) (rule assms(2))
  show "fat_mounted P n img s \<Longrightarrow> fat_mounted P n img t"
    by (simp add: fat_mounted_def stream_ok_def m ma vars st)
qed

section \<open>Opening\<close>

lemma fopen_descriptor_block:
  fixes s :: "('d, 'z) file_machine_scheme"
  assumes heap: "kheap_repr s (A @ FreeBlk # B)" "FreeBlk \<notin> set A" and slot: "free_slot (file_descriptors s) 0 = Some i"
  defines "q \<equiv> block_addr (seg_blocks A)"
  shows "\<exists>s'. fopen_descriptor MainDisk private s = Ret (int i + 1, s')
    \<and> s' = s\<lparr>ram := ram s', file_descriptors := (file_descriptors s)[i := q], descriptors := (descriptors s)(q \<mapsto>
        \<lparr>fdesc_index = int i + 1, fdesc_filesystem = dk_filesystem (the_disk s), fdesc_private = private, fdesc_disk = MainDisk\<rparr>)\<rparr>
    \<and> kheap_repr s' (A @ Alloc 0 # B) \<and> q \<noteq> 0
    \<and> (\<forall>a. \<not> in_range a q 4096 \<and> \<not> in_range a 0x7E00 25600 \<longrightarrow> ram s' a = ram s a)"
proof -
  from zeroed_block(2,4) [OF heap, of 16, folded q_def] obtain s1 where q: "q \<noteq> 0"
    and z: "kzalloc 16 s = Ret (q, s1)" and r: "kheap_repr s1 (A @ Alloc 0 # B)" and e: "s1 = s\<lparr>ram := ram s1\<rparr>"
    and f: "\<forall>a. \<not> in_range a q 4096 \<and> \<not> in_range a 0x7E00 25600 \<longrightarrow> ram s1 a = ram s a" by auto
  have same: "descriptors s1 = descriptors s" "file_descriptors s1 = file_descriptors s" "the_disk s1 = the_disk s" by (subst e, simp)+
  define s' where "s' = s\<lparr>ram := ram s1, file_descriptors := (file_descriptors s)[i := q], descriptors := (descriptors s)(q \<mapsto>
        \<lparr>fdesc_index = int i + 1, fdesc_filesystem = dk_filesystem (the_disk s), fdesc_private = private, fdesc_disk = MainDisk\<rparr>)\<rparr>"
  have s': "s1\<lparr>file_descriptors := x, descriptors := y\<rparr> = s\<lparr>ram := ram s1, file_descriptors := x, descriptors := y\<rparr>" for x y
    by (subst e) simp
  have "fopen_descriptor MainDisk private s = Ret (int i + 1, s')"
    using slot z by (simp add: fopen_descriptor_def file_new_descriptor_def outcome_simps same s'_def s')
  moreover have "kheap_repr s' (A @ Alloc 0 # B)"
    by (rule kheap_repr_cong [OF r]) (use arg_cong [OF e, of kernel_heap] in \<open>simp_all add: s'_def\<close>)
  ultimately show ?thesis using q f by (intro exI [of _ s']) (simp add: s'_def)
qed

lemma blocks_frame_outside:
  assumes "blocks_frame a n m m'" "a + n \<le> 25600" "\<not> in_blocks a n x" "\<not> in_range x 0x7E00 25600"
  shows "m' x = m x"
proof -
  have "\<not> in_range x (block_addr b) 4096" if "a \<le> b" "b < a + n" for b
    using assms(2,3) that in_block [of b x] by (auto simp: in_blocks_def)
  then show ?thesis using assms(1,4) by (simp add: blocks_frame_def)
qed

lemma memory_and_tables:
  "t = s\<lparr>ram := m, path_parts := x, path_roots := y\<rparr> \<Longrightarrow> u = t\<lparr>ram := m', file_descriptors := f, descriptors := d\<rparr>
    \<Longrightarrow> u = s\<lparr>ram := ram u, path_parts := path_parts u, path_roots := path_roots u, file_descriptors := f, descriptors := descriptors u\<rparr>"
  by simp

lemma fopen_run:
  fixes s :: "('d, 'z) file_machine_scheme"
  assumes str: "cstr (ram s) path (0x30 # 0x3A # 0x2F # xs)" "xs \<noteq> []" "0x2F \<notin> set xs" "length xs \<le> 105"
    and heap: "kheap_repr s (A @ replicate 7 FreeBlk @ B)" "FreeBlk \<notin> set A" and aw: "away path (length xs + 4) (seg_blocks A) 7"
    and mode: "ram s mode_str = 0x72" "mode_str \<notin> search_bytes (fat_vars s) (seg_blocks A) 7"
    and mounted: "fat_mounted P n img s" and fs: "dk_filesystem (the_disk s) = fat16_fs (fat_vars s)" "fat16_fs (fat_vars s) \<noteq> 0"
    and es: "root_entries s es" and j: "j < length es" "\<And>i. i < length es \<Longrightarrow> same_name (es ! i) xs \<longleftrightarrow> i = j"
    and file_attr: "attribute (entry_item (es ! j)) AND 0x10 = 0"
    and clear: "volume_bytes s es \<inter> search_bytes (fat_vars s) (seg_blocks A) 7 = {}" and buf: "buffer_apart (fat_vars s) (seg_blocks A) 7"
    and slot: "free_slot (file_descriptors s) 0 = Some i" "i < 511" "length (file_descriptors s) = 512"
  defines "a \<equiv> seg_blocks A"
  shows "\<exists>s'. fopen P path mode_str s = Ret (int i + 1, s') \<and> kheap_repr s' (A @ replicate 7 (Alloc 0) @ B)
    \<and> open_file s' (int i + 1) (block_addr (a + 3)) \<and> fat_mounted P n img s'
    \<and> mount s' = mount s \<and> mount_addr s' = mount_addr s \<and> fat_vars s' = fat_vars s
    \<and> fat_file_descriptor_at (ram s') (block_addr (a + 3)) = \<lparr>desc_item = block_addr (a + 4), desc_pos = 0\<rparr>
    \<and> fat_item_at (ram s') (block_addr (a + 4)) = \<lparr>item_ptr = block_addr (a + 5), item_type = 1\<rparr>
    \<and> fat_directory_item_at (ram s') (block_addr (a + 5)) = entry_item (es ! j)
    \<and> s' = s\<lparr>ram := ram s', path_parts := path_parts s', path_roots := path_roots s',
         file_descriptors := (file_descriptors s)[i := block_addr (a + 6)], descriptors := descriptors s'\<rparr>
    \<and> (\<forall>x. x \<notin> search_bytes (fat_vars s) a 7 \<longrightarrow> ram s' x = ram s x)"
proof -
  let ?S = "search_bytes (fat_vars s) a 7" and ?d = "root_directory (mount s)" and ?name = "block_addr (a + 1)"
  have blocks: "a + 7 \<le> 25600" using kheap_repr_blocks [OF heap(1)] by (simp add: a_def)
  have parts: "parts_of xs = [xs]" by (rule parts_of_single) (use str in simp_all)
  have in7: "x \<in> ?S" if "in_blocks (a + k) l x" "k + l \<le> 7" for x k l
    using that by (auto simp: search_bytes_def in_blocks_def)
  have r: "kheap_repr s (A @ replicate (2 * length (parts_of xs) + 3 + 2) FreeBlk @ B)" using heap(1) by (simp add: parts)
  have aw7: "away path (length xs + 4) (seg_blocks A) (2 * length (parts_of xs) + 3 + 2)" using aw by (simp add: parts)
  have dig: "is_digit 0x30" by (simp add: is_digit_def)
  from pathparser_parse_run [OF str(1) dig str(4) r heap(2) refl aw7, where cwd = 0, unfolded parts] obtain s1 where
    p1: "pathparser_parse path 0 s = Ret (block_addr a, s1)"
    and root1: "path_roots s1 (block_addr a) = Some \<lparr>drive_no = 0, first_part = block_addr (a + 2)\<rparr>"
    and ch1: "chain s1 (a + 1) [xs]" and h1: "kheap_repr s1 ((A @ [Alloc 0, Alloc 0, Alloc 0]) @ FreeBlk # FreeBlk # FreeBlk # FreeBlk # B)"
    and e1: "s1 = s\<lparr>ram := ram s1, path_parts := path_parts s1, path_roots := path_roots s1\<rparr>" and f1: "blocks_frame a 5 (ram s) (ram s1)"
    by (auto simp: a_def eval_nat_numeral)
  have k1: "ram s1 x = ram s x" if "x \<notin> ?S" for x
    using that blocks by (intro blocks_frame_outside [OF f1]) (auto simp: search_bytes_def in_blocks_def)
  have vol: "x \<notin> ?S" if "x \<in> volume_bytes s es" for x using that clear by (auto simp: a_def)
  have m92: "x \<notin> ?S" if "in_range x (mount_addr s) 92" for x using that by (intro vol) (simp add: volume_bytes_def)
  note same1 = memory_change [OF e1 k1 [OF m92], simplified]
  have A1: "FreeBlk \<notin> set (A @ [Alloc 0, Alloc 0, Alloc 0])" "seg_blocks (A @ [Alloc 0, Alloc 0, Alloc 0]) = a + 3"
    using heap(2) by (simp_all add: a_def eval_nat_numeral)
  have names: "cstr (ram s1) ?name xs" "path_parts s1 (block_addr (a + 2)) = Some \<lparr>part = ?name, next_part = 0\<rparr>"
    using ch1 by (simp_all add: eval_nat_numeral)
  have se1: "searching (ram s1) (mount_addr s1 + 64) ?name ?d es xs"
  proof -
    have "fat_directory_at (ram s1) (mount_addr s1 + 64) = root_directory (mount s1)" by (simp add: mount_def fat_private_at_def)
    moreover have "bytes_at (ram s1) (dir_item ?d + 32 * of_nat i) 32 = es ! i" if i: "i < length es" for i
    proof -
      have "bytes_at (ram s1) (dir_item ?d + 32 * of_nat i) 32 = bytes_at (ram s) (dir_item ?d + 32 * of_nat i) 32"
      proof (rule bytes_at_cong)
        fix x assume "in_range x (dir_item ?d + 32 * of_nat i) 32"
        then have "in_range x (dir_item ?d) (32 * length es)"
          using in_range_part [of "32 * i" 32 "32 * length es" x "dir_item ?d"] i es by (simp add: root_entries_def Let_def)
        then show "ram s1 x = ram s x" by (intro k1 vol) (simp add: volume_bytes_def)
      qed simp
      then show ?thesis using es i by (simp add: root_entries_def Let_def)
    qed
    ultimately show ?thesis using names(1) es str(4) by (simp add: searching_def same1 root_entries_def Let_def)
  qed
  have sub3: "search_bytes (fat_vars s) (a + 3) 3 \<subseteq> ?S" by (auto simp: search_bytes_def in_blocks_def)
  have clear1: "view_bytes (mount_addr s1 + 64) ?name ?d es xs \<inter> search_bytes (fat_vars s1) (a + 3) 3 = {}"
  proof -
    have "x \<in> volume_bytes s es" if "in_range x (mount_addr s + 64) 16" for x
      using in_range_part [of 64 16 92 x "mount_addr s"] that by (simp add: volume_bytes_def)
    moreover have "x \<notin> search_bytes (fat_vars s) (a + 3) 3" if "in_range x ?name (Suc (length xs))" for x
    proof -
      have "in_range x ?name 4096" by (rule in_range_mono [OF that]) (use str(4) in simp)
      then have "in_blocks (a + 1) 1 x" using in_block [of "a + 1" x] blocks by simp
      then show ?thesis using buf by (auto simp: search_bytes_def in_blocks_def buffer_apart_def in_range_forward a_def)
    qed
    ultimately show ?thesis using vol sub3 by (auto simp: view_bytes_def same1 volume_bytes_def)
  qed
  have buf1: "buffer_apart (fat_vars s1) (a + 3) 3" using buf by (auto simp: buffer_apart_def same1 in_blocks_def a_def)
  from open_file_run [where P = P, OF h1 A1(1) names(2) se1 j file_attr, unfolded A1(2), OF _ clear1 buf1] obtain s2 where
    o2: "fat16_open P MainDisk (block_addr (a + 2)) 0 s1 = Ret (block_addr (a + 3), s2)"
    and h2: "kheap_repr s2 ((A @ replicate 6 (Alloc 0)) @ FreeBlk # B)" and e2: "s2 = s1\<lparr>ram := ram s2\<rparr>"
    and fd2: "fat_file_descriptor_at (ram s2) (block_addr (a + 3)) = \<lparr>desc_item = block_addr (a + 4), desc_pos = 0\<rparr>"
    and it2: "fat_item_at (ram s2) (block_addr (a + 4)) = \<lparr>item_ptr = block_addr (a + 5), item_type = 1\<rparr>"
    and di2: "fat_directory_item_at (ram s2) (block_addr (a + 5)) = entry_item (es ! j)"
    and f2: "\<forall>x. x \<notin> search_bytes (fat_vars s) (a + 3) 3 \<longrightarrow> ram s2 x = ram s1 x"
    by (auto simp: same1 eval_nat_numeral)
  have k2: "ram s2 x = ram s x" if "x \<notin> ?S" for x using that k1 f2 sub3 by auto
  have e2: "s2 = s\<lparr>ram := ram s2, path_parts := path_parts s1, path_roots := path_roots s1\<rparr>"
    by (subst e2, subst e1) simp
  note same2 = memory_change [OF e2 k2 [OF m92], simplified]
  have tables: "file_descriptors s2 = file_descriptors s" "descriptors s2 = descriptors s" by (subst e2, simp)+
  have A2: "FreeBlk \<notin> set (A @ replicate 6 (Alloc 0))" "seg_blocks (A @ replicate 6 (Alloc 0)) = a + 6"
    using heap(2) by (simp_all add: a_def eval_nat_numeral)
  let ?q = "block_addr (a + 6)" and ?p = "block_addr (a + 3)"
  from fopen_descriptor_block [OF h2 A2(1), unfolded A2(2) tables, OF slot(1), of ?p] obtain s3 where
    o3: "fopen_descriptor MainDisk ?p s2 = Ret (int i + 1, s3)"
    and e3: "s3 = s2\<lparr>ram := ram s3, file_descriptors := (file_descriptors s)[i := ?q], descriptors := (descriptors s)(?q \<mapsto>
        \<lparr>fdesc_index = int i + 1, fdesc_filesystem = dk_filesystem (the_disk s2), fdesc_private = ?p, fdesc_disk = MainDisk\<rparr>)\<rparr>"
    and h3: "kheap_repr s3 ((A @ replicate 6 (Alloc 0)) @ Alloc 0 # B)" and q: "?q \<noteq> 0"
    and f3: "\<forall>x. \<not> in_range x ?q 4096 \<and> \<not> in_range x 0x7E00 25600 \<longrightarrow> ram s3 x = ram s2 x" by blast
  have q6: "in_range x ?q 4096 \<longleftrightarrow> in_blocks (a + 6) 1 x" for x using in_block [of "a + 6" x] blocks by simp
  have k3: "ram s3 x = ram s x" if "x \<notin> ?S" for x
  proof -
    have "\<not> in_range x ?q 4096" using that in7 [of 6 1 x] q6 [of x] by auto
    moreover have "\<not> in_range x 0x7E00 25600" using that by (simp add: search_bytes_def)
    ultimately show ?thesis using f3 k2 [OF that] by simp
  qed
  have "file_descriptors s3 = (file_descriptors s)[i := ?q]" "fat_vars s3 = fat_vars s2" "the_disk s3 = the_disk s2"
    "streams s3 = streams s2" "dev s3 = dev s2" "mount_addr s3 = mount_addr s2"
    "descriptors s3 ?q = Some \<lparr>fdesc_index = int i + 1, fdesc_filesystem = dk_filesystem (the_disk s2), fdesc_private = ?p, fdesc_disk = MainDisk\<rparr>"
    by (subst e3, simp add: mount_addr_def)+
  note same3 = this
  have m3: "mount s3 = mount s" unfolding mount_def
    by (simp add: same3 same2) (rule fat_private_at_cong, rule k3, rule m92)
  have mounted3: "fat_mounted P n img s3"
    using same2(6) [OF mounted] by (simp add: fat_mounted_def stream_ok_def m3 same3 same2)
  have keep: "ram s3 x = ram s2 x" if "in_blocks (a + k) 1 x" "k < 6" for x k
  proof -
    have "\<not> in_range x ?q 4096" using that by (auto simp: q6 in_blocks_def)
    moreover have "\<not> in_range x 0x7E00 25600" using that by (simp add: in_range_forward in_blocks_def)
    ultimately show ?thesis using f3 by simp
  qed
  have word: "load32 (ram s3) (block_addr (a + k) + of_nat l) = load32 (ram s2) (block_addr (a + k) + of_nat l)" if "k < 6" "l \<le> 4" for k l
    using that blocks in_block_part [of "a + k" l 4] by (intro load32_range keep [of k]) simp_all
  have fd3: "fat_file_descriptor_at (ram s3) ?p = \<lparr>desc_item = block_addr (a + 4), desc_pos = 0\<rparr>"
    using word [of 3 0] word [of 3 4] fd2 by (simp add: fat_file_descriptor_at_def)
  have it3: "fat_item_at (ram s3) (block_addr (a + 4)) = \<lparr>item_ptr = block_addr (a + 5), item_type = 1\<rparr>"
    using word [of 4 0] word [of 4 4] it2 by (simp add: fat_item_at_def)
  have "bytes_at (ram s3) (block_addr (a + 5)) 32 = bytes_at (ram s2) (block_addr (a + 5)) 32"
    by (rule bytes_at_cong) (use blocks in_block_part [of "a + 5" 0 32] keep [of 5] in auto)
  then have di3: "fat_directory_item_at (ram s3) (block_addr (a + 5)) = entry_item (es ! j)"
    using di2 by (simp add: item_of_bytes)
  have "ram s1 mode_str = 0x72" using mode k1 by (simp add: a_def)
  then have md: "file_get_mode_by_string (ram s1) mode_str = 0" by (simp add: file_get_mode_by_string_def)
  have up: "unat ?p = 16777216 + 4096 * (a + 3)" using blocks unat_block_addr [of "a + 3"] by simp
  have "sint ?p = int (unat ?p)" using up blocks by (intro sint_small) simp
  then have pos: "\<not> sint ?p < 0" by simp
  have p0: "block_addr a \<noteq> 0" "block_addr (a + 2) \<noteq> 0" using blocks block_addr_ne_0 [of a] block_addr_ne_0 [of "a + 2"] by simp_all
  have "fopen_result P path mode_str s = Ret (int i + 1, s3)"
    using p1 p0 root1 fs md o2 o3 pos
    by (simp add: fopen_result_def outcome_simps disk_get_def same1 fs_at_def fat16_filesystem_def)
  then have "fopen P path mode_str s = Ret (int i + 1, s3)" by (simp add: fopen_def outcome_simps)
  moreover have "open_file s3 (int i + 1) ?p"
    using slot(2,3) q fs by (simp add: open_file_def same3 same2)
  moreover have "kheap_repr s3 (A @ replicate 7 (Alloc 0) @ B)" using h3 by (simp add: eval_nat_numeral)
  moreover have "s3 = s\<lparr>ram := ram s3, path_parts := path_parts s3, path_roots := path_roots s3,
      file_descriptors := (file_descriptors s)[i := ?q], descriptors := descriptors s3\<rparr>"
    by (rule memory_and_tables [OF e2 e3])
  moreover have "mount_addr s3 = mount_addr s" "fat_vars s3 = fat_vars s" by (simp_all add: same3 same2)
  ultimately show ?thesis using mounted3 m3 fd3 it3 di3 k3 by (intro exI [of _ s3]) blast
qed

text \<open>Entry \<open>j\<close> is the only one with the name \<open>xs\<close>, and it is a file.\<close>

definition file_entry :: "u8 list list \<Rightarrow> nat \<Rightarrow> u8 list \<Rightarrow> bool" where
  "file_entry es j xs \<longleftrightarrow> j < length es \<and> (\<forall>i<length es. same_name (es ! i) xs \<longleftrightarrow> i = j) \<and> attribute (entry_item (es ! j)) AND 0x10 = 0"

text \<open>The structs of an open file in the blocks from \<open>b\<close> on, with the directory entry \<open>item\<close>.\<close>

definition opened_at :: "mem \<Rightarrow> nat \<Rightarrow> fat_directory_item \<Rightarrow> bool" where
  "opened_at m b item \<longleftrightarrow> fat_file_descriptor_at m (block_addr b) = \<lparr>desc_item = block_addr (b + 1), desc_pos = 0\<rparr>
     \<and> fat_item_at m (block_addr (b + 1)) = \<lparr>item_ptr = block_addr (b + 2), item_type = 1\<rparr>
     \<and> fat_directory_item_at m (block_addr (b + 2)) = item"

lemma opened_at_cong:
  assumes "opened_at m b item" "b + 3 \<le> 25600" and eq: "\<And>a. in_blocks b 3 a \<Longrightarrow> m' a = m a"
  shows "opened_at m' b item"
proof -
  have inb: "in_blocks b 3 a" if "in_range a (block_addr (b + k) + of_nat l) n" "k < 3" "l + n \<le> 4096" for a k l n
    using in_block_part [of "b + k" l n a] that assms(2) by (auto simp: in_blocks_def)
  have w: "load32 m' (block_addr (b + k) + of_nat l) = load32 m (block_addr (b + k) + of_nat l)" if "k < 3" "l \<le> 4" for k l
    using that inb [of _ k l 4] by (intro load32_range eq) auto
  have "bytes_at m' (block_addr (b + 2)) 32 = bytes_at m (block_addr (b + 2)) 32"
    using inb [of _ 2 0 32] by (intro bytes_at_cong eq) simp_all
  then show ?thesis
    using assms(1) w [of 0 0] w [of 0 4] w [of 1 0] w [of 1 4]
    by (simp add: opened_at_def fat_file_descriptor_at_def fat_item_at_def item_of_bytes)
qed

section \<open>What opening needs\<close>

text \<open>
  The requirements of \<open>fopen\<close> besides free blocks: the mode, the mounted volume with the wanted file
  as entry \<open>j\<close> of its root directory and the free slot \<open>i\<close>, then the path, all of it away from the heap
  table, the \<open>N\<close> blocks from block \<open>a\<close> and the buffer of the search.
\<close>

definition file_ready ::
  "'d ports \<Rightarrow> nat \<Rightarrow> (nat \<Rightarrow> u8 list) \<Rightarrow> u32 \<Rightarrow> u8 list \<Rightarrow> u8 list list \<Rightarrow> nat \<Rightarrow> nat \<Rightarrow> nat \<Rightarrow> nat \<Rightarrow> ('d, 'z) file_machine_scheme \<Rightarrow> bool" where
  "file_ready P n img mode_str xs es j i a N s \<longleftrightarrow>
     ram s mode_str = 0x72 \<and> mode_str \<notin> search_bytes (fat_vars s) a N
     \<and> fat_mounted P n img s \<and> dk_filesystem (the_disk s) = fat16_fs (fat_vars s) \<and> fat16_fs (fat_vars s) \<noteq> 0
     \<and> root_entries s es \<and> file_entry es j xs
     \<and> volume_bytes s es \<inter> search_bytes (fat_vars s) a N = {} \<and> buffer_apart (fat_vars s) a N
     \<and> free_slot (file_descriptors s) 0 = Some i \<and> i < 511 \<and> length (file_descriptors s) = 512"

definition openable ::
  "'d ports \<Rightarrow> nat \<Rightarrow> (nat \<Rightarrow> u8 list) \<Rightarrow> u32 \<Rightarrow> u32 \<Rightarrow> u8 list \<Rightarrow> u8 list list \<Rightarrow> nat \<Rightarrow> nat \<Rightarrow> nat \<Rightarrow> nat \<Rightarrow> ('d, 'z) file_machine_scheme \<Rightarrow> bool" where
  "openable P n img path mode_str xs es j i a N s \<longleftrightarrow>
     cstr (ram s) path (0x30 # 0x3A # 0x2F # xs) \<and> xs \<noteq> [] \<and> 0x2F \<notin> set xs \<and> length xs \<le> 105 \<and> away path (length xs + 4) a N
     \<and> file_ready P n img mode_str xs es j i a N s"

lemmas openable_defs = openable_def file_ready_def

lemma search_bytes_sub: "a \<le> a' \<Longrightarrow> a' + N' \<le> a + N \<Longrightarrow> search_bytes vars a' N' \<subseteq> search_bytes vars a N"
  by (auto simp: search_bytes_def in_blocks_def)

lemma openable_sub:
  assumes "openable P n img path mode_str xs es j i a N s" "a \<le> a'" "a' + N' \<le> a + N"
  shows "openable P n img path mode_str xs es j i a' N' s"
proof -
  have "away path (length xs + 4) a' N'"
    using away_sub [of path "length xs + 4" a N 0 "length xs + 4" a' N'] assms by (simp add: openable_defs)
  moreover have "buffer_apart (fat_vars s) a' N'"
    using assms by (auto simp: openable_defs buffer_apart_def in_blocks_def)
  ultimately show ?thesis
    using assms search_bytes_sub [OF assms(2,3), of "fat_vars s"] unfolding openable_defs by blast
qed

text \<open>Both depend only on the volume, the mode and the tables.\<close>

lemma file_ready_cong:
  fixes s t :: "('d, 'z) file_machine_scheme"
  assumes o: "file_ready P n img mode_str xs es j i a N s"
    and same: "the_disk t = the_disk s" "fat_vars t = fat_vars s" "streams t = streams s" "dev t = dev s" "file_descriptors t = file_descriptors s"
    and eq: "\<And>x. x \<in> volume_bytes s es \<or> x = mode_str \<Longrightarrow> ram t x = ram s x"
  shows "file_ready P n img mode_str xs es j i a N t" "mount t = mount s" "mount_addr t = mount_addr s"
proof -
  show ma: "mount_addr t = mount_addr s" by (simp add: mount_addr_def same)
  show m: "mount t = mount s" unfolding mount_def ma
    by (rule fat_private_at_cong, rule eq) (simp add: volume_bytes_def)
  have "root_entries t es"
  proof -
    have "bytes_at (ram t) (dir_item (root_directory (mount s)) + 32 * of_nat i) 32 = bytes_at (ram s) (dir_item (root_directory (mount s)) + 32 * of_nat i) 32"
      if "i < length es" "32 * length es < 2147483648" for i
    proof (rule bytes_at_cong)
      fix x assume "in_range x (dir_item (root_directory (mount s)) + 32 * of_nat i) 32"
      then have "in_range x (dir_item (root_directory (mount s))) (32 * length es)"
        using in_range_part [of "32 * i" 32 "32 * length es" x "dir_item (root_directory (mount s))"] that by simp
      then show "ram t x = ram s x" by (intro eq) (simp add: volume_bytes_def)
    qed simp
    then show ?thesis using o by (simp add: file_ready_def root_entries_def m Let_def)
  qed
  moreover have "fat_mounted P n img t"
    using o by (simp add: file_ready_def fat_mounted_def stream_ok_def m ma same)
  moreover have "ram t mode_str = 0x72" using o eq by (simp add: file_ready_def)
  moreover have "volume_bytes t es = volume_bytes s es" by (simp add: volume_bytes_def m ma)
  ultimately show "file_ready P n img mode_str xs es j i a N t" using o by (simp add: file_ready_def same)
qed

lemma not_in_blocks:
  assumes "\<forall>b. a \<le> b \<and> b < a + N \<longrightarrow> \<not> in_range x (block_addr b) 4096" "a + N \<le> 25600"
  shows "\<not> in_blocks a N x"
proof
  assume "in_blocks a N x"
  then have x: "16777216 + 4096 * a \<le> unat x" "unat x < 16777216 + 4096 * (a + N)" by (simp_all add: in_blocks_def)
  define b where "b = (unat x - 16777216) div 4096"
  have "4096 * b \<le> unat x - 16777216" "unat x - 16777216 < 4096 * b + 4096" by (simp_all add: b_def)
  then have b: "16777216 + 4096 * b \<le> unat x" "unat x < 16777216 + 4096 * b + 4096" using x by linarith+
  have ab: "a \<le> b" "b < a + N" using x b by (simp_all add: add_mult_distrib2)
  then have "in_range x (block_addr b) 4096" using b assms(2) by (subst in_block) (simp_all add: in_blocks_def)
  with assms(1) ab show False by blast
qed

lemma openable_cong:
  fixes s t :: "('d, 'z) file_machine_scheme"
  assumes o: "openable P n img path mode_str xs es j i a N s" and N: "a + N \<le> 25600"
    and same: "the_disk t = the_disk s" "fat_vars t = fat_vars s" "streams t = streams s" "dev t = dev s" "file_descriptors t = file_descriptors s"
    and eq: "\<And>x. \<not> in_range x 0x7E00 25600 \<Longrightarrow> \<not> in_blocks a N x \<Longrightarrow> ram t x = ram s x"
  shows "openable P n img path mode_str xs es j i a N t" "mount t = mount s" "mount_addr t = mount_addr s"
proof -
  have r: "file_ready P n img mode_str xs es j i a N s" using o by (simp add: openable_def)
  have vol: "ram t x = ram s x" if "x \<in> volume_bytes s es \<or> x = mode_str" for x
  proof -
    have "x \<notin> search_bytes (fat_vars s) a N" using r that by (auto simp: file_ready_def)
    then show ?thesis by (intro eq) (simp_all add: search_bytes_def)
  qed
  show "mount t = mount s" "mount_addr t = mount_addr s" by (rule file_ready_cong(2,3) [OF r same vol], assumption)+
  have p: "cstr (ram s) path (0x30 # 0x3A # 0x2F # xs)" "away path (length xs + 4) a N" "length xs \<le> 105"
    using o unfolding openable_def by blast+
  have l: "Suc (length (0x30 # 0x3A # 0x2F # xs)) = length xs + 4" by simp
  have str: "away path (Suc (length (0x30 # 0x3A # 0x2F # xs))) a N" "length (0x30 # 0x3A # 0x2F # xs) < 4294967295"
    unfolding l by (rule p(2)) (use p(3) in simp)
  have "cstr (ram t) path (0x30 # 0x3A # 0x2F # xs)"
    by (rule cstr_away [OF p(1) str]) (rule eq, assumption, rule not_in_blocks [OF _ N])
  then show "openable P n img path mode_str xs es j i a N t"
    using o file_ready_cong(1) [OF r same vol] by (simp add: openable_def)
qed

lemma fopen_openable:
  fixes s :: "('d, 'z) file_machine_scheme"
  assumes "openable P n img path mode_str xs es j i a 7 s" "kheap_repr s (A @ replicate 7 FreeBlk @ B)" "FreeBlk \<notin> set A" "a = seg_blocks A"
  shows "\<exists>s'. fopen P path mode_str s = Ret (int i + 1, s') \<and> kheap_repr s' (A @ replicate 7 (Alloc 0) @ B)
    \<and> open_file s' (int i + 1) (block_addr (a + 3)) \<and> fat_mounted P n img s'
    \<and> mount s' = mount s \<and> mount_addr s' = mount_addr s \<and> fat_vars s' = fat_vars s
    \<and> opened_at (ram s') (a + 3) (entry_item (es ! j))
    \<and> s' = s\<lparr>ram := ram s', path_parts := path_parts s', path_roots := path_roots s',
         file_descriptors := (file_descriptors s)[i := block_addr (a + 6)], descriptors := descriptors s'\<rparr>
    \<and> (\<forall>x. x \<notin> search_bytes (fat_vars s) a 7 \<longrightarrow> ram s' x = ram s x)"
proof -
  have j: "j < length es" "\<And>i. i < length es \<Longrightarrow> same_name (es ! i) xs \<longleftrightarrow> i = j" "attribute (entry_item (es ! j)) AND 0x10 = 0"
    using assms(1) by (simp_all add: openable_defs file_entry_def)
  have e: "a + 3 + 1 = a + 4" "a + 3 + 2 = a + 5" by simp_all
  show ?thesis
    unfolding opened_at_def e
    using fopen_run [of s path xs A B mode_str P n img es j i] assms(1) j assms(2-4) unfolding openable_defs by blast
qed

section \<open>Opening and reading\<close>

text \<open>
  The clusters \<open>cs\<close> of the image hold the file of a directory entry: the first is in the entry, the others
  follow by the allocation table, and the code finds these links (of which a file in one cluster has none).
\<close>

definition file_clusters :: "nat \<Rightarrow> (nat \<Rightarrow> u8 list) \<Rightarrow> ('d, 'z) disk_machine_scheme \<Rightarrow> nat \<Rightarrow> u8 list \<Rightarrow> nat list \<Rightarrow> bool" where
  "file_clusters n img s e entry cs \<longleftrightarrow> fat16_get_first_cluster (entry_item entry) = of_nat (hd cs)
     \<and> cluster_chain img (fat_reserved s) cs \<and> links_found n img (fat_reserved s) cs \<and> clusters_ok n s e cs"

lemma file_clusters_walked:
  assumes "file_clusters n img s e entry cs"
  shows "fat16_get_first_cluster (entry_item entry) = of_nat (hd cs)" "walked n img (fat_reserved s) cs" "clusters_ok n s e cs"
  using assms by (simp_all add: file_clusters_def chain_walked)

lemma open_and_read:
  fixes s :: "('d, 'z) file_machine_scheme"
  assumes o: "openable P n img path mode_str xs es j i (seg_blocks A) 7 s"
    and heap: "kheap_repr s (A @ replicate 7 FreeBlk @ B)" "FreeBlk \<notin> set A"
    and cl: "file_clusters n img s e (es ! j) cs"
    and t: "0 < t" "t \<le> length cs * cluster_size s" "t < 2147483648"
    and out: "range_of out t \<inter> (range_of (mount_addr s) 92 \<union> range_of (entry_local (fat_vars s)) 2) = {}"
  shows "\<exists>s1 s2. fopen P path mode_str s = Ret (int i + 1, s1) \<and> kheap_repr s1 (A @ replicate 7 (Alloc 0) @ B)
    \<and> (\<forall>x. x \<notin> search_bytes (fat_vars s) (seg_blocks A) 7 \<longrightarrow> ram s1 x = ram s x)
    \<and> fread P out (of_nat t) 1 (int i + 1) s1 = Ret (1, s2) \<and> bytes_at (ram s2) out t = take t (file_bytes img s e cs)
    \<and> fat_mounted P n img s2"
proof -
  from fopen_openable [OF o heap refl] obtain s1 where
    o1: "fopen P path mode_str s = Ret (int i + 1, s1)" "kheap_repr s1 (A @ replicate 7 (Alloc 0) @ B)"
      "open_file s1 (int i + 1) (block_addr (seg_blocks A + 3))" "fat_mounted P n img s1"
    and same: "mount s1 = mount s" "mount_addr s1 = mount_addr s" "fat_vars s1 = fat_vars s"
    and od: "opened_at (ram s1) (seg_blocks A + 3) (entry_item (es ! j))"
    and f1: "\<forall>x. x \<notin> search_bytes (fat_vars s) (seg_blocks A) 7 \<longrightarrow> ram s1 x = ram s x" by blast
  have geo: "cluster_size s1 = cluster_size s" "clusters_ok n s1 e cs = clusters_ok n s e cs" "fat_reserved s1 = fat_reserved s"
    "file_bytes img s1 e cs = file_bytes img s e cs"
    by (simp_all add: cluster_size_def clusters_ok_def cluster_pos_def fat_reserved_def file_bytes_def same)
  have ch: "walked n img (fat_reserved s1) cs" "clusters_ok n s1 e cs"
    using file_clusters_walked [OF cl] by (simp_all add: geo)
  have pos: "desc_pos (fat_file_descriptor_at (ram s1) (block_addr (seg_blocks A + 3))) = of_nat (0 * cluster_size s1)"
    "fat16_get_first_cluster (fat_directory_item_at (ram s1)
      (item_ptr (fat_item_at (ram s1) (desc_item (fat_file_descriptor_at (ram s1) (block_addr (seg_blocks A + 3))))))) = of_nat (hd cs)"
    using od cl by (simp_all add: opened_at_def file_clusters_def)
  have "0 * cluster_size s1 + t \<le> length cs * cluster_size s1" "0 * cluster_size s1 + t < 2147483648" using t by (simp_all add: geo)
  from fread_run [OF o1(3,4) ch pos this t(1)] out obtain s2 where
    "fread P out (of_nat t) 1 (int i + 1) s1 = Ret (1, s2)" "bytes_at (ram s2) out t = take t (drop (0 * cluster_size s1) (file_bytes img s1 e cs))"
    "fat_mounted P n img s2"
    by (auto simp: same)
  with o1 f1 show ?thesis by (auto simp: geo)
qed

text \<open>
  C4: on a mounted volume whose root directory has one entry of the wanted name, ignoring the case of
  letters, and that entry is a file, \<open>fopen\<close> of \<open>0:/name\<close> for reading returns one more than the
  lowest free slot of the table of open files, and \<open>fread\<close> on that number then delivers the first
  bytes of the file: the contents of the clusters that the allocation table names from the entry's first
  cluster on, given that the code finds the links between them if there are any (\<open>file_clusters\<close>). Opening
  takes seven blocks of the heap and changes no memory but those, the heap table and the buffer of
  the search.
\<close>

theorem fopen_reads_file:
  fixes s :: "('d, 'z) file_machine_scheme"
  assumes o: "openable P n img path mode_str xs es j i (seg_blocks A) 7 s"
    and heap: "kheap_repr s (A @ replicate 7 FreeBlk @ B)" "FreeBlk \<notin> set A"
    and cl: "file_clusters n img s e (es ! j) cs"
    and t: "0 < t" "t \<le> length cs * cluster_size s" "t < 2147483648"
    and out: "range_of out t \<inter> (range_of (mount_addr s) 92 \<union> range_of (entry_local (fat_vars s)) 2) = {}"
  shows "\<exists>s1 s2. fopen P path mode_str s = Ret (int i + 1, s1) \<and> kheap_repr s1 (A @ replicate 7 (Alloc 0) @ B)
    \<and> (\<forall>x. x \<notin> search_bytes (fat_vars s) (seg_blocks A) 7 \<longrightarrow> ram s1 x = ram s x)
    \<and> fread P out (of_nat t) 1 (int i + 1) s1 = Ret (1, s2) \<and> bytes_at (ram s2) out t = take t (file_bytes img s e cs)
    \<and> fat_mounted P n img s2"
  by (rule open_and_read [OF assms])

section \<open>Status and closing\<close>

lemma fstat_run:
  fixes s :: "('d, 'z) file_machine_scheme"
  assumes op: "open_file s fd (block_addr b)" "opened_at (ram s) b item" "b + 3 \<le> 25600"
    and st: "unat stat mod 4 = 0" "unat stat + 8 < 4294967296" "\<And>a. in_range a stat 8 \<Longrightarrow> \<not> in_blocks b 3 a"
  shows "\<exists>s'. fstat P fd stat s = Ret (0, s') \<and> s' = s\<lparr>ram := ram s'\<rparr> \<and> load32 (ram s') (stat + 4) = file_size item
    \<and> (\<forall>a. \<not> in_range a stat 8 \<longrightarrow> ram s' a = ram s a)"
proof -
  define m2 where "m2 = store32 (store32 (ram s) (stat + 4) (file_size item)) stat 0"
  define m3 where "m3 = (if attribute item AND 1 \<noteq> 0 then store32 m2 stat (load32 m2 stat OR 1) else m2)"
  define s' where "s' = s\<lparr>ram := m3\<rparr>"
  have u: "unat (stat + 4) = unat stat + 4" using st(2) unat_forward [of stat 4] by simp
  have al: "unat (stat + 4) mod 4 = 0" using st(1) u by simp
  have out: "m2 a = ram s a" "m3 a = ram s a" if "\<not> in_range a stat 8" for a
  proof -
    have "\<not> in_range a stat 4" "\<not> in_range a (stat + 4) 4"
      using that in_range_part [of 0 4 8 a stat] in_range_part [of 4 4 8 a stat] by auto
    then show "m2 a = ram s a" "m3 a = ram s a" by (simp_all add: m3_def m2_def store32_outside)
  qed
  have "opened_at m2 b item" by (rule opened_at_cong [OF op(2,3)]) (use st(3) out in blast)
  then have it: "fat_file_descriptor_at (ram s) (block_addr b) = \<lparr>desc_item = block_addr (b + 1), desc_pos = 0\<rparr>"
    "fat_item_at (ram s) (block_addr (b + 1)) = \<lparr>item_ptr = block_addr (b + 2), item_type = 1\<rparr>"
    "fat_directory_item_at (ram s) (block_addr (b + 2)) = item" "fat_directory_item_at m2 (block_addr (b + 2)) = item"
    using op(2) by (simp_all add: opened_at_def)
  have "fat16_stat MainDisk (block_addr b) stat s = Ret (0, s')"
    using it by (simp add: fat16_stat_def outcome_simps poke_def m2_def [symmetric] m3_def s'_def)
  then have "fstat P fd stat s = Ret (0, s')"
    using op(1) by (simp add: fstat_def open_file_def file_get_descriptor_def outcome_simps fs_at_def fat16_filesystem_def)
  moreover have "load32 m3 (stat + 4) = file_size item"
    using st(1) al by (simp add: m3_def m2_def load32_store32_same load32_store32_other)
  ultimately show ?thesis using out by (intro exI [of _ s']) (simp add: s'_def)
qed

lemma fclose_run:
  fixes s :: "('d, 'z) file_machine_scheme"
  assumes heap: "kheap_repr s (A @ Alloc 0 # Alloc 0 # Alloc 0 # Alloc 0 # B)"
    and op: "open_file s fd (block_addr (seg_blocks A))" "opened_at (ram s) (seg_blocks A) item"
      "file_descriptors s ! nat (fd - 1) = block_addr (seg_blocks A + 3)"
  shows "\<exists>s'. fclose P fd s = Ret (0, s') \<and> kheap_repr s' (A @ FreeBlk # FreeBlk # FreeBlk # FreeBlk # B)
    \<and> s' = s\<lparr>ram := ram s', file_descriptors := (file_descriptors s)[nat (fd - 1) := 0]\<rparr>
    \<and> (\<forall>a. \<not> in_range a 0x7E00 25600 \<longrightarrow> ram s' a = ram s a)"
proof -
  let ?b = "seg_blocks A"
  have sb: "seg_blocks (A @ [Alloc 0]) = ?b + 1" "seg_blocks (A @ [Alloc 0, Alloc 0]) = ?b + 2"
    "seg_blocks (A @ [FreeBlk, FreeBlk, FreeBlk]) = ?b + 3" by (simp_all add: eval_nat_numeral)
  have "kheap_repr s ((A @ [Alloc 0, Alloc 0]) @ Alloc 0 # Alloc 0 # B)" using heap by simp
  from kfree_run [OF this, unfolded sb] obtain s1 where
    k1: "kfree (block_addr (?b + 2)) s = Ret ((), s1)" and h1: "kheap_repr s1 (A @ Alloc 0 # Alloc 0 # FreeBlk # Alloc 0 # B)"
    and e1: "s1 = s\<lparr>ram := ram s1\<rparr>" and f1: "\<forall>a. \<not> in_range a 0x7E00 25600 \<longrightarrow> ram s1 a = ram s a" by auto
  have "kheap_repr s1 ((A @ [Alloc 0]) @ Alloc 0 # FreeBlk # Alloc 0 # B)" using h1 by simp
  from kfree_run [OF this, unfolded sb] obtain s2 where
    k2: "kfree (block_addr (?b + 1)) s1 = Ret ((), s2)" and h2: "kheap_repr s2 (A @ Alloc 0 # FreeBlk # FreeBlk # Alloc 0 # B)"
    and e2: "s2 = s1\<lparr>ram := ram s2\<rparr>" and f2: "\<forall>a. \<not> in_range a 0x7E00 25600 \<longrightarrow> ram s2 a = ram s1 a" by auto
  from kfree_run [OF h2] obtain s3 where
    k3: "kfree (block_addr ?b) s2 = Ret ((), s3)" and h3: "kheap_repr s3 (A @ FreeBlk # FreeBlk # FreeBlk # Alloc 0 # B)"
    and e3: "s3 = s2\<lparr>ram := ram s3\<rparr>" and f3: "\<forall>a. \<not> in_range a 0x7E00 25600 \<longrightarrow> ram s3 a = ram s2 a" by auto
  have e3: "s3 = s\<lparr>ram := ram s3\<rparr>" by (subst e3, subst e2, subst e1) simp
  define s4 where "s4 = s3\<lparr>file_descriptors := (file_descriptors s)[nat (fd - 1) := 0]\<rparr>"
  have "kheap_repr s4 ((A @ [FreeBlk, FreeBlk, FreeBlk]) @ Alloc 0 # B)"
    by (rule kheap_repr_cong [of s3]) (use h3 in \<open>simp_all add: s4_def\<close>)
  from kfree_run [OF this, unfolded sb] obtain s5 where
    k5: "kfree (block_addr (?b + 3)) s4 = Ret ((), s5)" and h5: "kheap_repr s5 (A @ FreeBlk # FreeBlk # FreeBlk # FreeBlk # B)"
    and e5: "s5 = s4\<lparr>ram := ram s5\<rparr>" and f5: "\<forall>a. \<not> in_range a 0x7E00 25600 \<longrightarrow> ram s5 a = ram s4 a" by auto
  have same: "descriptors s3 = descriptors s" "file_descriptors s3 = file_descriptors s" by (subst e3, simp)+
  have "fat16_close (block_addr ?b) s = Ret (0, s3)"
    using op(2) k1 k2 k3
    by (simp add: fat16_close_def fat16_free_file_descriptor_def fat16_fat_item_free_def outcome_simps opened_at_def)
  then have "fclose P fd s = Ret (0, s5)"
    using op(1,3) k5
    by (simp add: fclose_def open_file_def file_get_descriptor_def outcome_simps fs_at_def fat16_filesystem_def
        file_free_descriptor_def same s4_def)
  moreover have "s5 = s\<lparr>ram := ram s5, file_descriptors := (file_descriptors s)[nat (fd - 1) := 0]\<rparr>"
    by (subst e5, simp add: s4_def, subst e3, simp)
  moreover have "ram s5 a = ram s a" if "\<not> in_range a 0x7E00 25600" for a
    using that f1 f2 f3 f5 by (simp add: s4_def)
  ultimately show ?thesis using h5 by blast
qed

section \<open>A concrete volume\<close>

text \<open>The volume of \<open>fat_machine_0\<close> with a root directory of one file, \<open>A\<close>, in
  cluster 2, and with clusters of two sectors.\<close>

definition open_entry :: "u8 list" where
  "open_entry = [0x41, 0x20, 0x20, 0x20, 0x20, 0x20, 0x20, 0x20, 0x20, 0x20, 0x20, 0x20, 0, 0, 0, 0, 0, 0, 0, 0, 0, 0, 0, 0, 0, 0, 2, 0, 0, 4, 0, 0]"

definition open_ram :: mem where
  "open_ram a =
     (if in_range a 0x2400 32 then open_entry ! unat (a - 0x2400)
      else if in_range a 0x2500 5 then [0x30, 0x3A, 0x2F, 0x61, 0] ! unat (a - 0x2500)
      else if a = 0x2600 then 0x72 else (fat_ram(0x100D := 2, 0x1041 := 0x24, 0x1044 := 1)) a)"

definition open_state :: "(simple_drive, 'z) file_machine_scheme \<Rightarrow> bool" where
  "open_state s \<longleftrightarrow> ram s = open_ram \<and> kernel_heap s = kheap \<and> dev s = (\<lambda>_. 0, [], 0)
     \<and> the_disk s = \<lparr>dk_type = 0, dk_sector_size = 512, dk_id = 0, dk_filesystem = 0x3000, dk_fs_private = 0x1000\<rparr>
     \<and> streams s = (\<lambda>_. Some \<lparr>stream_pos = 0, stream_disk = MainDisk\<rparr>)
     \<and> fat_vars s = \<lparr>fat16_fs = 0x3000, item_local = 0x4000, empty_item_local = 0x5000, entry_local = 0x6000, tmp_filename = 0x7000\<rparr>
     \<and> file_descriptors s = replicate 512 0"

definition zero_from :: "nat \<Rightarrow> mem \<Rightarrow> bool" where
  "zero_from n m \<longleftrightarrow> (\<forall>a. n \<le> unat a \<longrightarrow> m a = 0)"

lemma zero_from_intros: "zero_from n (\<lambda>_. 0)" "unat k < n \<Longrightarrow> zero_from n m \<Longrightarrow> zero_from n (m(k := v))"
  by (auto simp: zero_from_def)

lemma open_ram_high: "zero_from 0x2601 open_ram"
proof -
  have "zero_from 0x2601 (fat_ram(0x100D := 2, 0x1041 := 0x24, 0x1044 := 1))"
    unfolding fat_ram_def by (intro zero_from_intros) simp_all
  then show ?thesis by (auto simp: zero_from_def open_ram_def in_range_forward)
qed

lemma open_state_fields:
  assumes "open_state s"
  shows "ram s = open_ram" "mount_addr s = 0x1000" "fat16_fs (fat_vars s) = 0x3000" "entry_local (fat_vars s) = 0x6000"
    "item_local (fat_vars s) = 0x4000" "empty_item_local (fat_vars s) = 0x5000" "tmp_filename (fat_vars s) = 0x7000"
    "dk_filesystem (the_disk s) = 0x3000"
  using assms by (simp_all add: open_state_def mount_addr_def)

lemma open_state_mount:
  assumes "open_state s"
  shows "cluster_read_stream (mount s) = 0x1100" "fat_read_stream (mount s) = 0x1200"
    "directory_stream (mount s) = 0x1300" "cluster_size s = 1024" "fat_reserved s = 1"
    "root_directory (mount s) = \<lparr>dir_item = 0x2400, dir_total = 1, dir_sector_pos = 0, dir_ending_sector_pos = 3\<rparr>"
proof -
  have m: "mount s = fat_private_at (fat_ram(0x100D := 2, 0x1041 := 0x24, 0x1044 := 1)) 0x1000"
    unfolding mount_def open_state_fields [OF assms]
  proof (rule fat_private_at_cong)
    fix a :: u32 assume "in_range a 0x1000 92"
    then have "\<not> in_range a 0x2400 32" "\<not> in_range a 0x2500 5" "a \<noteq> 0x2600" by (auto simp: in_range_forward)
    then show "open_ram a = (fat_ram(0x100D := 2, 0x1041 := 0x24, 0x1044 := 1)) a" by (simp add: open_ram_def)
  qed
  show "cluster_read_stream (mount s) = 0x1100" "fat_read_stream (mount s) = 0x1200"
    "directory_stream (mount s) = 0x1300" "cluster_size s = 1024" "fat_reserved s = 1"
    "root_directory (mount s) = \<lparr>dir_item = 0x2400, dir_total = 1, dir_sector_pos = 0, dir_ending_sector_pos = 3\<rparr>"
    by (simp_all add: m fat_private_at_def fat_directory_at_def fat_h_at_def load32_def load16_def
        cluster_size_def fat_reserved_def fat_ram_def)
qed

lemma open_state_mounted:
  assumes "open_state s" "\<And>k. length (img k) = 512"
  shows "fat_mounted (simple_ports img) 65536 img s"
proof -
  have "drive_ok (simple_ports img) 65536 img (dev s)"
    unfolding drive_ok_def
    by (intro exI conjI, rule simple_drive_ata) (use assms in \<open>simp_all add: open_state_def\<close>)
  moreover have "disjoint_ranges 0x4000 32 0x1000 92" "disjoint_ranges 0x5000 32 0x1000 92" "disjoint_ranges 0x6000 2 0x1000 92"
    by (rule disjoint_ranges_sym, rule disjoint_rangesI, simp_all)+
  moreover have "stream_ok s p" "dk_sector_size (the_disk s) = 512" for p
    using assms(1) by (simp_all add: stream_ok_def open_state_def)
  ultimately show ?thesis
    unfolding fat_mounted_def by (simp add: open_state_mount [OF assms(1)] open_state_fields [OF assms(1)])
qed

lemma open_state_heap:
  assumes "open_state s"
  shows "kheap_repr s (replicate 25600 FreeBlk)"
proof (rule kheap_repr_cong [OF zero_machine_repr])
  fix a assume "in_range a 0x7E00 25600"
  then show "ram s a = ram zero_machine a"
    using open_ram_high by (simp add: open_state_fields [OF assms] zero_machine_def in_range_forward zero_from_def)
qed (use assms in \<open>simp add: open_state_def zero_machine_def\<close>)

lemma open_entry_facts:
  "bytes_at open_ram 0x2400 32 = open_entry" "entry_name open_entry = [0x41]"
  "attribute (entry_item open_entry) AND 0x10 = 0" "fat16_get_first_cluster (entry_item open_entry) = 2"
  "file_size (entry_item open_entry) = 1024"
proof -
  have l: "length open_entry = 32" by (simp add: open_entry_def)
  show "bytes_at open_ram 0x2400 32 = open_entry"
    by (rule nth_equalityI) (simp_all add: l open_ram_def in_range_def unat_of_nat_u32)
  show "entry_name open_entry = [0x41]"
    by (simp add: entry_name_def open_entry_def unpadded_def)
  have b: "put_bytes (\<lambda>_. 0) 0 open_entry (of_nat k) = open_entry ! k" if "k < 32" for k
    using that by (simp add: l put_bytes_apply in_range_def unat_of_nat_u32)
  note bs = b [of 11] b [of 20] b [of 21] b [of 26] b [of 27] b [of 28] b [of 29] b [of 30] b [of 31]
  show "attribute (entry_item open_entry) AND 0x10 = 0" "fat16_get_first_cluster (entry_item open_entry) = 2"
    "file_size (entry_item open_entry) = 1024"
    using bs unfolding entry_item_def fat_directory_item_at_def
    by (simp_all add: fat16_get_first_cluster_def load16_def load32_def open_entry_def del: put_bytes.simps)
qed

lemma open_state_openable:
  assumes st: "open_state s" and img: "\<And>k. length (img k) = 512" and N: "N \<le> 25600"
  shows "openable (simple_ports img) 65536 img 0x2500 0x2600 [0x61] [open_entry] 0 0 0 N s"
proof -
  note fields = open_state_fields [OF st] open_state_mount [OF st]
  have str: "cstr (ram s) 0x2500 (0x30 # 0x3A # 0x2F # [0x61])"
    by (simp add: fields open_ram_def in_range_def)
  have aw: "away 0x2500 (length [0x61 :: u8] + 4) 0 N"
    using N by (auto simp: away_def in_range_forward unat_block_addr)
  have mode: "ram s 0x2600 = 0x72" "0x2600 \<notin> search_bytes (fat_vars s) 0 N"
    by (simp_all add: fields open_ram_def in_range_def search_bytes_def in_blocks_def)
  have es: "root_entries s [open_entry]" "file_entry [open_entry] 0 [0x61]"
    by (simp_all add: root_entries_def fields open_entry_facts file_entry_def same_name_def tolower_def Let_def)
  have clear: "volume_bytes s [open_entry] \<inter> search_bytes (fat_vars s) 0 N = {}"
    by (auto simp: volume_bytes_def search_bytes_def fields in_range_forward in_blocks_def)
  have buf: "buffer_apart (fat_vars s) 0 N"
    by (auto simp: buffer_apart_def fields in_range_forward in_blocks_def)
  have "file_descriptors s = replicate 512 0" using st by (simp add: open_state_def)
  then have slot: "free_slot (file_descriptors s) 0 = Some 0" "length (file_descriptors s) = 512" by (simp_all add: eval_nat_numeral)
  show ?thesis
    unfolding openable_defs using str aw mode es clear buf slot open_state_mounted [OF st img] by (simp add: fields)
qed

lemma open_state_clusters:
  assumes "open_state s"
  shows "file_clusters 65536 img s 3 open_entry [2]" "file_bytes img s 3 [2] = stream_bytes img 1536 1024"
  using open_state_mount [OF assms]
  by (simp_all add: file_clusters_def open_entry_facts links_found_single clusters_ok_def cluster_pos_def file_bytes_def)

definition open_machine :: "simple_drive file_machine" where
  "open_machine = file_machine_0\<lparr>ram := open_ram, file_descriptors := replicate 512 0, descriptors := (\<lambda>_. None)\<rparr>"

lemma open_machine_state: "open_state open_machine"
  by (simp add: open_state_def open_machine_def file_machine_0_def)

theorem fopen_reads_file_witness:
  "\<exists>s1 s2. fopen (simple_ports fat_image) 0x2500 0x2600 open_machine = Ret (1, s1)
    \<and> fread (simple_ports fat_image) 0x10000 514 1 1 s1 = Ret (1, s2)
    \<and> bytes_at (ram s2) 0x10000 514 = stream_bytes fat_image 1536 514"
proof -
  note st = open_machine_state and cl = open_state_clusters [OF open_machine_state, of fat_image]
  have "(25600 :: nat) = 7 + 25593" by simp
  then have heap: "kheap_repr open_machine ([] @ replicate 7 FreeBlk @ replicate 25593 FreeBlk)"
    using open_state_heap [OF st] by (simp only: replicate_add append_Nil)
  have o: "openable (simple_ports fat_image) 65536 fat_image 0x2500 0x2600 [0x61] [open_entry] 0 0 (seg_blocks []) 7 open_machine"
    using open_state_openable [OF st image_length(1), of 7] by simp
  have "file_clusters 65536 fat_image open_machine 3 ([open_entry] ! 0) [2]" using cl by simp
  moreover have "range_of 0x10000 514 \<inter> (range_of (mount_addr open_machine) 92 \<union> range_of (entry_local (fat_vars open_machine)) 2) = {}"
    by (auto simp: open_state_fields [OF st] in_range_forward)
  ultimately show ?thesis
    using fopen_reads_file [OF o heap, of 3 "[2]" 514 "0x10000"]
    by (simp add: cl(2) take_stream_bytes open_state_fields [OF st] open_state_mount [OF st]) blast
qed

end
