(* ===== verification/ElfOpen.thy ===== *)
theory ElfOpen imports ElfLoader FileOpen
begin

text \<open>
  Loading a program file into memory, \<open>elf_load\<close> of \<open>src/src/loader/formats/elfloader.c\<close>, through all
  layers below it: the file is opened by its path, its size asked for, read into a new allocation,
  examined and closed.
\<close>

section \<open>Loading\<close>

text \<open>What loading a file may change.\<close>

definition file_frame :: "('d, 'z) elf_machine_scheme \<Rightarrow> ('d, 'z) elf_machine_scheme \<Rightarrow> bool" where
  "file_frame s t \<longleftrightarrow> t = s\<lparr>ram := ram t, dev := dev t, streams := streams t, path_roots := path_roots t, path_parts := path_parts t,
     file_descriptors := file_descriptors t, descriptors := descriptors t, elf_files := elf_files t\<rparr>"

lemma file_frame_trans: "file_frame s t \<Longrightarrow> file_frame t u \<Longrightarrow> file_frame s u"
proof -
  assume st: "file_frame s t" and tu: "file_frame t u"
  have e: "t\<lparr>ram := v1, dev := v2, streams := v3, path_roots := v4, path_parts := v5, file_descriptors := v6, descriptors := v7, elf_files := v8\<rparr>
    = s\<lparr>ram := v1, dev := v2, streams := v3, path_roots := v4, path_parts := v5, file_descriptors := v6, descriptors := v7, elf_files := v8\<rparr>"
    for v1 v2 v3 v4 v5 v6 v7 v8
    by (subst st [unfolded file_frame_def]) simp
  show "file_frame s u" using tu unfolding file_frame_def e .
qed

lemma file_frameI:
  "t = s\<lparr>ram := v1\<rparr> \<Longrightarrow> file_frame s t"
  "t = s\<lparr>elf_files := v8\<rparr> \<Longrightarrow> file_frame s t"
  "t = s\<lparr>ram := v1, dev := v2, streams := v3\<rparr> \<Longrightarrow> file_frame s t"
  "t = s\<lparr>ram := v1, file_descriptors := v6\<rparr> \<Longrightarrow> file_frame s t"
  "t = s\<lparr>ram := v1, path_parts := v5, path_roots := v4, file_descriptors := v6, descriptors := v7\<rparr> \<Longrightarrow> file_frame s t"
  by (simp_all add: file_frame_def)

lemma file_frame_fields:
  assumes "file_frame s t"
  shows "kernel_heap t = kernel_heap s" "the_disk t = the_disk s" "fat_vars t = fat_vars s" "stat_local t = stat_local s"
    "literal_r t = literal_r s" "mount_addr t = mount_addr s" "elf_machine.more t = elf_machine.more s"
  by (subst assms [unfolded file_frame_def], simp add: mount_addr_def)+

text \<open>The locals whose address the code takes lie outside the heap table, the \<open>N\<close> blocks from \<open>a\<close> and the private data.\<close>

definition load_locals :: "('d, 'z) elf_machine_scheme \<Rightarrow> nat \<Rightarrow> nat \<Rightarrow> bool" where
  "load_locals s a N \<longleftrightarrow> unat (stat_local s) mod 4 = 0 \<and> unat (stat_local s) + 8 < 4294967296
     \<and> (\<forall>x. in_range x (stat_local s) 8 \<or> in_range x (entry_local (fat_vars s)) 2 \<longrightarrow> \<not> in_range x 0x7E00 25600 \<and> \<not> in_blocks a N x)
     \<and> disjoint_ranges (stat_local s) 8 (mount_addr s) 92"

text \<open>The file struct before the segments are examined.\<close>

definition raw_file :: "u32 \<Rightarrow> elf_file" where
  "raw_file ptr = no_elf_file\<lparr>elf_memory := ptr\<rparr>"

text \<open>Between opening and closing: the size, the allocation, the contents and the examination.\<close>

lemma elf_load_file_run:
  fixes s :: "('d, 'z) elf_machine_scheme"
  assumes op: "open_file s fd (block_addr b)" "opened_at (ram s) b item" "b + 3 \<le> seg_blocks A"
    and heap: "kheap_repr s (A @ replicate (Suc k) FreeBlk @ B)" "FreeBlk \<notin> set A"
    and mounted: "fat_mounted P n img s" and locals: "load_locals s b (seg_blocks A - b + Suc k)"
    and cl: "fat16_get_first_cluster item = of_nat (hd cs)" "walked n img (fat_reserved s) cs" "clusters_ok n s e cs"
    and t: "file_size item = of_nat t" "0 < t" "t \<le> length cs * cluster_size s" "t < 2147483648" "4096 * k < t" "t \<le> 4096 * Suc k"
    and ef: "elf_files s ef = Some no_elf_file"
    and apart: "\<And>x. in_range x (mount_addr s) 92 \<Longrightarrow> \<not> in_range x 0x7E00 25600 \<and> \<not> in_blocks (seg_blocks A) (Suc k) x"
  defines "ptr \<equiv> block_addr (seg_blocks A)"
  shows "\<exists>s'. elf_load_file P fd ef s = Ret ((0, ef), s') \<and> kheap_repr s' (A @ Alloc k # B) \<and> fat_mounted P n img s'
    \<and> bytes_at (ram s') ptr t = take t (file_bytes img s e cs)
    \<and> elf_files s' = (elf_files s)(ef \<mapsto> snd (elf_process_loaded (ram s') (raw_file ptr)))
    \<and> file_frame s s' \<and> file_descriptors s' = file_descriptors s \<and> descriptors s' = descriptors s
    \<and> (\<forall>x. \<not> in_range x 0x7E00 25600 \<and> \<not> in_blocks (seg_blocks A) (Suc k) x \<and> \<not> in_range x (stat_local s) 8
         \<and> \<not> in_range x (entry_local (fat_vars s)) 2 \<longrightarrow> ram s' x = ram s x)"
proof -
  let ?stat = "stat_local s" and ?E = "range_of (entry_local (fat_vars s)) 2" and ?c = "seg_blocks A"
  have blocks: "?c + Suc k \<le> 25600" using kheap_repr_blocks [OF heap(1)] by simp
  have loc: "\<not> in_range x 0x7E00 25600 \<and> \<not> in_blocks b 3 x \<and> \<not> in_blocks ?c (Suc k) x" if "in_range x ?stat 8 \<or> x \<in> ?E" for x
    using locals that op(3) by (auto simp: load_locals_def in_blocks_def)
  have al: "unat ?stat mod 4 = 0" "unat ?stat + 8 < 4294967296" "disjoint_ranges ?stat 8 (mount_addr s) 92"
    using locals by (simp_all add: load_locals_def)
  have b3: "b + 3 \<le> 25600" using op(3) blocks by simp
  from fstat_run [OF op(1,2) b3 al(1,2)] loc obtain s1 where
    r1: "fstat P fd ?stat s = Ret (0, s1)" and e1: "s1 = s\<lparr>ram := ram s1\<rparr>" and l1: "load32 (ram s1) (?stat + 4) = file_size item"
    and f1: "\<forall>a. \<not> in_range a ?stat 8 \<longrightarrow> ram s1 a = ram s a" by blast
  have h1: "kheap_repr s1 (A @ replicate (Suc k) FreeBlk @ B)"
    by (rule kheap_repr_cong [OF heap(1)]) (use arg_cong [OF e1, of kernel_heap] f1 loc in auto)
  have sz: "unat (of_nat t :: u32) = t" using t(4) by (simp add: unat_of_nat_u32)
  from kzalloc_run [OF h1 heap(2), of "file_size item", unfolded t(1) sz, OF t(5,6), folded ptr_def] obtain s2 where
    z2: "kzalloc (of_nat t) s1 = Ret (ptr, s2)" and h2: "kheap_repr s2 (A @ Alloc k # B)" and e2: "s2 = s1\<lparr>ram := ram s2\<rparr>"
    and f2: "\<forall>a. \<not> in_range a ptr t \<and> \<not> in_range a 0x7E00 25600 \<longrightarrow> ram s2 a = ram s1 a" by blast
  have pin: "in_blocks ?c (Suc k) x" if "in_range x ptr t" for x
    using that blocks t(6) unat_block_addr [of ?c] by (simp add: ptr_def in_range_forward in_blocks_def)
  define s3 where "s3 = s2\<lparr>elf_files := (elf_files s)(ef \<mapsto> raw_file ptr)\<rparr>"
  have e2': "s2 = s\<lparr>ram := ram s2\<rparr>" by (subst e2, subst e1) simp
  have fr1: "file_frame s s1" and fr2: "file_frame s s2" by (rule file_frameI(1), rule e1, rule file_frameI(1), rule e2')
  have ef1: "elf_files s1 = elf_files s" and ef2: "elf_files s2 = elf_files s" by (subst e1, simp, subst e2', simp)
  have "streams s2 = streams s" "dev s2 = dev s" "file_descriptors s2 = file_descriptors s" "descriptors s2 = descriptors s"
    by (subst e2', simp)+
  then have same: "streams s3 = streams s" "dev s3 = dev s" "file_descriptors s3 = file_descriptors s" "descriptors s3 = descriptors s"
    "the_disk s3 = the_disk s" "fat_vars s3 = fat_vars s" "mount_addr s3 = mount_addr s"
    using file_frame_fields [OF fr2] by (simp_all add: s3_def mount_addr_def)
  have k3: "ram s3 x = ram s x" if "\<not> in_range x 0x7E00 25600" "\<not> in_blocks ?c (Suc k) x" "\<not> in_range x ?stat 8" for x
    using that f1 f2 pin [of x] by (simp add: s3_def) metis
  have m92: "ram s3 x = ram s x" if "in_range x (mount_addr s) 92" for x
    using that apart [OF that] al(3) by (intro k3) (auto simp: disjoint_ranges_def)
  have ms: "mount s3 = mount s" unfolding mount_def same(7) by (rule fat_private_at_cong) (rule m92)
  have geo: "cluster_size s3 = cluster_size s" "clusters_ok n s3 e cs = clusters_ok n s e cs" "fat_reserved s3 = fat_reserved s"
    "file_bytes img s3 e cs = file_bytes img s e cs"
    by (simp_all add: cluster_size_def clusters_ok_def cluster_pos_def fat_reserved_def file_bytes_def ms)
  have mt3: "fat_mounted P n img s3" using mounted by (simp add: fat_mounted_def stream_ok_def ms same)
  have op3: "open_file s3 fd (block_addr b)" using op(1) by (simp add: open_file_def same)
  have od3: "opened_at (ram s3) b item"
  proof (rule opened_at_cong [OF op(2) b3])
    fix x assume x: "in_blocks b 3 x"
    then have "\<not> in_range x 0x7E00 25600" "\<not> in_blocks ?c (Suc k) x" using op(3) by (auto simp: in_blocks_def in_range_forward)
    moreover have "\<not> in_range x ?stat 8" using loc [of x] x by blast
    ultimately show "ram s3 x = ram s x" by (rule k3)
  qed
  have "load32 (ram s2) (?stat + 4) = load32 (ram s1) (?stat + 4)"
  proof (rule load32_range)
    fix x assume "in_range x (?stat + 4) 4"
    then have "in_range x ?stat 8" using in_range_part [of 4 4 8 x ?stat] by simp
    with loc pin f2 show "ram s2 x = ram s1 x" by blast
  qed
  then have l2: "load32 (ram s2) (?stat + 4) = of_nat t" using l1 t(1) by simp
  have dt: "desc_pos (fat_file_descriptor_at (ram s3) (block_addr b)) = of_nat (0 * cluster_size s3)"
    "fat16_get_first_cluster (fat_directory_item_at (ram s3) (item_ptr (fat_item_at (ram s3)
      (desc_item (fat_file_descriptor_at (ram s3) (block_addr b)))))) = of_nat (hd cs)"
    using od3 cl(1) by (simp_all add: opened_at_def)
  have ch: "walked n img (fat_reserved s3) cs" "clusters_ok n s3 e cs" "0 * cluster_size s3 + t \<le> length cs * cluster_size s3"
    "0 * cluster_size s3 + t < 2147483648"
    using cl t by (simp_all add: geo)
  have "range_of ptr t \<inter> (range_of (mount_addr s3) 92 \<union> range_of (entry_local (fat_vars s3)) 2) = {}"
    using pin loc apart by (simp add: same set_eq_iff) blast
  from fread_run [OF op3 mt3 ch(1,2) dt ch(3,4) t(2) this] obtain s4 where
    r4: "fread P ptr (of_nat t) 1 fd s3 = Ret (1, s4)" and b4: "bytes_at (ram s4) ptr t = take t (file_bytes img s e cs)"
    and ri: "reads_into (?E \<union> range_of ptr t) s3 s4" and mt4: "fat_mounted P n img s4"
    and tb4: "file_descriptors s4 = file_descriptors s" "descriptors s4 = descriptors s"
    by (auto simp: same geo)
  have e4: "s4 = s3\<lparr>ram := ram s4, dev := dev s4, streams := streams s4\<rparr>" using ri by (simp add: reads_into_def)
  have ef4: "elf_files s4 = (elf_files s)(ef \<mapsto> raw_file ptr)" by (subst e4) (simp add: s3_def)
  define s5 where "s5 = s4\<lparr>elf_files := (elf_files s)(ef \<mapsto> snd (elf_process_loaded (ram s4) (raw_file ptr)))\<rparr>"
  have mt5: "fat_mounted P n img s5" using mt4 by (simp add: fat_mounted_def stream_ok_def mount_def mount_addr_def s5_def)
  obtain f' where f': "elf_process_loaded (ram s4) (raw_file ptr) = (0, f')"
    using elf_process_loaded_hides_format [of "ram s4" "raw_file ptr"] by (metis prod.collapse)
  have l3: "load32 (ram s3) (?stat + 4) = of_nat t" using l2 by (simp add: s3_def)
  have s5: "s5 = s4\<lparr>elf_files := (elf_files s)(ef \<mapsto> f')\<rparr>" by (simp add: s5_def f')
  have run: "elf_load_file P fd ef s = Ret ((0, ef), s5)"
    using r1 l1 z2 r4 t(1) ef ef1 ef2
    by (simp add: elf_load_file_def outcome_simps raw_file_def [symmetric] s3_def [symmetric] l3 ef4 f' s5)
  have out: "ram s5 x = ram s3 x" if "\<not> in_blocks ?c (Suc k) x" "\<not> in_range x (entry_local (fat_vars s)) 2" for x
    using ri that pin by (auto simp: s5_def reads_into_def)
  have "kheap_repr s5 (A @ Alloc k # B)"
  proof (rule kheap_repr_cong [OF h2])
    show "kernel_heap s5 = kernel_heap s2" by (simp add: s5_def, subst e4, simp add: s3_def)
    fix x assume x: "in_range x 0x7E00 25600"
    then have "\<not> in_blocks ?c (Suc k) x" by (simp add: in_blocks_def in_range_forward)
    moreover have "\<not> in_range x (entry_local (fat_vars s)) 2" using loc [of x] x by auto
    ultimately show "ram s5 x = ram s2 x" using out [of x] by (simp add: s3_def)
  qed
  moreover have "file_frame s s5"
  proof (rule file_frame_trans [OF fr2])
    have "file_frame s2 s3" by (rule file_frameI(2)) (simp add: s3_def)
    moreover have "file_frame s3 s4" by (rule file_frameI(3) [OF e4])
    moreover have "file_frame s4 s5" by (rule file_frameI(2)) (simp add: s5_def)
    ultimately show "file_frame s2 s5" by (blast intro: file_frame_trans)
  qed
  moreover have "ram s5 x = ram s x" if "\<not> in_range x 0x7E00 25600" "\<not> in_blocks ?c (Suc k) x" "\<not> in_range x ?stat 8"
    "\<not> in_range x (entry_local (fat_vars s)) 2" for x
    using that k3 out by simp
  ultimately show ?thesis using run mt5 b4 tb4 by (intro exI [of _ s5]) (simp add: s5_def)
qed

lemma elf_load_run:
  fixes s :: "('d, 'z) elf_machine_scheme"
  assumes o: "openable P n img path (literal_r s) xs es j i (seg_blocks A) (9 + k) s"
    and heap: "kheap_repr s (A @ replicate (9 + k) FreeBlk @ B)" "FreeBlk \<notin> set A"
    and locals: "load_locals s (seg_blocks A) (9 + k)" and cl: "file_clusters n img s e (es ! j) cs"
    and t: "file_size (entry_item (es ! j)) = of_nat t" "0 < t" "t \<le> length cs * cluster_size s" "t < 2147483648" "4096 * k < t" "t \<le> 4096 * Suc k"
  defines "a \<equiv> seg_blocks A"
  defines "ptr \<equiv> block_addr (a + 8)"
  shows "\<exists>s' m. elf_load P path s = Ret ((0, block_addr a), s')
    \<and> kheap_repr s' (A @ replicate 4 (Alloc 0) @ replicate 4 FreeBlk @ Alloc k # B) \<and> fat_mounted P n img s'
    \<and> bytes_at (ram s') ptr t = take t (file_bytes img s e cs)
    \<and> elf_files s' = (elf_files s)(block_addr a \<mapsto> snd (elf_process_loaded m (raw_file ptr)))
    \<and> (\<forall>x. \<not> in_range x 0x7E00 25600 \<longrightarrow> m x = ram s' x)
    \<and> file_frame s s' \<and> file_descriptors s' = file_descriptors s
    \<and> (\<forall>x. x \<notin> search_bytes (fat_vars s) a (9 + k) \<and> \<not> in_range x (stat_local s) 8
         \<and> \<not> in_range x (entry_local (fat_vars s)) 2 \<longrightarrow> ram s' x = ram s x)"
proof -
  let ?N = "9 + k" and ?ef = "block_addr a" and ?S = "search_bytes (fat_vars s) a (9 + k)"
  note o = o [folded a_def] and locals = locals [folded a_def]
  have blocks: "a + ?N \<le> 25600" using kheap_repr_blocks [OF heap(1)] by (simp add: a_def)
  have "kheap_repr s (A @ FreeBlk # replicate (8 + k) FreeBlk @ B)" using heap(1) by (simp add: eval_nat_numeral)
  from zeroed_block(4) [OF this heap(2), of 132, folded a_def] obtain s1 where
    z1: "kzalloc 132 s = Ret (?ef, s1)" and h1: "kheap_repr s1 (A @ Alloc 0 # replicate (8 + k) FreeBlk @ B)" and e1: "s1 = s\<lparr>ram := ram s1\<rparr>"
    and f1: "\<forall>x. \<not> in_range x ?ef 4096 \<and> \<not> in_range x 0x7E00 25600 \<longrightarrow> ram s1 x = ram s x" by auto
  have ef1: "elf_files s1 = elf_files s" by (subst e1) simp
  define s2 where "s2 = s1\<lparr>elf_files := (elf_files s)(?ef \<mapsto> no_elf_file)\<rparr>"
  have fr2: "file_frame s s2"
    by (rule file_frame_trans [OF file_frameI(1) [OF e1] file_frameI(2)]) (simp add: s2_def)
  have k2: "ram s2 x = ram s x" if "\<not> in_range x 0x7E00 25600" "\<not> in_blocks a ?N x" for x
    using that f1 in_block [of a x] blocks by (auto simp: s2_def in_blocks_def)
  have "streams s1 = streams s" "dev s1 = dev s" "file_descriptors s1 = file_descriptors s" by (subst e1, simp)+
  then have same2: "streams s2 = streams s" "dev s2 = dev s" "file_descriptors s2 = file_descriptors s" by (simp_all add: s2_def)
  note fl2 = file_frame_fields [OF fr2]
  note o2 = openable_cong [OF o blocks fl2(2,3) same2 k2]
  have "openable P n img path (literal_r s) xs es j i (a + 1) 7 s2" by (rule openable_sub [OF o2(1)]) simp_all
  moreover have "kheap_repr s2 ((A @ [Alloc 0]) @ replicate 7 FreeBlk @ replicate (Suc k) FreeBlk @ B)"
  proof (rule kheap_repr_cong)
    have "replicate (8 + k) FreeBlk = replicate 7 FreeBlk @ replicate (Suc k) FreeBlk"
      using replicate_add [of 7 "Suc k" FreeBlk] by simp
    then show "kheap_repr s1 ((A @ [Alloc 0]) @ replicate 7 FreeBlk @ replicate (Suc k) FreeBlk @ B)" using h1 by simp
  qed (simp_all add: s2_def)
  ultimately obtain s3 where
    r3: "fopen P path (literal_r s) s2 = Ret (int i + 1, s3)" and h3: "kheap_repr s3 ((A @ [Alloc 0]) @ replicate 7 (Alloc 0) @ replicate (Suc k) FreeBlk @ B)"
    and op3: "open_file s3 (int i + 1) (block_addr (a + 1 + 3))" and mt3: "fat_mounted P n img s3"
    and ms3: "mount s3 = mount s2" "mount_addr s3 = mount_addr s2" "fat_vars s3 = fat_vars s2"
    and od3: "opened_at (ram s3) (a + 1 + 3) (entry_item (es ! j))"
    and e3: "s3 = s2\<lparr>ram := ram s3, path_parts := path_parts s3, path_roots := path_roots s3,
         file_descriptors := (file_descriptors s2)[i := block_addr (a + 1 + 6)], descriptors := descriptors s3\<rparr>"
    and f3: "\<forall>x. x \<notin> search_bytes (fat_vars s2) (a + 1) 7 \<longrightarrow> ram s3 x = ram s2 x"
    using fopen_openable [of P n img path "literal_r s" xs es j i "a + 1" s2 "A @ [Alloc 0]" "replicate (Suc k) FreeBlk @ B"] heap(2)
    by (auto simp: a_def)
  have n4: "a + 1 + 3 = a + 4" "a + 1 + 6 = a + 7" by simp_all
  note op3 = op3 [unfolded n4] and od3 = od3 [unfolded n4] and e3 = e3 [unfolded n4]
  let ?A8 = "A @ replicate 8 (Alloc 0)"
  have A8: "FreeBlk \<notin> set ?A8" "seg_blocks ?A8 = a + 8" using heap(2) by (simp_all add: a_def eval_nat_numeral)
  have h3: "kheap_repr s3 (?A8 @ replicate (Suc k) FreeBlk @ B)" using h3 by (simp add: eval_nat_numeral)
  have fr3: "file_frame s s3" by (rule file_frame_trans [OF fr2 file_frameI(5) [OF e3]])
  note fl3 = file_frame_fields [OF fr3]
  have S2: "search_bytes (fat_vars s2) (a + 1) 7 \<subseteq> ?S" using search_bytes_sub [of a "a + 1" 7 ?N] by (simp add: fl2)
  have k3: "ram s3 x = ram s x" if "x \<notin> ?S" for x
  proof -
    have "x \<notin> search_bytes (fat_vars s2) (a + 1) 7" using that S2 by blast
    moreover have "ram s2 x = ram s x" using that by (intro k2) (simp_all add: search_bytes_def)
    ultimately show ?thesis using f3 by simp
  qed
  have ef3: "elf_files s3 = (elf_files s)(?ef \<mapsto> no_elf_file)" by (subst e3) (simp add: s2_def)
  have ms: "mount s3 = mount s" using ms3 o2 by simp
  have geo: "cluster_size s3 = cluster_size s" "clusters_ok n s3 e cs = clusters_ok n s e cs" "fat_reserved s3 = fat_reserved s"
    "file_bytes img s3 e cs = file_bytes img s e cs"
    by (simp_all add: cluster_size_def clusters_ok_def cluster_pos_def fat_reserved_def file_bytes_def ms)
  have lc: "load_locals s3 (a + 4) (seg_blocks ?A8 - (a + 4) + Suc k)"
    unfolding A8(2) using locals by (auto simp: load_locals_def fl3 in_blocks_def)
  have cl3: "fat16_get_first_cluster (entry_item (es ! j)) = of_nat (hd cs)" "walked n img (fat_reserved s3) cs" "clusters_ok n s3 e cs"
    using file_clusters_walked [OF cl] by (simp_all add: geo)
  have ap: "\<not> in_range x 0x7E00 25600 \<and> \<not> in_blocks (seg_blocks ?A8) (Suc k) x" if "in_range x (mount_addr s3) 92" for x
  proof -
    have "x \<in> volume_bytes s es" using that by (simp add: volume_bytes_def fl3)
    then have "x \<notin> ?S" using o by (auto simp: openable_defs)
    then show ?thesis unfolding A8(2) by (auto simp: search_bytes_def in_blocks_def)
  qed
  have b3: "a + 4 + 3 \<le> seg_blocks ?A8" unfolding A8(2) by simp
  have t3: "t \<le> length cs * cluster_size s3" using t(3) by (simp add: geo)
  have ef3': "elf_files s3 ?ef = Some no_elf_file" by (simp add: ef3)
  from elf_load_file_run [OF op3 od3 b3 h3 A8(1) mt3 lc cl3 t(1,2) t3 t(4-6) ef3' ap, unfolded A8(2), folded ptr_def] obtain s4 where
    r4: "elf_load_file P (int i + 1) ?ef s3 = Ret ((0, ?ef), s4)" and h4: "kheap_repr s4 (?A8 @ Alloc k # B)" and mt4: "fat_mounted P n img s4"
    and b4: "bytes_at (ram s4) ptr t = take t (file_bytes img s e cs)"
    and ef4: "elf_files s4 = (elf_files s3)(?ef \<mapsto> snd (elf_process_loaded (ram s4) (raw_file ptr)))"
    and fr4: "file_frame s3 s4" and tb4: "file_descriptors s4 = file_descriptors s3" "descriptors s4 = descriptors s3"
    and f4: "\<forall>x. \<not> in_range x 0x7E00 25600 \<and> \<not> in_blocks (a + 8) (Suc k) x \<and> \<not> in_range x (stat_local s3) 8
         \<and> \<not> in_range x (entry_local (fat_vars s3)) 2 \<longrightarrow> ram s4 x = ram s3 x"
    unfolding geo by blast
  note fl4 = file_frame_fields [OF fr4]
  let ?A4 = "A @ replicate 4 (Alloc 0)"
  have A4: "seg_blocks ?A4 = a + 4" by (simp add: a_def eval_nat_numeral)
  have h4': "kheap_repr s4 (?A4 @ Alloc 0 # Alloc 0 # Alloc 0 # Alloc 0 # Alloc k # B)" using h4 by (simp add: eval_nat_numeral)
  have op4: "open_file s4 (int i + 1) (block_addr (a + 4))" using op3 by (simp add: open_file_def tb4 fl4)
  have od4: "opened_at (ram s4) (a + 4) (entry_item (es ! j))"
  proof (rule opened_at_cong [OF od3])
    fix x assume x: "in_blocks (a + 4) 3 x"
    then have "in_blocks a ?N x" "\<not> in_range x 0x7E00 25600" "\<not> in_blocks (a + 8) (Suc k) x" by (auto simp: in_blocks_def in_range_forward)
    moreover from this(1) have "\<not> in_range x (stat_local s3) 8" "\<not> in_range x (entry_local (fat_vars s3)) 2"
      using locals by (auto simp: load_locals_def fl3)
    ultimately show "ram s4 x = ram s3 x" using f4 by blast
  qed (use blocks in simp)
  have i: "i < 512" "file_descriptors s ! i = 0" "length (file_descriptors s) = 512"
    using o free_slot_Some [of "file_descriptors s" 0 i] by (auto simp: openable_defs)
  have fd3: "file_descriptors s3 = (file_descriptors s)[i := block_addr (a + 7)]" by (subst e3) (simp add: same2)
  have n7: "a + 4 + 3 = a + 7" by simp
  have slot4: "file_descriptors s4 ! nat (int i + 1 - 1) = block_addr (a + 4 + 3)" unfolding n7 using i tb4 fd3 by simp
  from fclose_run [OF h4', unfolded A4, OF op4 od4 slot4, of P] obtain s5 where
    r5: "fclose P (int i + 1) s4 = Ret (0, s5)" and h5: "kheap_repr s5 (?A4 @ FreeBlk # FreeBlk # FreeBlk # FreeBlk # Alloc k # B)"
    and e5: "s5 = s4\<lparr>ram := ram s5, file_descriptors := (file_descriptors s4)[nat (int i + 1 - 1) := 0]\<rparr>"
    and f5: "\<forall>x. \<not> in_range x 0x7E00 25600 \<longrightarrow> ram s5 x = ram s4 x" by blast
  have fr5: "file_frame s s5" by (rule file_frame_trans [OF fr3 file_frame_trans [OF fr4 file_frameI(4) [OF e5]]])
  note fl5 = file_frame_fields [OF fr5]
  have run: "elf_load P path s = Ret ((0, ?ef), s5)"
    using z1 r3 r4 r5 by (simp add: elf_load_def outcome_simps ef1 s2_def [symmetric] fl2)
  have "fat_mounted P n img s5"
  proof -
    have eq: "s5 = s4\<lparr>ram := ram s5, file_descriptors := (file_descriptors s4)[nat (int i + 1 - 1) := 0]\<rparr>" by (rule e5)
    have "streams s5 = streams s4" "dev s5 = dev s4" "fat_vars s5 = fat_vars s4" "the_disk s5 = the_disk s4" "mount_addr s5 = mount_addr s4"
      by (subst eq, simp add: mount_addr_def)+
    note same5 = this
    have "mount s5 = mount s4" unfolding mount_def same5(5)
      by (rule fat_private_at_cong) (use f5 ap in \<open>auto simp: fl3 fl4\<close>)
    then show ?thesis using mt4 by (simp add: fat_mounted_def stream_ok_def same5)
  qed
  moreover have "bytes_at (ram s5) ptr t = take t (file_bytes img s e cs)"
  proof -
    have u: "unat ptr = 16777216 + 4096 * (a + 8)" using blocks unat_block_addr [of "a + 8"] by (simp add: ptr_def)
    have "bytes_at (ram s5) ptr t = bytes_at (ram s4) ptr t"
      using u blocks t by (intro bytes_at_cong) (simp_all add: f5 in_range_forward)
    then show ?thesis using b4 by simp
  qed
  moreover have "elf_files s5 = (elf_files s)(?ef \<mapsto> snd (elf_process_loaded (ram s4) (raw_file ptr)))"
    by (subst e5) (simp add: ef4 ef3)
  moreover have "file_descriptors s5 = file_descriptors s"
    using i by (subst e5) (simp add: tb4 fd3 list_update_same_conv)
  moreover have "ram s5 x = ram s x" if "x \<notin> ?S" "\<not> in_range x (stat_local s) 8" "\<not> in_range x (entry_local (fat_vars s)) 2" for x
  proof -
    have "\<not> in_range x 0x7E00 25600" "\<not> in_blocks (a + 8) (Suc k) x" using that(1) by (auto simp: search_bytes_def in_blocks_def)
    then show ?thesis using f5 f4 k3 [OF that(1)] that(2,3) by (simp add: fl3)
  qed
  moreover have "kheap_repr s5 (A @ replicate 4 (Alloc 0) @ replicate 4 FreeBlk @ Alloc k # B)"
    using h5 by (simp add: eval_nat_numeral)
  moreover have "ram s4 x = ram s5 x" if "\<not> in_range x 0x7E00 25600" for x using f5 that by simp
  ultimately show ?thesis using run fr5 by (intro exI [of _ s5] exI [of _ "ram s4"]) blast
qed

text \<open>
  C3: loading a program file. On a mounted volume \<open>elf_load\<close> of the path of a file returns 0 and a file
  struct; the memory of the struct holds exactly the bytes of the file in the clusters that the allocation
  table names (whose links, if there are any, the code has to find: \<open>file_clusters\<close>), its bounds are what the
  examination of that memory gives, the slot of the open file is free again, and the memory outside
  the new blocks, the heap table and the locals is unchanged. It works for every content: a file that
  is not an ELF file is not refused. Of the eight blocks taken for the struct, the path and the open
  file only four come back: the path is never released.
\<close>

theorem elf_load_reads_file:
  fixes s :: "('d, 'z) elf_machine_scheme"
  assumes o: "openable P n img path (literal_r s) xs es j i (seg_blocks A) (9 + k) s"
    and heap: "kheap_repr s (A @ replicate (9 + k) FreeBlk @ B)" "FreeBlk \<notin> set A"
    and locals: "load_locals s (seg_blocks A) (9 + k)" and cl: "file_clusters n img s e (es ! j) cs"
    and t: "file_size (entry_item (es ! j)) = of_nat t" "0 < t" "t \<le> length cs * cluster_size s" "t < 2147483648" "4096 * k < t" "t \<le> 4096 * Suc k"
  defines "a \<equiv> seg_blocks A"
  defines "ptr \<equiv> block_addr (a + 8)"
  shows "\<exists>s' m. elf_load P path s = Ret ((0, block_addr a), s')
    \<and> kheap_repr s' (A @ replicate 4 (Alloc 0) @ replicate 4 FreeBlk @ Alloc k # B) \<and> fat_mounted P n img s'
    \<and> bytes_at (ram s') ptr t = take t (file_bytes img s e cs)
    \<and> elf_files s' = (elf_files s)(block_addr a \<mapsto> snd (elf_process_loaded m (raw_file ptr)))
    \<and> (\<forall>x. \<not> in_range x 0x7E00 25600 \<longrightarrow> m x = ram s' x)
    \<and> file_frame s s' \<and> file_descriptors s' = file_descriptors s
    \<and> (\<forall>x. x \<notin> search_bytes (fat_vars s) a (9 + k) \<and> \<not> in_range x (stat_local s) 8
         \<and> \<not> in_range x (entry_local (fat_vars s)) 2 \<longrightarrow> ram s' x = ram s x)"
  using elf_load_run [OF assms(1-11)] unfolding a_def ptr_def .

text \<open>The volume of \<open>open_state\<close> with a program of one segment as the file.\<close>

definition program_sector :: "u8 list" where
  "program_sector = [0x7F, 0x45, 0x4C, 0x46, 1, 1, 1, 0, 0, 0, 0, 0, 0, 0, 0, 0, 2, 0, 3, 0, 1, 0, 0, 0, 0x80, 0, 0x40, 0, 0x34, 0, 0, 0,
     0, 0, 0, 0, 0, 0, 0, 0, 0x34, 0, 0x20, 0, 1, 0, 0, 0, 0, 0, 0, 0,
     1, 0, 0, 0, 0, 0, 0, 0, 0, 0, 0x40, 0, 0, 0, 0x40, 0, 0, 4, 0, 0, 0, 4, 0, 0, 5, 0, 0, 0, 0, 0x10, 0, 0] @ replicate 428 0x90"

definition program_image :: "nat \<Rightarrow> u8 list" where
  "program_image k = (if k = 1 then [0xF8, 0xFF, 0xFF, 0xFF, 0xFF, 0xFF] @ replicate 506 0
     else if k = 3 then program_sector else replicate 512 0x90)"

lemma program_image_length: "length (program_image k) = 512"
  by (simp add: program_image_def program_sector_def)

definition elf_machine_0 :: "simple_drive elf_machine" where
  "elf_machine_0 = \<lparr>ram = open_ram, kernel_heap = kheap, screen = home, current_directory = 0, cr3 = 0, paging_on = False,
     dev = (\<lambda>_. 0, [], 0), the_disk = \<lparr>dk_type = 0, dk_sector_size = 512, dk_id = 0, dk_filesystem = 0x3000, dk_fs_private = 0x1000\<rparr>,
     streams = (\<lambda>_. Some \<lparr>stream_pos = 0, stream_disk = MainDisk\<rparr>), path_roots = (\<lambda>_. None), path_parts = (\<lambda>_. None),
     fat_vars = \<lparr>fat16_fs = 0x3000, item_local = 0x4000, empty_item_local = 0x5000, entry_local = 0x6000, tmp_filename = 0x7000\<rparr>,
     filesystems = 0x3000 # replicate 11 0, file_descriptors = replicate 512 0, descriptors = (\<lambda>_. None),
     elf_files = (\<lambda>_. None), stat_local = 0x7800, literal_r = 0x2600\<rparr>"

lemma elf_machine_0_state: "open_state elf_machine_0"
  by (simp add: open_state_def elf_machine_0_def)

lemma open_state_locals:
  assumes "open_state s" "stat_local s = 0x7800" "a + N \<le> 25600"
  shows "load_locals s a N"
proof -
  have "disjoint_ranges 0x7800 8 0x1000 92" by (rule disjoint_ranges_sym, rule disjoint_rangesI) simp_all
  then show ?thesis
    by (auto simp: load_locals_def assms(2) open_state_fields [OF assms(1)] in_range_forward in_blocks_def)
qed

theorem elf_load_reads_file_witness:
  "\<exists>s'. elf_load (simple_ports program_image) 0x2500 elf_machine_0 = Ret ((0, 0x1000000), s')
    \<and> bytes_at (ram s') 0x1008000 1024 = stream_bytes program_image 1536 1024"
proof -
  note st = elf_machine_0_state
  have lit: "literal_r elf_machine_0 = 0x2600" "stat_local elf_machine_0 = 0x7800" by (simp_all add: elf_machine_0_def)
  have "(25600 :: nat) = (9 + 0) + 25591" by simp
  then have heap: "kheap_repr elf_machine_0 ([] @ replicate (9 + 0) FreeBlk @ replicate 25591 FreeBlk)"
    using open_state_heap [OF st] by (simp only: replicate_add append_Nil)
  have o: "openable (simple_ports program_image) 65536 program_image 0x2500 (literal_r elf_machine_0) [0x61] [open_entry] 0 0 (seg_blocks []) (9 + 0) elf_machine_0"
    using open_state_openable [OF st program_image_length, of 9] by (simp add: lit)
  have locals: "load_locals elf_machine_0 (seg_blocks []) (9 + 0)" by (rule open_state_locals [OF st lit(2)]) simp
  note cl = open_state_clusters [OF st, of program_image]
  have "file_clusters 65536 program_image elf_machine_0 3 ([open_entry] ! 0) [2]" using cl by simp
  from elf_load_reads_file [OF o heap _ locals this, of 1024] show ?thesis
    by (simp add: cl(2) open_entry_facts open_state_mount [OF st] block_addr_def) blast
qed

end
