(* ===== verification/ProgramLoad.thy ===== *)
theory ProgramLoad imports AddressSpace ElfOpen
begin

text \<open>
  Loading a program, \<open>process_load\<close> of \<open>src/src/task/process.c\<close>, through every layer below it: the
  slot, the struct of the process, the file read from the disk, the stack, the task with its address
  space, and the pages of the segments.
\<close>

section \<open>The task of a program\<close>

text \<open>A new task with its registers and its address space, and what the call leaves alone.\<close>

lemma task_init_space:
  assumes heap: "kheap_repr s (A @ replicate 1026 FreeBlk @ B)" and A: "FreeBlk \<notin> set A" "a = seg_blocks A"
    and pr: "procs s p = Some pr" "process_type pr = 0" "elf_files s (program pr) = Some ef"
  shows "\<exists>s' tk. task_init t p s = Ret (0, s') \<and> kheap_repr s' (A @ replicate 1026 (Alloc 0) @ B)
    \<and> s' = s\<lparr>ram := ram s', tasks := (tasks s)(t \<mapsto> tk)\<rparr> \<and> ip (regs tk) = e_entry (elf_header_at (ram s') (elf_memory ef))
    \<and> page_directory tk = block_addr (a + 1025) \<and> load32 (ram s') (block_addr (a + 1025)) = block_addr a \<and> tables_built (ram s') a 5 1024
    \<and> (\<forall>x. \<not> in_range x 0x7E00 25600 \<and> (\<forall>b. a \<le> b \<and> b \<le> a + 1025 \<longrightarrow> \<not> in_range x (block_addr b) 4096) \<longrightarrow> ram s' x = ram s x)"
proof -
  let ?s1 = "s\<lparr>tasks := (tasks s)(t \<mapsto> no_task)\<rparr>" and ?c = "block_addr (a + 1025)"
  have "kheap_repr ?s1 (A @ replicate 1026 FreeBlk @ B)" by (rule kheap_repr_cong [OF heap]) simp_all
  from paging_new_4gb_run [OF this A, of 5] obtain s2 where new: "paging_new_4gb 5 ?s1 = Ret (?c, s2)"
    and r2: "kheap_repr s2 (A @ replicate 1026 (Alloc 0) @ B)" and s2: "s2 = ?s1\<lparr>ram := ram s2\<rparr>"
    and tb: "tables_built (ram s2) a 5 1024" "load32 (ram s2) ?c = block_addr a"
    and f2: "\<forall>x. \<not> in_range x 0x7E00 25600 \<and> (\<forall>b. a \<le> b \<and> b \<le> a + 1025 \<longrightarrow> \<not> in_range x (block_addr b) 4096) \<longrightarrow> ram s2 x = ram s x"
    by auto
  have "a + 1026 \<le> 25600" using kheap_repr_blocks [OF heap] A(2) by simp
  then have nz: "?c \<noteq> 0" using block_addr_ne_0 [of "a + 1025"] by simp
  define tk where "tk = no_task\<lparr>page_directory := ?c, regs := no_registers\<lparr>ip := e_entry (elf_header_at (ram s2) (elf_memory ef)),
    ss := USER_DATA_SEGMENT, cs := USER_CODE_SEGMENT, esp := PROGRAM_STACK_START\<rparr>, owner := p\<rparr>"
  have t2: "tasks s2 = (tasks s)(t \<mapsto> no_task)" "procs s2 p = Some pr" "elf_files s2 (program pr) = Some ef" "kernel_heap s2 = kernel_heap s"
    by (subst s2, simp, subst s2, simp add: pr, subst s2, simp add: pr, subst s2, simp)
  have e: "s2\<lparr>tasks := x\<rparr> = s\<lparr>ram := ram s2, tasks := x\<rparr>" for x by (subst s2) simp
  have run: "task_init t p s = Ret (0, s2\<lparr>tasks := (tasks s)(t \<mapsto> tk)\<rparr>)"
    using new nz t2 pr(2) by (simp add: task_init_def outcome_simps no_task_def tk_def)
  have "kheap_repr (s2\<lparr>tasks := (tasks s)(t \<mapsto> tk)\<rparr>) (A @ replicate 1026 (Alloc 0) @ B)"
    by (rule kheap_repr_cong [OF r2]) simp_all
  then show ?thesis
    using run tb f2 e by (intro exI [of _ "s2\<lparr>tasks := (tasks s)(t \<mapsto> tk)\<rparr>"] exI [of _ tk]) (simp add: tk_def)
qed

text \<open>The blocks of a new address space: no table lies outside them.\<close>

lemma built_table_byte:
  assumes "tables_built m a 5 1024" "load32 m (block_addr (a + 1025)) = block_addr a" "a + 1026 \<le> 25600"
    and "table_byte (block_addr (a + 1025)) m x"
  shows "in_blocks (a + 1) 1024 x"
proof -
  from assms(4) obtain d where d: "d < 1024" "in_range x (page_table m (block_addr a) d) 4096"
    by (auto simp: table_byte_def assms(2))
  have "page_table m (block_addr a) d = block_addr (a + 1 + d)"
    by (rule tables_built_entry(1) [OF assms(1)]) (use assms(3) d in simp_all)
  then have "in_blocks (a + 1 + d) 1 x" using d assms(3) in_block [of "a + 1 + d" x] by simp
  then show ?thesis using d(1) by (auto simp: in_blocks_def)
qed

lemma block_in_blocks: "in_range x (block_addr b) 4096 \<Longrightarrow> a \<le> b \<Longrightarrow> b < a + n \<Longrightarrow> a + n \<le> 25600 \<Longrightarrow> in_blocks a n x"
  using in_block [of b x] by (auto simp: in_blocks_def)

lemma task_new_space:
  assumes heap: "kheap_repr s (A @ replicate 1027 FreeBlk @ B)" and A: "FreeBlk \<notin> set A" "a = seg_blocks A"
    and pr: "procs s p = Some pr" "process_type pr = 0" "elf_files s (program pr) = Some ef"
    and ts: "task_list ts s" "tasks s (block_addr a) = None"
  shows "\<exists>s' tk. task_new p s = Ret (block_addr a, s') \<and> kheap_repr s' (A @ replicate 1027 (Alloc 0) @ B)
    \<and> task_list (ts @ [block_addr a]) s' \<and> tasks s' (block_addr a) = Some tk \<and> others_kept (block_addr a) (tasks s) (tasks s')
    \<and> owner tk = p \<and> user_mode (regs tk) \<and> esp (regs tk) = PROGRAM_STACK_START \<and> ip (regs tk) = e_entry (elf_header_at (ram s') (elf_memory ef))
    \<and> page_directory tk = block_addr (a + 1026) \<and> wf_chunk (block_addr (a + 1026)) (ram s') \<and> load32 (ram s') (block_addr (a + 1026)) = block_addr (a + 1)
    \<and> (\<forall>x. table_byte (block_addr (a + 1026)) (ram s') x \<longrightarrow> in_blocks (a + 2) 1024 x)
    \<and> s' = s\<lparr>ram := ram s', tasks := tasks s', task_head := task_head s', task_tail := task_tail s', current_task := current_task s'\<rparr>
    \<and> (\<forall>x. \<not> in_range x 0x7E00 25600 \<and> \<not> in_blocks a 1027 x \<longrightarrow> ram s' x = ram s x)"
proof -
  let ?q = "block_addr a"
  have blocks: "a + 1027 \<le> 25600" using kheap_repr_blocks [OF heap] A(2) by simp
  have n: "a + 1 + 1025 = a + 1026" "a + 1 + 1026 = a + 1027" by simp_all
  have reps: "A @ replicate 1027 x @ B = A @ x # (replicate 1026 x @ B)" for x
    by (simp add: numeral_eq_Suc)
  from zeroed_block(4) [OF heap [unfolded reps] A(1), of 64, folded A(2)] obtain s1 where z: "kzalloc 64 s = Ret (?q, s1)"
    and r1: "kheap_repr s1 ((A @ [Alloc 0]) @ replicate 1026 FreeBlk @ B)" and s1: "s1 = s\<lparr>ram := ram s1\<rparr>"
    and f1: "\<forall>x. \<not> in_range x ?q 4096 \<and> \<not> in_range x 0x7E00 25600 \<longrightarrow> ram s1 x = ram s x" by auto
  have p1: "procs s1 p = Some pr" "elf_files s1 (program pr) = Some ef" by (subst s1, simp add: pr, subst s1, simp add: pr)
  have A1: "FreeBlk \<notin> set (A @ [Alloc 0])" "a + 1 = seg_blocks (A @ [Alloc 0])" using A by simp_all
  from task_init_space [OF r1 A1 p1(1) pr(2) p1(2), of ?q, unfolded n] obtain s2 tk where
    i: "task_init ?q p s1 = Ret (0, s2)" and r2: "kheap_repr s2 ((A @ [Alloc 0]) @ replicate 1026 (Alloc 0) @ B)"
    and s2: "s2 = s1\<lparr>ram := ram s2, tasks := (tasks s1)(?q \<mapsto> tk)\<rparr>" and tk: "ip (regs tk) = e_entry (elf_header_at (ram s2) (elf_memory ef))"
      "page_directory tk = block_addr (a + 1026)"
    and tb: "load32 (ram s2) (block_addr (a + 1026)) = block_addr (a + 1)" "tables_built (ram s2) (a + 1) 5 1024"
    and f2: "\<forall>x. \<not> in_range x 0x7E00 25600 \<and> (\<forall>b. a + 1 \<le> b \<and> b \<le> a + 1026 \<longrightarrow> \<not> in_range x (block_addr b) 4096) \<longrightarrow> ram s2 x = ram s1 x"
    by blast
  from task_new_run [OF ts(1) z i ts(2)] obtain s' tk' pv where run: "task_new p s = Ret (?q, s')"
    and s': "s' = s2\<lparr>tasks := tasks s', task_head := task_head s', task_tail := task_tail s', current_task := current_task s'\<rparr>"
    and fin: "task_list (ts @ [?q]) s'" and t2: "tasks s2 ?q = Some tk'" and fr: "fresh_task p tk'" and t': "tasks s' ?q = Some (tk'\<lparr>prev_task := pv\<rparr>)"
    and oth: "others_kept ?q (tasks s) (tasks s')"
    by blast
  have tk': "tk' = tk" using t2 by (subst (asm) s2) simp
  have same: "ram s' = ram s2" "kernel_heap s' = kernel_heap s2" by (subst s', simp)+
  have e2: "s2\<lparr>tasks := w, task_head := x, task_tail := y, current_task := z\<rparr>
    = s\<lparr>ram := ram s2, tasks := w, task_head := x, task_tail := y, current_task := z\<rparr>" for w x y z
    by (subst s2, subst s1) simp
  have "s' = s\<lparr>ram := ram s', tasks := tasks s', task_head := task_head s', task_tail := task_tail s', current_task := current_task s'\<rparr>"
    using s' unfolding e2 same .
  moreover have "kheap_repr s' (A @ replicate 1027 (Alloc 0) @ B)"
    using kheap_repr_cong [OF r2 same(2)] same(1) unfolding reps by simp
  moreover have "wf_chunk (block_addr (a + 1026)) (ram s')"
    using tables_built_wf [OF tb(2)] tb(1) blocks unfolding same n by simp
  moreover have "in_blocks (a + 2) 1024 x" if "table_byte (block_addr (a + 1026)) (ram s') x" for x
    using built_table_byte [OF tb(2), unfolded n, OF tb(1) _ that [unfolded same]] blocks by (auto simp: in_blocks_def)
  moreover have "ram s' x = ram s x" if x: "\<not> in_range x 0x7E00 25600" "\<not> in_blocks a 1027 x" for x
  proof -
    have "\<not> in_range x (block_addr b) 4096" if "a \<le> b" "b \<le> a + 1026" for b
      using block_in_blocks [of x b a 1027] that x(2) blocks by auto
    then show ?thesis using f1 f2 x(1) same by simp
  qed
  ultimately show ?thesis using run fin t' fr tk oth tb(1)
    by (intro exI [of _ s'] exI [of _ "tk'\<lparr>prev_task := pv\<rparr>"]) (simp add: fresh_task_def tk' same)
qed


section \<open>The program file\<close>

text \<open>The contents of a file as memory from address 0, and the headers that it holds.\<close>

definition file_memory :: "u8 list \<Rightarrow> mem" where
  "file_memory fb = put_bytes (\<lambda>_. 0) 0 fb"

definition file_header :: "u8 list \<Rightarrow> elf_header" where
  "file_header fb = elf_header_at (file_memory fb) 0"

definition file_headers :: "u8 list \<Rightarrow> elf32_phdr list" where
  "file_headers fb = map (\<lambda>i. elf32_phdr_at (file_memory fb) (e_phoff (file_header fb) + 32 * of_nat i)) [0..<unat (e_phnum (file_header fb))]"

text \<open>
  A file that can run: the header and the program headers lie within it, every segment keeps its
  offset in the page and ends below the top of the address space, and no two segments share a page
  with each other or with the stack.
\<close>

definition runnable :: "u8 list \<Rightarrow> bool" where
  "runnable fb \<longleftrightarrow> 52 \<le> length fb \<and> length fb < 2147483648 \<and> e_phoff (file_header fb) \<noteq> 0
     \<and> unat (e_phoff (file_header fb)) + 32 * length (file_headers fb) \<le> length fb
     \<and> (\<forall>h\<in>set (file_headers fb). unat (p_vaddr h) mod 4096 = unat (p_offset h) mod 4096
          \<and> unat (p_vaddr h) + unat (p_memsz h) + 4096 < 4294967296 \<and> unat (p_offset h) + unat (p_memsz h) < 2147483648
          \<and> seg_span h \<inter> page_span 0x3FB000 16384 = {})
     \<and> (\<forall>k<length (file_headers fb). \<forall>j<k. seg_span (file_headers fb ! j) \<inter> seg_span (file_headers fb ! k) = {})"

lemma load_reloc:
  assumes eq: "\<And>k. k < t \<Longrightarrow> m' (p' + of_nat k) = m (p + of_nat k)"
  shows "k + 4 \<le> t \<Longrightarrow> load32 m' (p' + of_nat k) = load32 m (p + of_nat k)"
    and "k + 2 \<le> t \<Longrightarrow> load16 m' (p' + of_nat k) = load16 m (p + of_nat k)"
    and "n \<le> t \<Longrightarrow> bytes_at m' p' n = bytes_at m p n"
proof -
  show "load32 m' (p' + of_nat k) = load32 m (p + of_nat k)" if "k + 4 \<le> t"
    using eq [of k] eq [of "k + 1"] eq [of "k + 2"] eq [of "k + 3"] that by (simp add: load32_def ac_simps)
  show "load16 m' (p' + of_nat k) = load16 m (p + of_nat k)" if "k + 2 \<le> t"
    using eq [of k] eq [of "k + 1"] that by (simp add: load16_def ac_simps)
  show "bytes_at m' p' n = bytes_at m p n" if "n \<le> t"
    using eq that by (simp add: bytes_at_def)
qed

lemma file_memory_byte: "k < length fb \<Longrightarrow> length fb < 2147483648 \<Longrightarrow> file_memory fb (of_nat k) = fb ! k"
  by (simp add: file_memory_def put_bytes_apply in_range_def unat_of_nat_u32)

lemma file_bytes_reloc:
  assumes "bytes_at m p (length fb) = fb" "length fb < 2147483648" "k < length fb"
  shows "m (p + of_nat k) = file_memory fb (0 + of_nat k)"
  using assms(2,3) nth_bytes_at [OF assms(3), of m p] by (simp add: assms(1) file_memory_byte)

lemma file_headers_at:
  assumes b: "bytes_at m p (length fb) = fb" and r: "runnable fb" and ef: "elf_memory ef = p"
  shows "elf_header_at m p = file_header fb" and "elf_pheader m p = p + e_phoff (file_header fb)"
    and "headers_at m ef (elf_pheader m p) (file_headers fb)"
proof -
  have len: "length fb < 2147483648" "52 \<le> length fb" "e_phoff (file_header fb) \<noteq> 0"
    "unat (e_phoff (file_header fb)) + 32 * length (file_headers fb) \<le> length fb" using r by (simp_all add: runnable_def)
  note eq = file_bytes_reloc [OF b len(1)]
  note w = load_reloc(1) [where m' = m and p' = p and m = "file_memory fb" and p = 0 and t = "length fb", OF eq] and h = load_reloc(2) [where m' = m and p' = p and m = "file_memory fb" and p = 0 and t = "length fb", OF eq]
    and bs = load_reloc(3) [where m' = m and p' = p and m = "file_memory fb" and p = 0 and t = "length fb" and n = 16, OF eq]
  show hd: "elf_header_at m p = file_header fb"
    using len(2) bs h [of 16] h [of 18] w [of 20] w [of 24] w [of 28] w [of 32] w [of 36] h [of 40] h [of 42] h [of 44] h [of 46] h [of 48] h [of 50]
    by (simp add: file_header_def elf_header_at_def)
  show ph: "elf_pheader m p = p + e_phoff (file_header fb)" using len(3) by (simp add: elf_pheader_def hd)
  have "elf32_phdr_at m (elf_pheader m p + 32 * of_nat i) = file_headers fb ! i" if i: "i < length (file_headers fb)" for i
  proof -
    define z where "z = unat (e_phoff (file_header fb)) + 32 * i"
    have "z + 32 \<le> length fb" using len(4) i by (simp add: z_def)
    then have ws: "load32 m (p + of_nat (z + j)) = load32 (file_memory fb) (of_nat (z + j))" if "j + 4 \<le> 32" for j
      using w [of "z + j"] that by simp
    have "e_phoff (file_header fb) + 32 * of_nat i = of_nat z" by (simp add: z_def)
    then have "elf_pheader m p + 32 * of_nat i = p + of_nat z" "file_headers fb ! i = elf32_phdr_at (file_memory fb) (of_nat z)"
      using i by (simp_all add: ph file_headers_def add.assoc)
    then show ?thesis
      using ws [of 0] ws [of 4] ws [of 8] ws [of 12] ws [of 16] ws [of 20] ws [of 24] ws [of 28]
      by (simp add: elf32_phdr_at_def add.assoc)
  qed
  then show "headers_at m ef (elf_pheader m p) (file_headers fb)"
    by (simp add: headers_at_def ef hd) (simp add: file_headers_def)
qed

text \<open>A segment as the program sees it: the bytes of the file, and the right to write.\<close>

definition segment_loaded :: "mem \<Rightarrow> u32 \<Rightarrow> u8 list \<Rightarrow> elf32_phdr \<Rightarrow> bool" where
  "segment_loaded m directory fb h \<longleftrightarrow> (\<forall>k<unat (p_memsz h).
     (unat (p_offset h) + k < length fb \<longrightarrow>
        m (paging_get_physical_address m directory (p_vaddr h + of_nat k)) = fb ! (unat (p_offset h) + k))
     \<and> (paging_get m directory ((p_vaddr h + of_nat k) AND 0xFFFFF000) AND 7 = (if p_flags h AND 2 \<noteq> 0 then 7 else 5)))"

text \<open>A segment shown where the file lies in memory.\<close>

definition segment_at :: "mem \<Rightarrow> u32 \<Rightarrow> u32 \<Rightarrow> elf32_phdr \<Rightarrow> bool" where
  "segment_at m directory base h \<longleftrightarrow> (\<forall>k<unat (p_memsz h).
     paging_get_physical_address m directory (p_vaddr h + of_nat k) = base + p_offset h + of_nat k)"

lemma segment_extent:
  assumes "runnable fb" "h \<in> set (file_headers fb)" "elf_memory ef = block_addr d" "d \<le> 25600"
  shows "seg_ok ef h" and "unat (p_offset h) + k < 2147483648 \<Longrightarrow> block_addr d + p_offset h + of_nat k = block_addr d + of_nat (unat (p_offset h) + k)"
proof -
  have h: "unat (p_vaddr h) mod 4096 = unat (p_offset h) mod 4096" "unat (p_vaddr h) + unat (p_memsz h) + 4096 < 4294967296"
    "unat (p_offset h) + unat (p_memsz h) < 2147483648" using assms(1,2) by (simp_all add: runnable_def)
  have "unat (block_addr d + of_nat (unat (p_offset h))) = unat (block_addr d) + unat (p_offset h)"
    by (rule unat_forward) (use h(3) assms(4) in \<open>simp add: unat_block_addr\<close>)
  then have u: "unat (elf_phdr_phys_address ef h) = 16777216 + 4096 * d + unat (p_offset h)"
    using assms(3,4) by (simp add: elf_phdr_phys_address_def unat_block_addr)
  have "(16777216 + 4096 * d + unat (p_offset h)) mod 4096 = unat (p_offset h) mod 4096"
    using mod_mult_self1 [of "unat (p_offset h)" "4096 + d" 4096] by (simp add: algebra_simps)
  then show "seg_ok ef h" using h assms(4) by (simp add: seg_ok_def extent_ok_def u)
qed (simp add: add.assoc)

lemma program_space:
  assumes pr: "procs s p = Some pr" "process_type pr = 0" "elf_files s (program pr) = Some ef" "tasks s (main_task pr) = Some tk"
    and wf: "wf_chunk (page_directory tk) (ram s)" and tab: "\<And>x. table_byte (page_directory tk) (ram s) x \<Longrightarrow> in_blocks T 1024 x"
    and fb: "bytes_at (ram s) (block_addr d) (length fb) = fb" "runnable fb" "elf_memory ef = block_addr d" "d \<le> 25600"
    and apart: "\<And>x. in_range x (block_addr d) (length fb) \<or> in_range x (page_directory tk) 4 \<Longrightarrow> \<not> in_blocks T 1024 x"
    and st: "stack pr = block_addr c" "c \<le> 25600"
  shows "\<exists>s'. process_map_memory p s = Ret (0, s') \<and> s' = s\<lparr>ram := ram s'\<rparr>
    \<and> load32 (ram s') (page_directory tk) = load32 (ram s) (page_directory tk)
    \<and> (\<forall>h\<in>set (file_headers fb). segment_loaded (ram s') (load32 (ram s') (page_directory tk)) fb h
          \<and> segment_at (ram s') (load32 (ram s') (page_directory tk)) (block_addr d) h)
    \<and> (\<forall>k<16384. paging_get_physical_address (ram s') (load32 (ram s') (page_directory tk)) (0x3FB000 + of_nat k) = block_addr c + of_nat k)
    \<and> (\<forall>x. \<not> in_blocks T 1024 x \<longrightarrow> ram s' x = ram s x)"
proof -
  let ?dir = "page_directory tk" and ?hs = "file_headers fb"
  have r: "length fb < 2147483648" "52 \<le> length fb" "unat (e_phoff (file_header fb)) + 32 * length ?hs \<le> length fb"
    "\<And>h. h \<in> set ?hs \<Longrightarrow> seg_span h \<inter> page_span 0x3FB000 16384 = {}"
    "\<And>j k. j < k \<Longrightarrow> k < length ?hs \<Longrightarrow> seg_span (?hs ! j) \<inter> seg_span (?hs ! k) = {}"
    using fb(2) unfolding runnable_def by blast+
  note at = file_headers_at [OF fb(1-3)]
  have inside: "in_range x (block_addr d) (length fb)"
    if "in_range x (block_addr d) 52 \<or> in_range x (block_addr d + e_phoff (file_header fb)) (32 * length ?hs)" for x
    using that in_range_mono [of x "block_addr d" 52 "length fb"] r(1-3)
      in_range_part [of "unat (e_phoff (file_header fb))" "32 * length ?hs" "length fb" x "block_addr d"] by auto
  have hs: "headers_at (ram s) ef (elf_pheader (ram s) (elf_memory ef)) ?hs" unfolding fb(3) by (rule at(3))
  have ha: "headers_apart ?dir (ram s) ef (elf_pheader (ram s) (elf_memory ef)) (length ?hs)"
    using inside tab apart unfolding headers_apart_def fb(3) at(2) by blast
  have sp: "extent_ok 0x3FB000 (stack pr) 16384" using st by (simp add: extent_ok_def unat_block_addr)
  from map_memory_run [OF pr wf hs ha segment_extent(1) [OF fb(2) _ fb(3,4)] sp r(5,4)] obtain s' where
    run: "process_map_memory p s = Ret (0, s')" and e: "s' = s\<lparr>ram := ram s'\<rparr>"
    and keep: "\<forall>a. \<not> table_byte ?dir (ram s) a \<longrightarrow> ram s' a = ram s a"
    and seg: "\<And>h k. h \<in> set ?hs \<Longrightarrow> k < unat (p_memsz h) \<Longrightarrow>
        paging_get_physical_address (ram s') (load32 (ram s) ?dir) (p_vaddr h + of_nat k) = elf_memory ef + p_offset h + of_nat k
        \<and> (paging_get (ram s') (load32 (ram s) ?dir) ((p_vaddr h + of_nat k) AND 0xFFFFF000) AND 7 = (if p_flags h AND 2 \<noteq> 0 then 7 else 5))"
    and stk: "\<forall>k<16384. paging_get_physical_address (ram s') (load32 (ram s) ?dir) (0x3FB000 + of_nat k) = stack pr + of_nat k"
    by blast
  have out: "ram s' x = ram s x" if "\<not> in_blocks T 1024 x" for x using keep tab that by blast
  have D: "load32 (ram s') ?dir = load32 (ram s) ?dir" by (rule load32_range) (use apart out in blast)
  have "segment_loaded (ram s') (load32 (ram s) ?dir) fb h" if h: "h \<in> set ?hs" for h
    unfolding segment_loaded_def
  proof (intro allI impI conjI)
    fix k assume k: "k < unat (p_memsz h)"
    show "paging_get (ram s') (load32 (ram s) ?dir) ((p_vaddr h + of_nat k) AND 0xFFFFF000) AND 7 = (if p_flags h AND 2 \<noteq> 0 then 7 else 5)"
      using seg [OF h k] by blast
    assume l: "unat (p_offset h) + k < length fb"
    then have a: "paging_get_physical_address (ram s') (load32 (ram s) ?dir) (p_vaddr h + of_nat k) = block_addr d + of_nat (unat (p_offset h) + k)"
      using seg [OF h k] segment_extent(2) [OF fb(2) h fb(3,4), of k] r(1) fb(3) by simp
    have "in_range (block_addr d + of_nat (unat (p_offset h) + k)) (block_addr d) (length fb)" by (rule in_range_add) (use r(1) l in simp_all)
    then have "ram s' (block_addr d + of_nat (unat (p_offset h) + k)) = ram s (block_addr d + of_nat (unat (p_offset h) + k))"
      using out apart by blast
    then show "ram s' (paging_get_physical_address (ram s') (load32 (ram s) ?dir) (p_vaddr h + of_nat k)) = fb ! (unat (p_offset h) + k)"
      using nth_bytes_at [OF l, of "ram s" "block_addr d"] by (simp add: a fb(1))
  qed
  moreover have "segment_at (ram s') (load32 (ram s) ?dir) (block_addr d) h" if "h \<in> set ?hs" for h
    using seg [OF that] by (simp add: segment_at_def fb(3))
  ultimately show ?thesis using run e stk out by (intro exI [of _ s']) (simp add: D st(1))
qed

section \<open>Stack, task and address space\<close>

lemma task_list_cong:
  "tasks t = tasks s \<Longrightarrow> task_head t = task_head s \<Longrightarrow> task_tail t = task_tail s \<Longrightarrow> task_list ts t = task_list ts s"
  by (simp add: task_list_def task_ring_def)

text \<open>The stack, at the block after \<open>A\<close>, and the name of the program.\<close>

lemma stack_and_name:
  fixes s :: "('d, 'z) process_machine_scheme"
  assumes heap: "kheap_repr s (A @ replicate 4 FreeBlk @ B)" "FreeBlk \<notin> set A" and p: "p = block_addr b" "b < seg_blocks A"
  defines "c \<equiv> seg_blocks A"
  shows "\<exists>s1 m. kzalloc 16384 s = Ret (block_addr c, s1) \<and> block_addr c \<noteq> 0 \<and> s1\<lparr>ram := strncpy (ram s1) (name_of p) path 108\<rparr> = s\<lparr>ram := m\<rparr>
    \<and> kheap_repr (s\<lparr>ram := m\<rparr>) (A @ Alloc 3 # B)
    \<and> (\<forall>x. \<not> in_range x 0x7E00 25600 \<and> \<not> in_blocks b 1 x \<and> \<not> in_blocks c 4 x \<longrightarrow> m x = ram s x)"
proof -
  have blocks: "c + 4 \<le> 25600" using kheap_repr_blocks [OF heap(1)] by (simp add: c_def)
  have "kheap_repr s (A @ replicate (Suc 3) FreeBlk @ B)" using heap(1) by (simp add: eval_nat_numeral)
  from kzalloc_run [OF this heap(2), of 16384, folded c_def] obtain s1 where z: "kzalloc 16384 s = Ret (block_addr c, s1)"
    and r: "kheap_repr s1 (A @ Alloc 3 # B)" and e: "s1 = s\<lparr>ram := ram s1\<rparr>"
    and f: "\<forall>a. \<not> in_range a (block_addr c) 16384 \<and> \<not> in_range a 0x7E00 25600 \<longrightarrow> ram s1 a = ram s a" by auto
  define m where "m = strncpy (ram s1) (name_of p) path 108"
  have name: "in_blocks b 1 x" if "in_range x (name_of p) 108" for x
    using that in_block_part [of b 2 108 x] p(2) blocks by (simp add: name_of_def p(1) c_def)
  have k: "m x = ram s1 x" if "\<not> in_blocks b 1 x" for x
    using strncpy_outside [of 108 x "name_of p" "ram s1" path] name that by (auto simp: m_def)
  have sm: "s1\<lparr>ram := m\<rparr> = s\<lparr>ram := m\<rparr>" by (subst e) simp
  have "kheap_repr (s1\<lparr>ram := m\<rparr>) (A @ Alloc 3 # B)"
    by (rule kheap_repr_cong [OF r]) (auto intro!: k simp: in_range_forward in_blocks_def)
  moreover have "m x = ram s x" if "\<not> in_range x 0x7E00 25600" "\<not> in_blocks b 1 x" "\<not> in_blocks c 4 x" for x
  proof -
    have "\<not> in_range x (block_addr c) 16384" using that(3) blocks by (simp add: in_range_forward in_blocks_def unat_block_addr)
    then show ?thesis using f that k by simp
  qed
  ultimately show ?thesis using z sm block_addr_ne_0 [of c] blocks by (intro exI [of _ s1] exI [of _ m]) (simp add: m_def)
qed

text \<open>The task in the blocks after \<open>A\<close>, then the pages of the segments and of the stack.\<close>

lemma task_and_space:
  fixes s :: "('d, 'z) process_machine_scheme"
  assumes heap: "kheap_repr s (A @ replicate 1027 FreeBlk @ B)" and A: "FreeBlk \<notin> set A" "a = seg_blocks A"
    and pr: "procs s p = Some pr" "process_type pr = 0" "elf_files s (program pr) = Some ef"
    and fb: "bytes_at (ram s) (block_addr d) (length fb) = fb" "runnable fb" "elf_memory ef = block_addr d" "d \<le> 25600"
    and inside: "\<And>x. in_range x (block_addr d) (length fb) \<Longrightarrow> \<not> in_range x 0x7E00 25600 \<and> \<not> in_blocks a 1027 x"
    and st: "stack pr = block_addr c" "c \<le> 25600" and ts: "task_list ts s" "tasks s (block_addr a) = None"
  defines "q \<equiv> block_addr a"
  shows "\<exists>s1 s2 tk. task_new p s = Ret (q, s1) \<and> q \<noteq> 0 \<and> procs s1 = procs s
    \<and> process_map_memory p (s1\<lparr>procs := (procs s)(p \<mapsto> pr\<lparr>main_task := q\<rparr>)\<rparr>) = Ret (0, s2)
    \<and> kheap_repr s2 (A @ replicate 1027 (Alloc 0) @ B) \<and> task_list (ts @ [q]) s2 \<and> tasks s2 q = Some tk
    \<and> others_kept q (tasks s) (tasks s2)
    \<and> owner tk = p \<and> user_mode (regs tk) \<and> esp (regs tk) = PROGRAM_STACK_START \<and> ip (regs tk) = e_entry (file_header fb)
    \<and> load32 (ram s2) (page_directory tk) = block_addr (a + 1)
    \<and> (\<forall>h\<in>set (file_headers fb). segment_loaded (ram s2) (load32 (ram s2) (page_directory tk)) fb h
          \<and> segment_at (ram s2) (load32 (ram s2) (page_directory tk)) (block_addr d) h)
    \<and> (\<forall>k<16384. paging_get_physical_address (ram s2) (load32 (ram s2) (page_directory tk)) (0x3FB000 + of_nat k) = block_addr c + of_nat k)
    \<and> s2 = s\<lparr>ram := ram s2, tasks := tasks s2, task_head := task_head s2, task_tail := task_tail s2, current_task := current_task s2,
         procs := (procs s)(p \<mapsto> pr\<lparr>main_task := q\<rparr>)\<rparr>
    \<and> (\<forall>x. \<not> in_range x 0x7E00 25600 \<and> \<not> in_blocks a 1027 x \<longrightarrow> ram s2 x = ram s x)"
proof -
  let ?pr = "pr\<lparr>main_task := q\<rparr>"
  have blocks: "a + 1027 \<le> 25600" using kheap_repr_blocks [OF heap] A(2) by simp
  from task_new_space [OF heap A pr ts, folded q_def] obtain s1 tk where new: "task_new p s = Ret (q, s1)"
    and r1: "kheap_repr s1 (A @ replicate 1027 (Alloc 0) @ B)" and t1: "task_list (ts @ [q]) s1" "tasks s1 q = Some tk" "others_kept q (tasks s) (tasks s1)"
    and tk: "owner tk = p" "user_mode (regs tk)" "esp (regs tk) = PROGRAM_STACK_START" "ip (regs tk) = e_entry (elf_header_at (ram s1) (elf_memory ef))"
      "page_directory tk = block_addr (a + 1026)" "load32 (ram s1) (page_directory tk) = block_addr (a + 1)"
    and wf: "wf_chunk (page_directory tk) (ram s1)" and tab: "\<And>x. table_byte (page_directory tk) (ram s1) x \<Longrightarrow> in_blocks (a + 2) 1024 x"
    and e1: "s1 = s\<lparr>ram := ram s1, tasks := tasks s1, task_head := task_head s1, task_tail := task_tail s1, current_task := current_task s1\<rparr>"
    and f1: "\<forall>x. \<not> in_range x 0x7E00 25600 \<and> \<not> in_blocks a 1027 x \<longrightarrow> ram s1 x = ram s x"
    by metis
  have b1: "bytes_at (ram s1) (block_addr d) (length fb) = fb"
    using bytes_at_cong [of "block_addr d" "length fb" "ram s1" "ram s"] f1 inside fb(1,2) by (simp add: runnable_def)
  have p1: "procs s1 = procs s" "elf_files s1 = elf_files s" by (subst e1, simp)+
  define u where "u = s1\<lparr>procs := (procs s)(p \<mapsto> ?pr)\<rparr>"
  have pu: "procs u p = Some ?pr" "process_type ?pr = 0" "elf_files u (program ?pr) = Some ef" "tasks u (main_task ?pr) = Some tk" "ram u = ram s1"
    using pr t1(2) p1 by (simp_all add: u_def)
  have ap: "\<not> in_blocks (a + 2) 1024 x" if "in_range x (block_addr d) (length fb) \<or> in_range x (page_directory tk) 4" for x
    using that inside [of x] in_block_part [of "a + 1026" 0 4 x] blocks by (auto simp: in_blocks_def tk(5))
  have "stack ?pr = block_addr c" using st(1) by simp
  from program_space [where s = u, OF pu(1-4), unfolded pu(5), OF wf tab b1 fb(2-4) ap this st(2)] obtain s2 where
    map: "process_map_memory p u = Ret (0, s2)" and e2: "s2 = u\<lparr>ram := ram s2\<rparr>"
    and D: "load32 (ram s2) (page_directory tk) = load32 (ram s1) (page_directory tk)"
    and seg: "\<forall>h\<in>set (file_headers fb). segment_loaded (ram s2) (load32 (ram s2) (page_directory tk)) fb h
        \<and> segment_at (ram s2) (load32 (ram s2) (page_directory tk)) (block_addr d) h"
    and stk: "\<forall>k<16384. paging_get_physical_address (ram s2) (load32 (ram s2) (page_directory tk)) (0x3FB000 + of_nat k) = block_addr c + of_nat k"
    and f2: "\<forall>x. \<not> in_blocks (a + 2) 1024 x \<longrightarrow> ram s2 x = ram s1 x"
    by (auto simp: pu(5))
  have t2: "tasks s2 = tasks s1" "task_head s2 = task_head s1" "task_tail s2 = task_tail s1" "current_task s2 = current_task s1" "kernel_heap s2 = kernel_heap s1"
    by (subst e2, simp add: u_def)+
  have r2: "kheap_repr s2 (A @ replicate 1027 (Alloc 0) @ B)"
    by (rule kheap_repr_cong [OF r1 t2(5)]) (use f2 in \<open>auto simp: in_range_forward in_blocks_def\<close>)
  have "s1\<lparr>procs := v, ram := w\<rparr> = s\<lparr>ram := w, tasks := tasks s1, task_head := task_head s1, task_tail := task_tail s1,
      current_task := current_task s1, procs := v\<rparr>" for v w
    by (subst e1) simp
  then have e: "s2 = s\<lparr>ram := ram s2, tasks := tasks s2, task_head := task_head s2, task_tail := task_tail s2, current_task := current_task s2,
         procs := (procs s)(p \<mapsto> ?pr)\<rparr>"
    using e2 by (simp add: u_def t2)
  have f: "ram s2 x = ram s x" if "\<not> in_range x 0x7E00 25600" "\<not> in_blocks a 1027 x" for x
    using that f1 f2 by (auto simp: in_blocks_def)
  have "q \<noteq> 0" using block_addr_ne_0 [of a] blocks by (simp add: q_def)
  moreover have "ip (regs tk) = e_entry (file_header fb)" using file_headers_at(1) [OF b1 fb(2,3)] tk(4) fb(3) by simp
  moreover have "task_list (ts @ [q]) s2" using t1(1) task_list_cong [of s2 s1 "ts @ [q]"] t2 by simp
  ultimately show ?thesis using new map r2 e f tk(1-3,6) D seg stk t1(2,3) t2 p1(1)
    by (intro exI [of _ s1] exI [of _ s2] exI [of _ tk]) (simp add: u_def)
qed

lemma load_task_run:
  fixes s :: "('d, 'z) process_machine_scheme"
  assumes heap: "kheap_repr s (A @ replicate 4 FreeBlk @ Alloc k # replicate 1027 FreeBlk @ B)" "FreeBlk \<notin> set A"
    and pr: "procs s p = Some pr" "process_type pr = 0" "elf_files s (program pr) = Some ef" "elf_memory ef = block_addr (seg_blocks A + 4)"
    and fb: "bytes_at (ram s) (block_addr (seg_blocks A + 4)) (length fb) = fb" "runnable fb" "length fb \<le> 4096 * Suc k"
    and p: "p = block_addr b" "b < seg_blocks A"
    and ts: "task_list ts s" "tasks s (block_addr (seg_blocks A + 5 + k)) = None"
  defines "c \<equiv> seg_blocks A"
  defines "q \<equiv> block_addr (c + 5 + k)"
  shows "\<exists>s' tk. load_task path p slot s = Ret ((0, p), s')
    \<and> kheap_repr s' (A @ Alloc 3 # Alloc k # replicate 1027 (Alloc 0) @ B)
    \<and> procs s' = (procs s)(p \<mapsto> pr\<lparr>stack := block_addr c, process_id := word_of_int slot, main_task := q\<rparr>)
    \<and> processes s' = (processes s)[nat slot := p] \<and> task_list (ts @ [q]) s' \<and> tasks s' q = Some tk
    \<and> others_kept q (tasks s) (tasks s')
    \<and> owner tk = p \<and> user_mode (regs tk) \<and> esp (regs tk) = PROGRAM_STACK_START \<and> ip (regs tk) = e_entry (file_header fb)
    \<and> load32 (ram s') (page_directory tk) = block_addr (c + 6 + k)
    \<and> (\<forall>h\<in>set (file_headers fb). segment_loaded (ram s') (load32 (ram s') (page_directory tk)) fb h
          \<and> segment_at (ram s') (load32 (ram s') (page_directory tk)) (block_addr (c + 4)) h)
    \<and> (\<forall>k<16384. paging_get_physical_address (ram s') (load32 (ram s') (page_directory tk)) (0x3FB000 + of_nat k) = block_addr c + of_nat k)
    \<and> s' = s\<lparr>ram := ram s', tasks := tasks s', task_head := task_head s', task_tail := task_tail s', current_task := current_task s',
         procs := procs s', processes := processes s'\<rparr>
    \<and> (\<forall>x. \<not> in_range x 0x7E00 25600 \<and> \<not> in_blocks b 1 x \<and> \<not> in_blocks c 4 x \<and> \<not> in_blocks (c + 5 + k) 1027 x \<longrightarrow> ram s' x = ram s x)"
proof -
  let ?pr1 = "pr\<lparr>stack := block_addr c, process_id := word_of_int slot\<rparr>" and ?A = "A @ [Alloc 3, Alloc k]"
  have blocks: "c + 5 + k + 1027 \<le> 25600" using kheap_repr_blocks [OF heap(1)] by (simp add: c_def)
  from stack_and_name [OF heap p, of path, folded c_def] obtain s1 m where z: "kzalloc 16384 s = Ret (block_addr c, s1)" "block_addr c \<noteq> 0"
    and m: "s1\<lparr>ram := strncpy (ram s1) (name_of p) path 108\<rparr> = s\<lparr>ram := m\<rparr>"
    and r1: "kheap_repr (s\<lparr>ram := m\<rparr>) (A @ Alloc 3 # Alloc k # replicate 1027 FreeBlk @ B)"
    and f1: "\<forall>x. \<not> in_range x 0x7E00 25600 \<and> \<not> in_blocks b 1 x \<and> \<not> in_blocks c 4 x \<longrightarrow> m x = ram s x"
    by blast
  define s3 where "s3 = s\<lparr>ram := m, procs := (procs s)(p \<mapsto> ?pr1)\<rparr>"
  have A: "FreeBlk \<notin> set ?A" "c + 5 + k = seg_blocks ?A" using heap(2) by (simp_all add: c_def)
  have r3: "kheap_repr s3 (?A @ replicate 1027 FreeBlk @ B)" using kheap_repr_cong [OF r1, of s3] by (simp add: s3_def)
  have p3: "procs s3 p = Some ?pr1" "process_type ?pr1 = 0" "elf_files s3 (program ?pr1) = Some ef"
    using pr by (simp_all add: s3_def)
  have pin: "\<not> in_range x 0x7E00 25600 \<and> \<not> in_blocks b 1 x \<and> \<not> in_blocks c 4 x \<and> \<not> in_blocks (c + 5 + k) 1027 x"
    if "in_range x (block_addr (c + 4)) (length fb)" for x
    using that fb(3) p(2) blocks unat_block_addr [of "c + 4"] by (auto simp: in_range_forward in_blocks_def c_def)
  have "bytes_at (ram s3) (block_addr (c + 4)) (length fb) = bytes_at (ram s) (block_addr (c + 4)) (length fb)"
    by (rule bytes_at_cong) (use pin f1 fb(2) in \<open>simp_all add: s3_def runnable_def\<close>)
  then have b3: "bytes_at (ram s3) (block_addr (c + 4)) (length fb) = fb" "elf_memory ef = block_addr (c + 4)" "c + 4 \<le> 25600"
    using fb(1) pr(4) blocks by (simp_all add: c_def)
  have ts3: "task_list ts s3" "tasks s3 (block_addr (c + 5 + k)) = None" "stack ?pr1 = block_addr c" "c \<le> 25600"
    using ts task_list_cong [of s3 s ts] blocks by (simp_all add: s3_def c_def)
  from task_and_space [OF r3 A p3 b3(1) fb(2) b3(2,3) _ ts3(3,4,1,2)] pin obtain s4 s6 tk where
    new: "task_new p s3 = Ret (q, s4)" "q \<noteq> 0" "procs s4 = procs s3"
    and map: "process_map_memory p (s4\<lparr>procs := (procs s3)(p \<mapsto> ?pr1\<lparr>main_task := q\<rparr>)\<rparr>) = Ret (0, s6)"
    and r6: "kheap_repr s6 (?A @ replicate 1027 (Alloc 0) @ B)" and t6: "task_list (ts @ [q]) s6" "tasks s6 q = Some tk" "others_kept q (tasks s3) (tasks s6)"
    and tk: "owner tk = p" "user_mode (regs tk)" "esp (regs tk) = PROGRAM_STACK_START" "ip (regs tk) = e_entry (file_header fb)"
    and D: "load32 (ram s6) (page_directory tk) = block_addr (c + 5 + k + 1)"
    and seg: "\<forall>h\<in>set (file_headers fb). segment_loaded (ram s6) (load32 (ram s6) (page_directory tk)) fb h
        \<and> segment_at (ram s6) (load32 (ram s6) (page_directory tk)) (block_addr (c + 4)) h"
    and stk: "\<forall>k<16384. paging_get_physical_address (ram s6) (load32 (ram s6) (page_directory tk)) (0x3FB000 + of_nat k) = block_addr c + of_nat k"
    and e6: "s6 = s3\<lparr>ram := ram s6, tasks := tasks s6, task_head := task_head s6, task_tail := task_tail s6, current_task := current_task s6,
         procs := (procs s3)(p \<mapsto> ?pr1\<lparr>main_task := q\<rparr>)\<rparr>"
    and f6: "\<forall>x. \<not> in_range x 0x7E00 25600 \<and> \<not> in_blocks (c + 5 + k) 1027 x \<longrightarrow> ram s6 x = ram s3 x"
    unfolding q_def by blast
  define s7 where "s7 = s6\<lparr>processes := (processes s)[nat slot := p]\<rparr>"
  have p6: "processes s6 = processes s" "procs s6 = (procs s)(p \<mapsto> ?pr1\<lparr>main_task := q\<rparr>)" by (subst e6, simp add: s3_def)+
  have e3: "s\<lparr>ram := m, procs := (procs s)(p \<mapsto> ?pr1)\<rparr> = s3" and p4: "procs s4 = (procs s)(p \<mapsto> ?pr1)"
    using new(3) by (simp_all add: s3_def)
  have map': "process_map_memory p (s4\<lparr>procs := (procs s)(p \<mapsto> pr\<lparr>stack := block_addr c, process_id := word_of_int slot, main_task := q\<rparr>)\<rparr>) = Ret (0, s6)"
    using map by (simp add: s3_def)
  have run: "load_task path p slot s = Ret ((0, p), s7)"
    using z m pr(1) new(1,2) p4 map'
    by (simp add: load_task_def outcome_simps update_process_def proc_def e3 p6(1) s7_def)
  have "s7 = s\<lparr>ram := ram s7, tasks := tasks s7, task_head := task_head s7, task_tail := task_tail s7, current_task := current_task s7,
         procs := procs s7, processes := processes s7\<rparr>"
    unfolding s7_def by (subst e6) (simp add: s3_def p6)
  moreover have "task_list (ts @ [q]) s7" using t6(1) task_list_cong [of s7 s6 "ts @ [q]"] by (simp add: s7_def)
  moreover have "kheap_repr s7 (A @ Alloc 3 # Alloc k # replicate 1027 (Alloc 0) @ B)" using kheap_repr_cong [OF r6, of s7] by (simp add: s7_def)
  moreover have "ram s7 x = ram s x" if "\<not> in_range x 0x7E00 25600" "\<not> in_blocks b 1 x" "\<not> in_blocks c 4 x" "\<not> in_blocks (c + 5 + k) 1027 x" for x
    using that f1 f6 by (simp add: s7_def s3_def)
  moreover have "load32 (ram s7) (page_directory tk) = block_addr (c + 6 + k)"
  proof -
    have "c + 5 + k + 1 = c + 6 + k" by simp
    with D show ?thesis by (simp only:) (simp add: s7_def)
  qed
  ultimately show ?thesis using run tk seg stk t6(2,3) p6
    by (intro exI [of _ s7] exI [of _ tk]) (simp add: s7_def s3_def)
qed

section \<open>Loading\<close>

lemma loaded_keeps_memory: "elf_memory (snd (elf_process_loaded m ef)) = elf_memory ef"
  using process_pheaders_fold [of m "elf_memory ef" _ 0 ef]
  by (simp add: elf_process_loaded_def elf_process_pheaders_def fold_keeps_memory)

text \<open>The struct of the process, in three blocks.\<close>

lemma new_process_run:
  fixes s :: "('d, 'z) process_machine_scheme"
  assumes heap: "kheap_repr s (A @ replicate 3 FreeBlk @ B)" "FreeBlk \<notin> set A"
  defines "a \<equiv> seg_blocks A"
  shows "\<exists>s1 m. kzalloc 9368 s = Ret (block_addr a, s1) \<and> block_addr a \<noteq> 0
    \<and> process_init (block_addr a) s1 = Ret ((), s\<lparr>ram := m, procs := (procs s)(block_addr a \<mapsto> no_process)\<rparr>)
    \<and> kheap_repr (s\<lparr>ram := m, procs := (procs s)(block_addr a \<mapsto> no_process)\<rparr>) (A @ Alloc 2 # B)
    \<and> (\<forall>x. \<not> in_range x 0x7E00 25600 \<and> \<not> in_blocks a 3 x \<longrightarrow> m x = ram s x)"
proof -
  have blocks: "a + 3 \<le> 25600" using kheap_repr_blocks [OF heap(1)] by (simp add: a_def)
  have "kheap_repr s (A @ replicate (Suc 2) FreeBlk @ B)" using heap(1) by (simp add: eval_nat_numeral)
  from kzalloc_run [OF this heap(2), of 9368, folded a_def] obtain s1 where z: "kzalloc 9368 s = Ret (block_addr a, s1)"
    and r: "kheap_repr s1 (A @ Alloc 2 # B)" and e: "s1 = s\<lparr>ram := ram s1\<rparr>"
    and f: "\<forall>x. \<not> in_range x (block_addr a) 9368 \<and> \<not> in_range x 0x7E00 25600 \<longrightarrow> ram s1 x = ram s x" by auto
  define m where "m = memset (ram s1) (block_addr a) 0 9368"
  have inside: "in_blocks a 3 x" if "in_range x (block_addr a) 9368" for x
    using that blocks by (simp add: in_range_forward in_blocks_def unat_block_addr)
  have "procs s1 = procs s" by (subst e) simp
  then have i: "process_init (block_addr a) s1 = Ret ((), s1\<lparr>ram := m, procs := (procs s)(block_addr a \<mapsto> no_process)\<rparr>)"
    by (simp add: process_init_def outcome_simps m_def)
  have sm: "s1\<lparr>ram := m, procs := v\<rparr> = s\<lparr>ram := m, procs := v\<rparr>" for v by (subst e) simp
  have k: "m x = ram s1 x" if "\<not> in_blocks a 3 x" for x
    using inside that by (auto simp: m_def memset_apply)
  have "kheap_repr (s1\<lparr>ram := m, procs := (procs s)(block_addr a \<mapsto> no_process)\<rparr>) (A @ Alloc 2 # B)"
    by (rule kheap_repr_cong [OF r]) (auto intro!: k simp: in_range_forward in_blocks_def)
  then show ?thesis using z i f k inside block_addr_ne_0 [of a] blocks unfolding sm
    by (intro exI [of _ s1] exI [of _ m]) auto
qed

lemma load_locals_sub:
  assumes "load_locals s a N" "a \<le> a'" "a' + N' \<le> a + N" "stat_local t = stat_local s" "fat_vars t = fat_vars s" "mount_addr t = mount_addr s"
  shows "load_locals t a' N'"
  using assms by (auto simp: load_locals_def in_blocks_def)

text \<open>Loading the file of a process: the struct of the file, the contents, and what is left as it was.\<close>

lemma load_data_run:
  fixes s :: "('d, 'z) process_machine_scheme"
  assumes o: "openable P n img path (literal_r s) xs es j i (seg_blocks A) (9 + k) s"
    and heap: "kheap_repr s (A @ replicate (9 + k) FreeBlk @ B)" "FreeBlk \<notin> set A"
    and locals: "load_locals s (seg_blocks A) (9 + k)" and cl: "file_clusters n img s e (es ! j) cls"
    and t: "file_size (entry_item (es ! j)) = of_nat t" "0 < t" "t \<le> length cls * cluster_size s" "t < 2147483648" "4096 * k < t" "t \<le> 4096 * Suc k"
    and pr: "procs s p = Some pr"
  defines "a \<equiv> seg_blocks A"
  shows "\<exists>s' ef. process_load_data P path p s = Ret (0, s')
    \<and> kheap_repr s' (A @ replicate 4 (Alloc 0) @ replicate 4 FreeBlk @ Alloc k # B) \<and> fat_mounted P n img s'
    \<and> bytes_at (ram s') (block_addr (a + 8)) t = take t (file_bytes img s e cls)
    \<and> procs s' = (procs s)(p \<mapsto> pr\<lparr>process_type := 0, program := block_addr a\<rparr>)
    \<and> elf_files s' (block_addr a) = Some ef \<and> elf_memory ef = block_addr (a + 8)
    \<and> s'\<lparr>procs := procs s\<rparr> = s\<lparr>ram := ram s', dev := dev s', streams := streams s', path_roots := path_roots s', path_parts := path_parts s',
         descriptors := descriptors s', elf_files := elf_files s'\<rparr>
    \<and> (\<forall>x. x \<notin> search_bytes (fat_vars s) a (9 + k) \<and> \<not> in_range x (stat_local s) 8
         \<and> \<not> in_range x (entry_local (fat_vars s)) 2 \<longrightarrow> ram s' x = ram s x)"
proof -
  from elf_load_run [OF o heap locals cl t, folded a_def] obtain u m where
    run: "elf_load P path s = Ret ((0, block_addr a), u)"
    and r: "kheap_repr u (A @ replicate 4 (Alloc 0) @ replicate 4 FreeBlk @ Alloc k # B)" and mt: "fat_mounted P n img u"
    and bts: "bytes_at (ram u) (block_addr (a + 8)) t = take t (file_bytes img s e cls)"
    and ef: "elf_files u = (elf_files s)(block_addr a \<mapsto> snd (elf_process_loaded m (raw_file (block_addr (a + 8)))))"
    and fr: "file_frame s u" and fd: "file_descriptors u = file_descriptors s"
    and f: "\<forall>x. x \<notin> search_bytes (fat_vars s) a (9 + k) \<and> \<not> in_range x (stat_local s) 8
         \<and> \<not> in_range x (entry_local (fat_vars s)) 2 \<longrightarrow> ram u x = ram s x" by blast
  have pu: "procs u = procs s" by (subst fr [unfolded file_frame_def]) simp
  define s' where "s' = u\<lparr>procs := (procs s)(p \<mapsto> pr\<lparr>process_type := 0, program := block_addr a\<rparr>)\<rparr>"
  have "process_load_data P path p s = Ret (0, s')"
    using run pr pu by (simp add: process_load_data_def process_load_elf_def outcome_simps update_process_def proc_def s'_def)
  moreover have "kheap_repr s' (A @ replicate 4 (Alloc 0) @ replicate 4 FreeBlk @ Alloc k # B)"
    by (rule kheap_repr_cong [OF r]) (simp_all add: s'_def)
  moreover have "fat_mounted P n img s'" using mt by (simp add: fat_mounted_def stream_ok_def mount_def mount_addr_def s'_def)
  moreover have "s'\<lparr>procs := procs s\<rparr> = s\<lparr>ram := ram s', dev := dev s', streams := streams s', path_roots := path_roots s', path_parts := path_parts s',
         descriptors := descriptors s', elf_files := elf_files s'\<rparr>"
  proof -
    have "u\<lparr>procs := procs s\<rparr> = s\<lparr>ram := ram u, dev := dev u, streams := streams u, path_roots := path_roots u, path_parts := path_parts u,
         file_descriptors := file_descriptors u, descriptors := descriptors u, elf_files := elf_files u\<rparr>"
      by (subst fr [unfolded file_frame_def]) simp
    then show ?thesis by (simp add: s'_def fd)
  qed
  ultimately show ?thesis using bts f ef loaded_keeps_memory [of m "raw_file (block_addr (a + 8))"]
    by (intro exI [of _ s'] exI [of _ "snd (elf_process_loaded m (raw_file (block_addr (a + 8))))"]) (simp add: s'_def raw_file_def)
qed

text \<open>From the struct of the process to the loaded file.\<close>

lemma process_file_run:
  fixes s :: "('d, 'z) process_machine_scheme"
  assumes o: "openable P n img path (literal_r s) xs es j i (seg_blocks A) (1039 + k) s"
    and heap: "kheap_repr s (A @ replicate (1039 + k) FreeBlk @ B)" "FreeBlk \<notin> set A"
    and locals: "load_locals s (seg_blocks A) (1039 + k)" and cl: "file_clusters n img s e (es ! j) cls"
    and t: "file_size (entry_item (es ! j)) = of_nat t" "0 < t" "t \<le> length cls * cluster_size s" "t < 2147483648" "4096 * k < t" "t \<le> 4096 * Suc k"
  defines "a \<equiv> seg_blocks A"
  defines "p \<equiv> block_addr a"
  shows "\<exists>s1 s2 s3 ef. kzalloc 9368 s = Ret (p, s1) \<and> p \<noteq> 0 \<and> process_init p s1 = Ret ((), s2) \<and> process_load_data P path p s2 = Ret (0, s3)
    \<and> kheap_repr s3 ((A @ Alloc 2 # replicate 4 (Alloc 0)) @ replicate 4 FreeBlk @ Alloc k # replicate 1027 FreeBlk @ B) \<and> fat_mounted P n img s3
    \<and> bytes_at (ram s3) (block_addr (a + 11)) t = take t (file_bytes img s e cls)
    \<and> procs s3 = (procs s)(p \<mapsto> no_process\<lparr>process_type := 0, program := block_addr (a + 3)\<rparr>)
    \<and> elf_files s3 (block_addr (a + 3)) = Some ef \<and> elf_memory ef = block_addr (a + 11)
    \<and> s3\<lparr>procs := procs s\<rparr> = s\<lparr>ram := ram s3, dev := dev s3, streams := streams s3, path_roots := path_roots s3, path_parts := path_parts s3,
         descriptors := descriptors s3, elf_files := elf_files s3\<rparr>
    \<and> (\<forall>x. x \<notin> search_bytes (fat_vars s) a (1039 + k) \<and> \<not> in_range x (stat_local s) 8
         \<and> \<not> in_range x (entry_local (fat_vars s)) 2 \<longrightarrow> ram s3 x = ram s x)"
proof -
  let ?N = "1039 + k" and ?A = "A @ [Alloc 2]"
  have blocks: "a + ?N \<le> 25600" using kheap_repr_blocks [OF heap(1)] by (simp add: a_def)
  have reps: "replicate ?N x = replicate 3 x @ replicate (9 + k) x @ replicate 1027 x" for x :: seg
    by (simp only: replicate_add [symmetric]) simp
  from new_process_run [OF heap(1) [unfolded reps append_assoc] heap(2), folded a_def p_def] obtain s1 m where
    z: "kzalloc 9368 s = Ret (p, s1)" "p \<noteq> 0" and init: "process_init p s1 = Ret ((), s\<lparr>ram := m, procs := (procs s)(p \<mapsto> no_process)\<rparr>)"
    and r2: "kheap_repr (s\<lparr>ram := m, procs := (procs s)(p \<mapsto> no_process)\<rparr>) (A @ Alloc 2 # replicate (9 + k) FreeBlk @ replicate 1027 FreeBlk @ B)"
    and f2: "\<forall>x. \<not> in_range x 0x7E00 25600 \<and> \<not> in_blocks a 3 x \<longrightarrow> m x = ram s x" by blast
  define s2 where "s2 = s\<lparr>ram := m, procs := (procs s)(p \<mapsto> no_process)\<rparr>"
  have A: "FreeBlk \<notin> set ?A" "seg_blocks ?A = a + 3" using heap(2) by (simp_all add: a_def)
  have r2: "kheap_repr s2 (?A @ replicate (9 + k) FreeBlk @ replicate 1027 FreeBlk @ B)" using r2 by (simp add: s2_def)
  have o2: "openable P n img path (literal_r s) xs es j i a ?N s2" and ms: "mount s2 = mount s" "mount_addr s2 = mount_addr s"
    by (rule openable_cong [OF o [folded a_def] blocks]; use f2 in \<open>auto simp: s2_def in_blocks_def\<close>)+
  have o2: "openable P n img path (literal_r s2) xs es j i (seg_blocks ?A) (9 + k) s2"
    using openable_sub [OF o2, of "a + 3" "9 + k"] unfolding A(2) by (simp add: s2_def)
  have l2: "load_locals s2 (seg_blocks ?A) (9 + k)"
    unfolding A(2) by (rule load_locals_sub [OF locals [folded a_def]]) (simp_all add: s2_def ms [unfolded s2_def])
  have geo: "cluster_size s2 = cluster_size s" "clusters_ok n s2 e cls = clusters_ok n s e cls" "fat_reserved s2 = fat_reserved s"
    "file_bytes img s2 e cls = file_bytes img s e cls"
    by (simp_all add: cluster_size_def clusters_ok_def cluster_pos_def fat_reserved_def file_bytes_def ms)
  have c2: "file_clusters n img s2 e (es ! j) cls" "t \<le> length cls * cluster_size s2"
    using cl t(3) by (simp_all add: file_clusters_def geo)
  have p2: "procs s2 p = Some no_process" by (simp add: s2_def)
  have n3: "a + 3 + 8 = a + 11" by simp
  from load_data_run [OF o2 r2 A(1) l2 c2(1) t(1,2) c2(2) t(4-6) p2, unfolded A(2) geo n3] obtain s3 ef where
    load: "process_load_data P path p s2 = Ret (0, s3)"
    and r3: "kheap_repr s3 (?A @ replicate 4 (Alloc 0) @ replicate 4 FreeBlk @ Alloc k # replicate 1027 FreeBlk @ B)" and mt3: "fat_mounted P n img s3"
    and b3: "bytes_at (ram s3) (block_addr (a + 11)) t = take t (file_bytes img s e cls)"
    and p3: "procs s3 = (procs s2)(p \<mapsto> no_process\<lparr>process_type := 0, program := block_addr (a + 3)\<rparr>)"
    and ef: "elf_files s3 (block_addr (a + 3)) = Some ef" "elf_memory ef = block_addr (a + 11)"
    and e3: "s3\<lparr>procs := procs s2\<rparr> = s2\<lparr>ram := ram s3, dev := dev s3, streams := streams s3, path_roots := path_roots s3, path_parts := path_parts s3,
         descriptors := descriptors s3, elf_files := elf_files s3\<rparr>"
    and f3: "\<forall>x. x \<notin> search_bytes (fat_vars s2) (a + 3) (9 + k) \<and> \<not> in_range x (stat_local s2) 8
         \<and> \<not> in_range x (entry_local (fat_vars s2)) 2 \<longrightarrow> ram s3 x = ram s2 x" by metis
  have e: "s3\<lparr>procs := procs s\<rparr> = s\<lparr>ram := ram s3, dev := dev s3, streams := streams s3, path_roots := path_roots s3, path_parts := path_parts s3,
         descriptors := descriptors s3, elf_files := elf_files s3\<rparr>"
    using arg_cong [OF e3, of "\<lambda>u. u\<lparr>procs := procs s\<rparr>"] by (simp add: s2_def)
  have "ram s3 x = ram s x" if "x \<notin> search_bytes (fat_vars s) a ?N" "\<not> in_range x (stat_local s) 8" "\<not> in_range x (entry_local (fat_vars s)) 2" for x
  proof -
    have "x \<notin> search_bytes (fat_vars s2) (a + 3) (9 + k)" "\<not> in_range x 0x7E00 25600" "\<not> in_blocks a 3 x"
      using that(1) by (auto simp: search_bytes_def in_blocks_def s2_def)
    then show ?thesis using that f3 f2 by (simp add: s2_def)
  qed
  with z init [folded s2_def] load r3 mt3 b3 p3 ef e show ?thesis
    by (intro exI [of _ s1] exI [of _ s2] exI [of _ s3] exI [of _ ef]) (simp add: s2_def)
qed

lemma process_load_run:
  fixes s :: "('d, 'z) process_machine_scheme"
  assumes slot: "free_slot (processes s) 0 = Some slot" "length (processes s) = 12"
    and o: "openable P n img path (literal_r s) xs es j i (seg_blocks A) (1039 + k) s"
    and heap: "kheap_repr s (A @ replicate (1039 + k) FreeBlk @ B)" "FreeBlk \<notin> set A"
    and locals: "load_locals s (seg_blocks A) (1039 + k)" and cl: "file_clusters n img s e (es ! j) cls"
    and t: "file_size (entry_item (es ! j)) = of_nat t" "0 < t" "t \<le> length cls * cluster_size s" "t < 2147483648" "4096 * k < t" "t \<le> 4096 * Suc k"
    and fb: "fb = take t (file_bytes img s e cls)" "runnable fb"
    and ts: "task_list ts s" "tasks s (block_addr (seg_blocks A + 12 + k)) = None"
  defines "a \<equiv> seg_blocks A"
  defines "p \<equiv> block_addr a" and "q \<equiv> block_addr (a + 12 + k)"
  shows "\<exists>s' tk. process_load P path s = Ret ((0, p), s') \<and> processes s' = (processes s)[slot := p]
    \<and> procs s' = (procs s)(p \<mapsto> no_process\<lparr>process_type := 0, program := block_addr (a + 3), stack := block_addr (a + 7),
         process_id := of_nat slot, main_task := q\<rparr>)
    \<and> task_list (ts @ [q]) s' \<and> tasks s' q = Some tk \<and> others_kept q (tasks s) (tasks s')
    \<and> owner tk = p \<and> user_mode (regs tk) \<and> esp (regs tk) = PROGRAM_STACK_START \<and> ip (regs tk) = e_entry (file_header fb)
    \<and> load32 (ram s') (page_directory tk) = block_addr (a + 13 + k)
    \<and> (\<forall>h\<in>set (file_headers fb). segment_loaded (ram s') (load32 (ram s') (page_directory tk)) fb h
          \<and> segment_at (ram s') (load32 (ram s') (page_directory tk)) (block_addr (a + 11)) h)
    \<and> (\<forall>k<16384. paging_get_physical_address (ram s') (load32 (ram s') (page_directory tk)) (0x3FB000 + of_nat k) = block_addr (a + 7) + of_nat k)
    \<and> kheap_repr s' (A @ Alloc 2 # replicate 4 (Alloc 0) @ Alloc 3 # Alloc k # replicate 1027 (Alloc 0) @ B)
    \<and> fat_mounted P n img s' \<and> file_descriptors s' = file_descriptors s
    \<and> (\<forall>x. x \<notin> search_bytes (fat_vars s) a (1039 + k) \<and> \<not> in_range x (stat_local s) 8
         \<and> \<not> in_range x (entry_local (fat_vars s)) 2 \<longrightarrow> ram s' x = ram s x)"
proof -
  let ?S = "search_bytes (fat_vars s) a (1039 + k)" and ?A = "A @ Alloc 2 # replicate 4 (Alloc 0)"
    and ?pr = "no_process\<lparr>process_type := 0, program := block_addr (a + 3)\<rparr>"
  from process_file_run [OF o heap locals cl t, folded a_def p_def fb(1)] obtain s1 s2 s3 ef where
    z: "kzalloc 9368 s = Ret (p, s1)" "p \<noteq> 0" "process_init p s1 = Ret ((), s2)" "process_load_data P path p s2 = Ret (0, s3)"
    and r3: "kheap_repr s3 (?A @ replicate 4 FreeBlk @ Alloc k # replicate 1027 FreeBlk @ B)" and mt3: "fat_mounted P n img s3"
    and b3: "bytes_at (ram s3) (block_addr (a + 11)) t = fb" and p3: "procs s3 = (procs s)(p \<mapsto> ?pr)"
    and ef: "elf_files s3 (block_addr (a + 3)) = Some ef" "elf_memory ef = block_addr (a + 11)"
    and e3: "s3\<lparr>procs := procs s\<rparr> = s\<lparr>ram := ram s3, dev := dev s3, streams := streams s3, path_roots := path_roots s3, path_parts := path_parts s3,
         descriptors := descriptors s3, elf_files := elf_files s3\<rparr>"
    and f3: "\<forall>x. x \<notin> ?S \<and> \<not> in_range x (stat_local s) 8 \<and> \<not> in_range x (entry_local (fat_vars s)) 2 \<longrightarrow> ram s3 x = ram s x"
    by blast
  have len: "length fb = t" using arg_cong [OF b3, of length] by simp
  have A: "FreeBlk \<notin> set ?A" "seg_blocks ?A = a + 7" using heap(2) by (simp_all add: a_def eval_nat_numeral)
  have same3: "tasks s3 = tasks s" "task_head s3 = task_head s" "task_tail s3 = task_tail s" "processes s3 = processes s"
    "the_disk s3 = the_disk s" "file_descriptors s3 = file_descriptors s"
    using arg_cong [OF e3, of tasks] arg_cong [OF e3, of task_head] arg_cong [OF e3, of task_tail] arg_cong [OF e3, of processes]
      arg_cong [OF e3, of the_disk] arg_cong [OF e3, of file_descriptors] by simp_all
  have pr: "procs s3 p = Some ?pr" "process_type ?pr = 0" "elf_files s3 (program ?pr) = Some ef" using p3 ef by simp_all
  have n4: "a + 7 + 4 = a + 11" "a + 7 + 5 + k = a + 12 + k" "a + 7 + 6 + k = a + 13 + k" by simp_all
  have ts3: "task_list ts s3" "tasks s3 q = None" using ts task_list_cong [of s3 s ts] same3 by (simp_all add: q_def a_def)
  have b3: "bytes_at (ram s3) (block_addr (a + 11)) (length fb) = fb" "length fb \<le> 4096 * Suc k" using b3 t(6) unfolding len by simp_all
  have pa: "p = block_addr a" "a < a + 7" by (simp_all add: p_def)
  from load_task_run [OF r3 A(1) pr, unfolded A(2) n4, OF ef(2) b3(1) fb(2) b3(2) pa ts3 [unfolded q_def], of path "int slot", folded q_def]
  obtain s4 tk where task: "load_task path p (int slot) s3 = Ret ((0, p), s4)"
    and r4: "kheap_repr s4 (?A @ Alloc 3 # Alloc k # replicate 1027 (Alloc 0) @ B)"
    and p4: "procs s4 = (procs s3)(p \<mapsto> ?pr\<lparr>stack := block_addr (a + 7), process_id := word_of_int (int slot), main_task := q\<rparr>)"
    and fin: "processes s4 = (processes s3)[nat (int slot) := p]" "task_list (ts @ [q]) s4" "tasks s4 q = Some tk" "others_kept q (tasks s3) (tasks s4)"
      "owner tk = p" "user_mode (regs tk)" "esp (regs tk) = PROGRAM_STACK_START" "ip (regs tk) = e_entry (file_header fb)"
      "load32 (ram s4) (page_directory tk) = block_addr (a + 13 + k)"
      "\<forall>h\<in>set (file_headers fb). segment_loaded (ram s4) (load32 (ram s4) (page_directory tk)) fb h
        \<and> segment_at (ram s4) (load32 (ram s4) (page_directory tk)) (block_addr (a + 11)) h"
      "\<forall>k<16384. paging_get_physical_address (ram s4) (load32 (ram s4) (page_directory tk)) (0x3FB000 + of_nat k) = block_addr (a + 7) + of_nat k"
    and e4: "s4 = s3\<lparr>ram := ram s4, tasks := tasks s4, task_head := task_head s4, task_tail := task_tail s4, current_task := current_task s4,
         procs := procs s4, processes := processes s4\<rparr>"
    and f4: "\<forall>x. \<not> in_range x 0x7E00 25600 \<and> \<not> in_blocks a 1 x \<and> \<not> in_blocks (a + 7) 4 x \<and> \<not> in_blocks (a + 12 + k) 1027 x \<longrightarrow> ram s4 x = ram s3 x"
    by blast
  have k4: "ram s4 x = ram s3 x" if "x \<notin> ?S" for x
    using that f4 by (auto simp: search_bytes_def in_blocks_def)
  have same4: "streams s4 = streams s3" "dev s4 = dev s3" "fat_vars s4 = fat_vars s3" "the_disk s4 = the_disk s3" "file_descriptors s4 = file_descriptors s3"
    by (subst e4, simp)+
  have ma: "mount_addr s4 = mount_addr s" "mount_addr s3 = mount_addr s" by (simp_all add: mount_addr_def same4 same3)
  have "mount s4 = mount s3" unfolding mount_def ma
  proof (rule fat_private_at_cong)
    fix x assume "in_range x (mount_addr s) 92"
    then have "x \<in> volume_bytes s es" by (simp add: volume_bytes_def)
    then show "ram s4 x = ram s3 x" using o by (intro k4) (auto simp: openable_defs a_def)
  qed
  then have mt4: "fat_mounted P n img s4" using mt3 by (simp add: fat_mounted_def stream_ok_def same4 ma)
  have sl: "slot < 12" "processes s ! slot = 0" using free_slot_Some [of "processes s" 0 slot] slot by simp_all
  have run: "process_load P path s = Ret ((0, p), s4)"
    using z task slot(1) sl
    by (simp add: process_load_def process_load_for_slot_def process_get_free_slot_def process_get_def outcome_simps)
  have r4: "kheap_repr s4 (A @ Alloc 2 # replicate 4 (Alloc 0) @ Alloc 3 # Alloc k # replicate 1027 (Alloc 0) @ B)" using r4 by simp
  have "procs s4 = (procs s)(p \<mapsto> no_process\<lparr>process_type := 0, program := block_addr (a + 3), stack := block_addr (a + 7),
      process_id := of_nat slot, main_task := q\<rparr>)" using p4 p3 by simp
  then show ?thesis
    using run r4 fin mt4 k4 f3 same4 same3 by (intro exI [of _ s4] exI [of _ tk]) simp
qed

text \<open>
  C2: loading a program. The bytes of a file are those of the clusters that the allocation table names; if it
  has more than one, the code has to find the links between them (\<open>file_clusters\<close>). On a mounted volume, with enough free blocks in a row and a free slot,
  \<open>process_load\<close> of the path of a program file returns 0 and the process: the table of processes holds
  it in the lowest free slot, and its task is at the end of the list of the scheduler, in user mode, at
  the entry point that the file names. Through the page directory of the task, every byte of every
  segment that lies in the file is the byte of the file on the disk, open to the program and writeable
  exactly if the header asks for it, and the stack lies below 0x3FF000. A segment that is longer in
  memory than in the file goes on in the blocks behind the file. The heap holds what the process takes,
  plus the path that is never released; the slot of the open file is free again, and outside the
  blocks that are taken, the table of the heap and the locals of the file layer no memory has changed.
\<close>

theorem process_load_program:
  fixes s :: "('d, 'z) process_machine_scheme"
  assumes slot: "free_slot (processes s) 0 = Some slot" "length (processes s) = 12"
    and o: "openable P n img path (literal_r s) xs es j i (seg_blocks A) (1039 + k) s"
    and heap: "kheap_repr s (A @ replicate (1039 + k) FreeBlk @ B)" "FreeBlk \<notin> set A"
    and locals: "load_locals s (seg_blocks A) (1039 + k)" and cl: "file_clusters n img s e (es ! j) cls"
    and t: "file_size (entry_item (es ! j)) = of_nat t" "0 < t" "t \<le> length cls * cluster_size s" "t < 2147483648" "4096 * k < t" "t \<le> 4096 * Suc k"
    and fb: "fb = take t (file_bytes img s e cls)" "runnable fb"
    and ts: "task_list ts s" "tasks s (block_addr (seg_blocks A + 12 + k)) = None"
  defines "a \<equiv> seg_blocks A"
  defines "p \<equiv> block_addr a" and "q \<equiv> block_addr (a + 12 + k)"
  shows "\<exists>s' tk. process_load P path s = Ret ((0, p), s') \<and> processes s' = (processes s)[slot := p]
    \<and> procs s' = (procs s)(p \<mapsto> no_process\<lparr>process_type := 0, program := block_addr (a + 3), stack := block_addr (a + 7),
         process_id := of_nat slot, main_task := q\<rparr>)
    \<and> task_list (ts @ [q]) s' \<and> tasks s' q = Some tk \<and> others_kept q (tasks s) (tasks s')
    \<and> owner tk = p \<and> user_mode (regs tk) \<and> esp (regs tk) = PROGRAM_STACK_START \<and> ip (regs tk) = e_entry (file_header fb)
    \<and> load32 (ram s') (page_directory tk) = block_addr (a + 13 + k)
    \<and> (\<forall>h\<in>set (file_headers fb). segment_loaded (ram s') (load32 (ram s') (page_directory tk)) fb h
          \<and> segment_at (ram s') (load32 (ram s') (page_directory tk)) (block_addr (a + 11)) h)
    \<and> (\<forall>k<16384. paging_get_physical_address (ram s') (load32 (ram s') (page_directory tk)) (0x3FB000 + of_nat k) = block_addr (a + 7) + of_nat k)
    \<and> kheap_repr s' (A @ Alloc 2 # replicate 4 (Alloc 0) @ Alloc 3 # Alloc k # replicate 1027 (Alloc 0) @ B)
    \<and> fat_mounted P n img s' \<and> file_descriptors s' = file_descriptors s
    \<and> (\<forall>x. x \<notin> search_bytes (fat_vars s) a (1039 + k) \<and> \<not> in_range x (stat_local s) 8
         \<and> \<not> in_range x (entry_local (fat_vars s)) 2 \<longrightarrow> ram s' x = ram s x)"
  using process_load_run [OF assms(1-17)] unfolding a_def p_def q_def .

section \<open>Memory behind the file\<close>

text \<open>
  C9: a segment that is longer in memory than the file. Nothing is allocated or cleared for the part
  behind the file: it is whatever block follows. With the task taken right after the file, byte
  \<open>4096 * (k + 2) + y\<close> of the file, counted over its end, is byte \<open>y\<close> of the page directory of the
  task itself, open to the program for writing if the segment is writeable.
\<close>

theorem process_load_shows_directory:
  fixes s :: "('d, 'z) process_machine_scheme"
  assumes slot: "free_slot (processes s) 0 = Some slot" "length (processes s) = 12"
    and o: "openable P n img path (literal_r s) xs es j i (seg_blocks A) (1039 + k) s"
    and heap: "kheap_repr s (A @ replicate (1039 + k) FreeBlk @ B)" "FreeBlk \<notin> set A"
    and locals: "load_locals s (seg_blocks A) (1039 + k)" and cl: "file_clusters n img s e (es ! j) cls"
    and t: "file_size (entry_item (es ! j)) = of_nat t" "0 < t" "t \<le> length cls * cluster_size s" "t < 2147483648" "4096 * k < t" "t \<le> 4096 * Suc k"
    and fb: "fb = take t (file_bytes img s e cls)" "runnable fb"
    and ts: "task_list ts s" "tasks s (block_addr (seg_blocks A + 12 + k)) = None"
    and h: "h \<in> set (file_headers fb)" "p_flags h AND 2 \<noteq> 0"
    and y: "unat (p_offset h) + j' = 4096 * (k + 2) + y" "j' < unat (p_memsz h)"
  shows "\<exists>s' tk D. process_load P path s = Ret ((0, block_addr (seg_blocks A)), s')
    \<and> tasks s' (block_addr (seg_blocks A + 12 + k)) = Some tk \<and> D = load32 (ram s') (page_directory tk)
    \<and> paging_get_physical_address (ram s') D (p_vaddr h + of_nat j') = D + of_nat y
    \<and> paging_get (ram s') D ((p_vaddr h + of_nat j') AND 0xFFFFF000) AND 7 = 7"
proof -
  let ?a = "seg_blocks A"
  from process_load_run [OF assms(1-17)] obtain s' tk where
    run: "process_load P path s = Ret ((0, block_addr ?a), s')" "tasks s' (block_addr (?a + 12 + k)) = Some tk"
    and D: "load32 (ram s') (page_directory tk) = block_addr (?a + 13 + k)"
    and seg: "segment_loaded (ram s') (load32 (ram s') (page_directory tk)) fb h"
      "segment_at (ram s') (load32 (ram s') (page_directory tk)) (block_addr (?a + 11)) h" using h(1) by blast
  have "block_addr (?a + 11) + p_offset h + of_nat j' = block_addr (?a + 11) + of_nat (unat (p_offset h) + j')" by simp
  also have "\<dots> = block_addr (?a + 13 + k) + of_nat y"
    unfolding y(1) by (simp add: block_addr_def algebra_simps)
  finally show ?thesis using run D seg y(2) h(2)
    by (intro exI [of _ s'] exI [of _ tk] exI [of _ "block_addr (?a + 13 + k)"])
      (simp add: segment_loaded_def segment_at_def)
qed

section \<open>A concrete program\<close>

text \<open>A machine without tasks whose volume holds the program of \<open>program_image\<close>.\<close>

definition load_machine_0 :: "simple_drive syscall_machine" where
  "load_machine_0 = syscall_machine_0\<lparr>ram := open_ram, streams := (\<lambda>_. Some \<lparr>stream_pos = 0, stream_disk = MainDisk\<rparr>),
     stat_local := 0x7800, literal_r := 0x2600, current_task := 0, task_head := 0, task_tail := 0, tasks := (\<lambda>_. None),
     procs := (\<lambda>_. None), current_process := 0, processes := replicate 12 0\<rparr>"

lemma load_machine_0_state: "open_state load_machine_0"
  by (simp add: open_state_def load_machine_0_def syscall_machine_0_def)

definition program_bytes :: "u8 list" where
  "program_bytes = program_sector @ replicate 512 0x90"

lemma length_program_sector: "length program_sector = 512"
  by (simp add: program_sector_def)

lemma two_sectors:
  assumes "length (img 3) = 512" "length (img 4) = 512"
  shows "stream_bytes img 1536 1024 = img 3 @ img 4"
proof -
  have pos: "(1536 + i) div 512 = 3 \<and> (1536 + i) mod 512 = i \<and> (2048 + i) div 512 = 4 \<and> (2048 + i) mod 512 = i" if "i < 512" for i :: nat
  proof -
    have "(512 * 3 + i) div 512 = 3" "(512 * 3 + i) mod 512 = i" "(512 * 4 + i) div 512 = 4" "(512 * 4 + i) mod 512 = i"
      using that by (simp_all only: div_mult_self3 mod_mult_self4 div_less mod_less add_0_right)
    then show ?thesis by simp
  qed
  have "stream_bytes img 1536 512 = img 3" "stream_bytes img 2048 512 = img 4"
    by (rule nth_equalityI; simp add: stream_bytes_def assms pos del: upt_rec_numeral)+
  moreover have "stream_bytes img 1536 (512 + 512) = stream_bytes img 1536 512 @ stream_bytes img (1536 + 512) 512"
    by (rule stream_bytes_append)
  ultimately show ?thesis by simp
qed

lemma program_image_bytes: "stream_bytes program_image 1536 1024 = program_bytes"
  by (subst two_sectors) (simp_all add: program_image_def program_bytes_def length_program_sector)

text \<open>Whatever program the volume holds, the machine is ready to load it.\<close>

lemma load_machine_ready:
  assumes img: "\<And>k. length (img k) = 512"
  shows "openable (simple_ports img) 65536 img 0x2500 (literal_r load_machine_0) [0x61] [open_entry] 0 0 (seg_blocks []) (1039 + 0) load_machine_0"
    and "kheap_repr load_machine_0 ([] @ replicate (1039 + 0) FreeBlk @ replicate 24561 FreeBlk)"
    and "load_locals load_machine_0 (seg_blocks []) (1039 + 0)"
    and "file_clusters 65536 img load_machine_0 3 ([open_entry] ! 0) [2]"
    and "take 1024 (file_bytes img load_machine_0 3 [2]) = img 3 @ img 4"
    and "free_slot (processes load_machine_0) 0 = Some 0" "length (processes load_machine_0) = 12"
    and "task_list [] load_machine_0" "tasks load_machine_0 x = None"
    and "1024 \<le> length [2 :: nat] * cluster_size load_machine_0" "file_size (entry_item ([open_entry] ! 0)) = of_nat 1024"
proof -
  note st = load_machine_0_state and cl = open_state_clusters [OF load_machine_0_state]
  have lit: "literal_r load_machine_0 = 0x2600" "stat_local load_machine_0 = 0x7800" "processes load_machine_0 = replicate 12 0"
    by (simp_all add: load_machine_0_def)
  have "(25600 :: nat) = (1039 + 0) + 24561" by simp
  then show "kheap_repr load_machine_0 ([] @ replicate (1039 + 0) FreeBlk @ replicate 24561 FreeBlk)"
    using open_state_heap [OF st] by (simp only: replicate_add append_Nil)
  show "openable (simple_ports img) 65536 img 0x2500 (literal_r load_machine_0) [0x61] [open_entry] 0 0 (seg_blocks []) (1039 + 0) load_machine_0"
    using open_state_openable [OF st img, of 1039] by (simp add: lit)
  show "load_locals load_machine_0 (seg_blocks []) (1039 + 0)" by (rule open_state_locals [OF st lit(2)]) simp
  show "file_clusters 65536 img load_machine_0 3 ([open_entry] ! 0) [2]" using cl by simp
  show "take 1024 (file_bytes img load_machine_0 3 [2]) = img 3 @ img 4"
    by (simp add: cl(2) two_sectors img)
  show "free_slot (processes load_machine_0) 0 = Some 0" "length (processes load_machine_0) = 12"
    by (simp_all add: lit(3) eval_nat_numeral)
  show "task_list [] load_machine_0" "tasks load_machine_0 x = None" by (simp_all add: load_machine_0_def task_list_def)
  show "1024 \<le> length [2 :: nat] * cluster_size load_machine_0" "file_size (entry_item ([open_entry] ! 0)) = of_nat 1024"
    by (simp_all add: open_entry_facts open_state_mount [OF st])
qed

definition program_segment :: elf32_phdr where
  "program_segment = \<lparr>p_type = 1, p_offset = 0, p_vaddr = 0x400000, p_paddr = 0x400000, p_filesz = 1024, p_memsz = 1024, p_flags = 5, p_align = 0x1000\<rparr>"

text \<open>The file with byte \<open>u\<close> in the size of its segment and \<open>v\<close> in the flags, which are 4 and 5 in \<open>program_sector\<close>.\<close>

lemma sector_header_facts:
  defines "fb u v \<equiv> program_sector[73 := u, 76 := v] @ replicate 512 0x90"
  shows "length (fb u v) = 1024"
    and "e_phoff (file_header (fb u v)) = 52" "e_phnum (file_header (fb u v)) = 1" "e_entry (file_header (fb u v)) = 0x400080"
    and "elf32_phdr_at (file_memory (fb u v)) 52 = program_segment\<lparr>p_memsz := push_bit 8 (ucast u), p_flags := ucast v\<rparr>"
proof -
  show l: "length (fb u v) = 1024" by (simp add: fb_def length_program_sector)
  then have b: "file_memory (fb u v) (of_nat k) = (if k = 76 then v else if k = 73 then u else program_sector ! k)" if "k < 512" for k
    using that file_memory_byte [of k "fb u v"] by (simp add: fb_def nth_append length_program_sector nth_list_update)
  note h = b [of 24] b [of 25] b [of 26] b [of 27] b [of 28] b [of 29] b [of 30] b [of 31] b [of 44] b [of 45]
  note ph = b [of 52] b [of 53] b [of 54] b [of 55] b [of 56] b [of 57] b [of 58] b [of 59] b [of 60] b [of 61] b [of 62] b [of 63]
    b [of 64] b [of 65] b [of 66] b [of 67] b [of 68] b [of 69] b [of 70] b [of 71] b [of 72] b [of 73] b [of 74] b [of 75]
    b [of 76] b [of 77] b [of 78] b [of 79] b [of 80] b [of 81] b [of 82] b [of 83]
  show "e_phoff (file_header (fb u v)) = 52" "e_phnum (file_header (fb u v)) = 1" "e_entry (file_header (fb u v)) = 0x400080"
    using h by (simp_all add: file_header_def elf_header_at_def load32_def load16_def program_sector_def)
  show "elf32_phdr_at (file_memory (fb u v)) 52 = program_segment\<lparr>p_memsz := push_bit 8 (ucast u), p_flags := ucast v\<rparr>"
    using ph by (simp add: elf32_phdr_at_def program_segment_def load32_def program_sector_def)
qed

lemma program_header_facts:
  "e_phoff (file_header program_bytes) = 52" "e_phnum (file_header program_bytes) = 1" "e_entry (file_header program_bytes) = 0x400080"
  "elf32_phdr_at (file_memory program_bytes) 52 = program_segment"
proof -
  have "program_sector ! 73 = 4" "program_sector ! 76 = 5" by (simp_all add: program_sector_def)
  then have "program_sector[73 := 4, 76 := 5] = program_sector" by (metis list_update_id)
  then have "program_bytes = program_sector[73 := 4, 76 := 5] @ replicate 512 0x90" by (simp add: program_bytes_def)
  note f = sector_header_facts [of 4 5, folded this]
  show "e_phoff (file_header program_bytes) = 52" "e_phnum (file_header program_bytes) = 1" "e_entry (file_header program_bytes) = 0x400080"
    "elf32_phdr_at (file_memory program_bytes) 52 = program_segment"
    using f by (simp_all add: program_segment_def)
qed

lemma program_headers: "file_headers program_bytes = [program_segment]"
  by (simp add: file_headers_def program_header_facts)

lemma program_runnable: "runnable program_bytes"
proof -
  have "seg_span program_segment \<inter> page_span 0x3FB000 16384 = {}"
    by (auto simp: seg_span_def page_span_def program_segment_def)
  moreover have "length program_bytes = 1024" by (simp add: program_bytes_def length_program_sector)
  ultimately show ?thesis
    by (simp add: runnable_def program_headers program_header_facts) (simp add: program_segment_def)
qed

theorem process_load_program_witness:
  "\<exists>s' tk. process_load (simple_ports program_image) 0x2500 load_machine_0 = Ret ((0, 0x1000000), s')
    \<and> tasks s' 0x100C000 = Some tk \<and> ip (regs tk) = 0x400080
    \<and> (\<forall>k<1024. ram s' (paging_get_physical_address (ram s') (load32 (ram s') (page_directory tk)) (0x400000 + of_nat k)) = program_bytes ! k)"
proof -
  note r = load_machine_ready [OF program_image_length]
  have fb: "program_bytes = take 1024 (file_bytes program_image load_machine_0 3 [2])"
    by (simp add: r(5) program_bytes_def program_image_def)
  from process_load_program [OF r(6,7,1,2) _ r(3,4,11) _ r(10) _ _ _ fb program_runnable r(8,9)] obtain s' tk where
    "process_load (simple_ports program_image) 0x2500 load_machine_0 = Ret ((0, block_addr 0), s')" "tasks s' (block_addr 12) = Some tk"
    "ip (regs tk) = 0x400080" "segment_loaded (ram s') (load32 (ram s') (page_directory tk)) program_bytes program_segment"
    by (auto simp: program_headers program_header_facts)
  moreover have "length program_bytes = 1024" by (simp add: program_bytes_def length_program_sector)
  ultimately show ?thesis
    by (intro exI [of _ s'] exI [of _ tk]) (simp add: block_addr_def segment_loaded_def program_segment_def)
qed

text \<open>The same program with a segment of three pages that it may write.\<close>

definition greedy_sector :: "u8 list" where
  "greedy_sector = program_sector[73 := 0x30, 76 := 7]"

definition greedy_image :: "nat \<Rightarrow> u8 list" where
  "greedy_image = program_image(3 := greedy_sector)"

definition greedy_segment :: elf32_phdr where
  "greedy_segment = program_segment\<lparr>p_memsz := 0x3000, p_flags := 7\<rparr>"

lemma greedy_image_length: "length (greedy_image k) = 512"
  by (simp add: greedy_image_def greedy_sector_def program_image_length length_program_sector)

definition greedy_bytes :: "u8 list" where
  "greedy_bytes = greedy_sector @ replicate 512 0x90"

lemma greedy_header_facts:
  "length greedy_bytes = 1024" "e_phoff (file_header greedy_bytes) = 52" "file_headers greedy_bytes = [greedy_segment]"
  unfolding greedy_bytes_def greedy_sector_def
  by (simp_all add: file_headers_def sector_header_facts greedy_segment_def length_program_sector)

lemma greedy_runnable: "runnable greedy_bytes"
proof -
  have "seg_span greedy_segment \<inter> page_span 0x3FB000 16384 = {}"
    by (auto simp: seg_span_def page_span_def greedy_segment_def program_segment_def)
  then show ?thesis
    by (simp add: runnable_def greedy_header_facts) (simp add: greedy_segment_def program_segment_def)
qed

theorem process_load_shows_directory_witness:
  "\<exists>s' tk D. process_load (simple_ports greedy_image) 0x2500 load_machine_0 = Ret ((0, 0x1000000), s')
    \<and> tasks s' 0x100C000 = Some tk \<and> D = load32 (ram s') (page_directory tk)
    \<and> paging_get_physical_address (ram s') D 0x402004 = D + 4 \<and> paging_get (ram s') D 0x402000 AND 7 = 7"
proof -
  note r = load_machine_ready [OF greedy_image_length]
  have fb: "greedy_bytes = take 1024 (file_bytes greedy_image load_machine_0 3 [2])"
    unfolding r(5) by (simp add: greedy_bytes_def greedy_image_def program_image_def)
  have h: "greedy_segment \<in> set (file_headers greedy_bytes)" "p_flags greedy_segment AND 2 \<noteq> 0"
    by (simp_all add: greedy_header_facts greedy_segment_def)
  have y: "unat (p_offset greedy_segment) + 0x2004 = 4096 * (0 + 2) + 4" "0x2004 < unat (p_memsz greedy_segment)"
    by (simp_all add: greedy_segment_def program_segment_def)
  from process_load_shows_directory [OF r(6,7,1,2) _ r(3,4,11) _ r(10) _ _ _ fb greedy_runnable r(8,9) h y] show ?thesis
    by (simp add: block_addr_def greedy_segment_def program_segment_def)
qed

end
