(* ===== verification/SystemLoad.thy ===== *)
theory SystemLoad imports SystemPrint ProgramLoad
begin

text \<open>
  A program that starts another one: \<open>int 0x80\<close> with the command of
  \<open>isr80h_command6_process_load_start\<close> of \<open>src/src/isr80h/process.c\<close>, from the interrupt of the caller to
  the first instruction of the new program.
\<close>

section \<open>Entering a program\<close>

lemma start_process_run:
  assumes "procs s p = Some pr" "tasks s (main_task pr) = Some tk"
  shows "start_process p s = Ret (Entered, s\<lparr>cr3 := load32 (ram s) (page_directory tk), current_directory := load32 (ram s) (page_directory tk),
    current_task := main_task pr, entered := (regs tk)\<lparr>flags := eflags s OR 0x200\<rparr>, data_selector := ucast (ss (regs tk))\<rparr>)"
  using assms by (simp add: start_process_def proc_def task_switch_def task_return_def paging_switch_def outcome_simps Let_def)

text \<open>The path in the buffer of the command, and the file it names.\<close>

definition path_apart :: "('d, 'z) syscall_machine_scheme \<Rightarrow> u8 list list \<Rightarrow> nat \<Rightarrow> nat \<Rightarrow> bool" where
  "path_apart s es a N \<longleftrightarrow> away (path_buffer s) 108 a N
     \<and> range_of (path_buffer s) 108 \<inter> insert (literal_r s) (volume_bytes s es) = {}"

lemma path_arrives:
  fixes s t :: "('d, 'z) syscall_machine_scheme"
  assumes ready: "file_ready P n img (literal_r s) xs es j i a N s" and apart: "path_apart s es a N" and N: "0 < N" "a + N \<le> 25600"
    and str: "cstr (ram t) (path_buffer s) (take 107 (0x30 # 0x3A # 0x2F # xs))" "xs \<noteq> []" "0x2F \<notin> set xs" "length xs \<le> 104"
    and frame: "\<forall>x. in_range x (path_buffer s) 108 \<or> in_range x (block_addr a) 4096 \<or> ram t x = ram s x"
    and same: "the_disk t = the_disk s" "fat_vars t = fat_vars s" "streams t = streams s" "dev t = dev s" "file_descriptors t = file_descriptors s"
  shows "openable P n img (path_buffer s) (literal_r s) xs es j i a N t" and "mount t = mount s" and "mount_addr t = mount_addr s"
proof -
  have eq: "ram t x = ram s x" if x: "x \<in> volume_bytes s es \<or> x = literal_r s" for x
  proof -
    have "x \<notin> search_bytes (fat_vars s) a N" using ready x by (auto simp: file_ready_def)
    then have "\<not> in_range x (block_addr a) 4096" using in_block [of a x] N by (auto simp: search_bytes_def in_blocks_def)
    moreover have "\<not> in_range x (path_buffer s) 108" using apart x by (auto simp: path_apart_def)
    ultimately show ?thesis using frame by blast
  qed
  note cong = file_ready_cong [OF ready same eq]
  show "mount t = mount s" "mount_addr t = mount_addr s" by (rule cong(2,3), assumption)+
  have "take 107 (0x30 # 0x3A # 0x2F # xs) = 0x30 # 0x3A # 0x2F # xs" using str(4) by simp
  moreover have "away (path_buffer s) (length xs + 4) a N"
    using away_sub [of "path_buffer s" 108 a N 0 "length xs + 4" a N] apart str(4) by (simp add: path_apart_def)
  ultimately show "openable P n img (path_buffer s) (literal_r s) xs es j i a N t"
    using str cong(1) by (simp add: openable_def)
qed

lemma load_switch_run:
  assumes "process_load P path s = Ret ((0, p), u)" "procs u p = Some pr" "tasks u (main_task pr) = Some tk"
  shows "kbind (process_load_switch P path) (\<lambda>(res, p). if res < 0 then eret 0 else start_process p) s
    = Ret (Entered, u\<lparr>current_process := p, cr3 := load32 (ram u) (page_directory tk), current_directory := load32 (ram u) (page_directory tk),
    current_task := main_task pr, entered := (regs tk)\<lparr>flags := eflags u OR 0x200\<rparr>, data_selector := ucast (ss (regs tk))\<rparr>)"
  using assms start_process_run [of "u\<lparr>current_process := p\<rparr>" p pr tk]
  by (simp add: process_load_switch_def process_switch_def outcome_simps)

section \<open>The system call\<close>

text \<open>The command up to the loading: the argument from the stack, the path in the buffer.\<close>

lemma path_copied:
  fixes s :: "('c, 'y) syscall_machine_scheme"
  assumes t: "current_task s = t" "t \<noteq> 0" "tasks s t = Some tk"
    and arg: "load32_in (ram s) (load32 (ram s) (page_directory tk)) (f_esp frame) = Some v"
    and str: "task_string (ram s) (page_directory tk) (block_addr (seg_blocks A)) v (0x30 # 0x3A # 0x2F # xs)" "xs \<noteq> []" "0x2F \<notin> set xs" "length xs \<le> 104"
    and kw: "kernel_word (ram s) (page_directory tk) (block_addr (seg_blocks A)) (kernel_chunk s)"
    and apart: "path_apart s es (seg_blocks A) (Suc N)" and ready: "file_ready P n img (literal_r s) xs es j i (seg_blocks A) (Suc N) s"
    and heap: "kheap_repr s (A @ replicate (Suc N) FreeBlk @ B)" "FreeBlk \<notin> set A"
  defines "s0 \<equiv> in_kernel frame t tk s"
  shows "\<exists>s1. stack_item 0 s0 = Ret (v, s0) \<and> copy_string_from_task t v (path_buffer s) 108 s0 = Ret (0, s1) \<and> s1 = s0\<lparr>ram := ram s1\<rparr>
    \<and> openable P n img (path_buffer s) (literal_r s) xs es j i (seg_blocks A) (Suc N) s1 \<and> mount s1 = mount s \<and> mount_addr s1 = mount_addr s
    \<and> kheap_repr s1 (A @ replicate (Suc N) FreeBlk @ B)"
proof -
  let ?a = "seg_blocks A" and ?xs = "0x30 # 0x3A # 0x2F # xs"
  define K where "K = load32 (ram s) (kernel_chunk s)"
  define tk' where "tk' = tk\<lparr>regs := save_frame frame (regs tk)\<rparr>"
  have s0_eq: "s0 = s\<lparr>data_selector := 0x10, cr3 := K, current_directory := K, tasks := (tasks s)(t \<mapsto> tk')\<rparr>"
    by (simp add: s0_def in_kernel_def K_def tk'_def del: fun_upd_apply)
  have s0: "current_task s0 = t" "tasks s0 t = Some tk'" "ram s0 = ram s" "kernel_chunk s0 = kernel_chunk s"
    and tk': "page_directory tk' = page_directory tk" "esp (regs tk') = f_esp frame"
    by (simp_all add: s0_eq tk'_def save_frame_def t)
  have "stack_item 0 s0 = Ret (v, s0\<lparr>data_selector := 0x10, cr3 := K, current_directory := K\<rparr>)"
    using stack_item_run [OF s0(1,2), of 0 v] arg by (simp add: s0 tk' K_def)
  then have item: "stack_item 0 s0 = Ret (v, s0)" by (simp add: s0_eq)
  have blocks: "?a + Suc N \<le> 25600" using kheap_repr_blocks [OF heap(1)] by simp
  have heap0: "kheap_repr s0 (A @ FreeBlk # (replicate N FreeBlk @ B))"
    using kheap_repr_cong [OF heap(1), of s0] by (simp add: s0_eq)
  have buf: "disjoint_ranges (path_buffer s) 108 (block_addr ?a) 4096" "disjoint_ranges (path_buffer s) 108 0x7E00 25600"
    using apart by (auto simp: path_apart_def away_def disjoint_ranges_def)
  from copy_string_run [OF heap0 heap(2) _ _ s0(2), of 108 v ?xs "path_buffer s"] str(1) kw buf
  obtain s1 where copy: "copy_string_from_task t v (path_buffer s) 108 s0 = Ret (0, s1)"
    and str1: "cstr (ram s1) (path_buffer s) (take 107 ?xs)"
    and frame: "\<forall>x. in_range x (path_buffer s) 108 \<or> in_range x (block_addr ?a) 4096 \<or> ram s1 x = ram s x"
    and s1: "s1 = s0\<lparr>ram := ram s1, cr3 := K, current_directory := K, data_selector := 0x10\<rparr>"
    by (auto simp: s0 tk' K_def)
  have "s0\<lparr>ram := m, cr3 := K, current_directory := K, data_selector := 0x10\<rparr> = s0\<lparr>ram := m\<rparr>" for m by (simp add: s0_eq)
  with s1 have e1: "s1 = s0\<lparr>ram := ram s1\<rparr>" by simp
  have same: "the_disk s1 = the_disk s" "fat_vars s1 = fat_vars s" "streams s1 = streams s" "dev s1 = dev s" "file_descriptors s1 = file_descriptors s"
    "kernel_heap s1 = kernel_heap s"
    by (subst e1, simp add: s0_eq)+
  note arrives = path_arrives [OF ready apart zero_less_Suc blocks str1 str(2-4) frame same(1-5)]
  have "kheap_repr s1 (A @ replicate (Suc N) FreeBlk @ B)"
  proof (rule kheap_repr_cong [OF heap(1) same(6)])
    fix x assume x: "in_range x 0x7E00 25600"
    then have "\<not> in_range x (block_addr ?a) 4096" using in_block [of ?a x] blocks by (simp add: in_range_forward in_blocks_def)
    then show "ram s1 x = ram s x" using frame buf(2) x by (auto simp: disjoint_ranges_def)
  qed
  then show ?thesis using item copy e1 arrives by blast
qed

lemma process_load_call:
  fixes P :: "'c ports" and s :: "('c, 'y) syscall_machine_scheme"
  assumes call: "isr80h_commands s ! 6 = Some Process_load_start" and t: "current_task s = t" "t \<noteq> 0" "tasks s t = Some tk"
    and arg: "load32_in (ram s) (load32 (ram s) (page_directory tk)) (f_esp frame) = Some v"
    and str: "task_string (ram s) (page_directory tk) (block_addr (seg_blocks A)) v (0x30 # 0x3A # 0x2F # xs)" "xs \<noteq> []" "0x2F \<notin> set xs" "length xs \<le> 104"
    and kw: "kernel_word (ram s) (page_directory tk) (block_addr (seg_blocks A)) (kernel_chunk s)"
    and apart: "path_apart s es (seg_blocks A) (1039 + k)" and ready: "file_ready P n img (literal_r s) xs es j i (seg_blocks A) (1039 + k) s"
    and heap: "kheap_repr s (A @ replicate (1039 + k) FreeBlk @ B)" "FreeBlk \<notin> set A"
    and slot: "free_slot (processes s) 0 = Some slot" "length (processes s) = 12"
    and locals: "load_locals s (seg_blocks A) (1039 + k)" and cl: "file_clusters n img s e (es ! j) cls"
    and sz: "file_size (entry_item (es ! j)) = of_nat sz" "0 < sz" "sz \<le> length cls * cluster_size s" "sz < 2147483648" "4096 * k < sz" "sz \<le> 4096 * Suc k"
    and fb: "fb = take sz (file_bytes img s e cls)" "runnable fb"
    and ts: "task_list ts s" "tasks s (block_addr (seg_blocks A + 12 + k)) = None"
  defines "p \<equiv> block_addr (seg_blocks A)" and "q \<equiv> block_addr (seg_blocks A + 12 + k)"
  shows "\<exists>s'. isr80h_handler P 6 frame s = Ret (Entered, s') \<and> current_process s' = p \<and> current_task s' = q
    \<and> processes s' = (processes s)[slot := p] \<and> task_list (ts @ [q]) s'
    \<and> (\<exists>nx. tasks s' t = Some (tk\<lparr>regs := frame_registers frame, next_task := nx\<rparr>))
    \<and> user_mode (entered s') \<and> data_selector s' = 0x23 \<and> ip (entered s') = e_entry (file_header fb) \<and> esp (entered s') = PROGRAM_STACK_START
    \<and> (\<forall>h\<in>set (file_headers fb). segment_loaded (ram s') (cr3 s') fb h)
    \<and> (\<forall>k<16384. paging_get_physical_address (ram s') (cr3 s') (0x3FB000 + of_nat k) = block_addr (seg_blocks A + 7) + of_nat k)"
proof -
  let ?a = "seg_blocks A" and ?N = "1039 + k"
  define tk' where "tk' = tk\<lparr>regs := save_frame frame (regs tk)\<rparr>"
  define s0 where "s0 = in_kernel frame t tk s"
  have N: "?N = Suc (1038 + k)" by simp
  from path_copied [where frame = frame, OF t arg str kw apart [unfolded N] ready [unfolded N] heap(1) [unfolded N] heap(2), folded N s0_def]
  obtain s1 where item: "stack_item 0 s0 = Ret (v, s0)" and copy: "copy_string_from_task t v (path_buffer s) 108 s0 = Ret (0, s1)"
    and e1: "s1 = s0\<lparr>ram := ram s1\<rparr>" and o1: "openable P n img (path_buffer s) (literal_r s) xs es j i ?a ?N s1"
    and ms: "mount s1 = mount s" "mount_addr s1 = mount_addr s" and h1: "kheap_repr s1 (A @ replicate ?N FreeBlk @ B)"
    by blast
  have same: "fat_vars s1 = fat_vars s" "processes s1 = processes s" "literal_r s1 = literal_r s" "stat_local s1 = stat_local s"
    "tasks s1 = (tasks s)(t \<mapsto> tk')" "task_head s1 = task_head s" "task_tail s1 = task_tail s"
    by (subst e1, simp add: s0_def in_kernel_def tk'_def del: fun_upd_apply)+
  have o1: "openable P n img (path_buffer s) (literal_r s1) xs es j i ?a ?N s1" using o1 by (simp add: same)
  have geo: "cluster_size s1 = cluster_size s" "clusters_ok n s1 e cls = clusters_ok n s e cls" "fat_reserved s1 = fat_reserved s"
    "file_bytes img s1 e cls = file_bytes img s e cls"
    by (simp_all add: cluster_size_def clusters_ok_def cluster_pos_def fat_reserved_def file_bytes_def ms)
  have l1: "load_locals s1 ?a ?N" by (rule load_locals_sub [OF locals]) (simp_all add: same ms)
  have c1: "file_clusters n img s1 e (es ! j) cls" "sz \<le> length cls * cluster_size s1" "fb = take sz (file_bytes img s1 e cls)"
    using cl sz(3) fb(1) by (simp_all add: file_clusters_def geo)
  have t1: "task_list ts s1"
    using ts(1) t(3) task_ring_update [of ts s t tk tk' s1] by (auto simp: task_list_def same tk'_def)
  have q1: "tasks s1 q = None" "t \<noteq> q" using ts(2) t(3) by (auto simp: same q_def)
  from process_load_run [OF slot [folded same(2)] o1 h1 heap(2) l1 c1(1) sz(1,2) c1(2) sz(4-6) c1(3) fb(2) t1 q1(1) [unfolded q_def],
      folded p_def q_def] obtain u tq where load: "process_load P (path_buffer s) s1 = Ret ((0, p), u)" and u: "processes u = (processes s)[slot := p]"
      "procs u = (procs s1)(p \<mapsto> no_process\<lparr>process_type := 0, program := block_addr (?a + 3), stack := block_addr (?a + 7),
         process_id := of_nat slot, main_task := q\<rparr>)"
      "task_list (ts @ [q]) u" "tasks u q = Some tq" "others_kept q (tasks s1) (tasks u)"
    and tq: "user_mode (regs tq)" "esp (regs tq) = PROGRAM_STACK_START" "ip (regs tq) = e_entry (file_header fb)"
    and seg: "\<forall>h\<in>set (file_headers fb). segment_loaded (ram u) (load32 (ram u) (page_directory tq)) fb h"
      "\<forall>k<16384. paging_get_physical_address (ram u) (load32 (ram u) (page_directory tq)) (0x3FB000 + of_nat k) = block_addr (?a + 7) + of_nat k"
    by (auto simp: same)
  have pu: "procs u p = Some (no_process\<lparr>process_type := 0, program := block_addr (?a + 3), stack := block_addr (?a + 7),
         process_id := of_nat slot, main_task := q\<rparr>)" (is "_ = Some ?pr") by (simp add: u(2))
  have m: "main_task ?pr = q" by simp
  define s' where "s' = u\<lparr>current_process := p, cr3 := load32 (ram u) (page_directory tq), current_directory := load32 (ram u) (page_directory tq),
    current_task := q, entered := (regs tq)\<lparr>flags := eflags u OR 0x200\<rparr>, data_selector := ucast (ss (regs tq))\<rparr>"
  have start: "kbind (process_load_switch P (path_buffer s)) (\<lambda>(res, p). if res < 0 then eret 0 else start_process p) s1 = Ret (Entered, s')"
    using load_switch_run [OF load pu, unfolded m, OF u(4)] by (simp add: s'_def)
  have "isr80h_commands s0 = isr80h_commands s" "current_task s0 = t" "path_buffer s0 = path_buffer s"
    using t(1) by (simp_all add: s0_def in_kernel_def)
  then have "isr80h_handle_command P 6 s0 = Ret (Entered, s')"
    using call item copy start by (simp add: isr80h_handle_command_def isr80h_command6_process_load_start_def outcome_simps)
  then have run: "isr80h_handler P 6 frame s = Ret (Entered, s')"
    by (simp add: handler_enters [OF t] s0_def [symmetric] ebind_def outcome_simps)
  have "\<exists>nx. tasks u t = Some (tk'\<lparr>next_task := nx\<rparr>)" using u(5) q1(2) by (auto simp: others_kept_def same)
  moreover have "task_list (ts @ [q]) s'" using u(3) task_list_cong [of s' u "ts @ [q]"] by (simp add: s'_def)
  ultimately show ?thesis using run u(1) tq seg by (intro exI [of _ s']) (simp add: s'_def user_mode_def tk'_def save_frame_registers)
qed

text \<open>
  C1: starting a program from a program. A task makes the system call with the address of the path
  \<open>0:/name\<close> on top of its stack. If the volume has that file, it can run, and slot and blocks are free,
  the call never returns to the caller: the processor enters user mode at the entry point that the
  file names, on the user stack, and the directory then in \<open>cr3\<close> shows every segment of the file with
  its bytes on the disk, open to it and writeable exactly if the header asks for it. These are the bytes of
  the clusters that the allocation table names; if there is more than one, the code has to find the links
  between them (\<open>file_clusters\<close>). The new process is
  current and in the lowest free slot, its task is at the end of the list of the scheduler, and the
  caller keeps the registers of the interrupt, to go on when its turn comes.
\<close>

theorem process_load_start_enters:
  fixes P :: "'c ports" and s :: "('c, 'y) syscall_machine_scheme"
  assumes call: "isr80h_commands s ! 6 = Some Process_load_start" and t: "current_task s = t" "t \<noteq> 0" "tasks s t = Some tk"
    and arg: "load32_in (ram s) (load32 (ram s) (page_directory tk)) (f_esp frame) = Some v"
    and str: "task_string (ram s) (page_directory tk) (block_addr (seg_blocks A)) v (0x30 # 0x3A # 0x2F # xs)" "xs \<noteq> []" "0x2F \<notin> set xs" "length xs \<le> 104"
    and kw: "kernel_word (ram s) (page_directory tk) (block_addr (seg_blocks A)) (kernel_chunk s)"
    and apart: "path_apart s es (seg_blocks A) (1039 + k)" and ready: "file_ready P n img (literal_r s) xs es j i (seg_blocks A) (1039 + k) s"
    and heap: "kheap_repr s (A @ replicate (1039 + k) FreeBlk @ B)" "FreeBlk \<notin> set A"
    and slot: "free_slot (processes s) 0 = Some slot" "length (processes s) = 12"
    and locals: "load_locals s (seg_blocks A) (1039 + k)" and cl: "file_clusters n img s e (es ! j) cls"
    and sz: "file_size (entry_item (es ! j)) = of_nat sz" "0 < sz" "sz \<le> length cls * cluster_size s" "sz < 2147483648" "4096 * k < sz" "sz \<le> 4096 * Suc k"
    and fb: "fb = take sz (file_bytes img s e cls)" "runnable fb"
    and ts: "task_list ts s" "tasks s (block_addr (seg_blocks A + 12 + k)) = None"
  defines "p \<equiv> block_addr (seg_blocks A)" and "q \<equiv> block_addr (seg_blocks A + 12 + k)"
  shows "\<exists>s'. isr80h_handler P 6 frame s = Ret (Entered, s') \<and> current_process s' = p \<and> current_task s' = q
    \<and> processes s' = (processes s)[slot := p] \<and> task_list (ts @ [q]) s'
    \<and> (\<exists>nx. tasks s' t = Some (tk\<lparr>regs := frame_registers frame, next_task := nx\<rparr>))
    \<and> user_mode (entered s') \<and> data_selector s' = 0x23 \<and> ip (entered s') = e_entry (file_header fb) \<and> esp (entered s') = PROGRAM_STACK_START
    \<and> (\<forall>h\<in>set (file_headers fb). segment_loaded (ram s') (cr3 s') fb h)
    \<and> (\<forall>k<16384. paging_get_physical_address (ram s') (cr3 s') (0x3FB000 + of_nat k) = block_addr (seg_blocks A + 7) + of_nat k)"
  using process_load_call [OF assms(1-28)] unfolding p_def q_def .

section \<open>A concrete call\<close>

text \<open>
  A task whose address space has the path at 0x400440 and its address at 0x400448, on the machine
  whose volume holds the program of \<open>program_image\<close>.
\<close>

definition start_ram :: mem where
  "start_ram a = (if unat a < 0x2601 then open_ram a else space_memory a)"

definition start_machine_0 :: "simple_drive syscall_machine" where
  "start_machine_0 = load_machine_0\<lparr>ram := start_ram, tasks := [0x1200000 \<mapsto> no_task\<lparr>page_directory := 0xF000\<rparr>],
     task_head := 0x1200000, task_tail := 0x1200000, current_task := 0x1200000, kernel_chunk := 0xF800, path_buffer := 0x6800\<rparr>"

lemma start_load: "0x2601 \<le> unat a \<Longrightarrow> unat a < 4294967292 \<Longrightarrow> load32 start_ram a = load32 space_memory a"
  by (rule load32_range) (auto simp: start_ram_def in_range_forward)

lemma start_table: "page_table start_ram 0x100000 d = page_table space_memory 0x100000 d" if "d < 1024"
  unfolding page_table_def using that unat_page_word [of "0x100000" d] by (subst start_load) simp_all

lemma start_directory: "load32 start_ram 0xF000 = 0x100000"
  by (subst start_load, simp, simp, subst load32_space) (simp_all add: space_word_def)

lemma start_chunk: "wf_chunk 0xF000 start_ram"
proof -
  have "wf_dir 0x100000 start_ram" using space_chunk by (simp add: wf_chunk_def wf_dir_def space_directory start_table)
  moreover have "page_table start_ram 0x100000 d \<noteq> 0xF000" if "d < 1024" for d
    using unat_space_table [OF that] that by (auto simp: start_table)
  ultimately show ?thesis by (simp add: wf_chunk_def start_directory)
qed

lemma start_no_table: "unat a < 0x200000 \<or> 0x600000 \<le> unat a \<Longrightarrow> \<not> table_byte 0xF000 start_ram a"
  using space_no_table [of a] by (auto simp: table_byte_def start_directory space_directory start_table)

lemma start_low_page: "unat a div 4096 = 0x400 \<Longrightarrow> paging_get_physical_address start_ram 0x100000 a = a + 0x300000
    \<and> translate start_ram 0x100000 a \<noteq> None"
proof -
  assume a: "unat a div 4096 = 0x400"
  then have m: "a AND 0xFFFFF000 = 0x400000" by (simp add: word_unat_eq_iff unat_page_mask)
  have i: "dir_index 0x400000 = 1" "tbl_index 0x400000 = 0" by (simp_all add: dir_index_def tbl_index_def)
  have "paging_get start_ram 0x100000 0x400000 = 0x700007"
    by (simp add: paging_get_word i start_table space_table page_word_def start_load load32_space space_word_def)
  then show ?thesis
    by (simp add: paging_get_physical_address_def translate_def lower_page m)
qed

lemma start_task_string: "task_string start_ram 0xF000 0x1000000 0x400440 [0x30, 0x3A, 0x2F, 0x61]"
proof -
  have k5: "k = 0 \<or> k = 1 \<or> k = 2 \<or> k = 3 \<or> k = 4" if "k \<le> length [0x30, 0x3A, 0x2F, 0x61 :: u8]" for k
    using that by (simp add: numeral_eq_Suc le_Suc_eq)
  have pages: "unat (0x400440 + of_nat k :: u32) div 4096 = 0x400" if "k \<le> length [0x30, 0x3A, 0x2F, 0x61 :: u8]" for k
    using k5 [OF that] by auto
  note low = start_low_page [OF pages]
  have seen: "task_text start_ram 0x100000 0x400440 [0x30, 0x3A, 0x2F, 0x61]"
    unfolding task_text_def
  proof
    show "cstr (\<lambda>a. start_ram (paging_get_physical_address start_ram 0x100000 a)) 0x400440 [0x30, 0x3A, 0x2F, 0x61]"
      using low [of 0] low [of 1] low [of 2] low [of 3] low [of 4] by (simp add: start_ram_def space_memory_def space_word_def)
    show "\<forall>k\<le>length [0x30, 0x3A, 0x2F, 0x61 :: u8]. translate start_ram 0x100000 (0x400440 + of_nat k) \<noteq> None"
      using low by blast
  qed
  have apart: "(0x400440 + of_nat k) AND 0xFFFFF000 \<noteq> (0x1000000 :: u32)
      \<and> \<not> in_range (paging_get_physical_address start_ram 0x100000 (0x400440 + of_nat k)) 0x1000000 4096
      \<and> \<not> in_range (paging_get_physical_address start_ram 0x100000 (0x400440 + of_nat k)) 0x7E00 25600
      \<and> \<not> table_byte 0xF000 start_ram (paging_get_physical_address start_ram 0x100000 (0x400440 + of_nat k))"
    if k: "k \<le> length [0x30, 0x3A, 0x2F, 0x61 :: u8]" for k
    using k5 [OF k] low [OF k] by (elim disjE) (simp_all add: in_range_forward start_no_table)
  have page: "\<not> space_byte 0xF000 start_ram a" if "in_range a 0x1000000 4096 \<or> in_range a 0x7E00 25600" for a
    using that by (auto simp: space_byte_def start_directory in_range_forward start_no_table)
  show ?thesis using start_chunk seen apart page by (simp only: task_string_def start_directory) blast
qed

lemma start_stack: "load32_in start_ram 0x100000 0x400448 = Some 0x400440"
  using start_low_page [of "0x400448"] start_low_page [of "0x400449"] start_low_page [of "0x40044A"] start_low_page [of "0x40044B"]
  by (auto simp: load32_in_def translate_Some start_ram_def space_memory_def space_word_def)

lemma start_machine_heap: "kheap_repr start_machine_0 (replicate 25600 FreeBlk)"
proof (rule kheap_repr_cong [OF open_state_heap [OF load_machine_0_state]])
  fix a assume "in_range a 0x7E00 25600"
  then have a: "0x7E00 \<le> unat a" "unat a < 0xE200" by (simp_all add: in_range_forward)
  then have "0x1F80 \<le> unat a div 4" "unat a div 4 < 0x3880" by linarith+
  moreover have "open_ram a = 0" using a open_ram_high by (simp add: zero_from_def)
  ultimately show "ram start_machine_0 a = ram load_machine_0 a"
    using a by (simp add: start_machine_0_def start_ram_def space_memory_def space_word_def load_machine_0_def)
qed (simp add: start_machine_0_def)

lemma start_machine_ready:
  shows "file_ready (simple_ports program_image) 65536 program_image 0x2600 [0x61] [open_entry] 0 0 0 1039 start_machine_0"
    and "mount start_machine_0 = mount load_machine_0" and "mount_addr start_machine_0 = mount_addr load_machine_0"
    and "path_apart start_machine_0 [open_entry] 0 1039"
proof -
  note st = load_machine_0_state and fields = open_state_fields [OF load_machine_0_state] open_state_mount [OF load_machine_0_state]
  have r: "file_ready (simple_ports program_image) 65536 program_image 0x2600 [0x61] [open_entry] 0 0 0 1039 load_machine_0"
    using open_state_openable [OF st program_image_length, of 1039] by (simp add: openable_def)
  have "ram start_machine_0 x = ram load_machine_0 x" if "x \<in> volume_bytes load_machine_0 [open_entry] \<or> x = 0x2600" for x
    using that by (auto simp: start_machine_0_def start_ram_def volume_bytes_def fields in_range_forward)
  then have eq: "\<And>x. x \<in> volume_bytes load_machine_0 [open_entry] \<or> x = 0x2600 \<Longrightarrow> ram start_machine_0 x = ram load_machine_0 x" .
  note cong = file_ready_cong [OF r _ _ _ _ _ eq]
  show "file_ready (simple_ports program_image) 65536 program_image 0x2600 [0x61] [open_entry] 0 0 0 1039 start_machine_0"
    by (rule cong(1)) (simp_all add: start_machine_0_def)
  show m: "mount start_machine_0 = mount load_machine_0" "mount_addr start_machine_0 = mount_addr load_machine_0"
    by (rule cong(2,3); simp add: start_machine_0_def)+
  show "path_apart start_machine_0 [open_entry] 0 1039"
  proof -
    have b: "path_buffer start_machine_0 = 0x6800" "literal_r start_machine_0 = 0x2600"
      by (simp_all add: start_machine_0_def load_machine_0_def)
    show ?thesis unfolding path_apart_def volume_bytes_def m b
      by (auto simp: fields away_def in_range_forward unat_block_addr)
  qed
qed

theorem process_load_start_enters_witness:
  "\<exists>s'. isr80h_handler (simple_ports program_image) 6 (sample_frame\<lparr>f_esp := 0x400448\<rparr>) start_machine_0 = Ret (Entered, s')
    \<and> ip (entered s') = 0x400080 \<and> (\<forall>k<1024. ram s' (paging_get_physical_address (ram s') (cr3 s') (0x400000 + of_nat k)) = program_bytes ! k)"
proof -
  note st = load_machine_0_state
  have m: "isr80h_commands start_machine_0 ! 6 = Some Process_load_start" "current_task start_machine_0 = 0x1200000"
    "tasks start_machine_0 0x1200000 = Some (no_task\<lparr>page_directory := 0xF000\<rparr>)" "ram start_machine_0 = start_ram"
    "literal_r start_machine_0 = 0x2600" "processes start_machine_0 = replicate 12 0" "kernel_chunk start_machine_0 = 0xF800"
    "fat_vars start_machine_0 = fat_vars load_machine_0" "stat_local start_machine_0 = 0x7800"
    by (simp_all add: start_machine_0_def load_machine_0_def syscall_machine_0_def)
  have ts: "task_list [0x1200000] start_machine_0" "tasks start_machine_0 (block_addr (seg_blocks [] + 12 + 0)) = None"
    by (simp_all add: task_list_def task_ring_def task_links_def start_machine_0_def no_task_def block_addr_def)
  have slot: "free_slot (processes start_machine_0) 0 = Some 0" "length (processes start_machine_0) = 12"
    by (simp_all add: m eval_nat_numeral)
  have "(25600 :: nat) = (1039 + 0) + 24561" by simp
  then have heap: "kheap_repr start_machine_0 ([] @ replicate (1039 + 0) FreeBlk @ replicate 24561 FreeBlk)"
    using start_machine_heap by (simp only: replicate_add append_Nil)
  have locals: "load_locals start_machine_0 (seg_blocks []) (1039 + 0)"
    by (rule load_locals_sub [OF open_state_locals [OF st, of 0 1039]]) (simp_all add: m start_machine_ready load_machine_0_def)
  have geo: "cluster_size start_machine_0 = cluster_size load_machine_0" "clusters_ok n start_machine_0 e cls = clusters_ok n load_machine_0 e cls"
    "fat_reserved start_machine_0 = fat_reserved load_machine_0" "file_bytes img start_machine_0 e cls = file_bytes img load_machine_0 e cls" for n e cls img
    by (simp_all add: cluster_size_def clusters_ok_def cluster_pos_def fat_reserved_def file_bytes_def start_machine_ready)
  note cl = open_state_clusters [OF st, of program_image]
  have fc: "file_clusters 65536 program_image start_machine_0 3 ([open_entry] ! 0) [2]" using cl(1) by (simp add: file_clusters_def geo)
  have fb: "program_bytes = take 1024 (file_bytes program_image start_machine_0 3 [2])"
    by (simp add: geo cl(2) program_image_bytes program_bytes_def length_program_sector)
  let ?tk = "no_task\<lparr>page_directory := 0xF000\<rparr>" and ?frame = "sample_frame\<lparr>f_esp := 0x400448\<rparr>" and ?s = start_machine_0
  have arg: "load32_in (ram ?s) (load32 (ram ?s) (page_directory ?tk)) (f_esp ?frame) = Some 0x400440"
    by (simp add: m start_directory start_stack)
  have str: "task_string (ram ?s) (page_directory ?tk) (block_addr (seg_blocks [])) 0x400440 (0x30 # 0x3A # 0x2F # [0x61])"
    using start_task_string by (simp add: m block_addr_def)
  have kw: "kernel_word (ram ?s) (page_directory ?tk) (block_addr (seg_blocks [])) (kernel_chunk ?s)"
    by (auto simp: m block_addr_def kernel_word_def in_range_forward start_no_table)
  have ready: "file_ready (simple_ports program_image) 65536 program_image (literal_r ?s) [0x61] [open_entry] 0 0 (seg_blocks []) (1039 + 0) ?s"
    and apart: "path_apart ?s [open_entry] (seg_blocks []) (1039 + 0)"
    using start_machine_ready(1,4) by (simp_all add: m)
  have t: "(1024 :: nat) \<le> length [2 :: nat] * cluster_size ?s" "file_size (entry_item ([open_entry] ! 0)) = of_nat 1024"
    by (simp_all add: geo open_state_mount [OF st] open_entry_facts)
  from process_load_start_enters [OF m(1,2) _ m(3) arg str _ _ _ kw apart ready heap _ slot locals fc t(2) _ t(1) _ _ _ fb program_runnable ts]
  obtain s' where "isr80h_handler (simple_ports program_image) 6 ?frame start_machine_0 = Ret (Entered, s')"
    "ip (entered s') = 0x400080" "segment_loaded (ram s') (cr3 s') program_bytes program_segment"
    by (auto simp: program_headers program_header_facts)
  moreover have "length program_bytes = 1024" by (simp add: program_bytes_def length_program_sector)
  ultimately show ?thesis
    by (intro exI [of _ s']) (simp add: segment_loaded_def program_segment_def)
qed

end
