(* ===== verification/UserString.thy ===== *)
theory UserString imports CString
begin

text \<open>
  The string routines of the user programs, \<open>src/programs/stdlib/src/string.c\<close> (its live
  half), with the copies \<open>memory.c\<close> and \<open>itoa\<close> of the kernel routines that the user library
  carries, on the memory of one process. \<open>strtok\<close> keeps its position in the global \<open>sp\<close> and
  cuts the text in place; driven by the loop of \<open>peachos_parse_command\<close> it is compared with a
  tokeniser on lists. The last section says when the \<open>strlen\<close> of either library returns.
\<close>

section \<open>Operations\<close>

definition tolower_user :: "u8 \<Rightarrow> u8" where
  "tolower_user s1 = (if 65 \<le> sint s1 \<and> sint s1 \<le> 90 then s1 + 32 else s1)"

text \<open>Pointer and counter advance together; the counter is an \<open>int\<close>.\<close>

partial_function (option) strlen_user_loop :: "mem \<Rightarrow> u32 \<Rightarrow> int \<Rightarrow> int option" where
  "strlen_user_loop m ptr i = (if m ptr \<noteq> 0 then strlen_user_loop m (ptr + 1) (i32 (i + 1)) else Some i)"

definition strlen_user :: "mem \<Rightarrow> u32 \<Rightarrow> int option" where
  "strlen_user m ptr = strlen_user_loop m ptr 0"

function first_index :: "(u8 \<Rightarrow> bool) \<Rightarrow> mem \<Rightarrow> u32 \<Rightarrow> int \<Rightarrow> int \<Rightarrow> int" where
  "first_index stop m p mx i =
     (if i < mx then (if stop (m (p + word_of_int i)) then i else first_index stop m p mx (i + 1)) else i)"
  by pat_completeness auto
termination
  by (relation "measure (\<lambda>(stop, m, p, mx, i). nat (mx - i))") auto

declare first_index.simps [simp del]

definition strnlen_user :: "mem \<Rightarrow> u32 \<Rightarrow> int \<Rightarrow> int" where
  "strnlen_user m ptr mx = first_index (\<lambda>c. c = 0) m ptr mx 0"

definition strnlen_terminator_user :: "mem \<Rightarrow> u32 \<Rightarrow> int \<Rightarrow> u8 \<Rightarrow> int" where
  "strnlen_terminator_user m str mx t = first_index (\<lambda>c. c = 0 \<or> c = t) m str mx 0"

fun istrncmp_loop :: "mem \<Rightarrow> u32 \<Rightarrow> u32 \<Rightarrow> nat \<Rightarrow> int" where
  "istrncmp_loop m s1 s2 0 = 0"
| "istrncmp_loop m s1 s2 (Suc n) =
     (if m s1 \<noteq> m s2 \<and> tolower_user (m s1) \<noteq> tolower_user (m s2) then uint (m s1) - uint (m s2)
      else if m s1 = 0 then 0 else istrncmp_loop m (s1 + 1) (s2 + 1) n)"

definition istrncmp :: "mem \<Rightarrow> u32 \<Rightarrow> u32 \<Rightarrow> int \<Rightarrow> int" where
  "istrncmp m s1 s2 n = istrncmp_loop m s1 s2 (nat n)"

fun strncmp_user_loop :: "mem \<Rightarrow> u32 \<Rightarrow> u32 \<Rightarrow> nat \<Rightarrow> int" where
  "strncmp_user_loop m s1 s2 0 = 0"
| "strncmp_user_loop m s1 s2 (Suc n) =
     (if m s1 \<noteq> m s2 then uint (m s1) - uint (m s2)
      else if m s1 = 0 then 0 else strncmp_user_loop m (s1 + 1) (s2 + 1) n)"

definition strncmp_user :: "mem \<Rightarrow> u32 \<Rightarrow> u32 \<Rightarrow> int \<Rightarrow> int" where
  "strncmp_user m s1 s2 n = strncmp_user_loop m s1 s2 (nat n)"

partial_function (option) strcpy_user :: "mem \<Rightarrow> u32 \<Rightarrow> u32 \<Rightarrow> mem option" where
  "strcpy_user m dest src =
     (if m src \<noteq> 0 then strcpy_user (m(dest := m src)) (dest + 1) (src + 1) else Some (m(dest := 0)))"

text \<open>The loop copies until the index \<open>i\<close> reaches the last byte of the destination.\<close>

function strncpy_user_loop :: "mem \<Rightarrow> u32 \<Rightarrow> u32 \<Rightarrow> int \<Rightarrow> int \<Rightarrow> mem" where
  "strncpy_user_loop m dest src mx i =
     (if i < mx \<and> m (src + word_of_int i) \<noteq> 0
      then strncpy_user_loop (m(dest + word_of_int i := m (src + word_of_int i))) dest src mx (i + 1)
      else m(dest + word_of_int i := 0))"
  by pat_completeness auto
termination
  by (relation "measure (\<lambda>(m, dest, src, mx, i). nat (mx - i))") auto

declare strncpy_user_loop.simps [simp del]

definition strncpy_user :: "mem \<Rightarrow> u32 \<Rightarrow> u32 \<Rightarrow> int \<Rightarrow> mem" where
  "strncpy_user m dest src count = strncpy_user_loop m dest src (i32 (count - 1)) 0"

definition isdigit :: "u8 \<Rightarrow> bool" where
  "isdigit c \<longleftrightarrow> 48 \<le> sint c \<and> sint c \<le> 57"

definition tonumericdigit :: "u8 \<Rightarrow> int" where
  "tonumericdigit c = sint c - 48"

text \<open>The copies of the kernel's memory routines and of its \<open>itoa\<close>, line for line.\<close>

definition memset_user :: "mem \<Rightarrow> u32 \<Rightarrow> int \<Rightarrow> u32 \<Rightarrow> mem" where
  "memset_user m ptr c sz = memset_loop m ptr (word_of_int c) (unat sz)"

definition memcmp_user :: "mem \<Rightarrow> u32 \<Rightarrow> u32 \<Rightarrow> int \<Rightarrow> int" where
  "memcmp_user m s1 s2 len = memcmp_loop m s1 s2 (nat len)"

definition memcpy_user :: "mem \<Rightarrow> u32 \<Rightarrow> u32 \<Rightarrow> int \<Rightarrow> mem" where
  "memcpy_user m dest src len = memcpy_loop m dest src (unat (word_of_int len :: u32))"

definition itoa_user :: "u8 list \<Rightarrow> int \<Rightarrow> u8 list \<times> int" where
  "itoa_user buf i =
     (let (buf2, loc2) = itoa_loop (buf[11 := 0]) 11 (if 0 \<le> i then - i else i);
          (buf3, loc3) = (if loc2 = 11 then (buf2[10 := 48], 10) else (buf2, loc2))
      in if 0 \<le> i then (buf3, loc3) else (buf3[nat (loc3 - 1) := 45], loc3 - 1))"

section \<open>Tokenising\<close>

text \<open>The memory of the process and the global variable \<open>sp\<close>.\<close>

record tokeniser =
  user_mem :: mem
  sp :: u32

text \<open>\<open>for (i = 0; i < len; i++) if (c == delimiters[i]) break;\<close>\<close>

definition find_delimiter :: "mem \<Rightarrow> u8 \<Rightarrow> u32 \<Rightarrow> int \<Rightarrow> int" where
  "find_delimiter m c delimiters len = first_index (\<lambda>x. c = x) m delimiters len 0"

partial_function (option) skip_delimiters :: "mem \<Rightarrow> u32 \<Rightarrow> int \<Rightarrow> u32 \<Rightarrow> u32 option" where
  "skip_delimiters m delimiters len p_start =
     (let i = find_delimiter m (m p_start) delimiters len
      in if i = len then Some p_start
         else skip_delimiters m delimiters len (if i < len then p_start + 1 else p_start))"

partial_function (option) cut_token :: "mem \<Rightarrow> u32 \<Rightarrow> int \<Rightarrow> u32 \<Rightarrow> (mem \<times> u32) option" where
  "cut_token m delimiters len p =
     (if m p \<noteq> 0
      then if find_delimiter m (m p) delimiters len < len then Some (m(p := 0), p + 1)
           else cut_token m delimiters len (p + 1)
      else Some (m, p))"

definition strtok :: "u32 \<Rightarrow> u32 \<Rightarrow> 'z tokeniser_scheme \<Rightarrow> (u32 \<times> 'z tokeniser_scheme) option" where
  "strtok str delimiters s =
     Option.bind (strlen_user (user_mem s) delimiters) (\<lambda>len.
     if str = 0 \<and> sp s = 0 then Some (0, s)
     else let s1 = (if str \<noteq> 0 \<and> sp s = 0 then s\<lparr>sp := str\<rparr> else s)
          in Option.bind (skip_delimiters (user_mem s1) delimiters len (sp s1)) (\<lambda>p_start.
             if user_mem s1 p_start = 0 then Some (0, s1\<lparr>sp := 0\<rparr>)
             else Option.bind (cut_token (user_mem s1) delimiters len p_start) (\<lambda>(m, p).
                  Some (p_start, s1\<lparr>user_mem := m, sp := p\<rparr>))))"

text \<open>
  The loop of \<open>peachos_parse_command\<close>: a first call with the text, then calls with the null
  pointer until one returns it.
\<close>

partial_function (option) all_tokens :: "u32 \<Rightarrow> u32 \<Rightarrow> tokeniser \<Rightarrow> (u32 list \<times> tokeniser) option" where
  "all_tokens str delimiters s =
     Option.bind (strtok str delimiters s) (\<lambda>(token, s1).
     if token = 0 then Some ([], s1)
     else Option.bind (all_tokens 0 delimiters s1) (\<lambda>(ts, s2). Some (token # ts, s2)))"

section \<open>The tokeniser on lists\<close>

function tokens :: "'a set \<Rightarrow> 'a list \<Rightarrow> 'a list list" where
  "tokens D xs =
     (let ys = dropWhile (\<lambda>x. x \<in> D) xs
      in if ys = [] then [] else takeWhile (\<lambda>x. x \<notin> D) ys # tokens D (dropWhile (\<lambda>x. x \<notin> D) ys))"
  by pat_completeness auto
termination
proof (relation "measure (\<lambda>(D, xs). length xs)")
  fix D :: "'a set" and xs ys
  assume ys: "ys = dropWhile (\<lambda>x. x \<in> D) xs" and ne: "ys \<noteq> []"
  then have "hd ys \<notin> D" by (metis hd_dropWhile)
  with ne have "dropWhile (\<lambda>x. x \<notin> D) ys = dropWhile (\<lambda>x. x \<notin> D) (List.tl ys)" by (cases ys) auto
  also have "length \<dots> < length ys"
    using length_dropWhile_le [of _ "List.tl ys"] ne by (cases ys) (auto simp: le_imp_less_Suc)
  also have "\<dots> \<le> length xs" by (simp add: ys length_dropWhile_le)
  finally show "((D, dropWhile (\<lambda>x. x \<notin> D) ys), D, xs) \<in> measure (\<lambda>(D, xs). length xs)" by simp
qed simp

declare tokens.simps [simp del]

lemma tokens_Nil [simp]: "tokens D [] = []"
  by (simp add: tokens.simps)

lemma tokens_drop_delimiter: "x \<in> D \<Longrightarrow> tokens D (x # xs) = tokens D xs"
  by (simp add: tokens.simps [of D "x # xs"] tokens.simps [of D xs])

section \<open>The loops on terminated strings\<close>

lemma strlen_user_loop_cstr:
  "cstr m p xs \<Longrightarrow> 0 \<le> i \<Longrightarrow> i + int (length xs) < 2147483648
    \<Longrightarrow> strlen_user_loop m p i = Some (i + int (length xs))"
proof (induction xs arbitrary: p i)
  case Nil
  then show ?case by (simp add: strlen_user_loop.simps [of m p i])
next
  case (Cons x xs)
  then have "i32 (i + 1) = i + 1" by (intro i32_id) simp_all
  with Cons show ?case
    using Cons.IH [of "p + 1" "i + 1"] by (simp add: strlen_user_loop.simps [of m p i])
qed

lemma strlen_user_cstr: "cstr m p xs \<Longrightarrow> length xs < 2147483648 \<Longrightarrow> strlen_user m p = Some (int (length xs))"
  using strlen_user_loop_cstr [of m p xs 0] by (simp add: strlen_user_def)

text \<open>On the bytes of a string the search stops before the first byte that fits.\<close>

lemma first_index_cstr:
  "cstr m (p + word_of_int i) xs \<Longrightarrow>
    first_index stop m p (i + int (length xs)) i = i + int (length (takeWhile (\<lambda>x. \<not> stop x) xs))"
proof (induction xs arbitrary: i)
  case Nil
  then show ?case by (simp add: first_index.simps)
next
  case (Cons x xs)
  have "first_index stop m p (i + 1 + int (length xs)) (i + 1)
      = i + 1 + int (length (takeWhile (\<lambda>x. \<not> stop x) xs))"
    using Cons.prems by (intro Cons.IH) (simp add: add.assoc)
  with Cons.prems show ?case by (simp add: first_index.simps [of stop m p _ i] add.assoc)
qed

lemma find_delimiter_cstr:
  assumes "cstr m d ds"
  shows "find_delimiter m c d (int (length ds)) \<le> int (length ds)"
    and "find_delimiter m c d (int (length ds)) < int (length ds) \<longleftrightarrow> c \<in> set ds"
    and "find_delimiter m c d (int (length ds)) = int (length ds) \<longleftrightarrow> c \<notin> set ds"
proof -
  let ?t = "takeWhile (\<lambda>x. c \<noteq> x) ds"
  have f: "find_delimiter m c d (int (length ds)) = int (length ?t)"
    using first_index_cstr [of m d 0 ds "\<lambda>x. c = x"] assms by (simp add: find_delimiter_def)
  have le: "length ?t \<le> length ds" by (rule length_takeWhile_le)
  have "length ?t = length ds \<longleftrightarrow> ?t = ds"
    by (metis append_take_drop_id takeWhile_eq_take take_all_iff order_refl)
  then have "length ?t = length ds \<longleftrightarrow> c \<notin> set ds" by (simp add: takeWhile_eq_all_conv) blast
  with f le show "find_delimiter m c d (int (length ds)) \<le> int (length ds)"
    and "find_delimiter m c d (int (length ds)) < int (length ds) \<longleftrightarrow> c \<in> set ds"
    and "find_delimiter m c d (int (length ds)) = int (length ds) \<longleftrightarrow> c \<notin> set ds" by auto
qed

lemma skip_delimiters_cstr:
  assumes "cstr m d ds" and "cstr m p xs"
  shows "skip_delimiters m d (int (length ds)) p
    = Some (p + of_nat (length (takeWhile (\<lambda>x. x \<in> set ds) xs)))"
  using assms(2)
proof (induction xs arbitrary: p)
  case Nil
  then have "find_delimiter m (m p) d (int (length ds)) = int (length ds)"
    using find_delimiter_cstr(3) [OF assms(1)] cstr_no_0 [OF assms(1)] by simp
  then show ?case by (simp add: skip_delimiters.simps [of m d _ p])
next
  case (Cons x xs)
  then show ?case
    using find_delimiter_cstr [OF assms(1), of "m p"] Cons.IH [of "p + 1"]
    by (auto simp: skip_delimiters.simps [of m d _ p] Let_def add.assoc)
qed

lemma cut_token_cstr:
  assumes "cstr m d ds" and "cstr m p xs"
  shows "cut_token m d (int (length ds)) p
    = (let t = takeWhile (\<lambda>x. x \<notin> set ds) xs; e = p + of_nat (length t)
       in if t = xs then Some (m, e) else Some (m(e := 0), e + 1))"
  using assms(2)
proof (induction xs arbitrary: p)
  case Nil
  then show ?case by (simp add: cut_token.simps [of m d _ p])
next
  case (Cons x xs)
  then show ?case
    using find_delimiter_cstr [OF assms(1), of "m p"] Cons.IH [of "p + 1"]
    by (auto simp: cut_token.simps [of m d _ p] Let_def add.assoc simp del: takeWhile_eq_all_conv)
qed

section \<open>One call\<close>

text \<open>
  A string in memory that does not wrap: the addresses after the first are not null, and a
  change behind a byte is not a change of what lies before it.
\<close>

definition text_at :: "mem \<Rightarrow> u32 \<Rightarrow> u8 list \<Rightarrow> bool" where
  "text_at m p xs \<longleftrightarrow> cstr m p xs \<and> p \<noteq> 0 \<and> unat p + length xs < 4294967296"

lemma cstr_append_drop: "cstr m p (xs @ ys) \<Longrightarrow> cstr m (p + of_nat (length xs)) ys"
  by (induction xs arbitrary: p) (simp_all add: add.assoc [symmetric])

lemma text_at_drop:
  assumes "text_at m p (xs @ ys)"
  shows "text_at m (p + of_nat (length xs)) ys"
proof -
  from assms have u: "unat (p + of_nat (length xs)) = unat p + length xs"
    by (intro unat_forward) (simp add: text_at_def)
  moreover from assms have "unat p \<noteq> 0" by (simp add: text_at_def unat_eq_0)
  ultimately have "p + of_nat (length xs) \<noteq> 0" by (metis add_is_0 unat_0)
  with assms u show ?thesis using cstr_append_drop [of m p xs ys] by (simp add: text_at_def)
qed

lemma cstr_cut:
  assumes "cstr m p (xs @ x # ys)" and "unat p + length (xs @ x # ys) < 4294967296"
  shows "cstr (m(p + of_nat (length xs) := 0)) p xs"
    and "cstr (m(p + of_nat (length xs) := 0)) (p + of_nat (length xs) + 1) ys"
proof -
  show "cstr (m(p + of_nat (length xs) := 0)) p xs"
    using assms
  proof (induction xs arbitrary: p)
    case (Cons z zs)
    have u: "unat (p + 1) = unat p + 1" using Cons.prems(2) unat_forward [of p 1] by simp
    have "unat (p + of_nat (Suc (length zs))) = unat p + Suc (length zs)"
      using Cons.prems(2) by (intro unat_forward) simp
    then have "p \<noteq> p + of_nat (Suc (length zs))" by (metis add_cancel_left_right nat.distinct(1))
    moreover have "p + 1 + of_nat (length zs) = p + of_nat (Suc (length zs))" by simp
    ultimately show ?case using Cons.IH [of "p + 1"] Cons.prems u by (simp add: add.assoc)
  qed simp
  have y: "cstr m (p + of_nat (length xs) + 1) ys" using cstr_append_drop [OF assms(1)] by simp
  let ?e = "p + of_nat (length xs)"
  have e: "unat ?e = unat p + length xs" using assms(2) by (intro unat_forward) simp
  have e1: "unat (?e + 1) = unat ?e + 1" using assms(2) e unat_forward [of ?e 1] by simp
  have "m a = (m(?e := 0)) a" if "in_range a (?e + 1) (Suc (length ys))" for a
    using that e e1 assms(2) in_range_forward [of "?e + 1" "Suc (length ys)" a] by auto
  then show "cstr (m(?e := 0)) (?e + 1) ys"
    using y cstr_cong [of "?e + 1" ys m "m(?e := 0)"] assms(2) by simp
qed

text \<open>
  What one call does when the text behind the current position is \<open>xs\<close>: the position after
  the call, and the text behind it, are those of the tokeniser.
\<close>

lemma strtok_step:
  assumes d: "cstr m d ds" "length ds < 2147483648"
    and x: "text_at m q xs"
    and start: "(if sp s = 0 then str else sp s) = q" and m: "user_mem s = m"
    and ys: "ys = dropWhile (\<lambda>x. x \<in> set ds) xs"
    and t: "t = takeWhile (\<lambda>x. x \<notin> set ds) ys" and r: "r = dropWhile (\<lambda>x. x \<notin> set ds) ys"
    and p: "p = q + of_nat (length (takeWhile (\<lambda>x. x \<in> set ds) xs))"
    and e: "e = p + of_nat (length t)"
  shows "strtok str d s
    = Some (if ys = [] then (0, s\<lparr>user_mem := m, sp := 0\<rparr>)
            else (p, if r = [] then s\<lparr>user_mem := m, sp := e\<rparr> else s\<lparr>user_mem := m(e := 0), sp := e + 1\<rparr>))"
proof -
  have xs: "takeWhile (\<lambda>x. x \<in> set ds) xs @ ys = xs" by (simp add: ys)
  then have y: "text_at m p ys" using text_at_drop [of m q "takeWhile (\<lambda>x. x \<in> set ds) xs" ys] x p by simp
  have q: "q \<noteq> 0" "cstr m q xs" using x by (simp_all add: text_at_def)
  have null: "(str = 0 \<and> sp s = 0) = False" using start q(1) by (auto split: if_splits)
  define s1 where "s1 = (if str \<noteq> 0 \<and> sp s = 0 then s\<lparr>sp := str\<rparr> else s)"
  have s1: "user_mem s1 = m" "sp s1 = q" "s1\<lparr>user_mem := m, sp := z\<rparr> = s\<lparr>user_mem := m, sp := z\<rparr>"
    "s1\<lparr>sp := z\<rparr> = s\<lparr>user_mem := m, sp := z\<rparr>"
    "s1\<lparr>user_mem := m', sp := z\<rparr> = s\<lparr>user_mem := m', sp := z\<rparr>" for z m'
    using start m null by (auto simp: s1_def)
  have skip: "skip_delimiters m d (int (length ds)) q = Some p"
    using skip_delimiters_cstr [OF d(1) q(2)] p by simp
  have all: "t = ys \<longleftrightarrow> r = []" by (simp add: t r dropWhile_eq_Nil_conv)
  have cut: "cut_token m d (int (length ds)) p = (if r = [] then Some (m, e) else Some (m(e := 0), e + 1))"
    using cut_token_cstr [OF d(1), of p ys] y
    by (simp add: text_at_def t [symmetric] e [symmetric] all Let_def del: takeWhile_eq_all_conv)
  have "m p = 0 \<longleftrightarrow> ys = []" using y by (cases ys) (auto simp: text_at_def)
  with skip cut show ?thesis
    by (simp add: strtok_def null strlen_user_cstr [OF d] m s1_def [symmetric] s1 Let_def split: if_splits)
qed

text \<open>
  The same for a client: either no token is left, or the call returns the next one, terminated, and
  the position is at the text behind it, whose later changes do not touch the token.
\<close>

lemma strtok_next:
  assumes d: "cstr m d ds" "length ds < 2147483648" and x: "text_at m q xs"
    and dis: "disjoint_ranges q (length xs) d (Suc (length ds))"
    and start: "(if sp s = 0 then str else sp s) = q" and m: "user_mem s = m"
  obtains (none) "tokens (set ds) xs = []" "strtok str d s = Some (0, s\<lparr>sp := 0\<rparr>)"
  | (token) p t e zs m' where "tokens (set ds) xs = t # tokens (set ds) zs" "length zs < length xs"
      "strtok str d s = Some (p, s\<lparr>user_mem := m', sp := e\<rparr>)" "p \<noteq> 0" "cstr m' p t" "text_at m' e zs"
      "cstr m' d ds" "length t \<le> length xs"
      "\<And>a. in_range a e (length zs) \<Longrightarrow> in_range a q (length xs)"
      "\<And>a. in_range a e (Suc (length zs)) \<Longrightarrow> in_range a q (Suc (length xs))"
      "\<And>a. in_range a p (Suc (length t)) \<Longrightarrow> in_range a q (Suc (length xs)) \<and> \<not> in_range a e (length zs)"
      "\<And>a. \<not> in_range a q (length xs) \<Longrightarrow> m' a = m a"
proof -
  define D where "D = set ds"
  define b where "b = takeWhile (\<lambda>x. x \<in> D) xs"
  define ys where "ys = dropWhile (\<lambda>x. x \<in> D) xs"
  define t where "t = takeWhile (\<lambda>x. x \<notin> D) ys"
  define r where "r = dropWhile (\<lambda>x. x \<notin> D) ys"
  define p where "p = q + of_nat (length b)"
  define e where "e = p + of_nat (length t)"
  have xs: "xs = b @ ys" and yt: "ys = t @ r" by (simp_all add: b_def ys_def t_def r_def)
  have call: "strtok str d s = Some (if ys = [] then (0, s\<lparr>user_mem := m, sp := 0\<rparr>)
      else (p, if r = [] then s\<lparr>user_mem := m, sp := e\<rparr> else s\<lparr>user_mem := m(e := 0), sp := e + 1\<rparr>))"
    using assms by (intro strtok_step) (simp_all add: b_def ys_def t_def r_def p_def e_def D_def)
  have tok: "tokens D xs = (if ys = [] then [] else t # tokens D r)"
    by (simp add: tokens.simps [of D xs] ys_def t_def r_def Let_def)
  show ?thesis
  proof (cases "ys = []")
    case True
    with call tok m show ?thesis by (intro none) (simp_all add: D_def)
  next
    case False
    have py: "text_at m p ys" using text_at_drop [of m q b ys] x by (simp add: xs p_def)
    have er: "text_at m e r" using text_at_drop [of m p t r] py by (simp add: yt e_def)
    have u: "unat p = unat q + length b" "unat e = unat p + length t" "unat q + length xs < 4294967296"
      using x by (simp_all add: p_def e_def text_at_def xs yt unat_forward)
    have tne: "t \<noteq> []"
      using False hd_dropWhile [of "\<lambda>x. x \<in> D" xs] by (cases ys) (auto simp: t_def ys_def)
    show ?thesis
    proof (cases r)
      case Nil
      with call tok False m py er d u tne x show ?thesis
        by (intro token [of t "[]" p e m])
          (auto simp: D_def xs yt text_at_def in_range_forward)
    next
      case (Cons z zs)
      have zD: "z \<in> D" using Cons by (simp add: r_def dropWhile_eq_Cons_conv)
      have cut: "cstr (m(e := 0)) p t" "cstr (m(e := 0)) (e + 1) zs"
        using cstr_cut [of m p t z zs] py by (simp_all add: e_def yt Cons text_at_def)
      have e1: "unat (e + 1) = unat e + 1" using er unat_forward [of e 1] by (simp add: text_at_def Cons)
      then have "e + 1 \<noteq> 0" by (metis Suc_eq_plus1 nat.distinct(1) unat_0)
      with cut e1 er have x1: "text_at (m(e := 0)) (e + 1) zs" by (simp add: text_at_def Cons)
      have e: "in_range e q (length xs)" using u by (simp add: in_range_forward xs yt Cons)
      with dis have "\<not> in_range e d (Suc (length ds))" by (auto simp: disjoint_ranges_def)
      then have d1: "cstr (m(e := 0)) d ds"
        using d by (subst cstr_cong [of d ds "m(e := 0)" m]) auto
      show ?thesis
        using call tok False Cons py cut x1 d1 e e1 u zD
        by (intro token [of t zs p "e + 1" "m(e := 0)"])
          (auto simp: D_def [symmetric] tokens_drop_delimiter xs yt text_at_def in_range_forward)
    qed
  qed
qed

section \<open>All tokens\<close>

lemma all_tokens_step:
  assumes "cstr m d ds" "length ds < 2147483648" "text_at m q xs"
    and "disjoint_ranges q (length xs) d (Suc (length ds))"
    and "(if sp s = 0 then str else sp s) = q" "user_mem s = m"
  shows "\<exists>ps m'. all_tokens str d s = Some (ps, s\<lparr>user_mem := m', sp := 0\<rparr>) \<and>
      list_all2 (cstr m') ps (tokens (set ds) xs) \<and> (\<forall>a. \<not> in_range a q (length xs) \<longrightarrow> m' a = m a)"
  using assms
proof (induction "length xs" arbitrary: xs m q s str rule: less_induct)
  case less
  show ?case
  proof (rule strtok_next [OF less.prems])
    assume "tokens (set ds) xs = []" "strtok str d s = Some (0, s\<lparr>sp := 0\<rparr>)"
    then have "all_tokens str d s = Some ([], s\<lparr>user_mem := m, sp := 0\<rparr>)"
      using less.prems(6) by (simp add: all_tokens.simps [of str d s])
    with \<open>tokens (set ds) xs = []\<close> show ?thesis by auto
  next
    fix p t e zs m1
    assume tok: "tokens (set ds) xs = t # tokens (set ds) zs" and len: "length zs < length xs"
      and call: "strtok str d s = Some (p, s\<lparr>user_mem := m1, sp := e\<rparr>)" "p \<noteq> 0"
      and t: "cstr m1 p t" "length t \<le> length xs" and z: "text_at m1 e zs" and d: "cstr m1 d ds"
      and sub: "\<And>a. in_range a e (length zs) \<Longrightarrow> in_range a q (length xs)"
      and apart: "\<And>a. in_range a p (Suc (length t)) \<Longrightarrow> in_range a q (Suc (length xs)) \<and> \<not> in_range a e (length zs)"
      and fr: "\<And>a. \<not> in_range a q (length xs) \<Longrightarrow> m1 a = m a"
    have "\<exists>ps m'. all_tokens 0 d (s\<lparr>user_mem := m1, sp := e\<rparr>)
          = Some (ps, (s\<lparr>user_mem := m1, sp := e\<rparr>)\<lparr>user_mem := m', sp := 0\<rparr>) \<and>
        list_all2 (cstr m') ps (tokens (set ds) zs) \<and> (\<forall>a. \<not> in_range a e (length zs) \<longrightarrow> m' a = m1 a)"
      using less.prems(2,4) z d len sub
      by (intro less.hyps) (auto simp: text_at_def disjoint_ranges_def)
    then obtain ps m' where rest: "all_tokens 0 d (s\<lparr>user_mem := m1, sp := e\<rparr>) = Some (ps, s\<lparr>user_mem := m', sp := 0\<rparr>)"
      and l: "list_all2 (cstr m') ps (tokens (set ds) zs)"
      and fr': "\<And>a. \<not> in_range a e (length zs) \<Longrightarrow> m' a = m1 a" by auto
    have "all_tokens str d s = Some (p # ps, s\<lparr>user_mem := m', sp := 0\<rparr>)"
      using call rest by (simp add: all_tokens.simps [of str d s])
    moreover have "cstr m' p t"
      using t less.prems(3) fr' apart by (subst cstr_cong [of p t m' m1]) (auto simp: text_at_def)
    moreover have "m' a = m a" if "\<not> in_range a q (length xs)" for a
      using that fr fr' sub by metis
    ultimately show ?thesis using tok l by auto
  qed
qed

section \<open>The length of a string\<close>

lemma strlen_loop_None:
  assumes "\<forall>a. m a \<noteq> 0"
  shows "strlen_loop m str len = None"
proof -
  have "strlen_loop m str len = Some n \<Longrightarrow> m (str + n) = 0" for n
    by (rule strlen_loop.raw_induct [of "\<lambda>m str len n. m (str + n) = 0"]) (auto split: if_splits)
  with assms show ?thesis by fastforce
qed

lemma cstr_bytes_at:
  "m (p + of_nat n) = 0 \<Longrightarrow> (\<And>k. k < n \<Longrightarrow> m (p + of_nat k) \<noteq> 0) \<Longrightarrow> cstr m p (bytes_at m p n)"
proof (induction n arbitrary: p)
  case 0
  then show ?case by (simp add: bytes_at_def)
next
  case (Suc n)
  have "m p \<noteq> 0" using Suc.prems(2) [of 0] by simp
  moreover have "cstr m (p + 1) (bytes_at m (p + 1) n)"
    using Suc.prems(1) Suc.prems(2) [of "Suc _"] by (intro Suc.IH) (simp_all add: add.assoc)
  moreover have "bytes_at m p (Suc n) = m p # bytes_at m (p + 1) n"
    by (simp add: bytes_at_def upt_conv_Cons map_Suc_upt [symmetric] add.assoc del: upt_Suc)
  ultimately show ?case by simp
qed

text \<open>
  C39: \<open>strlen\<close> of the kernel returns exactly when some byte of the memory is 0: the index of the
  first such byte from the start, around the end of the memory if need be; without one it
  never returns.
\<close>

theorem strlen_returns_iff_zero_byte:
  "strlen m str = (if \<exists>a. m a = 0 then Some (of_nat (LEAST k. m (str + of_nat k) = 0)) else None)"
proof (cases "\<exists>a. m a = 0")
  case True
  then obtain a where a: "m a = 0" by blast
  let ?P = "\<lambda>k. m (str + of_nat k) = 0"
  have P: "?P (unat (a - str))" using a by simp
  have "cstr m str (bytes_at m str (Least ?P))"
    using LeastI [of ?P, OF P] not_less_Least [of _ ?P] by (intro cstr_bytes_at) auto
  then have "strlen m str = Some (of_nat (Least ?P))"
    using strlen_cstr by fastforce
  with True show ?thesis by simp
next
  case False
  then show ?thesis using strlen_loop_None [of m str 0] by (simp add: strlen_def)
qed

section \<open>Tokenising agrees with the tokeniser on lists\<close>

text \<open>
  C22: Calling \<open>strtok\<close> with a terminated text and then with the null pointer until it returns
  null, as \<open>peachos_parse_command\<close> does, returns: the pointers stand, in the final memory, for
  the terminated tokens of the text in order, the position is reset, and no byte outside the
  text has changed.
\<close>

theorem strtok_gives_tokens:
  assumes "cstr m str xs" and "str \<noteq> 0" and "unat str + length xs < 4294967296"
    and "cstr m d ds" and "length ds < 2147483648"
    and "disjoint_ranges str (length xs) d (Suc (length ds))"
  shows "\<exists>ps m'. all_tokens str d \<lparr>user_mem = m, sp = 0\<rparr> = Some (ps, \<lparr>user_mem = m', sp = 0\<rparr>) \<and>
      list_all2 (cstr m') ps (tokens (set ds) xs) \<and>
      (\<forall>a. \<not> in_range a str (length xs) \<longrightarrow> m' a = m a)"
  using all_tokens_step [of m d ds str xs "\<lparr>user_mem = m, sp = 0\<rparr>" str] assms
  by (simp add: text_at_def)

text \<open>The text \<open> ab  c\<close> with a space as the delimiter.\<close>

definition sample_text :: mem where
  "sample_text = (\<lambda>_. 0)(0x1000 := 32, 0x1001 := 97, 0x1002 := 98, 0x1003 := 32, 0x1004 := 32, 0x1005 := 99, 0x2000 := 32)"

theorem strtok_gives_tokens_witness:
  "\<exists>ps m'. all_tokens 0x1000 0x2000 \<lparr>user_mem = sample_text, sp = 0\<rparr> = Some (ps, \<lparr>user_mem = m', sp = 0\<rparr>) \<and>
      list_all2 (cstr m') ps [[97, 98], [99]]"
proof -
  let ?x = "[32, 97, 98, 32, 32, 99] :: u8 list"
  have "disjoint_ranges 0x1000 (length ?x) 0x2000 (Suc (length [32 :: u8]))"
    by (intro disjoint_rangesI) simp_all
  moreover have "cstr sample_text 0x1000 ?x" and "cstr sample_text 0x2000 [32]"
    by (simp_all add: sample_text_def)
  ultimately have "\<exists>ps m'. all_tokens 0x1000 0x2000 \<lparr>user_mem = sample_text, sp = 0\<rparr> = Some (ps, \<lparr>user_mem = m', sp = 0\<rparr>) \<and>
      list_all2 (cstr m') ps (tokens (set [32]) ?x) \<and>
      (\<forall>a. \<not> in_range a 0x1000 (length ?x) \<longrightarrow> m' a = sample_text a)"
    by (intro strtok_gives_tokens) simp_all
  moreover have "tokens (set [32]) ?x = [[97, 98], [99]]"
    by (simp add: tokens.simps)
  ultimately show ?thesis by (simp only:) blast
qed

end
