(* ===== verification/UserLib.thy ===== *)
theory UserLib imports UserString
begin

text \<open>
  The user library over the system calls: \<open>src/programs/stdlib/src/peachos.c\<close>, \<open>stdio.c\<close>,
  \<open>stdlib.c\<close>, \<open>start.c\<close> with the stubs of \<open>peachos.asm\<close>, and one round of the shell. The trap
  \<open>int 0x80\<close> is an argument of the definitions: it takes the command number and the word on top
  of the stack, and answers in \<open>eax\<close>. The theorem is about the splitting of a command line.
\<close>

section \<open>State and system calls\<close>

text \<open>
  \<open>kern\<close> is what lies behind the trap. The other fields are addresses that the compiler chooses:
  the static buffer of \<open>itoa\<close>, the local buffers, the string literals.
\<close>

record 'k user_machine = tokeniser +
  kern :: 'k
  itoa_buffer :: u32
  scommand :: u32
  run_buffer :: u32
  start_arguments :: u32
  lit_space :: u32

type_synonym ('k, 'a) user = "('k user_machine, 'a) prog"

type_synonym 'k gate = "nat \<Rightarrow> u32 \<Rightarrow> ('k, u32) user"

abbreviation (input) ARGUMENT_SIZE :: int where "ARGUMENT_SIZE \<equiv> 512"

definition peachos_exit :: "'k gate \<Rightarrow> u32 \<Rightarrow> ('k, u32) user" where
  "peachos_exit G exit_code = G 0 exit_code"

definition print_call :: "'k gate \<Rightarrow> u32 \<Rightarrow> ('k, u32) user" where
  "print_call G message = G 1 message"

definition peachos_putchar :: "'k gate \<Rightarrow> u8 \<Rightarrow> ('k, u32) user" where
  "peachos_putchar G c = G 2 (scast c)"

definition peachos_getkey :: "'k gate \<Rightarrow> ('k, int) user" where
  "peachos_getkey G = kbind (G 3 0) (\<lambda>r. kret (sint r))"

definition peachos_malloc :: "'k gate \<Rightarrow> u32 \<Rightarrow> ('k, u32) user" where
  "peachos_malloc G sz = G 4 sz"

definition peachos_free :: "'k gate \<Rightarrow> u32 \<Rightarrow> ('k, u32) user" where
  "peachos_free G ptr = G 5 ptr"

definition peachos_process_load_start :: "'k gate \<Rightarrow> u32 \<Rightarrow> ('k, u32) user" where
  "peachos_process_load_start G filename = G 6 filename"

definition peachos_system :: "'k gate \<Rightarrow> u32 \<Rightarrow> ('k, int) user" where
  "peachos_system G arguments = kbind (G 7 arguments) (\<lambda>r. kret (sint r))"

definition peachos_process_get_arguments :: "'k gate \<Rightarrow> u32 \<Rightarrow> ('k, u32) user" where
  "peachos_process_get_arguments G arguments = G 8 arguments"

section \<open>Memory and text\<close>

definition with_memory :: "(mem \<Rightarrow> mem) \<Rightarrow> ('k, unit) user" where
  "with_memory f = kmod (\<lambda>s. s\<lparr>user_mem := f (user_mem s)\<rparr>)"

definition from_option :: "('s \<Rightarrow> ('a \<times> 's) option) \<Rightarrow> ('s, 'a) prog" where
  "from_option f s = (case f s of None \<Rightarrow> Hang | Some r \<Rightarrow> Ret r)"

definition malloc :: "'k gate \<Rightarrow> u32 \<Rightarrow> ('k, u32) user" where
  "malloc G sz = peachos_malloc G sz"

definition free :: "'k gate \<Rightarrow> u32 \<Rightarrow> ('k, unit) user" where
  "free G ptr = kbind (peachos_free G ptr) (\<lambda>_. kret ())"

text \<open>\<open>itoa\<close> in the memory of the process: the pointer into its static buffer.\<close>

definition itoa_pointer :: "int \<Rightarrow> ('k, u32) user" where
  "itoa_pointer i =
     kbind (kget itoa_buffer) (\<lambda>buf.
     kbind (kget (\<lambda>s. itoa_user (bytes_at (user_mem s) buf 12) i)) (\<lambda>(bytes, loc).
     kbind (with_memory (\<lambda>m. put_bytes m buf bytes)) (\<lambda>_.
     kret (buf + word_of_int loc))))"

definition putchar :: "'k gate \<Rightarrow> int \<Rightarrow> ('k, int) user" where
  "putchar G c = kbind (peachos_putchar G (word_of_int c)) (\<lambda>_. kret 0)"

definition println_user :: "'k gate \<Rightarrow> u32 \<Rightarrow> ('k, unit) user" where
  "println_user G str = kbind (print_call G str) (\<lambda>_. kbind (putchar G 10) (\<lambda>_. kret ()))"

text \<open>
  One character of the format, with the words that are left of the argument list; the result is
  the pointer to the last character read and the rest of the list.
\<close>

definition printf_step :: "'k gate \<Rightarrow> u32 \<Rightarrow> u32 list \<Rightarrow> ('k, u32 \<times> u32 list) user" where
  "printf_step G p ap =
     kbind (kget (\<lambda>s. (user_mem s p, user_mem s (p + 1)))) (\<lambda>(c, d).
     if c \<noteq> 0x25 then kbind (putchar G (sint c)) (\<lambda>_. kret (p, ap))
     else if d = 0x69 then (case ap of [] \<Rightarrow> kfault ''no argument''
            | ival # ap' \<Rightarrow> kbind (itoa_pointer (sint ival)) (\<lambda>t. kbind (print_call G t) (\<lambda>_. kret (p + 1, ap'))))
     else if d = 0x73 then (case ap of [] \<Rightarrow> kfault ''no argument''
            | sval # ap' \<Rightarrow> kbind (print_call G sval) (\<lambda>_. kret (p + 1, ap')))
     else kbind (putchar G (sint d)) (\<lambda>_. kret (p + 1, ap)))"

partial_function (option) printf_user_loop ::
  "'k gate \<Rightarrow> u32 \<Rightarrow> u32 list \<Rightarrow> 'k user_machine \<Rightarrow> (int \<times> 'k user_machine) outcome option" where
  "printf_user_loop G p ap s =
     (if user_mem s p = 0 then Some (Ret (0, s))
      else case printf_step G p ap s of
        Ret r \<Rightarrow> printf_user_loop G (fst (fst r) + 1) (snd (fst r)) (snd r)
      | Panic e \<Rightarrow> Some (Panic e) | Fault e \<Rightarrow> Some (Fault e) | Hang \<Rightarrow> Some Hang)"

definition printf_user :: "'k gate \<Rightarrow> u32 \<Rightarrow> u32 list \<Rightarrow> ('k, int) user" where
  "printf_user G fmt ap s = run_loop (printf_user_loop G fmt ap s)"

section \<open>Reading a line\<close>

partial_function (option) getkey_loop ::
  "'k gate \<Rightarrow> 'k user_machine \<Rightarrow> (int \<times> 'k user_machine) outcome option" where
  "getkey_loop G s =
     (case peachos_getkey G s of
        Ret r \<Rightarrow> if fst r = 0 then getkey_loop G (snd r) else Some (Ret r)
      | Panic e \<Rightarrow> Some (Panic e) | Fault e \<Rightarrow> Some (Fault e) | Hang \<Rightarrow> Some Hang)"

definition peachos_getkeyblock :: "'k gate \<Rightarrow> ('k, int) user" where
  "peachos_getkeyblock G s = run_loop (getkey_loop G s)"

text \<open>
  One round of the loop at index \<open>i\<close>: \<open>None\<close> after the return key, otherwise the index of the next
  round.
\<close>

definition readline_step :: "'k gate \<Rightarrow> u32 \<Rightarrow> bool \<Rightarrow> int \<Rightarrow> ('k, int option) user" where
  "readline_step G out output_while_typing i =
     kbind (peachos_getkeyblock G) (\<lambda>key.
     if key = 13 then kret None
     else if key = 0x08 \<and> i \<ge> 1
     then kbind (with_memory (\<lambda>m. m(out + word_of_int (i - 1) := 0x00))) (\<lambda>_.
          kbind (putchar G key) (\<lambda>_. kret (Some (i - 2 + 1))))
     else kbind (with_memory (\<lambda>m. m(out + word_of_int i := word_of_int key))) (\<lambda>_.
          kbind (if output_while_typing then putchar G key else kret 0) (\<lambda>_. kret (Some (i + 1)))))"

partial_function (option) readline_loop ::
  "'k gate \<Rightarrow> u32 \<Rightarrow> int \<Rightarrow> bool \<Rightarrow> int \<Rightarrow> 'k user_machine \<Rightarrow> (int \<times> 'k user_machine) outcome option" where
  "readline_loop G out mx output_while_typing i s =
     (if \<not> i < mx - 1 then Some (Ret (i, s))
      else case readline_step G out output_while_typing i s of
        Ret r \<Rightarrow> (case fst r of None \<Rightarrow> Some (Ret (i, snd r))
                  | Some j \<Rightarrow> readline_loop G out mx output_while_typing j (snd r))
      | Panic e \<Rightarrow> Some (Panic e) | Fault e \<Rightarrow> Some (Fault e) | Hang \<Rightarrow> Some Hang)"

definition peachos_terminal_readline :: "'k gate \<Rightarrow> u32 \<Rightarrow> int \<Rightarrow> bool \<Rightarrow> ('k, unit) user" where
  "peachos_terminal_readline G out mx output_while_typing =
     kbind (\<lambda>s. run_loop (readline_loop G out mx output_while_typing 0 s)) (\<lambda>i.
     kbind (with_memory (\<lambda>m. m(out + word_of_int i := 0x00))) (\<lambda>_.
     kbind (putchar G 10) (\<lambda>_. kret ())))"

section \<open>Commands\<close>

text \<open>
  A \<open>struct command_argument\<close> is 512 bytes of text and the pointer to the next one. This is the
  block that the code has for the first and for every further token.
\<close>

definition new_argument :: "'k gate \<Rightarrow> u32 \<Rightarrow> ('k, u32) user" where
  "new_argument G token =
     kbind (peachos_malloc G 516) (\<lambda>arg.
     if arg = 0 then kret 0
     else kbind (with_memory (\<lambda>m. strncpy_user m arg token ARGUMENT_SIZE)) (\<lambda>_.
          kbind (with_memory (\<lambda>m. store32 m (arg + 512) 0)) (\<lambda>_. kret arg)))"

definition next_token :: "u32 \<Rightarrow> ('k, u32) user" where
  "next_token str = kbind (kget lit_space) (\<lambda>delimiters. from_option (strtok str delimiters))"

text \<open>One round of the loop over the further tokens: the new argument, or 0, and the next token.\<close>

definition append_argument :: "'k gate \<Rightarrow> u32 \<Rightarrow> u32 \<Rightarrow> ('k, u32 \<times> u32) user" where
  "append_argument G current token =
     kbind (new_argument G token) (\<lambda>new_command.
     if new_command = 0 then kret (0, 0)
     else kbind (with_memory (\<lambda>m. store32 m (current + 512) new_command)) (\<lambda>_.
          kbind (next_token 0) (\<lambda>token'. kret (new_command, token'))))"

partial_function (option) parse_loop ::
  "'k gate \<Rightarrow> u32 \<Rightarrow> u32 \<Rightarrow> 'k user_machine \<Rightarrow> (unit \<times> 'k user_machine) outcome option" where
  "parse_loop G current token s =
     (if token = 0 then Some (Ret ((), s))
      else case append_argument G current token s of
        Ret r \<Rightarrow> if fst (fst r) = 0 then Some (Ret ((), snd r))
                 else parse_loop G (fst (fst r)) (snd (fst r)) (snd r)
      | Panic e \<Rightarrow> Some (Panic e) | Fault e \<Rightarrow> Some (Fault e) | Hang \<Rightarrow> Some Hang)"

definition peachos_parse_command :: "'k gate \<Rightarrow> u32 \<Rightarrow> int \<Rightarrow> ('k, u32) user" where
  "peachos_parse_command G command mx =
     (if mx \<ge> 1025 then kret 0
      else kbind (kget scommand) (\<lambda>buf.
           kbind (with_memory (\<lambda>m. strncpy_user m buf command 1025)) (\<lambda>_.
           kbind (next_token buf) (\<lambda>token.
           if token = 0 then kret 0
           else kbind (new_argument G token) (\<lambda>root_command.
                if root_command = 0 then kret 0
                else kbind (next_token 0) (\<lambda>token.
                     kbind (\<lambda>s. run_loop (parse_loop G root_command token s)) (\<lambda>_.
                     kret root_command)))))))"

definition peachos_system_run :: "'k gate \<Rightarrow> u32 \<Rightarrow> ('k, int) user" where
  "peachos_system_run G command =
     kbind (kget run_buffer) (\<lambda>buf.
     kbind (with_memory (\<lambda>m. strncpy_user m buf command 1024)) (\<lambda>_.
     kbind (peachos_parse_command G buf 1024) (\<lambda>arguments.
     if arguments = 0 then kret (err EINVARG) else peachos_system G arguments)))"

text \<open>The entry of every program; \<open>main\<close> is the program's own.\<close>

definition c_start :: "'k gate \<Rightarrow> (int \<Rightarrow> u32 \<Rightarrow> ('k, int) user) \<Rightarrow> ('k, unit) user" where
  "c_start G main =
     kbind (kget start_arguments) (\<lambda>arguments.
     kbind (peachos_process_get_arguments G arguments) (\<lambda>_.
     kbind (kget (\<lambda>s. (load32 (user_mem s) arguments, load32 (user_mem s) (arguments + 4)))) (\<lambda>(argc, argv).
     kbind (main (sint argc) argv) (\<lambda>_. kret ()))))"

text \<open>\<open>_start\<close> of \<open>start.asm\<close>: \<open>c_start\<close>, then the end of the process.\<close>

definition program_start :: "'k gate \<Rightarrow> (int \<Rightarrow> u32 \<Rightarrow> ('k, int) user) \<Rightarrow> ('k, u32) user" where
  "program_start G main = kbind (c_start G main) (\<lambda>_. peachos_exit G 0)"

section \<open>The bounded copy\<close>

lemma strncpy_user_loop_kernel:
  "strncpy_user_loop m dest src (i + int n) i = strncpy_loop m (dest + word_of_int i) (src + word_of_int i) n"
proof (induction n arbitrary: m i)
  case 0
  then show ?case by (simp add: strncpy_user_loop.simps)
next
  case (Suc n)
  show ?case
    using Suc [of "m(dest + word_of_int i := m (src + word_of_int i))" "i + 1"]
    by (subst strncpy_user_loop.simps) (simp add: add.assoc del: fun_upd_apply)
qed

lemma strncpy_user_cstr:
  assumes "cstr m src xs" and "disjoint_ranges dest (Suc n) src (Suc (length xs))"
    and "length xs < 4294967295" and "n < 2147483647"
  shows "strncpy_user m dest src (int n + 1) = put_bytes m dest (take n xs @ [0])"
proof -
  have "i32 (int n + 1 - 1) = int n" using assms(4) by (simp add: i32_id)
  then show ?thesis
    using strncpy_user_loop_kernel [of m dest src 0 n] strncpy_loop_cstr [OF assms(1-3)] assms(4)
    by (simp add: strncpy_user_def)
qed

lemma in_range_offset: "k + n \<le> 4294967296 \<Longrightarrow> 0 < n \<Longrightarrow> in_range a (p + of_nat k) n \<longleftrightarrow> k \<le> unat (a - p) \<and> unat (a - p) < k + n"
proof -
  assume k: "k + n \<le> 4294967296" "0 < n"
  define x where "x = a - p"
  have "unat (of_nat k :: u32) = k" using k by (simp add: unat_of_nat_u32)
  moreover have "in_range a (p + of_nat k) n \<longleftrightarrow> unat (x - of_nat k) < n"
    by (simp add: in_range_def x_def diff_diff_eq)
  moreover have "unat x < 4294967296" by (rule order_less_le_trans [OF unsigned_less]) simp
  ultimately show ?thesis
    using k by (auto simp: unat_sub_if' x_def [symmetric])
qed

text \<open>The pointer behind the text of an argument.\<close>

lemma next_field:
  "in_range a (p + 512) 4 \<Longrightarrow> in_range a p 516" "in_range a p n \<Longrightarrow> n \<le> 512 \<Longrightarrow> \<not> in_range a (p + 512) 4"
  using in_range_offset [of 512 4 a p] by (auto simp: in_range_def)

section \<open>The argument list\<close>

text \<open>
  \<open>pool\<close> is what the kernel will hand out for arguments: a request takes the next block, and
  changes no memory of the process but that block; without one it answers null.
\<close>

definition serves_blocks :: "'k gate \<Rightarrow> ('k \<Rightarrow> u32 list) \<Rightarrow> bool" where
  "serves_blocks G pool \<longleftrightarrow> (\<forall>s. case pool (kern s) of
      [] \<Rightarrow> \<exists>k. G 4 516 s = Ret (0, s\<lparr>kern := k\<rparr>) \<and> pool k = []
    | p # ps \<Rightarrow> \<exists>k m. G 4 516 s = Ret (p, s\<lparr>kern := k, user_mem := m\<rparr>) \<and> pool k = ps \<and>
        (\<forall>a. \<not> in_range a p 516 \<longrightarrow> m a = user_mem s a))"

text \<open>The blocks are disjoint from the areas in use and from each other.\<close>

fun fresh_blocks :: "(u32 \<times> nat) list \<Rightarrow> u32 list \<Rightarrow> bool" where
  "fresh_blocks A [] \<longleftrightarrow> True"
| "fresh_blocks A (p # ps) \<longleftrightarrow> p \<noteq> 0 \<and> (\<forall>(a, n) \<in> set A. disjoint_ranges p 516 a n) \<and> fresh_blocks ((p, 516) # A) ps"

lemma fresh_blocks_disjoint:
  "fresh_blocks A ps \<Longrightarrow> p \<in> set ps \<Longrightarrow> (a, n) \<in> set A \<Longrightarrow> disjoint_ranges p 516 a n"
  by (induction A ps rule: fresh_blocks.induct) auto

lemma new_argument_run:
  assumes "serves_blocks G pool" and "pool (kern s) = p # ps" and "cstr (user_mem s) token t"
    and "disjoint_ranges p 516 token (Suc (length t))" and "length t < 4294967295" and "p \<noteq> 0"
  obtains k m where "new_argument G token s = Ret (p, s\<lparr>kern := k, user_mem := m\<rparr>)" and "pool k = ps"
    and "cstr m p (take 511 t)" and "load32 m (p + 512) = 0"
    and "\<And>a. \<not> in_range a p 516 \<Longrightarrow> m a = user_mem s a"
proof -
  from assms(1,2) obtain k m where g: "G 4 516 s = Ret (p, s\<lparr>kern := k, user_mem := m\<rparr>)" and k: "pool k = ps"
    and m: "\<And>a. \<not> in_range a p 516 \<Longrightarrow> m a = user_mem s a"
    using assms(1) [unfolded serves_blocks_def, rule_format, of s] by auto
  define m1 where "m1 = put_bytes m p (take 511 t @ [0])"
  have "cstr m token t"
    using assms(3-5) m by (subst cstr_cong [of token t m "user_mem s"]) (auto simp: disjoint_ranges_def)
  moreover have "disjoint_ranges p (Suc 511) token (Suc (length t))"
    using assms(4) in_range_mono [of _ p "Suc 511" 516] by (auto simp: disjoint_ranges_def)
  ultimately have copy: "strncpy_user m p token 512 = m1"
    using strncpy_user_cstr [of m token t p 511] assms(5) by (simp add: m1_def)
  have c1: "cstr m1 p (take 511 t)"
    using cstr_no_0 [OF assms(3)] by (auto simp: m1_def intro!: cstr_put_bytes dest: in_set_takeD)
  have "cstr (store32 m1 (p + 512) 0) p (take 511 t)"
    using c1 next_field(2) [of _ p "Suc (length (take 511 t))"]
    by (subst cstr_cong [of p "take 511 t" _ m1]) (auto simp: store32_outside)
  moreover have "store32 m1 (p + 512) 0 a = user_mem s a" if "\<not> in_range a p 516" for a
  proof -
    have "length (take 511 t @ [0]) \<le> 516" by (simp add: min_le_iff_disj)
    then have "\<not> in_range a (p + 512) 4" and "\<not> in_range a p (length (take 511 t @ [0]))"
      using that next_field(1) [of a p] in_range_mono by blast+
    with that m show ?thesis by (simp add: store32_outside m1_def put_bytes_outside)
  qed
  moreover have "new_argument G token s = Ret (p, s\<lparr>kern := k, user_mem := store32 m1 (p + 512) 0\<rparr>)"
    using g copy assms(6)
    by (simp add: new_argument_def peachos_malloc_def with_memory_def outcome_simps)
  ultimately show ?thesis using that k by (simp add: load32_store32_same)
qed

lemma new_argument_none:
  assumes "serves_blocks G pool" and "pool (kern s) = []"
  obtains k where "new_argument G token s = Ret (0, s\<lparr>kern := k\<rparr>)" and "pool k = []"
proof -
  from assms obtain k where "G 4 516 s = Ret (0, s\<lparr>kern := k\<rparr>)" "pool k = []"
    using assms(1) [unfolded serves_blocks_def, rule_format, of s] by auto
  then show ?thesis using that by (simp add: new_argument_def peachos_malloc_def outcome_simps)
qed

text \<open>
  The tokens that are still to be taken, when the last call of \<open>strtok\<close> has returned \<open>tok\<close>: that
  one, and those of the text at the position.
\<close>

definition pending :: "'k user_machine \<Rightarrow> u32 \<Rightarrow> u8 list list \<Rightarrow> bool" where
  "pending s tok ts \<longleftrightarrow> (if tok = 0 then ts = [] \<and> sp s = 0 else \<exists>t zs. ts = t # tokens {32} zs \<and>
      cstr (user_mem s) tok t \<and> text_at (user_mem s) (sp s) zs \<and> length t \<le> 1024 \<and> length zs \<le> 1024 \<and>
      (\<forall>a. in_range a tok (Suc (length t)) \<or> in_range a (sp s) (Suc (length zs)) \<longrightarrow> in_range a (scommand s) 1025))"

lemma pending_cong:
  assumes "pending s tok ts" and "\<And>a. in_range a (scommand s) 1025 \<Longrightarrow> user_mem s' a = user_mem s a"
    and "sp s' = sp s" and "scommand s' = scommand s"
  shows "pending s' tok ts"
proof (cases "tok = 0")
  case True
  with assms show ?thesis by (simp add: pending_def)
next
  case False
  with assms(1) obtain t zs where ts: "ts = t # tokens {32} zs" and c: "cstr (user_mem s) tok t"
    "text_at (user_mem s) (sp s) zs" "length t \<le> 1024" "length zs \<le> 1024"
    and r: "\<And>a. in_range a tok (Suc (length t)) \<or> in_range a (sp s) (Suc (length zs)) \<Longrightarrow> in_range a (scommand s) 1025"
    by (auto simp: pending_def)
  have "cstr (user_mem s') tok t" and "cstr (user_mem s') (sp s) zs"
    using cstr_cong [of tok t "user_mem s'" "user_mem s"] cstr_cong [of "sp s" zs "user_mem s'" "user_mem s"]
      assms(2) r c by (auto simp: text_at_def)
  with False ts c r assms(3,4) show ?thesis by (auto simp: pending_def text_at_def)
qed

text \<open>What stays true of the command line and of the delimiter.\<close>

definition parsing :: "'k user_machine \<Rightarrow> bool" where
  "parsing s \<longleftrightarrow> cstr (user_mem s) (lit_space s) [32] \<and> disjoint_ranges (scommand s) 1025 (lit_space s) 2"

lemma parsing_cong:
  assumes "parsing s" and "\<And>a. in_range a (lit_space s) 2 \<Longrightarrow> user_mem s' a = user_mem s a"
    and "lit_space s' = lit_space s" and "scommand s' = scommand s"
  shows "parsing s'"
  using assms cstr_cong [of "lit_space s" "[32]" "user_mem s'" "user_mem s"]
  by (simp add: parsing_def numeral_2_eq_2)

lemma next_token_run:
  assumes "parsing s" and "text_at (user_mem s) q xs" and "(if sp s = 0 then str else sp s) = q"
    and "\<And>a. in_range a q (Suc (length xs)) \<Longrightarrow> in_range a (scommand s) 1025" and "length xs \<le> 1024"
  obtains tok e m where "next_token str s = Ret (tok, s\<lparr>user_mem := m, sp := e\<rparr>)"
    and "pending (s\<lparr>user_mem := m, sp := e\<rparr>) tok (tokens {32} xs)" and "parsing (s\<lparr>user_mem := m, sp := e\<rparr>)"
    and "\<forall>a. \<not> in_range a (scommand s) 1025 \<longrightarrow> m a = user_mem s a"
proof -
  have d: "cstr (user_mem s) (lit_space s) [32]" and dis: "disjoint_ranges (scommand s) 1025 (lit_space s) 2"
    using assms(1) by (simp_all add: parsing_def)
  have q: "disjoint_ranges q (length xs) (lit_space s) (Suc (length [32 :: u8]))"
    using dis assms(4) in_range_mono [of _ q "length xs" "Suc (length xs)"]
    by (auto simp: disjoint_ranges_def numeral_2_eq_2)
  have nt: "next_token str s = from_option (strtok str (lit_space s)) s"
    by (simp add: next_token_def outcome_simps)
  show ?thesis
  proof (rule strtok_next [OF d _ assms(2) q assms(3) refl])
    assume "tokens (set [32]) xs = []" and "strtok str (lit_space s) s = Some (0, s\<lparr>sp := 0\<rparr>)"
    then show ?thesis
      using that [of 0 0 "user_mem s"] nt assms(1) by (simp add: pending_def from_option_def parsing_def)
  next
    fix p t e zs m'
    assume t: "tokens (set [32]) xs = t # tokens (set [32]) zs" "length zs < length xs" "length t \<le> length xs"
      and call: "strtok str (lit_space s) s = Some (p, s\<lparr>user_mem := m', sp := e\<rparr>)" "p \<noteq> 0"
      and c: "cstr m' p t" "text_at m' e zs" "cstr m' (lit_space s) [32]"
      and r: "\<And>a. in_range a e (Suc (length zs)) \<Longrightarrow> in_range a q (Suc (length xs))"
        "\<And>a. in_range a p (Suc (length t)) \<Longrightarrow> in_range a q (Suc (length xs)) \<and> \<not> in_range a e (length zs)"
      and fr: "\<And>a. \<not> in_range a q (length xs) \<Longrightarrow> m' a = user_mem s a"
    show ?thesis
    proof (rule that [of p e m'])
      show "next_token str s = Ret (p, s\<lparr>user_mem := m', sp := e\<rparr>)" using nt call by (simp add: from_option_def)
      show "pending (s\<lparr>user_mem := m', sp := e\<rparr>) p (tokens {32} xs)"
        using t call(2) c assms(4,5) r by (auto simp: pending_def)
      show "parsing (s\<lparr>user_mem := m', sp := e\<rparr>)" using c(3) dis by (simp add: parsing_def)
      have "m' a = user_mem s a" if "\<not> in_range a (scommand s) 1025" for a
        using that assms(4) fr in_range_mono [of a q "length xs" "Suc (length xs)"] by fastforce
      then show "\<forall>a. \<not> in_range a (scommand s) 1025 \<longrightarrow> m' a = user_mem s a" by blast
    qed
  qed simp
qed

lemma text_at_cong:
  "text_at m q xs \<Longrightarrow> (\<And>a. in_range a q (Suc (length xs)) \<Longrightarrow> m' a = m a) \<Longrightarrow> text_at m' q xs"
  using cstr_cong [of q xs m' m] by (simp add: text_at_def)

text \<open>
  A new argument takes the pending token into the next block, some pointer of the list, in \<open>L\<close>, is
  set, and the next token is taken.
\<close>

lemma token_round:
  assumes "serves_blocks G pool" and "pending s tok ts" and "tok \<noteq> 0" and "parsing s"
    and "pool (kern s) = p # ps" and "p \<noteq> 0"
    and new: "disjoint_ranges p 516 (scommand s) 1025" "disjoint_ranges p 516 (lit_space s) 2"
    and link: "\<And>m a. a \<notin> L \<Longrightarrow> link m a = m a"
    and L: "\<And>a. a \<in> L \<Longrightarrow> \<not> in_range a (scommand s) 1025 \<and> \<not> in_range a (lit_space s) 2 \<and> \<not> in_range a p 516"
  obtains m1 k tok' e m where "new_argument G tok s = Ret (p, s\<lparr>kern := k, user_mem := m1\<rparr>)"
    and "next_token 0 (s\<lparr>kern := k, user_mem := link m1\<rparr>) = Ret (tok', s\<lparr>kern := k, user_mem := m, sp := e\<rparr>)"
    and "pool k = ps" and "pending (s\<lparr>kern := k, user_mem := m, sp := e\<rparr>) tok' (tl ts)"
    and "parsing (s\<lparr>kern := k, user_mem := m, sp := e\<rparr>)" and "ts \<noteq> []" and "cstr m p (take 511 (hd ts))"
    and "load32 m (p + 512) = 0" and "\<forall>a\<in>L. m a = link m1 a"
    and "\<forall>a. \<not> in_range a (scommand s) 1025 \<and> \<not> in_range a p 516 \<and> a \<notin> L \<longrightarrow> m a = user_mem s a"
proof -
  from assms(2,3) obtain t zs where ts: "ts = t # tokens {32} zs" and t: "cstr (user_mem s) tok t" "length t \<le> 1024"
    and z: "text_at (user_mem s) (sp s) zs" "length zs \<le> 1024"
    and r: "\<And>a. in_range a tok (Suc (length t)) \<or> in_range a (sp s) (Suc (length zs)) \<Longrightarrow> in_range a (scommand s) 1025"
    by (auto simp: pending_def)
  have "disjoint_ranges p 516 tok (Suc (length t))" using new(1) r by (auto simp: disjoint_ranges_def)
  moreover have "length t < 4294967295" using t(2) by simp
  ultimately
  obtain k m1 where na: "new_argument G tok s = Ret (p, s\<lparr>kern := k, user_mem := m1\<rparr>)" and k: "pool k = ps"
    and a1: "cstr m1 p (take 511 t)" "load32 m1 (p + 512) = 0"
    and f1: "\<And>a. \<not> in_range a p 516 \<Longrightarrow> m1 a = user_mem s a"
    using new_argument_run [OF assms(1,5) t(1) _ _ assms(6)] by blast
  define s2 where "s2 = s\<lparr>kern := k, user_mem := link m1\<rparr>"
  have s2_eq: "user_mem s2 a = user_mem s a" if "in_range a (scommand s) 1025 \<or> in_range a (lit_space s) 2" for a
  proof -
    have "\<not> in_range a p 516" and "a \<notin> L" using that L new by (auto simp: disjoint_ranges_def)
    then show ?thesis using f1 link by (simp add: s2_def)
  qed
  have pa: "parsing s2" using s2_eq by (intro parsing_cong [OF assms(4)]) (simp_all add: s2_def)
  have tx: "text_at (user_mem s2) (sp s) zs" using s2_eq r by (intro text_at_cong [OF z(1)]) simp
  have st: "(if sp s2 = 0 then 0 else sp s2) = sp s" by (simp add: s2_def)
  have rr: "in_range a (scommand s2) 1025" if "in_range a (sp s) (Suc (length zs))" for a
    using r that by (simp add: s2_def)
  from next_token_run [of s2 "sp s" zs 0, OF pa tx st rr z(2)]
  obtain tok' e m where nt: "next_token 0 s2 = Ret (tok', s2\<lparr>user_mem := m, sp := e\<rparr>)"
    and pend: "pending (s2\<lparr>user_mem := m, sp := e\<rparr>) tok' (tokens {32} zs)" and pars: "parsing (s2\<lparr>user_mem := m, sp := e\<rparr>)"
    and fr: "\<forall>a. \<not> in_range a (scommand s2) 1025 \<longrightarrow> m a = user_mem s2 a" .
  have s3: "s2\<lparr>user_mem := m, sp := e\<rparr> = s\<lparr>kern := k, user_mem := m, sp := e\<rparr>" by (simp add: s2_def)
  have f3: "m a = link m1 a" if "\<not> in_range a (scommand s) 1025" for a using fr that by (simp add: s2_def)
  have p3: "m a = m1 a" if "in_range a p 516" for a
    using that L new(1) by (subst f3) (auto simp: disjoint_ranges_def intro!: link)
  have p4: "in_range a p 516" if "in_range a p (Suc (length (take 511 t)))" for a
    using that by (rule in_range_mono) simp
  show ?thesis
  proof (rule that)
    show "cstr m p (take 511 (hd ts))"
      using a1(1) p3 p4 by (simp add: ts) (subst cstr_cong [of p "take 511 t" m m1], auto)
    show "load32 m (p + 512) = 0"
      using a1(2) p3 next_field(1) load32_range [of "p + 512" m m1] by auto
    show "\<forall>a\<in>L. m a = link m1 a" using f3 L by blast
    show "\<forall>a. \<not> in_range a (scommand s) 1025 \<and> \<not> in_range a p 516 \<and> a \<notin> L \<longrightarrow> m a = user_mem s a"
      using f1 f3 link by simp
  qed (use na nt k pend pars ts s3 in \<open>simp_all add: s2_def\<close>)
qed

text \<open>A round of the loop over the further tokens: the new argument is linked behind the current one.\<close>

lemma append_argument_run:
  assumes "serves_blocks G pool" and "pending s tok ts" and "tok \<noteq> 0" and "parsing s"
    and "pool (kern s) = p # ps" and "p \<noteq> 0"
    and cur: "disjoint_ranges cur 516 (scommand s) 1025" "disjoint_ranges cur 516 (lit_space s) 2"
    and new: "disjoint_ranges p 516 (scommand s) 1025" "disjoint_ranges p 516 (lit_space s) 2" "disjoint_ranges p 516 cur 516"
  obtains tok' e m k where "append_argument G cur tok s = Ret ((p, tok'), s\<lparr>kern := k, user_mem := m, sp := e\<rparr>)"
    and "pool k = ps" and "pending (s\<lparr>kern := k, user_mem := m, sp := e\<rparr>) tok' (tl ts)"
    and "parsing (s\<lparr>kern := k, user_mem := m, sp := e\<rparr>)" and "ts \<noteq> []" and "cstr m p (take 511 (hd ts))"
    and "load32 m (p + 512) = 0" and "load32 m (cur + 512) = p"
    and "\<forall>a. \<not> in_range a (scommand s) 1025 \<and> \<not> in_range a p 516 \<and> \<not> in_range a (cur + 512) 4 \<longrightarrow> m a = user_mem s a"
proof (rule token_round [OF assms(1-6) new(1,2), of "{a. in_range a (cur + 512) 4}" "\<lambda>m. store32 m (cur + 512) p"])
  fix m1 k tok' e m
  assume na: "new_argument G tok s = Ret (p, s\<lparr>kern := k, user_mem := m1\<rparr>)"
    and nt: "next_token 0 (s\<lparr>kern := k, user_mem := store32 m1 (cur + 512) p\<rparr>) = Ret (tok', s\<lparr>kern := k, user_mem := m, sp := e\<rparr>)"
    and rest: "pool k = ps" "pending (s\<lparr>kern := k, user_mem := m, sp := e\<rparr>) tok' (tl ts)"
      "parsing (s\<lparr>kern := k, user_mem := m, sp := e\<rparr>)" "ts \<noteq> []" "cstr m p (take 511 (hd ts))" "load32 m (p + 512) = 0"
    and l: "\<forall>a\<in>{a. in_range a (cur + 512) 4}. m a = store32 m1 (cur + 512) p a"
    and f: "\<forall>a. \<not> in_range a (scommand s) 1025 \<and> \<not> in_range a p 516 \<and> a \<notin> {a. in_range a (cur + 512) 4} \<longrightarrow> m a = user_mem s a"
  have "append_argument G cur tok s = Ret ((p, tok'), s\<lparr>kern := k, user_mem := m, sp := e\<rparr>)"
    using na nt assms(6) by (simp add: append_argument_def with_memory_def outcome_simps)
  moreover have "load32 m (cur + 512) = p"
    using l load32_range [of "cur + 512" m "store32 m1 (cur + 512) p"] by (simp add: load32_store32_same)
  ultimately show thesis using that rest f by simp
qed (use cur new(3) next_field(1) in \<open>auto simp: store32_outside disjoint_ranges_def\<close>)

lemma parse_loop_run:
  assumes "serves_blocks G pool" and "pending s tok ts" and "parsing s" and "pool (kern s) = ps"
    and "fresh_blocks A ps" and "{(scommand s, 1025), (lit_space s, 2), (cur, 516)} \<subseteq> set A"
    and "disjoint_ranges cur 516 (scommand s) 1025" and "disjoint_ranges cur 516 (lit_space s) 2"
    and "load32 (user_mem s) (cur + 512) = 0"
  shows "\<exists>k m e. parse_loop G cur tok s = Some (Ret ((), s\<lparr>kern := k, user_mem := m, sp := e\<rparr>))
    \<and> arg_list m (load32 m (cur + 512)) (map (take 511) (take (length ps) ts))
    \<and> (e = 0 \<longleftrightarrow> length ts \<le> length ps)
    \<and> (\<forall>a. \<not> in_range a (scommand s) 1025 \<and> (\<forall>p\<in>set ps. \<not> in_range a p 516) \<and> \<not> in_range a (cur + 512) 4
         \<longrightarrow> m a = user_mem s a)"
  using assms
proof (induction ps arbitrary: s tok ts cur A)
  case Nil
  show ?case
  proof (cases "tok = 0")
    case True
    then have "parse_loop G cur tok s = Some (Ret ((), s\<lparr>kern := kern s, user_mem := user_mem s, sp := sp s\<rparr>))"
      by (simp add: parse_loop.simps [of G cur _ s])
    with True Nil.prems(2,9) show ?thesis
      by (intro exI [of _ "kern s"] exI [of _ "user_mem s"] exI [of _ "sp s"]) (auto simp: pending_def)
  next
    case False
    from new_argument_none [OF Nil.prems(1,4)] obtain k where "new_argument G tok s = Ret (0, s\<lparr>kern := k\<rparr>)" .
    with False have "parse_loop G cur tok s = Some (Ret ((), s\<lparr>kern := k, user_mem := user_mem s, sp := sp s\<rparr>))"
      by (simp add: parse_loop.simps [of G cur tok s] append_argument_def outcome_simps)
    with False Nil.prems(2,9) show ?thesis
      by (intro exI [of _ k] exI [of _ "user_mem s"] exI [of _ "sp s"]) (auto simp: pending_def text_at_def)
  qed
next
  case (Cons p ps)
  show ?case
  proof (cases "tok = 0")
    case True
    then have "parse_loop G cur tok s = Some (Ret ((), s\<lparr>kern := kern s, user_mem := user_mem s, sp := sp s\<rparr>))"
      by (simp add: parse_loop.simps [of G cur _ s])
    with True Cons.prems(2,9) show ?thesis
      by (intro exI [of _ "kern s"] exI [of _ "user_mem s"] exI [of _ "sp s"]) (auto simp: pending_def)
  next
    case False
    have p: "p \<noteq> 0" "disjoint_ranges p 516 (scommand s) 1025" "disjoint_ranges p 516 (lit_space s) 2"
      "disjoint_ranges p 516 cur 516" and fresh: "fresh_blocks ((p, 516) # A) ps"
      using Cons.prems(5,6) by auto
    from append_argument_run [OF Cons.prems(1,2) False Cons.prems(3,4) p(1) Cons.prems(7,8) p(2-4)]
    obtain tok' e m k where ap: "append_argument G cur tok s = Ret ((p, tok'), s\<lparr>kern := k, user_mem := m, sp := e\<rparr>)"
      and k: "pool k = ps" and pend: "pending (s\<lparr>kern := k, user_mem := m, sp := e\<rparr>) tok' (tl ts)"
      and pars: "parsing (s\<lparr>kern := k, user_mem := m, sp := e\<rparr>)" and ts: "ts \<noteq> []"
      and c: "cstr m p (take 511 (hd ts))" and l: "load32 m (p + 512) = 0" "load32 m (cur + 512) = p"
      and fr: "\<forall>a. \<not> in_range a (scommand s) 1025 \<and> \<not> in_range a p 516 \<and> \<not> in_range a (cur + 512) 4
        \<longrightarrow> m a = user_mem s a" .
    let ?s = "s\<lparr>kern := k, user_mem := m, sp := e\<rparr>"
    from Cons.IH [of ?s tok' "tl ts" "(p, 516) # A" p] Cons.prems(1,6) pend pars k fresh p l(1)
    obtain k' m' e' where rest: "parse_loop G p tok' ?s = Some (Ret ((), s\<lparr>kern := k', user_mem := m', sp := e'\<rparr>))"
      and lst: "arg_list m' (load32 m' (p + 512)) (map (take 511) (take (length ps) (tl ts)))"
      and e': "e' = 0 \<longleftrightarrow> length (tl ts) \<le> length ps"
      and fr': "\<And>a. \<not> in_range a (scommand s) 1025 \<Longrightarrow> \<forall>q\<in>set ps. \<not> in_range a q 516 \<Longrightarrow> \<not> in_range a (p + 512) 4
         \<Longrightarrow> m' a = m a" by auto
    have apart: "\<not> in_range a (scommand s) 1025 \<and> (\<forall>q\<in>set ps. \<not> in_range a q 516)"
      if "in_range a p 516 \<or> in_range a cur 516" for a
      using that Cons.prems(6,7) p(2) fresh_blocks_disjoint [OF fresh] by (fastforce simp: disjoint_ranges_def)
    have "m' a = m a" if "in_range a p (Suc (length (take 511 (hd ts))))" for a
    proof -
      have a: "in_range a p 512" using that by (rule in_range_mono) simp
      then show ?thesis
        using apart [of a] next_field(2) [OF a] in_range_mono [OF a, of 516] by (intro fr') auto
    qed
    then have "cstr m' p (take 511 (hd ts))"
      using c by (subst cstr_cong [of p "take 511 (hd ts)" m' m]) auto
    moreover have "load32 m' (cur + 512) = p"
    proof -
      have "m' a = m a" if a: "in_range a (cur + 512) 4" for a
        using apart [of a] next_field(1) [OF a] next_field(1) [of a p] p(4) by (intro fr') (auto simp: disjoint_ranges_def)
      then show ?thesis using l(2) load32_range [of "cur + 512" m' m] by simp
    qed
    moreover have "map (take 511) (take (length (p # ps)) ts) = take 511 (hd ts) # map (take 511) (take (length ps) (tl ts))"
      using ts by (cases ts) simp_all
    moreover have "m' a = user_mem s a"
      if "\<not> in_range a (scommand s) 1025" "\<forall>q\<in>set (p # ps). \<not> in_range a q 516" "\<not> in_range a (cur + 512) 4" for a
      using that fr fr' [of a] next_field(1) [of a p] by auto
    moreover have "parse_loop G cur tok s = Some (Ret ((), s\<lparr>kern := k', user_mem := m', sp := e'\<rparr>))"
      using False ap rest p(1) by (simp add: parse_loop.simps [of G cur tok s])
    moreover have "length (tl ts) \<le> length ps \<longleftrightarrow> length ts \<le> length (p # ps)"
      using ts by (cases ts) simp_all
    ultimately show ?thesis using lst e' p(1) by (intro exI [of _ k'] exI [of _ m'] exI [of _ e']) auto
  qed
qed

section \<open>Splitting a command\<close>

text \<open>What \<open>peachos_parse_command\<close> relies on: its literal, its buffer, and no tokenisation under way.\<close>

definition parse_ready :: "'k user_machine \<Rightarrow> u32 list \<Rightarrow> bool" where
  "parse_ready s ps \<longleftrightarrow> parsing s \<and> sp s = 0 \<and> scommand s \<noteq> 0 \<and> unat (scommand s) + 1025 \<le> 4294967296 \<and>
     fresh_blocks [(scommand s, 1025), (lit_space s, 2)] ps"

lemma copied_command:
  assumes "parse_ready s ps" and "cstr (user_mem s) command xs" and "length xs < 4294967295"
    and "disjoint_ranges (scommand s) 1025 command (Suc (length xs))"
    and s1: "s1 = s\<lparr>user_mem := strncpy_user (user_mem s) (scommand s) command 1025\<rparr>"
  shows "parsing s1" and "text_at (user_mem s1) (scommand s) (take 1024 xs)"
proof -
  have copy: "user_mem s1 = put_bytes (user_mem s) (scommand s) (take 1024 xs @ [0])"
    using strncpy_user_cstr [of "user_mem s" command xs "scommand s" 1024] assms(2-4) by (simp add: s1)
  have out: "user_mem s1 a = user_mem s a" if "\<not> in_range a (scommand s) 1025" for a
  proof -
    have "\<not> in_range a (scommand s) (length (take 1024 xs @ [0]))"
    proof
      assume "in_range a (scommand s) (length (take 1024 xs @ [0]))"
      then have "in_range a (scommand s) 1025" by (rule in_range_mono) simp
      with that show False by simp
    qed
    then show ?thesis by (simp add: copy put_bytes_outside)
  qed
  have d: "disjoint_ranges (scommand s) 1025 (lit_space s) 2" and pa: "parsing s"
    using assms(1) by (simp_all add: parse_ready_def parsing_def)
  have lit: "\<not> in_range a (scommand s) 1025" if "in_range a (lit_space s) 2" for a
    using that d by (auto simp: disjoint_ranges_def)
  show "parsing s1" by (rule parsing_cong [OF pa]) (simp_all add: out lit, simp_all add: s1)
  have "0 \<notin> set (take 1024 xs)" using cstr_no_0 [OF assms(2)] by (auto dest: in_set_takeD)
  then have "cstr (user_mem s1) (scommand s) (take 1024 xs)" unfolding copy by (intro cstr_put_bytes) simp_all
  with assms(1) show "text_at (user_mem s1) (scommand s) (take 1024 xs)"
    by (simp add: text_at_def parse_ready_def min_def)
qed

lemma run_loop_kbind: "f s = Some (Ret (a, t)) \<Longrightarrow> kbind (\<lambda>s. run_loop (f s)) g s = g a t"
  by (simp add: kbind_def)

text \<open>The tokens that are pending become the list, as far as there are blocks.\<close>

lemma arguments_run:
  assumes "serves_blocks G pool" and pend: "pending s tok ts" and pars: "parsing s"
    and fresh: "fresh_blocks [(scommand s, 1025), (lit_space s, 2)] (pool (kern s))"
  shows "\<exists>r s'. (if tok = 0 then Ret (0, s)
      else kbind (new_argument G tok) (\<lambda>root_command. if root_command = 0 then kret 0
        else kbind (next_token 0) (\<lambda>token. kbind (\<lambda>s. run_loop (parse_loop G root_command token s)) (\<lambda>_. kret root_command))) s)
      = Ret (r, s')
    \<and> arg_list (user_mem s') r (map (take 511) (take (length (pool (kern s))) ts))
    \<and> (sp s' = 0 \<longleftrightarrow> length ts \<le> length (pool (kern s)))"
proof (cases "tok = 0 \<or> pool (kern s) = []")
  case True
  then show ?thesis
  proof
    assume "tok = 0"
    with pend show ?thesis by (simp add: pending_def)
  next
    assume none: "pool (kern s) = []"
    from new_argument_none [OF assms(1) none] obtain k where "new_argument G tok s = Ret (0, s\<lparr>kern := k\<rparr>)" .
    with pend none show ?thesis by (auto simp: pending_def text_at_def outcome_simps)
  qed
next
  case False
  then obtain p ps where tok: "tok \<noteq> 0" and pool: "pool (kern s) = p # ps" by (cases "pool (kern s)") auto
  have new: "p \<noteq> 0" "disjoint_ranges p 516 (scommand s) 1025" "disjoint_ranges p 516 (lit_space s) 2"
    and fresh': "fresh_blocks [(p, 516), (scommand s, 1025), (lit_space s, 2)] ps"
    using fresh pool by simp_all
  show ?thesis
  proof (rule token_round [OF assms(1) pend tok pars pool new, of "{}" "\<lambda>m. m"])
    fix m1 k tok' e m
    let ?s = "s\<lparr>kern := k, user_mem := m, sp := e\<rparr>"
    assume na: "new_argument G tok s = Ret (p, s\<lparr>kern := k, user_mem := m1\<rparr>)"
      and nt: "next_token 0 (s\<lparr>kern := k, user_mem := m1\<rparr>) = Ret (tok', ?s)"
      and pend': "pool k = ps" "pending ?s tok' (tl ts)" "parsing ?s"
      and ne: "ts \<noteq> []" and c: "cstr m p (take 511 (hd ts))" "load32 m (p + 512) = 0"
    obtain k' m' e' where rest: "parse_loop G p tok' ?s = Some (Ret ((), ?s\<lparr>kern := k', user_mem := m', sp := e'\<rparr>))"
      and lst: "arg_list m' (load32 m' (p + 512)) (map (take 511) (take (length ps) (tl ts)))"
      and e': "e' = 0 \<longleftrightarrow> length (tl ts) \<le> length ps"
      and fr: "\<forall>a. \<not> in_range a (scommand s) 1025 \<and> (\<forall>q\<in>set ps. \<not> in_range a q 516) \<and> \<not> in_range a (p + 512) 4
          \<longrightarrow> m' a = m a"
      using parse_loop_run [OF assms(1) pend'(2,3), of ps "[(p, 516), (scommand s, 1025), (lit_space s, 2)]" p] pend'(1) fresh' new c(2) by auto
    have "m' a = m a" if "in_range a p (Suc (length (take 511 (hd ts))))" for a
    proof -
      have a: "in_range a p 512" using that by (rule in_range_mono) simp
      then show ?thesis
        using next_field(2) [OF a] in_range_mono [OF a, of 516] new(2) fresh_blocks_disjoint [OF fresh', of _ p 516] fr
        by (fastforce simp: disjoint_ranges_def)
    qed
    then have "cstr m' p (take 511 (hd ts))"
      using c(1) by (subst cstr_cong [of p "take 511 (hd ts)" m' m]) auto
    with lst e' ne new(1) pool tok na nt rest show ?thesis
      by (cases ts) (auto simp: outcome_simps run_loop_kbind)
  qed auto
qed

text \<open>
  C20: Splitting a command line, with a kernel that hands out the blocks of its pool: the call returns,
  the result is the linked list of the tokens of the first 1024 characters, each cut to 511
  characters, as many as there are blocks; the tokeniser is left in its initial state exactly when
  the blocks have sufficed, so after a failed allocation the next command continues the old text.
\<close>

theorem parse_command_builds_list:
  assumes "serves_blocks G pool" and "parse_ready s (pool (kern s))"
    and "cstr (user_mem s) command xs" and "length xs < 4294967295"
    and "disjoint_ranges (scommand s) 1025 command (Suc (length xs))" and "mx < 1025"
    and ts: "ts = tokens {32} (take 1024 xs)"
  shows "\<exists>r s'. peachos_parse_command G command mx s = Ret (r, s')
    \<and> arg_list (user_mem s') r (map (take 511) (take (length (pool (kern s))) ts))
    \<and> (sp s' = 0 \<longleftrightarrow> length ts \<le> length (pool (kern s)))"
proof -
  define s1 where "s1 = s\<lparr>user_mem := strncpy_user (user_mem s) (scommand s) command 1025\<rparr>"
  have ready: "sp s = 0" "fresh_blocks [(scommand s, 1025), (lit_space s, 2)] (pool (kern s))"
    using assms(2) by (simp_all add: parse_ready_def)
  have st: "(if sp s1 = 0 then scommand s else sp s1) = scommand s" by (simp add: s1_def ready)
  have le: "length (take 1024 xs) \<le> 1024" by simp
  have rr: "in_range a (scommand s1) 1025" if "in_range a (scommand s) (Suc (length (take 1024 xs)))" for a
    using in_range_mono [OF that, of 1025] by (simp add: s1_def min_le_iff_disj)
  from next_token_run [OF copied_command [OF assms(2-5) s1_def] st rr le, folded ts] obtain tok e m
    where nt: "next_token (scommand s) s1 = Ret (tok, s1\<lparr>user_mem := m, sp := e\<rparr>)"
    and pend: "pending (s1\<lparr>user_mem := m, sp := e\<rparr>) tok ts" and pars: "parsing (s1\<lparr>user_mem := m, sp := e\<rparr>)"
    and "\<forall>a. \<not> in_range a (scommand s1) 1025 \<longrightarrow> m a = user_mem s1 a" .
  have "peachos_parse_command G command mx s = (if tok = 0 then Ret (0, s1\<lparr>user_mem := m, sp := e\<rparr>)
      else kbind (new_argument G tok) (\<lambda>root_command. if root_command = 0 then kret 0
        else kbind (next_token 0) (\<lambda>token. kbind (\<lambda>s. run_loop (parse_loop G root_command token s)) (\<lambda>_. kret root_command)))
          (s1\<lparr>user_mem := m, sp := e\<rparr>))"
    using assms(6) nt
    by (simp add: peachos_parse_command_def with_memory_def outcome_simps s1_def [symmetric])
  with arguments_run [OF assms(1) pend pars] ready(2) show ?thesis by (simp add: s1_def)
qed

section \<open>A concrete command\<close>

text \<open>A kernel that only hands out blocks, and the command \<open> ab  c\<close> with two of them.\<close>

definition pool_gate :: "u32 list gate" where
  "pool_gate n x s = (case kern s of [] \<Rightarrow> Ret (0, s)
     | p # ps \<Rightarrow> if n = 4 then Ret (p, s\<lparr>kern := ps\<rparr>) else Ret (0, s))"

definition sample_user :: "u32 list user_machine" where
  "sample_user = \<lparr>user_mem = sample_text, sp = 0, kern = [0x100000, 0x200000], itoa_buffer = 0x5000, scommand = 0x3000,
     run_buffer = 0x4000, start_arguments = 0x6000, lit_space = 0x2000\<rparr>"

lemma pool_gate_serves: "serves_blocks pool_gate (\<lambda>k. k)"
proof -
  have "case kern s of [] \<Rightarrow> \<exists>k. pool_gate 4 516 s = Ret (0, s\<lparr>kern := k\<rparr>) \<and> k = []
    | p # ps \<Rightarrow> \<exists>k m. pool_gate 4 516 s = Ret (p, s\<lparr>kern := k, user_mem := m\<rparr>) \<and> k = ps \<and>
        (\<forall>a. \<not> in_range a p 516 \<longrightarrow> m a = user_mem s a)" for s
  proof (cases "kern s")
    case Nil
    then show ?thesis by (auto simp: pool_gate_def intro!: exI [of _ "[]"])
  next
    case (Cons p ps)
    then show ?thesis by (auto simp: pool_gate_def intro!: exI [of _ "user_mem s"])
  qed
  then show ?thesis by (simp add: serves_blocks_def)
qed

theorem parse_command_builds_list_witness:
  "\<exists>r s'. peachos_parse_command pool_gate 0x1000 1024 sample_user = Ret (r, s')
    \<and> arg_list (user_mem s') r [[97, 98], [99]] \<and> sp s' = 0"
proof -
  let ?x = "[32, 97, 98, 32, 32, 99] :: u8 list"
  have "cstr (user_mem sample_user) 0x1000 ?x" and "parse_ready sample_user (kern sample_user)"
    by (auto simp: sample_user_def sample_text_def parse_ready_def parsing_def intro!: disjoint_rangesI
        disjoint_ranges_sym [OF disjoint_rangesI])
  moreover have "disjoint_ranges (scommand sample_user) 1025 0x1000 (Suc (length ?x))"
    by (intro disjoint_ranges_sym [OF disjoint_rangesI]) (simp_all add: sample_user_def)
  moreover have "[[97, 98], [99]] = tokens {32} (take 1024 ?x)" by (simp add: tokens.simps)
  ultimately have "\<exists>r s'. peachos_parse_command pool_gate 0x1000 1024 sample_user = Ret (r, s')
    \<and> arg_list (user_mem s') r (map (take 511) (take (length (kern sample_user)) [[97, 98], [99]]))
    \<and> (sp s' = 0 \<longleftrightarrow> length [[97, 98], [99 :: u8]] \<le> length (kern sample_user))"
    by (intro parse_command_builds_list [OF pool_gate_serves, where xs = ?x]) simp_all
  then show ?thesis by (simp add: sample_user_def)
qed

end
