(* ===== verification/UserShell.thy ===== *)
theory UserShell imports UserLib
begin

text \<open>
  The programs: the shell, \<open>src/programs/shell/src/shell.c\<close>, and \<open>src/programs/blank/blank.c\<close>.
  Both loop for ever over the user library; one round of each loop is a definition of its own. The
  theorem says what a line is that the shell reads.
\<close>

section \<open>The shell\<close>

text \<open>The addresses of the string literals and of the line buffer of \<open>main\<close>.\<close>

record shell_layout =
  shell_loaded :: u32
  default_path :: u32
  prompt_format :: u32
  empty_text :: u32
  line_buffer :: u32

definition user_strlen :: "u32 \<Rightarrow> ('k, int) user" where
  "user_strlen p = from_option (\<lambda>s. map_option (\<lambda>n. (n, s)) (strlen_user (user_mem s) p))"

definition shell_init :: "'k gate \<Rightarrow> shell_layout \<Rightarrow> ('k, u32) user" where
  "shell_init G L =
     kbind (println_user G (shell_loaded L)) (\<lambda>_.
     kbind (peachos_malloc G 108) (\<lambda>current_path.
     kbind (user_strlen (default_path L)) (\<lambda>n.
     kbind (with_memory (\<lambda>m. strncpy_user m current_path (default_path L) (n + 1))) (\<lambda>_.
     kret current_path))))"

definition shell_round :: "'k gate \<Rightarrow> shell_layout \<Rightarrow> u32 \<Rightarrow> ('k, unit) user" where
  "shell_round G L current_path =
     kbind (printf_user G (prompt_format L) [current_path]) (\<lambda>_.
     kbind (user_strlen current_path) (\<lambda>path_length.
     kbind (user_strlen current_path) (\<lambda>n.
     kbind (with_memory (\<lambda>m. strncpy_user m (line_buffer L) current_path (n + 1))) (\<lambda>_.
     kbind (peachos_terminal_readline G (line_buffer L + word_of_int path_length) (i32 (1024 - path_length)) True) (\<lambda>_.
     kbind (println_user G (empty_text L)) (\<lambda>_.
     kbind (peachos_system_run G (line_buffer L)) (\<lambda>_.
     println_user G (empty_text L))))))))"

text \<open>\<open>while(1)\<close>: the value is only defined when a round does not return.\<close>

partial_function (option) forever :: "('k, unit) user \<Rightarrow> 'k user_machine \<Rightarrow> (unit \<times> 'k user_machine) outcome option" where
  "forever round s =
     (case round s of Ret r \<Rightarrow> forever round (snd r)
      | Panic e \<Rightarrow> Some (Panic e) | Fault e \<Rightarrow> Some (Fault e) | Hang \<Rightarrow> Some Hang)"

definition shell_main :: "'k gate \<Rightarrow> shell_layout \<Rightarrow> ('k, unit) user" where
  "shell_main G L =
     kbind (shell_init G L) (\<lambda>current_path s. run_loop (forever (shell_round G L current_path) s))"

text \<open>\<open>blank.c\<close> prints its first argument again and again; the counting loop has no effect.\<close>

definition blank_round :: "'k gate \<Rightarrow> u32 \<Rightarrow> ('k, unit) user" where
  "blank_round G argv = kbind (kget (\<lambda>s. load32 (user_mem s) argv)) (println_user G)"

definition blank_main :: "'k gate \<Rightarrow> int \<Rightarrow> u32 \<Rightarrow> ('k, unit) user" where
  "blank_main G argc argv s = run_loop (forever (blank_round G argv) s)"

section \<open>Editing a line\<close>

text \<open>
  The line that the keys \<open>ks\<close> edit when at most \<open>n\<close> characters fit, with the keys that are left;
  \<open>None\<close> when the keys run out first. A backspace on an empty line is a character like any other.
\<close>

fun edit_line :: "nat \<Rightarrow> u8 list \<Rightarrow> u8 list \<Rightarrow> (u8 list \<times> u8 list) option" where
  "edit_line n line [] = (if length line < n then None else Some (line, []))"
| "edit_line n line (k # ks) =
     (if \<not> length line < n then Some (line, k # ks)
      else if k = 13 then Some (line, ks)
      else if k = 8 \<and> line \<noteq> [] then edit_line n (butlast line) ks
      else edit_line n (line @ [k]) ks)"

text \<open>
  The keyboard behind the trap: \<open>keys\<close> are the keys that will be typed, \<open>idle\<close> how often the kernel
  still answers 0 before the next one. Writing a character leaves the memory and the keys alone.
\<close>

definition serves_keys :: "'k gate \<Rightarrow> ('k \<Rightarrow> u8 list) \<Rightarrow> ('k \<Rightarrow> nat) \<Rightarrow> bool" where
  "serves_keys G keys idle \<longleftrightarrow>
     (\<forall>s. 0 \<notin> set (keys (kern s)) \<and>
        (\<exists>k r. G 3 0 s = Ret (r, s\<lparr>kern := k\<rparr>) \<and>
          (if keys (kern s) = [] \<or> 0 < idle (kern s) then r = 0 \<and> keys k = keys (kern s) \<and> (keys k \<noteq> [] \<longrightarrow> idle k < idle (kern s))
           else r = scast (hd (keys (kern s))) \<and> keys k = tl (keys (kern s)))) \<and>
        (\<forall>c. \<exists>k r. G 2 c s = Ret (r, s\<lparr>kern := k\<rparr>) \<and> keys k = keys (kern s)))"

lemma serves_keysD:
  assumes "serves_keys G keys idle"
  shows "0 \<notin> set (keys (kern s))"
    and "\<exists>k r. G 3 0 s = Ret (r, s\<lparr>kern := k\<rparr>) \<and>
          (if keys (kern s) = [] \<or> 0 < idle (kern s) then r = 0 \<and> keys k = keys (kern s) \<and> (keys k \<noteq> [] \<longrightarrow> idle k < idle (kern s))
           else r = scast (hd (keys (kern s))) \<and> keys k = tl (keys (kern s)))"
    and "\<exists>k r. G 2 c s = Ret (r, s\<lparr>kern := k\<rparr>) \<and> keys k = keys (kern s)"
  using assms [unfolded serves_keys_def, rule_format, of s] by blast+

lemma sint_char [simp]: "sint (scast (c :: u8) :: u32) = sint c"
proof -
  have "signed_take_bit 31 (sint c) = sint c"
    using sint_greater_eq [of c] sint_less [of c] by (intro signed_take_bit_int_eq_self) simp_all
  then show ?thesis by (simp add: signed_scast_eq)
qed

lemma sint_char_eq: "sint (c :: u8) = 0 \<longleftrightarrow> c = 0" "sint c = 13 \<longleftrightarrow> c = 13" "sint c = 8 \<longleftrightarrow> c = 8"
  using signed_word_eqI [of c 0] signed_word_eqI [of c 13] signed_word_eqI [of c 8] by auto

lemma getkey_loop_run:
  assumes "serves_keys G keys idle" and "keys (kern s) = c # cs"
  shows "\<exists>k. getkey_loop G s = Some (Ret (sint c, s\<lparr>kern := k\<rparr>)) \<and> keys k = cs"
  using assms(2)
proof (induction "idle (kern s)" arbitrary: s rule: less_induct)
  case less
  have c: "c \<noteq> 0" using serves_keysD(1) [OF assms(1), of s] less.prems by auto
  obtain k r where g: "G 3 0 s = Ret (r, s\<lparr>kern := k\<rparr>)"
    and r: "if 0 < idle (kern s) then r = 0 \<and> keys k = c # cs \<and> idle k < idle (kern s) else r = scast c \<and> keys k = cs"
    using serves_keysD(2) [OF assms(1), of s] less.prems by auto
  from g have call: "peachos_getkey G s = Ret (sint r, s\<lparr>kern := k\<rparr>)"
    by (simp add: peachos_getkey_def outcome_simps)
  show ?case
  proof (cases "0 < idle (kern s)")
    case True
    with less.hyps [of "s\<lparr>kern := k\<rparr>"] r call show ?thesis by (simp add: getkey_loop.simps [of G s])
  next
    case False
    with r call c show ?thesis by (auto simp: getkey_loop.simps [of G s] sint_char_eq)
  qed
qed

lemma putchar_run:
  assumes "serves_keys G keys idle"
  obtains k where "putchar G c s = Ret (0, s\<lparr>kern := k\<rparr>)" and "keys k = keys (kern s)"
  using serves_keysD(3) [OF assms, of "scast (word_of_int c :: u8)" s]
  by (auto simp: putchar_def peachos_putchar_def outcome_simps)

text \<open>One round of reading: the key ends the line, takes back a character, or is added.\<close>

lemma readline_step_run:
  assumes "serves_keys G keys idle" and "keys (kern s) = c # cs"
  obtains k where "keys k = cs" and "readline_step G out echo i s =
     (if c = 13 then Ret (None, s\<lparr>kern := k\<rparr>)
      else if c = 8 \<and> i \<ge> 1 then Ret (Some (i - 1), s\<lparr>kern := k, user_mem := (user_mem s)(out + word_of_int (i - 1) := 0)\<rparr>)
      else Ret (Some (i + 1), s\<lparr>kern := k, user_mem := (user_mem s)(out + word_of_int i := c)\<rparr>))"
proof -
  obtain k where k: "keys k = cs" and g: "peachos_getkeyblock G s = Ret (sint c, s\<lparr>kern := k\<rparr>)"
    using getkey_loop_run [OF assms] by (auto simp: peachos_getkeyblock_def)
  note step = readline_step_def with_memory_def outcome_simps g sint_char_eq
  consider "c = 13" | "c = 8" "i \<ge> 1" | "c \<noteq> 13" "\<not> (c = 8 \<and> i \<ge> 1)" by blast
  then show ?thesis
  proof cases
    case 1
    with that [of k] k show ?thesis by (simp add: step)
  next
    case 2
    let ?t = "s\<lparr>kern := k, user_mem := (user_mem s)(out + word_of_int (i - 1) := 0)\<rparr>"
    from putchar_run [OF assms(1), of 8 ?t] obtain k' where "putchar G 8 ?t = Ret (0, ?t\<lparr>kern := k'\<rparr>)"
      "keys k' = keys (kern ?t)" .
    with 2 that [of k'] k show ?thesis by (simp add: step del: fun_upd_apply)
  next
    case 3
    let ?t = "s\<lparr>kern := k, user_mem := (user_mem s)(out + word_of_int i := c)\<rparr>"
    obtain k' where p: "keys k' = cs" "(if echo then putchar G (sint c) else kret 0) ?t
        = Ret (0, s\<lparr>kern := k', user_mem := (user_mem s)(out + word_of_int i := c)\<rparr>)"
    proof (cases echo)
      case True
      from putchar_run [OF assms(1), of "sint c" ?t] obtain k' where "putchar G (sint c) ?t = Ret (0, ?t\<lparr>kern := k'\<rparr>)"
        "keys k' = keys (kern ?t)" .
      with that [of k'] True k show ?thesis by (simp del: fun_upd_apply)
    next
      case False
      with that [of k] k show ?thesis by (simp add: outcome_simps del: fun_upd_apply)
    qed
    from 3 have "\<not> (sint c = 13)" "\<not> (sint c = 8 \<and> i \<ge> 1)" by (simp_all add: sint_char_eq)
    then have "readline_step G out echo i s = Ret (Some (i + 1), s\<lparr>kern := k', user_mem := (user_mem s)(out + word_of_int i := c)\<rparr>)"
      using p(2) by (auto simp: readline_step_def with_memory_def outcome_simps g simp del: fun_upd_apply)
    with 3 that [of k'] p(1) show ?thesis by (simp del: fun_upd_apply)
  qed
qed

text \<open>The bytes of the line after a character has been added, and after one has been taken back.\<close>

lemma bytes_at_last: "bytes_at m p (Suc n) = bytes_at m p n @ [m (p + of_nat n)]"
  by (simp add: bytes_at_def)

lemma bytes_at_upd_end: "n < 4294967296 \<Longrightarrow> bytes_at (m(p + of_nat n := c)) p n = bytes_at m p n"
  using in_range_def [of "p + of_nat n" p n] by (intro bytes_at_cong) (auto simp: unat_of_nat_u32)

lemma readline_loop_run:
  assumes "serves_keys G keys idle" and "edit_line n line (keys (kern s)) = Some (res, rest)"
    and "bytes_at (user_mem s) out (length line) = line" and "length line \<le> n" and "n < 2147483647"
  shows "\<exists>k m. readline_loop G out (int n + 1) echo (int (length line)) s
        = Some (Ret (int (length res), s\<lparr>kern := k, user_mem := m\<rparr>))
    \<and> keys k = rest \<and> bytes_at m out (length res) = res \<and> length res \<le> n \<and> set res \<subseteq> set line \<union> set (keys (kern s))
    \<and> (\<forall>a. \<not> in_range a out n \<longrightarrow> m a = user_mem s a)"
  using assms(2-4)
proof (induction "keys (kern s)" arbitrary: line s)
  case Nil
  then have "\<not> length line < n" and r: "res = line" "rest = []" by (auto split: if_splits)
  then have "readline_loop G out (int n + 1) echo (int (length line)) s
      = Some (Ret (int (length res), s\<lparr>kern := kern s, user_mem := user_mem s\<rparr>))"
    by (simp add: readline_loop.simps [of G out])
  with Nil r show ?case by (intro exI [of _ "kern s"] exI [of _ "user_mem s"]) simp
next
  case (Cons c cs)
  let ?i = "int (length line)"
  have e: "edit_line n line (c # cs) = Some (res, rest)" using Cons.prems(1) Cons.hyps(2) by simp
  show ?case
  proof (cases "length line < n")
    case False
    then have "readline_loop G out (int n + 1) echo ?i s = Some (Ret (?i, s\<lparr>kern := kern s, user_mem := user_mem s\<rparr>))"
      by (simp add: readline_loop.simps [of G out])
    moreover from False e have "res = line" "c # cs = rest" by auto
    with Cons.hyps(2) have "res = line" "keys (kern s) = rest" by simp_all
    ultimately show ?thesis
      using Cons.prems(2,3) by (intro exI [of _ "kern s"] exI [of _ "user_mem s"]) simp
  next
    case True
    from readline_step_run [OF assms(1) Cons.hyps(2) [symmetric], of out echo ?i]
    obtain k where k: "keys k = cs" and step: "readline_step G out echo ?i s =
     (if c = 13 then Ret (None, s\<lparr>kern := k\<rparr>)
      else if c = 8 \<and> ?i \<ge> 1 then Ret (Some (?i - 1), s\<lparr>kern := k, user_mem := (user_mem s)(out + word_of_int (?i - 1) := 0)\<rparr>)
      else Ret (Some (?i + 1), s\<lparr>kern := k, user_mem := (user_mem s)(out + word_of_int ?i := c)\<rparr>))" .
    consider "c = 13" | "c = 8" "line \<noteq> []" | "c \<noteq> 13" "\<not> (c = 8 \<and> line \<noteq> [])" by blast
    then show ?thesis
    proof cases
      case 1
      with step True have "readline_loop G out (int n + 1) echo ?i s = Some (Ret (?i, s\<lparr>kern := k, user_mem := user_mem s\<rparr>))"
        by (simp add: readline_loop.simps [of G out])
      with 1 e True Cons.prems k show ?thesis by (intro exI [of _ k] exI [of _ "user_mem s"]) auto
    next
      case 2
      then obtain j where j: "length line = Suc j" by (cases line) auto
      let ?s = "s\<lparr>kern := k, user_mem := (user_mem s)(out + of_nat j := 0)\<rparr>"
      have "bytes_at (user_mem ?s) out (length (butlast line)) = butlast line"
        using Cons.prems(2,3) j assms(5) by (simp add: bytes_at_upd_end del: fun_upd_apply) (metis bytes_at_last butlast_snoc)
      with Cons.hyps(1) [of ?s "butlast line"] e 2 k j True
      obtain k' m where "readline_loop G out (int n + 1) echo (int j) ?s = Some (Ret (int (length res), s\<lparr>kern := k', user_mem := m\<rparr>))"
        and rest: "keys k' = rest" "bytes_at m out (length res) = res" "length res \<le> n"
          "set res \<subseteq> set (butlast line) \<union> set cs" "\<forall>a. \<not> in_range a out n \<longrightarrow> m a = user_mem ?s a" by auto
      with step True 2 j have "readline_loop G out (int n + 1) echo ?i s = Some (Ret (int (length res), s\<lparr>kern := k', user_mem := m\<rparr>))"
        by (simp add: readline_loop.simps [of G out _ _ "1 + int j"])
      moreover have "m a = user_mem s a" if "\<not> in_range a out n" for a
        using rest(5) that in_range_add [of n j out] True j assms(5) by auto
      moreover have "set res \<subseteq> set line \<union> set (keys (kern s))"
        using rest(4) Cons.hyps(2) [symmetric] by (auto dest: in_set_butlastD)
      ultimately show ?thesis using rest(1-3) by (intro exI [of _ k'] exI [of _ m]) simp
    next
      case 3
      let ?s = "s\<lparr>kern := k, user_mem := (user_mem s)(out + of_nat (length line) := c)\<rparr>"
      have "bytes_at (user_mem ?s) out (length (line @ [c])) = line @ [c]"
        using Cons.prems(2) True assms(5) by (simp add: bytes_at_last bytes_at_upd_end)
      moreover have "edit_line n (line @ [c]) cs = Some (res, rest)" using e 3 True by auto
      ultimately
      obtain k' m where "readline_loop G out (int n + 1) echo (?i + 1) ?s = Some (Ret (int (length res), s\<lparr>kern := k', user_mem := m\<rparr>))"
        and rest: "keys k' = rest" "bytes_at m out (length res) = res" "length res \<le> n"
          "set res \<subseteq> set line \<union> {c} \<union> set cs" "\<forall>a. \<not> in_range a out n \<longrightarrow> m a = user_mem ?s a"
        using Cons.hyps(1) [of ?s "line @ [c]"] k True by (auto simp: add.commute)
      with step True 3 have "readline_loop G out (int n + 1) echo ?i s = Some (Ret (int (length res), s\<lparr>kern := k', user_mem := m\<rparr>))"
        by (auto simp: readline_loop.simps [of G out _ _ ?i])
      moreover have "m a = user_mem s a" if "\<not> in_range a out n" for a
        using rest(5) that in_range_add [of n "length line" out] True assms(5) by auto
      moreover have "set res \<subseteq> set line \<union> set (keys (kern s))" using rest(4) Cons.hyps(2) [symmetric] by auto
      ultimately show ?thesis using rest(1-3) by (intro exI [of _ k'] exI [of _ m]) simp
    qed
  qed
qed

text \<open>
  C21: Reading a line of at most \<open>mx - 1\<close> characters: when the keys that will be typed make up a line, the
  call returns, the buffer holds the edited line with its terminator, the keys behind it are still
  to be read, and no byte outside the buffer is written.
\<close>

theorem readline_edits_line:
  assumes "serves_keys G keys idle" and "edit_line n [] (keys (kern s)) = Some (line, rest)"
    and "n < 2147483647" and mx: "mx = int n + 1"
  shows "\<exists>s'. peachos_terminal_readline G out mx echo s = Ret ((), s')
    \<and> cstr (user_mem s') out line \<and> length line \<le> n \<and> keys (kern s') = rest
    \<and> (\<forall>a. \<not> in_range a out (Suc n) \<longrightarrow> user_mem s' a = user_mem s a)"
proof -
  from readline_loop_run [OF assms(1,2), of out echo] assms(3)
  obtain k m where loop: "readline_loop G out mx echo 0 s = Some (Ret (int (length line), s\<lparr>kern := k, user_mem := m\<rparr>))"
    and k: "keys k = rest" and b: "bytes_at m out (length line) = line" and l: "length line \<le> n"
    and ne: "set line \<subseteq> set (keys (kern s))" and fr: "\<forall>a. \<not> in_range a out n \<longrightarrow> m a = user_mem s a"
    by (auto simp: bytes_at_def mx)
  define m1 where "m1 = m(out + of_nat (length line) := 0)"
  let ?s1 = "s\<lparr>kern := k, user_mem := m1\<rparr>"
  from putchar_run [OF assms(1), of 10 ?s1] obtain k1 where p: "putchar G 10 ?s1 = Ret (0, ?s1\<lparr>kern := k1\<rparr>)"
    and k1: "keys k1 = keys (kern ?s1)" .
  have call: "peachos_terminal_readline G out mx echo s = Ret ((), ?s1\<lparr>kern := k1\<rparr>)"
    using loop p by (simp add: peachos_terminal_readline_def run_loop_kbind with_memory_def outcome_simps m1_def)
  have "0 \<notin> set line" using serves_keysD(1) [OF assms(1)] ne by blast
  then have nz: "line ! j \<noteq> 0" if "j < length line" for j using that by (metis nth_mem)
  have m1_b: "bytes_at m1 out (length line) = line" using b l assms(3) by (simp add: m1_def bytes_at_upd_end)
  have "m1 (out + of_nat j) \<noteq> 0" if "j < length line" for j
    using nz [OF that] that m1_b by (metis nth_bytes_at)
  then have "cstr m1 out (bytes_at m1 out (length line))" by (intro cstr_bytes_at) (simp_all add: m1_def)
  moreover have "m1 a = user_mem s a" if "\<not> in_range a out (Suc n)" for a
  proof -
    have "a \<noteq> out + of_nat (length line)" using that l assms(3) in_range_add [of "Suc n" "length line" out] by auto
    moreover have "\<not> in_range a out n" using that in_range_mono [of a out n "Suc n"] by auto
    ultimately show ?thesis using fr by (simp add: m1_def)
  qed
  ultimately show ?thesis using call k k1 l m1_b by simp
qed

text \<open>A keyboard that holds the keys itself, and the keys \<open>l x <backspace> s <return> y\<close>.\<close>

definition key_gate :: "u8 list gate" where
  "key_gate n x s = (if n = 3 then (case filter (\<lambda>c. c \<noteq> 0) (kern s) of [] \<Rightarrow> Ret (0, s)
     | c # cs \<Rightarrow> Ret (scast c, s\<lparr>kern := cs\<rparr>)) else Ret (0, s))"

definition typing_user :: "u8 list user_machine" where
  "typing_user = \<lparr>user_mem = \<lambda>_. 7, sp = 0, kern = [0x6C, 0x78, 8, 0x73, 13, 0x79], itoa_buffer = 0x5000, scommand = 0x3000,
     run_buffer = 0x4000, start_arguments = 0x6000, lit_space = 0x2000\<rparr>"

lemma key_gate_serves: "serves_keys key_gate (filter (\<lambda>c. c \<noteq> 0)) (\<lambda>_. 0)"
  unfolding serves_keys_def
proof (intro allI conjI, goal_cases)
  case (1 s)
  show ?case by simp
next
  case (2 s)
  show ?case
  proof (cases "filter (\<lambda>c. c \<noteq> 0) (kern s)")
    case Nil
    then show ?thesis by (intro exI [of _ "kern s"]) (simp add: key_gate_def)
  next
    case (Cons c cs)
    have "\<forall>x\<in>set (filter (\<lambda>c. c \<noteq> 0) (kern s)). x \<noteq> 0" by simp
    then have "\<forall>x\<in>set (c # cs). x \<noteq> 0" unfolding Cons .
    then have "filter (\<lambda>c. c \<noteq> 0) cs = cs" by simp
    with Cons show ?thesis by (intro exI [of _ cs]) (simp add: key_gate_def)
  qed
next
  case (3 s c)
  show ?case by (intro exI [of _ "kern s"]) (simp add: key_gate_def)
qed

theorem readline_edits_line_witness:
  "\<exists>s'. peachos_terminal_readline key_gate 0x1000 16 True typing_user = Ret ((), s')
    \<and> cstr (user_mem s') 0x1000 [0x6C, 0x73] \<and> filter (\<lambda>c. c \<noteq> 0) (kern s') = [0x79]"
  using readline_edits_line [OF key_gate_serves, of 15 typing_user "[0x6C, 0x73]" "[0x79]" 16 "0x1000" True]
  by (auto simp: typing_user_def)

end
