(* ===== verification/Spec2Isabelle.thy ===== *)
theory Spec2Isabelle imports KeyQueue BootTables ArgumentCopy SystemLoad UserShell
begin

text \<open>
  A verification library for PeachOS, a kernel for 32-bit x86 machines with its user programs.

  \<^bold>\<open>The program.\<close> The boot sector loads the kernel, \<open>kernel_main\<close> of \<open>src/src/kernel.c\<close> sets up
  segments, heap, file systems, disk, interrupts, paging, system calls and keyboard, loads a
  program and enters its task. From then on the kernel runs only when an interrupt brings it in:
  the timer switches to the next task of a doubly linked list, the keyboard driver puts a
  character into the ring buffer of the current process, \<open>int 0x80\<close> runs one of nine commands, an
  exception ends the process. Everything lives on one block heap at 0x01000000 with its table at
  0x7E00; each task has a page directory; files come from a FAT16 volume read through the ports of
  an ATA drive.

  \<^bold>\<open>State.\<close> The state of the kernel is one record that every theory extends with the globals of its
  source file: \<open>machine\<close> (memory), \<open>paging_machine\<close>, \<open>disk_machine\<close>, \<open>path_machine\<close>,
  \<open>fat_machine\<close>, \<open>file_machine\<close>, \<open>task_machine\<close>, \<open>process_machine\<close>, \<open>idt_machine\<close>,
  \<open>keyboard_machine\<close>, \<open>syscall_machine\<close>, \<open>kernel_machine\<close>, the later ones extending the earlier.
  Memory is a function from 32-bit addresses to bytes. Structs that other code reads as bytes (page
  tables, heap table, descriptors, FAT16 structs, ELF headers, arguments) stay bytes of that
  memory; structs that are only reached through a pointer of their own type (streams, path
  parts, file descriptors, tasks, processes) are records in a map from the address that \<open>kzalloc\<close>
  returned. A C function is a function on this state that ends in an \<open>outcome\<close>: \<open>Ret\<close> a value and
  a new state, \<open>Panic\<close> where the code calls \<open>panic\<close>, \<open>Fault\<close> where it does what the language
  leaves undefined (null pointer, division by zero, index out of range), \<open>Hang\<close> where a loop does
  not end. \<open>int\<close> goes through \<open>i32\<close> where it may wrap; unsigned types are words of their width.

  \<^bold>\<open>Theories and sources\<close> (paths under \<open>src/src\<close> unless given in full).
  \<^item> \<open>Prelude\<close>: C integers, \<open>outcome\<close>, status codes of \<open>status.h\<close>, little-endian access.
  \<^item> \<open>CMemory\<close>: \<open>memory/memory.c\<close>. \<open>CString\<close>: \<open>string/string.c\<close>.
  \<^item> \<open>Heap\<close>: \<open>memory/heap/heap.c\<close>; \<open>HeapRuns\<close>: sequences of its operations;
    \<open>KernelHeap\<close>: \<open>kernelheap.c\<close>.
  \<^item> \<open>Terminal\<close>: \<open>terminal/terminal.c\<close>, the screen as an array of cells.
  \<^item> \<open>Paging\<close>, \<open>PagingSpace\<close>: \<open>memory/paging/paging.c\<close>, one mapping and whole address spaces.
  \<^item> \<open>Gdt\<close>: \<open>gdt/gdt.c\<close>. \<open>Disk\<close>: \<open>disk/disk.c\<close>, \<open>disk/streamer.c\<close>. \<open>PathParser\<close>: \<open>fs/pparser.c\<close>.
  \<^item> \<open>Fat16\<close> (all of \<open>fs/fat/fat16.c\<close>), \<open>FatRuns\<close> (what it does), \<open>FatMount\<close> (mounting),
    \<open>FatOpen\<close> (opening a file), \<open>FatFrame\<close> (what it leaves).
  \<^item> \<open>FileSystem\<close>: \<open>fs/file.c\<close>; a file system is a record of operations, as in the code.
    \<open>FileOpen\<close>: opening by path, status and closing through all layers.
  \<^item> \<open>ElfLoader\<close>: \<open>loader/formats/\<close>; \<open>ElfOpen\<close>: loading a file.
  \<^item> \<open>Task\<close>: \<open>task/task.c\<close> and the effect of \<open>task.asm\<close>; \<open>TaskLists\<close>, \<open>Scheduler\<close>: the list of tasks
    and the runs of the timer.
  \<^item> \<open>Process\<close>, \<open>ProcessLoad\<close>: \<open>task/process.c\<close>; \<open>ProcessMemory\<close>: the allocations of a process;
    \<open>AddressSpace\<close>: its mapped memory; \<open>TaskMemory\<close>: strings copied out of a task;
    \<open>ArgumentCopy\<close>: the arguments of a program; \<open>ProgramLoad\<close>: loading a program as a whole.
  \<^item> \<open>Interrupts\<close>, \<open>SystemCalls\<close>: \<open>idt/idt.c\<close> and \<open>isr80h/\<close>; \<open>BootTables\<close>: the filled tables;
    \<open>SystemPrint\<close>, \<open>SystemLoad\<close>: two system calls from the interrupt to their end.
  \<^item> \<open>Keyboard\<close>: \<open>keyboard/\<close>; \<open>KeyQueue\<close>: the ring buffer as a queue.
  \<^item> \<open>Kernel\<close>: \<open>kernel.c\<close>.
  \<^item> \<open>UserString\<close>: \<open>src/programs/stdlib/src/string.c\<close>, \<open>memory.c\<close> and \<open>itoa\<close> of \<open>stdlib.c\<close>.
  \<^item> \<open>UserLib\<close>: the rest of \<open>src/programs/stdlib/\<close>, with the trap into the kernel as an argument;
    \<open>UserShell\<close>: \<open>src/programs/shell/src/shell.c\<close> and \<open>src/programs/blank/blank.c\<close>.

  \<^bold>\<open>What is shown.\<close>
  \<^item> Heap: exact effect of an allocation and a release, round trip, disjointness of live
    allocations in every run of fitting requests, and the overlap on a fragmented table.
  \<^item> Strings and terminal: copying, comparing, decimal notation, tokenising against a tokeniser on
    lists, when \<open>strlen\<close> returns; the cursor stays on the screen, \<open>printf\<close> prints what its format
    stands for.
  \<^item> Paging: a mapped range translates as asked and nothing else changes, the identity space, the
    balance of building and freeing it.
  \<^item> Disk, paths, FAT16, files: the stream delivers the bytes of the drive, a path its parts, mounting
    a volume sets up the header, the streams and the root directory that later operations rely on,
    \<open>fopen\<close> of a path and \<open>fread\<close> the bytes of the file through all layers, \<open>elf_load\<close> the whole file
    in memory; where a read of more than one cluster leaves the file; slots of open files; names and sizes of directories.
  \<^item> Tasks and interrupts: every task is reached by the timer and gets its registers back, tasks
    stay in user mode, how the list grows and what freeing a task leaves behind; the tables of
    the boot code and the dispatch of system calls; the keyboard buffer refines a queue.
  \<^item> Processes: segments of an ELF file lie in the recorded bounds; the address space of a loaded
    program shows every byte of every segment where its header says, with the rights it asks for;
    \<open>process_load\<close> as a whole, from the path to a task whose address space shows the bytes of the file
    on the disk (for files that are \<open>runnable\<close>: headers inside the file, segments on pages of their
    own), and what a program reaches behind the end of its file;
    the memory a process takes and gives back; the arguments a program finds in \<open>argv\<close>.
  \<^item> Kernel and task: \<open>copy_string_from_task\<close> delivers what the task sees and restores everything
    else; \<open>int 0x80\<close> with the command of \<open>print\<close> puts the string on the screen and returns to the task,
    with the command that starts a program it ends in user mode at the entry point of that program.
  \<^item> User library: \<open>strtok\<close> gives the tokens of a text, a command becomes the list of its arguments as
    far as memory lasts, a line that is typed arrives edited in the buffer.

  \<^bold>\<open>The clusters of a file.\<close> A file is specified by the volume: its clusters follow each other by the entries
  of the allocation table, which lie at the sum of the position of the table and the offset of the entry
  (\<open>cluster_chain\<close>). The code reads the word at the product of the two instead. All theorems about
  the contents of files therefore assume \<open>links_found\<close>, that this word is the entry all the same; it is
  void for a file in one cluster, which on the volume that \<open>boot/boot.asm\<close> describes (128 sectors to a
  cluster) is every file up to 64 KB. \<open>fread_takes_wrong_cluster\<close> shows what happens without it.

  \<^bold>\<open>Interfaces.\<close> The contracts that several theorems share are locales, each interpreted by the
  definitions of the code: \<open>page_map\<close> in \<open>Paging\<close> (looking up after setting an entry),
  \<open>block_device\<close> in \<open>Disk\<close> (reading sectors of an image), \<open>file_system\<close> in \<open>FileSystem\<close> (what the
  file layer needs of a file system), \<open>rotation\<close> in \<open>Scheduler\<close> (walking round a list),
  \<open>bounded_queue\<close> in \<open>KeyQueue\<close>.

  \<^bold>\<open>Loops.\<close> No definition takes fuel. A loop over a range is structural or carries a measure; a loop
  that only data or a device ends (a terminator, the chain of clusters, the drive becoming
  ready) is a partial function whose missing value becomes \<open>Hang\<close>, and the theorems about such
  code state that it returns.

  \<^bold>\<open>Parameters.\<close> The devices are not code of the repository: the port instructions are an argument
  of the definitions, and \<open>ata_drive\<close> states the documented behaviour of a drive; the witnesses
  instantiate it with a concrete drive. The addresses that the linker chooses (locals and
  assembly labels whose address the code takes) are fields of the state.

  \<^bold>\<open>Not modelled.\<close> The assembly files (boot sector, interrupt stubs, port instructions, loading of
  descriptor tables) enter only by the effect of the C calls on them. Memory accesses of the kernel go to physical memory, which is what
  the identity map of its directory gives; the translation of user addresses is used where the
  code does it by hand (\<open>copy_string_from_task\<close>, \<open>task_virtual_address_to_physical\<close>). In the
  runs of \<open>Scheduler\<close> the step of a user program between two interrupts is an arbitrary change of
  memory and flags.
  The trap of the user library is an argument of its definitions; the hypotheses of its theorems are
  what the commands of \<open>SystemCalls\<close> do, they are not derived from them. The theorems about address
  spaces assume a directory in good order (\<open>wf_chunk\<close>, which \<open>paging_new_4gb\<close> establishes) and data
  apart from its page tables (\<open>headers_apart\<close>, \<open>task_string\<close>, \<open>space_byte\<close>); those about files assume
  locals, buffers and the data of the volume apart from the heap blocks that are used (\<open>openable\<close>,
  \<open>load_locals\<close>, \<open>path_apart\<close>), and their witnesses give a state in which all of this holds.
  No theorem covers the boot sequence as a whole, or the loading of a flat binary, which the
  code never reaches because \<open>elf_process_loaded\<close> hides the format error.
\<close>

end
